(* ===== verification/Prelude.thy ===== *)
theory Prelude
  imports Complex_Main
begin

text \<open>
  Shared vocabulary of the development: JavaScript strings as lists of UTF-16 code units with the
  \<open>String.prototype\<close> operations the sources use, results that may be a thrown error, and the
  generic lemmas and fact collections the component theories rest on.
\<close>

section \<open>Fact collections\<close>

named_theorems eval_defs \<open>definitions a concrete run of the model unfolds\<close>
named_theorems invs \<open>preservation of a component's invariant by its operations\<close>

section \<open>Strings\<close>

text \<open>
  A JavaScript string is a sequence of 16-bit code units (here integers), read, compared and sliced by code
  unit; \<open>js\<close> embeds the ASCII literals of the source.
\<close>

type_synonym code_unit = int
type_synonym jstr = "code_unit list"

definition js :: "string \<Rightarrow> jstr" where
  "js s = map of_char s"

lemma js_Nil [simp]: "js [] = []"
  by (simp add: js_def)

lemma js_Cons: "js (c # s) = of_char c # js s"
  by (simp add: js_def)

lemma js_append: "js (s @ t) = js s @ js t"
  by (simp add: js_def)

lemma length_js [simp]: "length (js s) = length s"
  by (simp add: js_def)

lemma inj_of_char_cu: "inj (of_char :: char \<Rightarrow> int)"
proof (rule injI)
  fix c d :: char
  assume "(of_char c :: int) = of_char d"
  then have "char_of (of_char c :: int) = (char_of (of_char d :: int) :: char)" by simp
  then show "c = d" by simp
qed

lemma js_eq_iff [simp]: "js s = js t \<longleftrightarrow> s = t"
  by (simp add: js_def inj_map_eq_map [OF inj_of_char_cu])

lemma js_eq_Nil [simp]: "js s = [] \<longleftrightarrow> s = []" "[] = js s \<longleftrightarrow> s = []"
  by (auto simp: js_def)

subsection \<open>Character classes\<close>

text \<open>\<open>\s\<close> and the set \<open>trim\<close> removes: WhiteSpace and LineTerminator of ECMAScript.\<close>

definition is_space :: "code_unit \<Rightarrow> bool" where
  "is_space c \<longleftrightarrow>
     9 \<le> c \<and> c \<le> 13 \<or> c = 32 \<or> c = 160 \<or> c = 5760 \<or> 8192 \<le> c \<and> c \<le> 8202
     \<or> c = 8232 \<or> c = 8233 \<or> c = 8239 \<or> c = 8287 \<or> c = 12288 \<or> c = 65279"

definition is_digit :: "code_unit \<Rightarrow> bool" where
  "is_digit c \<longleftrightarrow> 48 \<le> c \<and> c \<le> 57"

definition is_upper :: "code_unit \<Rightarrow> bool" where
  "is_upper c \<longleftrightarrow> 65 \<le> c \<and> c \<le> 90"

definition is_lower :: "code_unit \<Rightarrow> bool" where
  "is_lower c \<longleftrightarrow> 97 \<le> c \<and> c \<le> 122"

definition is_alpha_us :: "code_unit \<Rightarrow> bool" where
  "is_alpha_us c \<longleftrightarrow> is_upper c \<or> is_lower c \<or> c = 95"

text \<open>\<open>\w\<close>.\<close>

definition is_word :: "code_unit \<Rightarrow> bool" where
  "is_word c \<longleftrightarrow> is_alpha_us c \<or> is_digit c"

definition is_hex :: "code_unit \<Rightarrow> bool" where
  "is_hex c \<longleftrightarrow> is_digit c \<or> 97 \<le> c \<and> c \<le> 102 \<or> 65 \<le> c \<and> c \<le> 70"

definition hex_value :: "code_unit \<Rightarrow> int" where
  "hex_value c = (if is_digit c then c - 48 else if 97 \<le> c then c - 87 else c - 55)"

lemmas char_class_defs = is_space_def is_digit_def is_upper_def is_lower_def is_alpha_us_def
  is_word_def is_hex_def

subsection \<open>\<open>String.prototype\<close>\<close>

definition slice :: "jstr \<Rightarrow> nat \<Rightarrow> nat \<Rightarrow> jstr" where
  "slice s a b = take (b - a) (drop a s)"

fun startsWith :: "jstr \<Rightarrow> jstr \<Rightarrow> bool" where
  "startsWith s [] = True"
| "startsWith [] (p # ps) = False"
| "startsWith (c # s) (p # ps) = (c = p \<and> startsWith s ps)"

fun str_includes :: "jstr \<Rightarrow> jstr \<Rightarrow> bool" where
  "str_includes [] t = (t = [])"
| "str_includes (c # s) t = (startsWith (c # s) t \<or> str_includes s t)"

definition trimStart :: "jstr \<Rightarrow> jstr" where
  "trimStart s = dropWhile is_space s"

definition trim :: "jstr \<Rightarrow> jstr" where
  "trim s = rev (dropWhile is_space (rev (dropWhile is_space s)))"

fun join :: "jstr \<Rightarrow> jstr list \<Rightarrow> jstr" where
  "join sep [] = []"
| "join sep [s] = s"
| "join sep (s # t # ss) = s @ sep @ join sep (t # ss)"

text \<open>\<open>split\<close> at a separator of one code unit.\<close>

fun split_at :: "code_unit \<Rightarrow> jstr \<Rightarrow> jstr list" where
  "split_at sep [] = [[]]"
| "split_at sep (c # s) =
     (if c = sep then [] # split_at sep s
      else (case split_at sep s of [] \<Rightarrow> [[c]] | p # ps \<Rightarrow> (c # p) # ps))"

text \<open>\<open>toLowerCase\<close> on ASCII letters; other code units are left as they are.\<close>

definition toLowerCase :: "jstr \<Rightarrow> jstr" where
  "toLowerCase s = map (\<lambda>c. if is_upper c then c + 32 else c) s"

text \<open>The order of \<open><\<close> on strings: lexicographic by code unit.\<close>

fun str_less :: "jstr \<Rightarrow> jstr \<Rightarrow> bool" where
  "str_less s [] = False"
| "str_less [] (c # t) = True"
| "str_less (c # s) (d # t) = (c < d \<or> c = d \<and> str_less s t)"

lemma startsWith_iff: "startsWith s p \<longleftrightarrow> (\<exists>t. s = p @ t)"
  by (induction s p rule: startsWith.induct) auto

lemma str_includes_iff: "str_includes s t \<longleftrightarrow> (\<exists>u v. s = u @ t @ v)"
proof (induction s t rule: str_includes.induct)
  case (1 t)
  then show ?case by auto
next
  case (2 c s t)
  show ?case
  proof
    assume "str_includes (c # s) t"
    with 2 have "(\<exists>v. c # s = t @ v) \<or> (\<exists>u v. s = u @ t @ v)" by (auto simp: startsWith_iff)
    then show "\<exists>u v. c # s = u @ t @ v" by (metis append_Cons append_Nil)
  next
    assume "\<exists>u v. c # s = u @ t @ v"
    then obtain u v where uv: "c # s = u @ t @ v" by blast
    show "str_includes (c # s) t"
    proof (cases u)
      case Nil
      with uv have "startsWith (c # s) t" by (auto simp: startsWith_iff)
      then show ?thesis by simp
    next
      case (Cons d u')
      with uv have "s = u' @ t @ v" by simp
      with 2 show ?thesis by auto
    qed
  qed
qed

lemma split_at_not_Nil [simp]: "split_at sep s \<noteq> []"
  by (cases s) (auto split: list.splits)

lemma join_split_at: "join [sep] (split_at sep s) = s"
proof (induction s)
  case Nil
  then show ?case by simp
next
  case (Cons c s)
  obtain p ps where "split_at sep s = p # ps" by (meson neq_Nil_conv split_at_not_Nil)
  with Cons show ?case by (cases ps) auto
qed

lemma split_at_no_sep: "p \<in> set (split_at sep s) \<Longrightarrow> sep \<notin> set p"
proof (induction s arbitrary: p)
  case (Cons c s)
  obtain q qs where "split_at sep s = q # qs" by (meson neq_Nil_conv split_at_not_Nil)
  with Cons show ?case by (auto split: if_splits)
qed simp

lemma trim_Nil [simp]: "trim [] = []"
  by (simp add: trim_def)

lemma split_at_append: "sep \<notin> set s \<Longrightarrow> split_at sep (s @ sep # t) = s # split_at sep t"
  by (induction s) auto

lemma split_at_plain: "sep \<notin> set s \<Longrightarrow> split_at sep s = [s]"
  by (induction s) auto

lemma split_at_join: "ps \<noteq> [] \<Longrightarrow> \<forall>p \<in> set ps. sep \<notin> set p \<Longrightarrow> split_at sep (join [sep] ps) = ps"
  by (induction "[sep]" ps rule: join.induct) (auto simp: split_at_append split_at_plain)

text \<open>Trimming drops white space in front.\<close>

lemma trim_Cons_space: "is_space c \<Longrightarrow> trim (c # s) = trim s"
  by (simp add: trim_def)

lemma hd_trim: "trim s \<noteq> [] \<Longrightarrow> \<not> is_space (hd (trim s))"
proof -
  assume nonempty: "trim s \<noteq> []"
  define u where "u = dropWhile is_space s"
  have t: "trim s = rev (dropWhile is_space (rev u))" by (simp add: trim_def u_def)
  with nonempty have u: "u \<noteq> []" by auto
  then have hd: "\<not> is_space (hd u)" unfolding u_def by (simp add: hd_dropWhile)
  have "rev u = takeWhile is_space (rev u) @ dropWhile is_space (rev u)" by simp
  then have "u = trim s @ rev (takeWhile is_space (rev u))"
    by (metis rev_append rev_rev_ident t)
  with nonempty hd show ?thesis by (metis hd_append2)
qed

lemma dropWhile_hd: "\<not> P (hd s) \<Longrightarrow> dropWhile P s = s"
  by (cases s) auto

lemma trim_idem [simp]: "trim (trim s) = trim s"
proof (cases "trim s = []")
  case False
  then have a: "dropWhile is_space (trim s) = trim s" by (simp add: dropWhile_hd hd_trim)
  have b: "rev (trim s) = dropWhile is_space (rev (dropWhile is_space s))" by (simp add: trim_def)
  have "dropWhile is_space (rev (trim s)) = rev (trim s)"
    unfolding b by (simp add: dropWhile_idem)
  with a show ?thesis by (simp add: trim_def [of "trim s"])
qed simp

lemma length_trim_le: "length (trim s) \<le> length s"
  by (metis length_dropWhile_le length_rev order.trans trim_def)

lemma length_slice: "length (slice s a b) = min (b - a) (length s - a)"
  by (simp add: slice_def min.commute)

lemma slice_append_slice: "a \<le> b \<Longrightarrow> b \<le> c \<Longrightarrow> slice s a b @ slice s b c = slice s a c"
proof -
  assume ab: "a \<le> b" and bc: "b \<le> c"
  have "drop b s = drop (b - a) (drop a s)" using ab by simp
  then have "slice s a b @ slice s b c = take (b - a) (drop a s) @ take (c - b) (drop (b - a) (drop a s))"
    by (simp add: slice_def)
  also have "\<dots> = take (b - a + (c - b)) (drop a s)" by (simp only: take_add)
  also have "\<dots> = slice s a c" using ab bc by (simp add: slice_def)
  finally show ?thesis .
qed

lemma slice_full [simp]: "slice s 0 (length s) = s"
  by (simp add: slice_def)

section \<open>Results that may be a thrown error\<close>

text \<open>
  A function that may throw returns \<open>Inl e\<close> for the error and \<open>Inr v\<close> for the value; \<open>andThen\<close>
  runs the rest of the function when nothing was thrown.
\<close>

fun andThen :: "'e + 'a \<Rightarrow> ('a \<Rightarrow> 'e + 'b) \<Rightarrow> 'e + 'b" where
  "andThen (Inl e) k = Inl e"
| "andThen (Inr v) k = k v"

lemma andThen_cong [fundef_cong]:
  "m = m' \<Longrightarrow> (\<And>v. m' = Inr v \<Longrightarrow> k v = k' v) \<Longrightarrow> andThen m k = andThen m' k'"
  by (cases m') auto

lemma andThen_Inr_iff: "andThen m k = Inr w \<longleftrightarrow> (\<exists>v. m = Inr v \<and> k v = Inr w)"
  by (cases m) auto

lemma andThen_Inl_iff:
  "andThen m k = Inl e \<longleftrightarrow> m = Inl e \<or> (\<exists>v. m = Inr v \<and> k v = Inl e)"
  by (cases m) auto

lemma andThen_InrE [elim!]:
  assumes "andThen m k = Inr w"
  obtains v where "m = Inr v" "k v = Inr w"
  using assms by (auto simp: andThen_Inr_iff)

lemma andThen_assoc: "andThen (andThen m f) g = andThen m (\<lambda>v. andThen (f v) g)"
  by (cases m) auto

text \<open>\<open>xs.map(f)\<close> for a function that may throw: the first error wins.\<close>

fun traverse :: "('a \<Rightarrow> 'e + 'b) \<Rightarrow> 'a list \<Rightarrow> 'e + 'b list" where
  "traverse f [] = Inr []"
| "traverse f (x # xs) = andThen (f x) (\<lambda>y. andThen (traverse f xs) (\<lambda>ys. Inr (y # ys)))"

lemma traverse_cong [fundef_cong]:
  "xs = ys \<Longrightarrow> (\<And>x. x \<in> set ys \<Longrightarrow> f x = g x) \<Longrightarrow> traverse f xs = traverse g ys"
  by (induction xs arbitrary: ys) auto

lemma traverse_Inr: "traverse f xs = Inr ys \<longleftrightarrow> list_all2 (\<lambda>x y. f x = Inr y) xs ys"
  by (induction xs arbitrary: ys) (auto simp: andThen_Inr_iff list_all2_Cons1)

text \<open>Entries in the order of their keys, as \<open>sort\<close> with a comparison of the keys leaves them.\<close>

fun insert_entry :: "jstr \<times> 'v \<Rightarrow> (jstr \<times> 'v) list \<Rightarrow> (jstr \<times> 'v) list" where
  "insert_entry e [] = [e]"
| "insert_entry e (d # ds) = (if str_less (fst d) (fst e) then d # insert_entry e ds else e # d # ds)"

definition sort_entries :: "(jstr \<times> 'v) list \<Rightarrow> (jstr \<times> 'v) list" where
  "sort_entries ps = foldr insert_entry ps []"

lemma set_insert_entry [simp]: "set (insert_entry e ds) = insert e (set ds)"
  by (induction ds) auto

lemma set_sort_entries [simp]: "set (sort_entries ps) = set ps"
  by (induction ps) (auto simp: sort_entries_def)

lemma str_less_trans: "str_less a b \<Longrightarrow> str_less b c \<Longrightarrow> str_less a c"
proof (induction a b arbitrary: c rule: str_less.induct)
  case (2 d t)
  then show ?case by (cases c) auto
next
  case (3 x s y t)
  then show ?case by (cases c) auto
qed simp

lemma str_less_total: "str_less a b \<or> a = b \<or> str_less b a"
proof (induction a b rule: str_less.induct)
  case (1 s)
  then show ?case by (cases s) auto
qed auto

lemma str_less_asym: "str_less a b \<Longrightarrow> \<not> str_less b a"
  by (induction a b rule: str_less.induct) auto

lemma sorted_insert_entry:
  "sorted_wrt (\<lambda>x y. \<not> str_less (fst y) (fst x)) ds
    \<Longrightarrow> sorted_wrt (\<lambda>x y. \<not> str_less (fst y) (fst x)) (insert_entry e ds)"
proof (induction ds)
  case (Cons d ds)
  have "\<not> str_less (fst x) (fst e)" if "\<not> str_less (fst d) (fst e)" "x \<in> set ds" for x
  proof -
    from that(2) Cons.prems have "\<not> str_less (fst x) (fst d)" by simp
    with that(1) str_less_trans str_less_total [of "fst d" "fst e"] str_less_asym show ?thesis by metis
  qed
  with Cons show ?case by (auto dest: str_less_asym)
qed simp

lemma sorted_sort_entries: "sorted_wrt (\<lambda>x y. \<not> str_less (fst y) (fst x)) (sort_entries ps)"
  by (induction ps) (auto simp: sort_entries_def intro: sorted_insert_entry)

section \<open>Lists and options\<close>

text \<open>Reading an argument or a parent's child by index; a missing one is \<open>undefined\<close>.\<close>

definition nth_opt :: "'a list \<Rightarrow> nat \<Rightarrow> 'a option" where
  "nth_opt xs i = (if i < length xs then Some (xs ! i) else None)"

lemma nth_opt_Some: "nth_opt xs i = Some x \<Longrightarrow> x \<in> set xs"
  by (auto simp: nth_opt_def split: if_splits)

lemma nth_opt_0 [simp]: "nth_opt (x # xs) 0 = Some x" "nth_opt [] i = None"
  by (simp_all add: nth_opt_def)

lemma nth_opt_1 [simp]: "nth_opt (x # y # xs) (Suc 0) = Some y" "nth_opt [x] (Suc 0) = None"
  by (simp_all add: nth_opt_def)

text \<open>A list of optional results, all present or nothing.\<close>

fun all_some :: "'a option list \<Rightarrow> 'a list option" where
  "all_some [] = Some []"
| "all_some (None # xs) = None"
| "all_some (Some x # xs) = (case all_some xs of None \<Rightarrow> None | Some ys \<Rightarrow> Some (x # ys))"

lemma all_some_map_Some [simp]: "all_some (map Some ys) = Some ys"
  by (induction ys) auto

lemma all_some_SomeD: "all_some xs = Some ys \<Longrightarrow> xs = map Some ys"
  by (induction xs arbitrary: ys rule: all_some.induct) (auto split: option.splits)

lemma all_some_Some_iff: "all_some xs = Some ys \<longleftrightarrow> xs = map Some ys"
  using all_some_SomeD by auto

end
