(* ===== verification/JsNumber.thy ===== *)
theory JsNumber
  imports Prelude
begin

text \<open>
  JavaScript numbers: IEEE 754 binary64 with round-to-nearest-even, as exact rationals of the
  representable values together with the two infinities, negative zero and NaN; the operators and
  the \<open>Number\<close>, \<open>Math\<close> and \<open>String\<close> functions the sources use. Every operation computes.
\<close>

section \<open>Values and rounding\<close>

datatype jsnum = NaN | PInf | NInf | NZero | Fin rat

text \<open>Binary logarithms of positive integers, rounded down and up.\<close>

fun flog2 :: "int \<Rightarrow> int" where
  "flog2 n = (if n < 2 then 0 else 1 + flog2 (n div 2))"

fun clog2 :: "int \<Rightarrow> int" where
  "clog2 n = (if n < 2 then 0 else 1 + clog2 ((n + 1) div 2))"

declare flog2.simps [simp del] clog2.simps [simp del]

definition pow2 :: "int \<Rightarrow> rat" where
  "pow2 k = (if 0 \<le> k then of_int (2 ^ nat k) else 1 / of_int (2 ^ nat (- k)))"

text \<open>The binary exponent of a positive rational: \<open>pow2 e \<le> r < pow2 (e + 1)\<close>.\<close>

definition exponent :: "rat \<Rightarrow> int" where
  "exponent r =
     (if 1 \<le> r then flog2 \<lfloor>r\<rfloor> else - clog2 \<lceil>1 / r\<rceil>)"

definition round_half_even :: "rat \<Rightarrow> int" where
  "round_half_even x =
     (let f = \<lfloor>x\<rfloor>; d = x - of_int f in
      if d < 1 / 2 then f else if 1 / 2 < d then f + 1 else if even f then f else f + 1)"

text \<open>The weight of the last of the 53 significant bits, not below the subnormal step.\<close>

definition ulp_exponent :: "rat \<Rightarrow> int" where
  "ulp_exponent r = max (exponent r - 52) (-1074)"

definition round_mag :: "rat \<Rightarrow> rat" where
  "round_mag r = of_int (round_half_even (r / pow2 (ulp_exponent r))) * pow2 (ulp_exponent r)"

definition max_bound :: rat where
  "max_bound = of_int (2 ^ 1024)"

text \<open>The double nearest to a rational; \<open>neg\<close> is the sign a zero result takes.\<close>

definition fl :: "bool \<Rightarrow> rat \<Rightarrow> jsnum" where
  "fl neg r =
     (if r = 0 then (if neg then NZero else Fin 0)
      else let m = round_mag \<bar>r\<bar> in
        if m = 0 then (if r < 0 then NZero else Fin 0)
        else if max_bound \<le> m then (if r < 0 then NInf else PInf)
        else Fin (if r < 0 then - m else m))"

text \<open>Integers up to \<open>2 ^ 53\<close> need no rounding; literals of the source are written with \<open>num\<close>.\<close>

abbreviation num :: "rat \<Rightarrow> jsnum" where
  "num r \<equiv> Fin r"

section \<open>Operators\<close>

fun is_neg :: "jsnum \<Rightarrow> bool" where
  "is_neg NaN = False"
| "is_neg PInf = False"
| "is_neg NInf = True"
| "is_neg NZero = True"
| "is_neg (Fin r) = (r < 0)"

text \<open>The rational of a finite value; \<open>None\<close> for the infinities and NaN.\<close>

fun rat_of :: "jsnum \<Rightarrow> rat option" where
  "rat_of NZero = Some 0"
| "rat_of (Fin r) = Some r"
| "rat_of _ = None"

fun js_neg :: "jsnum \<Rightarrow> jsnum" where
  "js_neg NaN = NaN"
| "js_neg PInf = NInf"
| "js_neg NInf = PInf"
| "js_neg NZero = Fin 0"
| "js_neg (Fin r) = (if r = 0 then NZero else Fin (- r))"

fun js_add :: "jsnum \<Rightarrow> jsnum \<Rightarrow> jsnum" where
  "js_add NaN _ = NaN"
| "js_add _ NaN = NaN"
| "js_add PInf NInf = NaN"
| "js_add NInf PInf = NaN"
| "js_add PInf _ = PInf"
| "js_add _ PInf = PInf"
| "js_add NInf _ = NInf"
| "js_add _ NInf = NInf"
| "js_add NZero NZero = NZero"
| "js_add NZero (Fin b) = Fin b"
| "js_add (Fin a) NZero = Fin a"
| "js_add (Fin a) (Fin b) = fl False (a + b)"

definition js_sub :: "jsnum \<Rightarrow> jsnum \<Rightarrow> jsnum" where
  "js_sub x y = js_add x (js_neg y)"

definition js_mul :: "jsnum \<Rightarrow> jsnum \<Rightarrow> jsnum" where
  "js_mul x y =
     (let neg = (is_neg x \<noteq> is_neg y) in
      if x = NaN \<or> y = NaN then NaN
      else case (rat_of x, rat_of y) of
        (Some a, Some b) \<Rightarrow> fl neg (a * b)
      | (Some a, None) \<Rightarrow> if a = 0 then NaN else if neg then NInf else PInf
      | (None, Some b) \<Rightarrow> if b = 0 then NaN else if neg then NInf else PInf
      | (None, None) \<Rightarrow> if neg then NInf else PInf)"

definition js_div :: "jsnum \<Rightarrow> jsnum \<Rightarrow> jsnum" where
  "js_div x y =
     (let neg = (is_neg x \<noteq> is_neg y) in
      if x = NaN \<or> y = NaN then NaN
      else case (rat_of x, rat_of y) of
        (Some a, Some b) \<Rightarrow>
          if b = 0 then (if a = 0 then NaN else if neg then NInf else PInf) else fl neg (a / b)
      | (Some a, None) \<Rightarrow> if neg then NZero else Fin 0
      | (None, Some b) \<Rightarrow> if neg then NInf else PInf
      | (None, None) \<Rightarrow> NaN)"

text \<open>\<open>%\<close>: the remainder of truncated division, with the sign of the dividend.\<close>

definition rat_trunc :: "rat \<Rightarrow> int" where
  "rat_trunc r = (if 0 \<le> r then \<lfloor>r\<rfloor> else \<lceil>r\<rceil>)"

definition js_rem :: "jsnum \<Rightarrow> jsnum \<Rightarrow> jsnum" where
  "js_rem x y =
     (if x = NaN \<or> y = NaN then NaN
      else case (rat_of x, rat_of y) of
        (Some a, Some b) \<Rightarrow>
          if b = 0 then NaN else fl (is_neg x) (a - b * of_int (rat_trunc (a / b)))
      | (Some a, None) \<Rightarrow> x
      | (None, _) \<Rightarrow> NaN)"

text \<open>\<open>==\<close> and \<open><\<close> on numbers: NaN compares false, the zeros are equal.\<close>

fun js_num_eq :: "jsnum \<Rightarrow> jsnum \<Rightarrow> bool" where
  "js_num_eq NaN _ = False"
| "js_num_eq _ NaN = False"
| "js_num_eq NZero y = (y = NZero \<or> y = Fin 0)"
| "js_num_eq (Fin r) NZero = (r = 0)"
| "js_num_eq x y = (x = y)"

fun js_lt :: "jsnum \<Rightarrow> jsnum \<Rightarrow> bool" where
  "js_lt NaN _ = False"
| "js_lt _ NaN = False"
| "js_lt PInf _ = False"
| "js_lt _ NInf = False"
| "js_lt NInf _ = True"
| "js_lt _ PInf = True"
| "js_lt NZero NZero = False"
| "js_lt NZero (Fin b) = (0 < b)"
| "js_lt (Fin a) NZero = (a < 0)"
| "js_lt (Fin a) (Fin b) = (a < b)"

definition js_le :: "jsnum \<Rightarrow> jsnum \<Rightarrow> bool" where
  "js_le x y = (js_lt x y \<or> js_num_eq x y)"

section \<open>\<open>Number\<close> and \<open>Math\<close>\<close>

fun isFinite :: "jsnum \<Rightarrow> bool" where
  "isFinite NZero = True"
| "isFinite (Fin _) = True"
| "isFinite _ = False"

definition isInteger :: "jsnum \<Rightarrow> bool" where
  "isInteger x = (case rat_of x of None \<Rightarrow> False | Some r \<Rightarrow> of_int \<lfloor>r\<rfloor> = r)"

definition isSafeInteger :: "jsnum \<Rightarrow> bool" where
  "isSafeInteger x =
     (case rat_of x of None \<Rightarrow> False | Some r \<Rightarrow> of_int \<lfloor>r\<rfloor> = r \<and> \<bar>r\<bar> \<le> 9007199254740991)"

definition js_max :: "jsnum \<Rightarrow> jsnum \<Rightarrow> jsnum" where
  "js_max x y =
     (if x = NaN \<or> y = NaN then NaN
      else if js_lt x y then y else if js_lt y x then x
      else if x = NZero then y else x)"

definition js_min :: "jsnum \<Rightarrow> jsnum \<Rightarrow> jsnum" where
  "js_min x y =
     (if x = NaN \<or> y = NaN then NaN
      else if js_lt x y then x else if js_lt y x then y
      else if x = NZero then x else y)"

definition js_abs :: "jsnum \<Rightarrow> jsnum" where
  "js_abs x = (if is_neg x then js_neg x else x)"

fun js_floor :: "jsnum \<Rightarrow> jsnum" where
  "js_floor (Fin r) = Fin (of_int \<lfloor>r\<rfloor>)"
| "js_floor x = x"

fun js_ceil :: "jsnum \<Rightarrow> jsnum" where
  "js_ceil (Fin r) = (if \<lceil>r\<rceil> = 0 \<and> r < 0 then NZero else Fin (of_int \<lceil>r\<rceil>))"
| "js_ceil x = x"

section \<open>Decimal text to number\<close>

fun digits_value :: "int \<Rightarrow> jstr \<Rightarrow> int" where
  "digits_value acc [] = acc"
| "digits_value acc (c # s) = digits_value (10 * acc + (c - 48)) s"

fun hex_digits_value :: "int \<Rightarrow> jstr \<Rightarrow> int" where
  "hex_digits_value acc [] = acc"
| "hex_digits_value acc (c # s) = hex_digits_value (16 * acc + hex_value c) s"

definition pow10 :: "int \<Rightarrow> rat" where
  "pow10 k = (if 0 \<le> k then of_int (10 ^ nat k) else 1 / of_int (10 ^ nat (- k)))"

text \<open>
  The longest match of \<open>^(?:\d+(?:\.\d*)?|\.\d+)(?:[eE][+-]?\d+)?\<close> at the start of a text: its integer
  digits, fraction digits and exponent, and the number of code units matched.
\<close>

record decimal =
  int_digits :: jstr
  has_point :: bool
  frac_digits :: jstr
  has_exp :: bool
  exp_value :: int
  match_length :: nat

text \<open>The optional exponent part: whether it matches, its value and its length.\<close>

definition match_exponent :: "jstr \<Rightarrow> (int \<times> nat) option" where
  "match_exponent s =
     (case s of
        [] \<Rightarrow> None
      | e # s1 \<Rightarrow>
          if e \<noteq> 101 \<and> e \<noteq> 69 then None
          else
            let neg = (s1 \<noteq> [] \<and> hd s1 = 45);
                sign = (if s1 \<noteq> [] \<and> (hd s1 = 43 \<or> hd s1 = 45) then 1 else 0);
                ds = takeWhile is_digit (drop sign s1)
            in if ds = [] then None
               else let v = digits_value 0 ds
                    in Some (if neg then - v else v, 1 + sign + length ds))"

definition match_decimal :: "jstr \<Rightarrow> decimal option" where
  "match_decimal s =
     (let ids = takeWhile is_digit s; s1 = drop (length ids) s;
          point = (s1 \<noteq> [] \<and> hd s1 = 46);
          fds = (if point then takeWhile is_digit (tl s1) else []);
          s2 = (if point then drop (length fds) (tl s1) else s1);
          len = length ids + (if point then 1 + length fds else 0)
      in if ids = [] \<and> fds = [] then None
         else case match_exponent s2 of
             None \<Rightarrow> Some \<lparr>int_digits = ids, has_point = point, frac_digits = fds,
                           has_exp = False, exp_value = 0, match_length = len\<rparr>
           | Some (v, n) \<Rightarrow> Some \<lparr>int_digits = ids, has_point = point, frac_digits = fds,
                           has_exp = True, exp_value = v, match_length = len + n\<rparr>)"

definition decimal_rat :: "decimal \<Rightarrow> rat" where
  "decimal_rat d =
     of_int (digits_value 0 (int_digits d @ frac_digits d))
       * pow10 (exp_value d - int (length (frac_digits d)))"

definition decimal_value :: "decimal \<Rightarrow> jsnum" where
  "decimal_value d = fl False (decimal_rat d)"

text \<open>
  \<open>Number(text)\<close>: trimmed text; empty is \<open>0\<close>; a signed decimal or \<open>Infinity\<close>; an unsigned
  hexadecimal, octal or binary integer; anything else is NaN.
\<close>

definition unsigned_number :: "jstr \<Rightarrow> jsnum" where
  "unsigned_number s =
     (if s = js ''Infinity'' then PInf
      else case match_decimal s of
          None \<Rightarrow> NaN
        | Some d \<Rightarrow> if match_length d = length s then decimal_value d else NaN)"

fun radix_digits_value :: "int \<Rightarrow> int \<Rightarrow> jstr \<Rightarrow> int" where
  "radix_digits_value r acc [] = acc"
| "radix_digits_value r acc (c # s) = radix_digits_value r (r * acc + (c - 48)) s"

definition js_Number :: "jstr \<Rightarrow> jsnum" where
  "js_Number text =
     (let s = trim text; body = drop 2 s; prefix = toLowerCase (take 2 s) in
      if s = [] then Fin 0
      else if prefix = js ''0x'' then
        (if body \<noteq> [] \<and> list_all is_hex body
         then fl False (of_int (hex_digits_value 0 body)) else NaN)
      else if prefix = js ''0o'' then
        (if body \<noteq> [] \<and> list_all (\<lambda>c. 48 \<le> c \<and> c \<le> 55) body
         then fl False (of_int (radix_digits_value 8 0 body)) else NaN)
      else if prefix = js ''0b'' then
        (if body \<noteq> [] \<and> list_all (\<lambda>c. 48 \<le> c \<and> c \<le> 49) body
         then fl False (of_int (radix_digits_value 2 0 body)) else NaN)
      else if hd s = 43 then unsigned_number (tl s)
      else if hd s = 45 then js_neg (unsigned_number (tl s))
      else unsigned_number s)"

text \<open>\<open>Number.parseInt(text, 10)\<close> on a text of digits.\<close>

definition parseInt10 :: "jstr \<Rightarrow> jsnum" where
  "parseInt10 s = fl False (of_int (digits_value 0 s))"

section \<open>Number to decimal text\<close>

text \<open>The decimal digits of a non-negative integer.\<close>

fun int_text :: "int \<Rightarrow> jstr" where
  "int_text n = (if n < 10 then [48 + n] else int_text (n div 10) @ [48 + n mod 10])"

declare int_text.simps [simp del]

fun clog10 :: "int \<Rightarrow> int" where
  "clog10 n = (if n < 2 then 0 else 1 + clog10 ((n + 9) div 10))"

declare clog10.simps [simp del]

text \<open>The decimal exponent of a positive rational: \<open>pow10 e \<le> r < pow10 (e + 1)\<close>.\<close>

definition exponent10 :: "rat \<Rightarrow> int" where
  "exponent10 r =
     (if 1 \<le> r then int (length (int_text \<lfloor>r\<rfloor>)) - 1 else - clog10 \<lceil>1 / r\<rceil>)"

text \<open>
  \<open>Number::toString\<close>: the shortest digit string \<open>s\<close> and exponent \<open>n\<close> with \<open>s * 10 ^ (n - k)\<close>
  rounding to the value, the closest one where two of that length do. \<open>k\<close> runs up to 17 digits, which
  always suffice for binary64; past them the exact quotient is cut.
\<close>

definition digit_candidates :: "rat \<Rightarrow> nat \<Rightarrow> (int \<times> int) list" where
  "digit_candidates r k =
     (let n = exponent10 r + 1; q = r / pow10 (n - int k); lo = \<lfloor>q\<rfloor>;
          pair = (\<lambda>s. if s = 10 ^ k then (10 ^ (k - 1), n + 1) else (s, n));
          ordered = (if q - of_int lo \<le> 1 / 2 then [lo, lo + 1] else [lo + 1, lo])
      in filter (\<lambda>(s, m). fl False (of_int s * pow10 (m - int k)) = Fin r) (map pair ordered))"

fun shortest_digits :: "rat \<Rightarrow> nat \<Rightarrow> nat \<Rightarrow> int \<times> int \<times> nat" where
  "shortest_digits r k 0 = (\<lfloor>r / pow10 (exponent10 r + 1 - int k)\<rfloor>, exponent10 r + 1, k)"
| "shortest_digits r k (Suc j) =
     (case digit_candidates r k of
        (s, n) # _ \<Rightarrow> (s, n, k)
      | [] \<Rightarrow> shortest_digits r (Suc k) j)"

definition exponent_text :: "int \<Rightarrow> jstr" where
  "exponent_text e = (if 0 \<le> e then js ''e+'' else js ''e-'') @ int_text \<bar>e\<bar>"

definition mantissa_text :: "jstr \<Rightarrow> jstr" where
  "mantissa_text ds = (if length ds = 1 then ds else take 1 ds @ js ''.'' @ drop 1 ds)"

definition pos_to_string :: "rat \<Rightarrow> jstr" where
  "pos_to_string r =
     (let (s, n, k) = shortest_digits r 1 16; ds = int_text s in
      if int k \<le> n \<and> n \<le> 21 then ds @ replicate (nat n - k) 48
      else if 0 < n \<and> n \<le> 21 then take (nat n) ds @ js ''.'' @ drop (nat n) ds
      else if - 6 < n \<and> n \<le> 0 then js ''0.'' @ replicate (nat (- n)) 48 @ ds
      else mantissa_text ds @ exponent_text (n - 1))"

definition js_num_string :: "jsnum \<Rightarrow> jstr" where
  "js_num_string x =
     (case x of
        NaN \<Rightarrow> js ''NaN''
      | PInf \<Rightarrow> js ''Infinity''
      | NInf \<Rightarrow> js ''-Infinity''
      | NZero \<Rightarrow> js ''0''
      | Fin r \<Rightarrow> if r = 0 then js ''0''
                 else if r < 0 then js ''-'' @ pos_to_string (- r) else pos_to_string r)"

text \<open>\<open>toExponential()\<close> of a finite number: its digits and the exponent, as the sources split them.\<close>

definition to_exponential :: "rat \<Rightarrow> jstr \<times> int" where
  "to_exponential r =
     (if r = 0 then (js ''0'', 0)
      else let (s, n, k) = shortest_digits \<bar>r\<bar> 1 16;
               m = mantissa_text (int_text s)
           in (if r < 0 then js ''-'' @ m else m, n - 1))"

text \<open>The lower-case hexadecimal digits of a code unit, padded to four.\<close>

definition hex_digit :: "int \<Rightarrow> code_unit" where
  "hex_digit d = (if d < 10 then 48 + d else 87 + d)"

definition hex4 :: "int \<Rightarrow> jstr" where
  "hex4 n = [hex_digit (n div 4096 mod 16), hex_digit (n div 256 mod 16),
             hex_digit (n div 16 mod 16), hex_digit (n mod 16)]"

end
