(* ===== verification/JsValue.thy ===== *)
theory JsValue
  imports JsNumber
begin

text \<open>
  JavaScript values of type \<open>unknown\<close> as the sources meet them (JSON request bodies, usage facts,
  server responses): tests of their type, own-property lookup, strict equality of primitives, and the
  text \<open>JSON.stringify\<close> gives a string.
\<close>

datatype jsvalue =
    JUndefined
  | JNull
  | JBool bool
  | JNum jsnum
  | JStr jstr
  | JArr "jsvalue list"
  | JObj "(jstr \<times> jsvalue) list"

text \<open>The answers of \<open>typeof\<close>; \<open>null\<close> and arrays are objects.\<close>

datatype js_type = T_undefined | T_boolean | T_number | T_string | T_object

fun js_typeof :: "jsvalue \<Rightarrow> js_type" where
  "js_typeof JUndefined = T_undefined"
| "js_typeof JNull = T_object"
| "js_typeof (JBool _) = T_boolean"
| "js_typeof (JNum _) = T_number"
| "js_typeof (JStr _) = T_string"
| "js_typeof (JArr _) = T_object"
| "js_typeof (JObj _) = T_object"

fun is_JNum :: "jsvalue \<Rightarrow> bool" where
  "is_JNum (JNum _) = True"
| "is_JNum _ = False"

fun is_JStr :: "jsvalue \<Rightarrow> bool" where
  "is_JStr (JStr _) = True"
| "is_JStr _ = False"

fun is_JBool :: "jsvalue \<Rightarrow> bool" where
  "is_JBool (JBool _) = True"
| "is_JBool _ = False"

text \<open>\<open>value == null\<close>.\<close>

fun is_nullish :: "jsvalue \<Rightarrow> bool" where
  "is_nullish JUndefined = True"
| "is_nullish JNull = True"
| "is_nullish _ = False"

text \<open>\<open>Boolean(value)\<close>.\<close>

fun truthy :: "jsvalue \<Rightarrow> bool" where
  "truthy JUndefined = False"
| "truthy JNull = False"
| "truthy (JBool b) = b"
| "truthy (JNum x) = (x \<noteq> NaN \<and> \<not> js_num_eq x (Fin 0))"
| "truthy (JStr s) = (s \<noteq> [])"
| "truthy (JArr _) = True"
| "truthy (JObj _) = True"

text \<open>\<open>a === b\<close> where neither side is an object other than \<open>null\<close>.\<close>

fun strict_eq :: "jsvalue \<Rightarrow> jsvalue \<Rightarrow> bool" where
  "strict_eq JUndefined JUndefined = True"
| "strict_eq JNull JNull = True"
| "strict_eq (JBool a) (JBool b) = (a = b)"
| "strict_eq (JNum a) (JNum b) = js_num_eq a b"
| "strict_eq (JStr a) (JStr b) = (a = b)"
| "strict_eq _ _ = False"

text \<open>Own properties of an object; a missing one reads as \<open>undefined\<close>.\<close>

definition hasOwn :: "(jstr \<times> 'v) list \<Rightarrow> jstr \<Rightarrow> bool" where
  "hasOwn props key \<longleftrightarrow> map_of props key \<noteq> None"

fun get_prop :: "jsvalue \<Rightarrow> jstr \<Rightarrow> jsvalue" where
  "get_prop (JObj props) key = (case map_of props key of None \<Rightarrow> JUndefined | Some v \<Rightarrow> v)"
| "get_prop _ key = JUndefined"

section \<open>\<open>JSON.stringify\<close> on strings\<close>

text \<open>Lone surrogates are escaped; the well-formed pairs stay as they are.\<close>

definition is_high :: "code_unit \<Rightarrow> bool" where
  "is_high c \<longleftrightarrow> 55296 \<le> c \<and> c \<le> 56319"

definition is_low :: "code_unit \<Rightarrow> bool" where
  "is_low c \<longleftrightarrow> 56320 \<le> c \<and> c \<le> 57343"

definition json_escape_unit :: "code_unit \<Rightarrow> jstr" where
  "json_escape_unit c =
     (if c = 34 then [92, 34]
      else if c = 92 then [92, 92]
      else if c = 8 then [92, 98]
      else if c = 12 then [92, 102]
      else if c = 10 then [92, 110]
      else if c = 13 then [92, 114]
      else if c = 9 then [92, 116]
      else if c < 32 then [92, 117] @ hex4 c
      else [c])"

fun json_escape :: "jstr \<Rightarrow> jstr" where
  "json_escape [] = []"
| "json_escape [c] = (if is_high c \<or> is_low c then [92, 117] @ hex4 c else json_escape_unit c)"
| "json_escape (c # d # s) =
     (if is_high c \<and> is_low d then c # d # json_escape s
      else if is_high c \<or> is_low c then [92, 117] @ hex4 c @ json_escape (d # s)
      else json_escape_unit c @ json_escape (d # s))"

definition json_stringify_string :: "jstr \<Rightarrow> jstr" where
  "json_stringify_string s = [34] @ json_escape s @ [34]"

lemma strict_eq_sym: "strict_eq a b = strict_eq b a"
proof -
  have num: "js_num_eq x y = js_num_eq y x" for x y by (cases x; cases y) auto
  show ?thesis by (cases a; cases b) (auto simp: num)
qed

end
