(* ===== verification/BillingTypes.thy ===== *)
theory BillingTypes
  imports JsValue
begin

text \<open>
  \<open>billing-expression/types.ts\<close>: the vocabulary of billing expressions, the syntax tree, the
  diagnostics and their classification, the evaluation context, and the explicit-stack traversal
  \<open>visitExpression\<close> with the dependency analysis built on it.
\<close>

section \<open>Vocabulary\<close>

definition TOKEN_VARIABLES :: "jstr list" where
  "TOKEN_VARIABLES = map js
     [''p'', ''c'', ''len'', ''cr'', ''cc'', ''cc1h'', ''img'', ''img_cr'', ''img_o'', ''ai'', ''ao'']"

definition BILLING_VARIABLES :: "jstr list" where
  "BILLING_VARIABLES = TOKEN_VARIABLES @ [js ''image_count'']"

definition TIME_FUNCTIONS :: "jstr list" where
  "TIME_FUNCTIONS = map js [''hour'', ''minute'', ''weekday'', ''month'', ''day'']"

text \<open>Every function with its number of arguments.\<close>

definition BILLING_FUNCTIONS :: "(jstr \<times> nat) list" where
  "BILLING_FUNCTIONS = map (\<lambda>(name, arity). (js name, arity))
     [(''tier'', 2), (''fixed'', 1), (''param'', 1), (''header'', 1), (''has'', 2), (''u'', 1),
      (''hour'', 1), (''minute'', 1), (''weekday'', 1), (''month'', 1), (''day'', 1),
      (''min'', 2), (''max'', 2), (''abs'', 1), (''ceil'', 1), (''floor'', 1)]"

section \<open>Syntax trees\<close>

text \<open>
  Every node carries the source span it was read from. The sources compare nodes by object identity;
  within one parsed tree a node is determined by its kind and span (lemma \<open>parsed_distinct\<close> of
  \<open>BillingParser\<close>), so equality of values stands for identity.
\<close>

datatype literal = LNum jsnum | LStr jstr | LBool bool | LNull

datatype ExpressionNode =
    Literal (lit_value: literal) (lit_integer: "bool option") (nstart: nat) (nend: nat)
  | Variable (node_name: jstr) (nstart: nat) (nend: nat)
  | Call (node_name: jstr) (call_args: "ExpressionNode list") (nstart: nat) (nend: nat)
  | Unary (node_operator: jstr) (n_operand: ExpressionNode) (nstart: nat) (nend: nat)
  | Binary (node_operator: jstr) (n_left: ExpressionNode) (n_right: ExpressionNode)
      (nstart: nat) (nend: nat)
  | Conditional (n_condition: ExpressionNode) (n_yes: ExpressionNode) (n_no: ExpressionNode)
      (nstart: nat) (nend: nat)

text \<open>\<open>{ ...node, start, end }\<close>.\<close>

fun with_span :: "ExpressionNode \<Rightarrow> nat \<Rightarrow> nat \<Rightarrow> ExpressionNode" where
  "with_span (Literal v i _ _) s e = Literal v i s e"
| "with_span (Variable n _ _) s e = Variable n s e"
| "with_span (Call n as _ _) s e = Call n as s e"
| "with_span (Unary op x _ _) s e = Unary op x s e"
| "with_span (Binary op l r _ _) s e = Binary op l r s e"
| "with_span (Conditional c y n _ _) s e = Conditional c y n s e"

section \<open>Diagnostics\<close>

datatype DiagnosticCode =
  D_syntax | D_unsupported | D_missing_context | D_type | D_number | D_limit

record ExpressionDiagnostic =
  diag_code :: DiagnosticCode
  diag_detail :: jstr
  diag_position :: "nat option"

text \<open>What a function of the expression core throws: its own error, or a run-time \<open>TypeError\<close>.\<close>

datatype thrown = BillingExpressionError ExpressionDiagnostic | OtherError jstr

definition throw :: "DiagnosticCode \<Rightarrow> jstr \<Rightarrow> thrown + 'a" where
  "throw c d = Inl (BillingExpressionError \<lparr>diag_code = c, diag_detail = d, diag_position = None\<rparr>)"

definition throw_at :: "DiagnosticCode \<Rightarrow> jstr \<Rightarrow> nat \<Rightarrow> thrown + 'a" where
  "throw_at c d p = Inl (BillingExpressionError \<lparr>diag_code = c, diag_detail = d, diag_position = Some p\<rparr>)"

lemma throw_neq_Inr [simp]: "throw c d \<noteq> Inr v" "throw_at c d p \<noteq> Inr v"
  by (simp_all add: throw_def throw_at_def)

lemma andThen_throw [simp]:
  "andThen (throw c d) k = throw c d" "andThen (throw_at c d p) k = throw_at c d p"
  by (simp_all add: throw_def throw_at_def)

datatype FailureStatus = S_unsupported | S_invalid | S_missing_context

record ExpressionFailure =
  failure_status :: FailureStatus
  diagnostic :: ExpressionDiagnostic

definition expressionFailure :: "thrown \<Rightarrow> ExpressionFailure" where
  "expressionFailure error =
     (let diag = (case error of
          BillingExpressionError d \<Rightarrow> d
        | OtherError msg \<Rightarrow> \<lparr>diag_code = D_syntax, diag_detail = msg, diag_position = None\<rparr>);
          status = S_invalid;
          status = (if diag_code diag = D_missing_context then S_missing_context else status);
          status = (if diag_code diag = D_unsupported \<or> diag_code diag = D_limit
                    then S_unsupported else status)
      in \<lparr>failure_status = status, diagnostic = diag\<rparr>)"

section \<open>Compiled expressions, evaluation context and result\<close>

record RequestRule =
  rule_node :: ExpressionNode
  rule_condition :: ExpressionNode
  rule_multiplier :: jsnum
  rule_cond :: jstr

record CompiledBillingExpression =
  c_source :: jstr
  c_ast :: ExpressionNode
  c_variables :: "jstr list"
  c_functions :: "jstr list"
  c_requestRules :: "RequestRule list"

datatype CompilationResult = Ready CompiledBillingExpression | Failed ExpressionFailure

record BillingRequest =
  req_body :: jsvalue
  req_headers :: "(jstr \<times> jsvalue) list option"

record BillingSimulationContext =
  ctx_imageCount :: "jsnum option"
  ctx_tokens :: "(jstr \<times> jsvalue) list option"
  ctx_request :: "BillingRequest option"
  ctx_usage :: "(jstr \<times> jsvalue) list option"
  ctx_now :: "jsnum option"

record BillingRequestRule =
  rr_cond :: jstr
  rr_multiplier :: jsnum
  rr_matched :: bool

datatype BillingUnit = TokenUnit | RequestUnit

record BillingSuccess =
  res_cost :: jsnum
  res_billingUnit :: BillingUnit
  res_fixedPrice :: "jsnum option"
  res_imageCount :: "jsnum option"
  res_matchedTier :: jstr
  res_requestRules :: "BillingRequestRule list"

datatype BillingEvaluationResult = EvalFailure ExpressionFailure | EvalSuccess BillingSuccess

section \<open>Traversal\<close>

fun children :: "ExpressionNode \<Rightarrow> ExpressionNode list" where
  "children (Call _ args _ _) = args"
| "children (Unary _ x _ _) = [x]"
| "children (Binary _ l r _ _) = [l, r]"
| "children (Conditional c y n _ _) = [c, y, n]"
| "children _ = []"

text \<open>
  The loop of \<open>visitExpression\<close> with its explicit stack, whose top is the head of the list. An entry is
  a node, whether its children were pushed already, and its depth; the visitor threads a state and
  may throw.
\<close>

type_synonym stack_entry = "ExpressionNode \<times> bool \<times> nat"
type_synonym 's visitor = "ExpressionNode \<Rightarrow> 's \<Rightarrow> thrown + 's"

definition push_children :: "nat \<Rightarrow> ExpressionNode list \<Rightarrow> stack_entry list \<Rightarrow> stack_entry list" where
  "push_children depth cs stack = fold (\<lambda>child st. (child, False, depth) # st) (rev cs) stack"

lemma push_children_eq: "push_children d cs stack = map (\<lambda>c. (c, False, d)) cs @ stack"
proof -
  have "fold (\<lambda>child st. (child, False, d) # st) xs stack = rev (map (\<lambda>c. (c, False, d)) xs) @ stack"
    for xs by (induction xs arbitrary: stack) auto
  then show ?thesis by (simp add: push_children_def rev_map)
qed

text \<open>The number of nodes of a tree bounds the loop.\<close>

fun node_count :: "ExpressionNode \<Rightarrow> nat" where
  "node_count (Call _ args _ _) = Suc (sum_list (map node_count args))"
| "node_count (Unary _ x _ _) = Suc (node_count x)"
| "node_count (Binary _ l r _ _) = Suc (node_count l + node_count r)"
| "node_count (Conditional c y n _ _) = Suc (node_count c + node_count y + node_count n)"
| "node_count _ = 1"

lemma node_count_children: "node_count n = Suc (sum_list (map node_count (children n)))"
  by (cases n) auto

fun entry_weight :: "stack_entry \<Rightarrow> nat" where
  "entry_weight (n, visited, _) = (if visited then 1 else 2 * node_count n)"

lemma entry_weight_children:
  "sum_list (map entry_weight (map (\<lambda>c. (c, False, d)) cs)) = 2 * sum_list (map node_count cs)"
  by (induction cs) auto

function visit_loop :: "'s visitor \<Rightarrow> stack_entry list \<Rightarrow> 's \<Rightarrow> thrown + 's" where
  "visit_loop visitor [] s = Inr s"
| "visit_loop visitor ((node, visited, depth) # stack) s =
     (if depth > 256 then throw D_limit (js ''expression depth'')
      else if visited then andThen (visitor node s) (\<lambda>s'. visit_loop visitor stack s')
      else visit_loop visitor
             (push_children (depth + 1) (children node) ((node, True, depth) # stack)) s)"
  by pat_completeness auto
termination
proof (relation "measure (\<lambda>(v, stack, s). sum_list (map entry_weight stack))", goal_cases)
  case (3 visitor node visited depth stack s)
  have "sum_list (map entry_weight
      (push_children (depth + 1) (children node) ((node, True, depth) # stack)))
    = 2 * sum_list (map node_count (children node)) + 1 + sum_list (map entry_weight stack)"
    unfolding push_children_eq map_append sum_list_append entry_weight_children by simp
  with 3 node_count_children [of node] show ?case by simp
qed auto

definition visitExpression :: "ExpressionNode \<Rightarrow> 's visitor \<Rightarrow> 's \<Rightarrow> thrown + 's" where
  "visitExpression node visitor s = visit_loop visitor [(node, False, 0)] s"

text \<open>\<open>Set.add\<close>: a set in insertion order.\<close>

definition set_add :: "'a \<Rightarrow> 'a list \<Rightarrow> 'a list" where
  "set_add x xs = (if x \<in> set xs then xs else xs @ [x])"

definition dependency_visitor :: "(jstr list \<times> jstr list) visitor" where
  "dependency_visitor part s =
     (case s of (variables, functions) \<Rightarrow>
        Inr (case part of
               Variable name _ _ \<Rightarrow> (set_add name variables, functions)
             | Call name _ _ _ \<Rightarrow> (variables, set_add name functions)
             | _ \<Rightarrow> (variables, functions)))"

definition expressionDependencies :: "ExpressionNode \<Rightarrow> thrown + jstr list \<times> jstr list" where
  "expressionDependencies node = visitExpression node dependency_visitor ([], [])"

section \<open>The traversal is a bounded postorder walk\<close>

text \<open>
  Reference definitions: the postorder list of a tree's nodes, its depth, and running a visitor along
  a list. The loop equals the run along the postorder list for trees of depth up to 256 and throws
  for deeper ones.
\<close>

lemma size_children_less [termination_simp]: "c \<in> set (children n) \<Longrightarrow> size c < size n"
proof (cases n)
  case (Call f args s e)
  moreover assume "c \<in> set (children n)"
  ultimately have "size c \<le> size_list size args"
    using size_list_estimation' [of c args "size c" size] by simp
  with Call show ?thesis by simp
qed auto

fun postorder :: "ExpressionNode \<Rightarrow> ExpressionNode list" where
  "postorder n = concat (map postorder (children n)) @ [n]"

fun node_depth :: "ExpressionNode \<Rightarrow> nat" where
  "node_depth n = (case map (Suc \<circ> node_depth) (children n) of [] \<Rightarrow> 0 | d # ds \<Rightarrow> Max (set (d # ds)))"

declare postorder.simps [simp del] node_depth.simps [simp del]

fun run_visitor :: "'s visitor \<Rightarrow> ExpressionNode list \<Rightarrow> 's \<Rightarrow> thrown + 's" where
  "run_visitor v [] s = Inr s"
| "run_visitor v (n # ns) s = andThen (v n s) (run_visitor v ns)"

text \<open>The events of the walk from depth \<open>d\<close>: visits, and \<open>None\<close> where the limit is hit.\<close>

fun visit_events :: "nat \<Rightarrow> ExpressionNode \<Rightarrow> ExpressionNode option list" where
  "visit_events d n =
     (if d > 256 then [None] else concat (map (visit_events (Suc d)) (children n)) @ [Some n])"

declare visit_events.simps [simp del]

fun run_events :: "'s visitor \<Rightarrow> ExpressionNode option list \<Rightarrow> 's \<Rightarrow> thrown + 's" where
  "run_events v [] s = Inr s"
| "run_events v (None # es) s = throw D_limit (js ''expression depth'')"
| "run_events v (Some n # es) s = andThen (v n s) (run_events v es)"

fun entry_events :: "stack_entry \<Rightarrow> ExpressionNode option list" where
  "entry_events (n, visited, d) =
     (if visited then (if d > 256 then [None] else [Some n]) else visit_events d n)"

lemma visit_loop_events:
  "visit_loop v stack s = run_events v (concat (map entry_events stack)) s"
proof (induction v stack s rule: visit_loop.induct)
  case (1 v s)
  then show ?case by simp
next
  case (2 v node visited depth stack s)
  show ?case
  proof (cases "depth > 256")
    case True
    then show ?thesis by (simp add: visit_events.simps [of depth])
  next
    case shallow: False
    show ?thesis
    proof (cases visited)
      case True
      with shallow 2(1) show ?thesis by (cases "v node s") auto
    next
      case False
      have "concat (map entry_events (push_children (depth + 1) (children node) ((node, True, depth) # stack)))
        = concat (map entry_events ((node, visited, depth) # stack))"
        using shallow False
        by (simp add: push_children_eq visit_events.simps [of depth] comp_def)
      with shallow False 2(2) show ?thesis by simp
    qed
  qed
qed

lemma node_depth_child: "c \<in> set (children n) \<Longrightarrow> Suc (node_depth c) \<le> node_depth n"
  by (subst (2) node_depth.simps) (cases "children n", auto)

lemma node_depth_attained:
  "node_depth n = 0 \<or> (\<exists>c \<in> set (children n). node_depth n = Suc (node_depth c))"
proof (cases "children n")
  case Nil
  then show ?thesis by (simp add: node_depth.simps)
next
  case (Cons c cs)
  then have eq: "node_depth n = Max ((Suc \<circ> node_depth) ` set (children n))"
    by (subst node_depth.simps) (simp add: image_comp)
  have "Max ((Suc \<circ> node_depth) ` set (children n)) \<in> (Suc \<circ> node_depth) ` set (children n)"
    by (rule Max_in) (auto simp: Cons)
  with eq show ?thesis by auto
qed

lemma visit_events_shallow: "d + node_depth n \<le> 256 \<Longrightarrow> visit_events d n = map Some (postorder n)"
proof (induction d n rule: visit_events.induct)
  case (1 d n)
  then have d: "\<not> d > 256" by simp
  have eq: "map (visit_events (Suc d)) (children n) = map (map Some \<circ> postorder) (children n)"
  proof (rule map_cong [OF refl])
    fix c
    assume c: "c \<in> set (children n)"
    with 1(2) node_depth_child [OF c] have "Suc d + node_depth c \<le> 256" by simp
    with 1(1) [OF d c] show "visit_events (Suc d) c = (map Some \<circ> postorder) c" by simp
  qed
  show ?case
    unfolding visit_events.simps [of d] postorder.simps [of n] map_append map_concat map_map eq
    using d by simp
qed

lemma visit_events_deep: "256 < d + node_depth n \<Longrightarrow> None \<in> set (visit_events d n)"
proof (induction d n rule: visit_events.induct)
  case (1 d n)
  show ?case
  proof (cases "d > 256")
    case True
    then show ?thesis by (simp add: visit_events.simps [of d])
  next
    case False
    with 1(2) obtain c where "c \<in> set (children n)" "node_depth n = Suc (node_depth c)"
      using node_depth_attained [of n] by auto
    with 1 False have "None \<in> set (visit_events (Suc d) c)" by auto
    with \<open>c \<in> set (children n)\<close> False show ?thesis by (auto simp: visit_events.simps [of d])
  qed
qed

lemma run_events_visits: "run_events v (map Some ns) s = run_visitor v ns s"
proof (induction ns arbitrary: s)
  case (Cons n ns)
  then show ?case by (cases "v n s") auto
qed simp

lemma run_events_None: "None \<in> set es \<Longrightarrow> run_events v es s \<noteq> Inr s'"
proof (induction es arbitrary: s)
  case (Cons e es)
  then show ?case by (cases e) (auto simp: andThen_Inr_iff)
qed simp

lemma visitExpression_shallow:
  "node_depth n \<le> 256 \<Longrightarrow> visitExpression n v s = run_visitor v (postorder n) s"
  by (simp add: visitExpression_def visit_loop_events visit_events_shallow run_events_visits)

lemma visitExpression_Inr:
  "visitExpression n v s = Inr s' \<longleftrightarrow> node_depth n \<le> 256 \<and> run_visitor v (postorder n) s = Inr s'"
proof (cases "node_depth n \<le> 256")
  case True
  then show ?thesis by (simp add: visitExpression_shallow)
next
  case False
  then have "visitExpression n v s \<noteq> Inr s'"
    by (simp add: visitExpression_def visit_loop_events run_events_None visit_events_deep)
  with False show ?thesis by simp
qed

lemma postorder_self: "n \<in> set (postorder n)"
  by (auto simp: postorder.simps [of n])

lemma postorder_child: "c \<in> set (children n) \<Longrightarrow> set (postorder c) \<subseteq> set (postorder n)"
  by (subst (2) postorder.simps) auto

lemma postorder_trans: "m \<in> set (postorder n) \<Longrightarrow> set (postorder m) \<subseteq> set (postorder n)"
proof (induction n rule: postorder.induct)
  case (1 n)
  from 1(2) consider "m = n" | c where "c \<in> set (children n)" "m \<in> set (postorder c)"
    by (auto simp: postorder.simps [of n])
  then show ?case
  proof cases
    case 2
    with 1(1) have "set (postorder m) \<subseteq> set (postorder c)" by auto
    with postorder_child [OF 2(1)] show ?thesis by blast
  qed simp
qed

lemma node_depth_subnode: "m \<in> set (postorder n) \<Longrightarrow> node_depth m \<le> node_depth n"
proof (induction n rule: postorder.induct)
  case (1 n)
  from 1(2) consider "m = n" | c where "c \<in> set (children n)" "m \<in> set (postorder c)"
    by (auto simp: postorder.simps [of n])
  then show ?case
  proof cases
    case 2
    with 1(1) have "node_depth m \<le> node_depth c" by auto
    with node_depth_child [OF 2(1)] show ?thesis by simp
  qed simp
qed

lemma run_visitor_append:
  "run_visitor v (ms @ ns) s = andThen (run_visitor v ms s) (run_visitor v ns)"
proof (induction ms arbitrary: s)
  case (Cons m ms)
  then show ?case by (cases "v m s") auto
qed simp

section \<open>Visitors as an interface\<close>

text \<open>
  What the traversal promises a visitor that keeps an invariant of its state: the visitor may rely on
  the children of a node having been visited before the node.
\<close>

fun closed_after :: "ExpressionNode list \<Rightarrow> ExpressionNode list \<Rightarrow> bool" where
  "closed_after ms [] = True"
| "closed_after ms (n # ns) = (set (children n) \<subseteq> set ms \<and> closed_after (ms @ [n]) ns)"

lemma closed_after_append:
  "closed_after ms (ns @ ks) = (closed_after ms ns \<and> closed_after (ms @ ns) ks)"
  by (induction ns arbitrary: ms) auto

lemma closed_after_concat:
  "(\<And>c ms. c \<in> set cs \<Longrightarrow> closed_after ms (postorder c))
    \<Longrightarrow> closed_after ms (concat (map postorder cs))"
  by (induction cs arbitrary: ms) (auto simp: closed_after_append)

lemma closed_after_postorder: "closed_after ms (postorder n)"
proof (induction n arbitrary: ms rule: postorder.induct)
  case (1 n)
  have "closed_after ms (concat (map postorder (children n)))"
    using 1 by (intro closed_after_concat) blast
  moreover have "set (children n) \<subseteq> set (concat (map postorder (children n)))"
    using postorder_self by auto
  ultimately show ?case by (auto simp: postorder.simps [of n] closed_after_append)
qed

locale expression_visitor =
  fixes visitor :: "'s visitor"
    and keeps :: "ExpressionNode list \<Rightarrow> 's \<Rightarrow> bool"
    and admits :: "ExpressionNode \<Rightarrow> bool"
  assumes step: "admits n \<Longrightarrow> set (children n) \<subseteq> set ns \<Longrightarrow> keeps ns s \<Longrightarrow> visitor n s = Inr s'
    \<Longrightarrow> keeps (ns @ [n]) s'"
begin

lemma run_keeps: "list_all admits ns \<Longrightarrow> closed_after ms ns \<Longrightarrow> keeps ms s \<Longrightarrow> run_visitor visitor ns s = Inr s'
  \<Longrightarrow> keeps (ms @ ns) s'"
proof (induction ns arbitrary: ms s)
  case (Cons n ns)
  then obtain t where t: "visitor n s = Inr t" "run_visitor visitor ns t = Inr s'" by auto
  from Cons.IH [of "ms @ [n]" t] Cons.prems t step [of n ms s t] show ?case by simp
qed simp

lemma visit_keeps:
  "list_all admits (postorder n) \<Longrightarrow> keeps [] s \<Longrightarrow> visitExpression n visitor s = Inr s'
    \<Longrightarrow> keeps (postorder n) s'"
  using run_keeps [of "postorder n" "[]"] closed_after_postorder by (auto simp: visitExpression_Inr)

end

text \<open>A visitor that does not throw on the nodes it accepts.\<close>

locale total_visitor = expression_visitor +
  fixes passes :: "ExpressionNode \<Rightarrow> bool"
  assumes progress: "admits n \<Longrightarrow> set (children n) \<subseteq> set ns \<Longrightarrow> keeps ns s \<Longrightarrow> passes n
    \<Longrightarrow> \<exists>s'. visitor n s = Inr s'"
begin

lemma run_total: "closed_after ms ns \<Longrightarrow> keeps ms s \<Longrightarrow> list_all admits ns \<Longrightarrow> list_all passes ns
  \<Longrightarrow> \<exists>s'. run_visitor visitor ns s = Inr s'"
proof (induction ns arbitrary: ms s)
  case (Cons n ns)
  then obtain t where t: "visitor n s = Inr t" using progress [of n ms s] by auto
  with Cons.prems step [of n ms s t] have "keeps (ms @ [n]) t" by simp
  with Cons.IH [of "ms @ [n]" t] Cons.prems t show ?case by simp
qed simp

lemma visit_total:
  assumes "keeps [] s" "node_depth n \<le> 256" "list_all admits (postorder n)"
    "list_all passes (postorder n)"
  obtains s' where "visitExpression n visitor s = Inr s'" "keeps (postorder n) s'"
proof -
  from run_total [of "[]" "postorder n" s] closed_after_postorder assms
  obtain s' where "visitExpression n visitor s = Inr s'" by (auto simp: visitExpression_shallow)
  with that visit_keeps assms show ?thesis by blast
qed

end

lemma set_set_add [simp]: "set (set_add x xs) = insert x (set xs)"
  by (auto simp: set_add_def)

lemma distinct_set_add [simp]: "distinct (set_add x xs) = distinct xs"
  by (auto simp: set_add_def)

text \<open>The names of a set of nodes.\<close>

fun node_variable :: "ExpressionNode \<Rightarrow> jstr set" where
  "node_variable (Variable name _ _) = {name}"
| "node_variable _ = {}"

fun node_function :: "ExpressionNode \<Rightarrow> jstr set" where
  "node_function (Call name _ _ _) = {name}"
| "node_function _ = {}"

definition variable_names :: "ExpressionNode set \<Rightarrow> jstr set" where
  "variable_names ns = (\<Union>n \<in> ns. node_variable n)"

definition function_names :: "ExpressionNode set \<Rightarrow> jstr set" where
  "function_names ns = (\<Union>n \<in> ns. node_function n)"

definition dependencies_of :: "ExpressionNode list \<Rightarrow> jstr list \<times> jstr list \<Rightarrow> bool" where
  "dependencies_of ns s \<longleftrightarrow>
     set (fst s) = variable_names (set ns) \<and> set (snd s) = function_names (set ns)
     \<and> distinct (fst s) \<and> distinct (snd s)"

interpretation deps: total_visitor dependency_visitor dependencies_of "\<lambda>n. True" "\<lambda>n. True"
proof unfold_locales
  fix n ns s s'
  assume "dependencies_of ns s" "dependency_visitor n s = Inr s'"
  then show "dependencies_of (ns @ [n]) s'"
    by (cases n)
      (auto simp: dependencies_of_def dependency_visitor_def variable_names_def function_names_def
        split: prod.splits)
qed (simp add: dependency_visitor_def split: prod.splits)

lemma dependencies_of_Nil [simp]: "dependencies_of [] ([], [])"
  by (simp add: dependencies_of_def variable_names_def function_names_def)

lemma expressionDependencies_sets:
  assumes "expressionDependencies n = Inr (vs, fs)"
  shows "set vs = variable_names (set (postorder n))" "set fs = function_names (set (postorder n))"
    "distinct vs" "distinct fs"
  using deps.visit_keeps [of n "([], [])" "(vs, fs)"] assms
  by (simp_all add: list_all_iff expressionDependencies_def dependencies_of_def [of "postorder n"])

lemma expressionDependencies_total:
  assumes "node_depth n \<le> 256"
  obtains vs fs where "expressionDependencies n = Inr (vs, fs)"
proof -
  obtain s where "visitExpression n dependency_visitor ([], []) = Inr s"
    by (rule deps.visit_total [of "([], [])" n]) (simp_all add: assms list_all_iff)
  then have "expressionDependencies n = Inr s" by (simp add: expressionDependencies_def)
  with that show ?thesis by (cases s) auto
qed

text \<open>The analysis as a partial function of the tree.\<close>

lemma expressionDependencies_Inr:
  "expressionDependencies n = Inr (vs, fs) \<Longrightarrow> node_depth n \<le> 256"
  by (simp add: expressionDependencies_def visitExpression_Inr)

end
