(* ===== verification/BillingLexer.thy ===== *)
theory BillingLexer
  imports BillingTypes
begin

text \<open>
  The lexer of \<open>billing-expression/parser.ts\<close>: the constructor of \<open>BillingParser\<close> (length limit, version
  prefix) and \<open>next\<close> with its number, string, name and operator forms, as functions of an explicit
  parser state. The lemmas give what the parser relies on: lexemes advance through the source without
  overlapping.
\<close>

section \<open>Lexemes and the parser's state\<close>

datatype LexemeKind = K_number | K_string | K_symbol | K_name | K_end

record Lexeme =
  lx_text :: jstr
  lx_start :: nat
  lx_end :: nat
  lx_value :: "literal option"
  lx_integer :: "bool option"
  lx_kind :: LexemeKind

record ParserState =
  p_source :: jstr
  p_cursor :: nat
  p_count :: nat
  p_depth :: nat
  p_current :: Lexeme

definition PRECEDENCE :: "(jstr \<times> nat) list" where
  "PRECEDENCE = map (\<lambda>(op, p). (js op, p))
     [(''||'', 1), (''&&'', 2), (''=='', 3), (''!='', 3), (''<'', 4), (''<='', 4), (''>'', 4),
      (''>='', 4), (''+'', 5), (''-'', 5), (''*'', 6), (''/'', 6), (''%'', 6)]"

section \<open>Numbers\<close>

definition lex_number :: "nat \<Rightarrow> jstr \<Rightarrow> decimal \<Rightarrow> thrown + Lexeme" where
  "lex_number start rest d =
     (let text = take (match_length d) rest; value = decimal_value d;
          integer = (\<not> has_point d \<and> \<not> has_exp d)
      in if \<not> isFinite value then throw_at D_number text start
         else if integer \<and> \<not> isSafeInteger value
         then throw_at D_unsupported (js ''integer precision'') start
         else Inr \<lparr>lx_text = text, lx_start = start, lx_end = start + match_length d,
                   lx_value = Some (LNum value), lx_integer = Some integer, lx_kind = K_number\<rparr>)"

section \<open>Strings\<close>

definition escapes :: "(code_unit \<times> code_unit) list" where
  "escapes = [(110, 10), (114, 13), (116, 9), (98, 8), (102, 12), (118, 11),
              (92, 92), (34, 34), (39, 39), (47, 47)]"

text \<open>
  The body of a string literal: what follows the opening quote, from position \<open>pos\<close>, up to the closing
  quote. The result is the value and the position after the quote. A line break or a malformed
  hexadecimal escape leaves the loop as the end of the source does.
\<close>

definition unterminated :: "nat \<Rightarrow> thrown + 'a" where
  "unterminated start = throw_at D_syntax (js ''unterminated string'') start"

function lex_string ::
    "code_unit \<Rightarrow> nat \<Rightarrow> nat \<Rightarrow> jstr \<Rightarrow> jstr \<Rightarrow> thrown + jstr \<times> nat" where
  "lex_string quote start pos [] value = unterminated start"
| "lex_string quote start pos (char # rest) value =
     (if char = quote then Inr (value, pos + 1)
      else if char = 10 \<or> char = 13 then unterminated start
      else if char \<noteq> 92 then lex_string quote start (pos + 1) rest (value @ [char])
      else case rest of
          [] \<Rightarrow> throw_at D_unsupported (js ''string escape'') (pos + 1)
        | escaped # rest' \<Rightarrow>
            (case map_of escapes escaped of
               Some c \<Rightarrow> lex_string quote start (pos + 2) rest' (value @ [c])
             | None \<Rightarrow>
                 if escaped = 117 \<or> escaped = 120 then
                   (let n = (if escaped = 117 then 4 else 2); hex = take n rest' in
                    if length hex \<noteq> n \<or> \<not> list_all is_hex hex then unterminated start
                    else lex_string quote start (pos + 2 + n) (drop n rest')
                           (value @ [hex_digits_value 0 hex]))
                 else throw_at D_unsupported (js ''string escape'') (pos + 1)))"
  by pat_completeness auto
termination
  by (relation "measure (\<lambda>(q, s, p, cs, v). length cs)") auto

section \<open>Names and operators\<close>

fun match_name :: "jstr \<Rightarrow> jstr option" where
  "match_name [] = None"
| "match_name (c # s) = (if is_alpha_us c then Some (c # takeWhile is_word s) else None)"

definition two_char_operators :: "jstr list" where
  "two_char_operators = map js [''&&'', ''||'', ''=='', ''!='', ''<='', ''>='']"

definition one_char_operators :: "jstr" where
  "one_char_operators = js ''+-*/%<>()!?:,''"

definition match_operator :: "jstr \<Rightarrow> jstr option" where
  "match_operator s =
     (if take 2 s \<in> set two_char_operators then Some (take 2 s)
      else if s \<noteq> [] \<and> hd s \<in> set one_char_operators then Some (take 1 s)
      else None)"

section \<open>\<open>next\<close>\<close>

definition symbol_lexeme :: "LexemeKind \<Rightarrow> nat \<Rightarrow> jstr \<Rightarrow> Lexeme" where
  "symbol_lexeme k start text =
     \<lparr>lx_text = text, lx_start = start, lx_end = start + length text, lx_value = None,
      lx_integer = None, lx_kind = k\<rparr>"

text \<open>The lexeme at the start of the non-empty text \<open>rest\<close>, which begins at position \<open>start\<close>.\<close>

definition lex_at :: "jstr \<Rightarrow> nat \<Rightarrow> jstr \<Rightarrow> thrown + Lexeme" where
  "lex_at src start rest =
     (case match_decimal rest of
        Some d \<Rightarrow> lex_number start rest d
      | None \<Rightarrow>
          if hd rest = 34 \<or> hd rest = 39 then
            andThen (lex_string (hd rest) start (start + 1) (tl rest) [])
              (\<lambda>(value, cursor).
                 Inr \<lparr>lx_text = slice src start cursor, lx_start = start, lx_end = cursor,
                      lx_value = Some (LStr value), lx_integer = None, lx_kind = K_string\<rparr>)
          else case match_name rest of
              Some name \<Rightarrow> Inr (symbol_lexeme K_name start name)
            | None \<Rightarrow>
                (case match_operator rest of
                   None \<Rightarrow> throw_at D_unsupported (take 1 rest) start
                 | Some text \<Rightarrow> Inr (symbol_lexeme K_symbol start text)))"

definition skip_spaces :: "jstr \<Rightarrow> nat \<Rightarrow> nat" where
  "skip_spaces src cursor = cursor + length (takeWhile is_space (drop cursor src))"

text \<open>\<open>next\<close> counts the lexeme, skips white space and moves the cursor behind the lexeme.\<close>

definition next_lexeme :: "ParserState \<Rightarrow> thrown + Lexeme \<times> ParserState" where
  "next_lexeme st =
     (let count = p_count st + 1; src = p_source st; start = skip_spaces src (p_cursor st);
          rest = drop start src; st' = st\<lparr>p_count := count, p_cursor := start\<rparr>
      in if 10000 < int count then throw D_limit (js ''expression tokens'')
         else if rest = [] then Inr (symbol_lexeme K_end start [], st')
         else andThen (lex_at src start rest) (\<lambda>lx. Inr (lx, st'\<lparr>p_cursor := lx_end lx\<rparr>)))"

text \<open>\<open>take\<close>: the current lexeme, with the next one read.\<close>

definition take_lexeme :: "ParserState \<Rightarrow> thrown + Lexeme \<times> ParserState" where
  "take_lexeme st =
     andThen (next_lexeme st) (\<lambda>(lx, st'). Inr (p_current st, st'\<lparr>p_current := lx\<rparr>))"

definition is_text :: "ParserState \<Rightarrow> string \<Rightarrow> bool" where
  "is_text st text \<longleftrightarrow> lx_text (p_current st) = js text"

definition expect :: "string \<Rightarrow> ParserState \<Rightarrow> thrown + Lexeme \<times> ParserState" where
  "expect text st =
     (if lx_text (p_current st) \<noteq> js text
      then throw_at D_syntax (js ''expected '' @ js text) (lx_start (p_current st))
      else take_lexeme st)"

text \<open>The match of \<open>^\s*v(\d+):\<close>: the digits and the length matched.\<close>

definition match_version :: "jstr \<Rightarrow> (jstr \<times> nat) option" where
  "match_version src =
     (let spaces = length (takeWhile is_space src); s = drop spaces src in
      if s = [] \<or> hd s \<noteq> 118 then None
      else let ds = takeWhile is_digit (tl s); s' = drop (length ds) (tl s) in
        if ds = [] \<or> s' = [] \<or> hd s' \<noteq> 58 then None
        else Some (ds, spaces + 1 + length ds + 1))"

definition no_lexeme :: Lexeme where
  "no_lexeme = symbol_lexeme K_end 0 []"

text \<open>The constructor of \<open>BillingParser\<close>.\<close>

definition new_parser :: "jstr \<Rightarrow> thrown + ParserState" where
  "new_parser src =
     (if 65536 < int (length src) then throw D_limit (js ''expression length'')
      else
        let version = match_version src in
        if (case version of Some (ds, n) \<Rightarrow> ds \<noteq> js ''1'' | None \<Rightarrow> False)
        then throw D_unsupported (take (snd (the version)) src)
        else
          let cursor = (case version of Some (ds, n) \<Rightarrow> n | None \<Rightarrow> 0);
              st = \<lparr>p_source = src, p_cursor = cursor, p_count = 0, p_depth = 0,
                    p_current = no_lexeme\<rparr>
          in andThen (next_lexeme st) (\<lambda>(lx, st'). Inr (st'\<lparr>p_current := lx\<rparr>)))"

section \<open>Lexemes advance through the source\<close>

lemma lex_string_bounds:
  "lex_string q start pos cs v = Inr (w, cursor) \<Longrightarrow> pos < cursor \<and> cursor \<le> pos + length cs"
proof (induction q start pos cs v rule: lex_string.induct)
  case (1 quote start pos acc)
  then show ?case by (simp add: unterminated_def)
next
  case (2 quote start pos char rest acc)
  then show ?case
    by (auto simp: unterminated_def Let_def split: if_splits list.splits option.splits) fastforce+
qed

lemma takeWhile_length_le: "length (takeWhile P s) \<le> length s"
  by (rule length_takeWhile_le)

lemma match_exponent_length: "match_exponent s = Some (v, n) \<Longrightarrow> n \<le> length s"
proof (cases s)
  case (Cons e s1)
  define k :: nat where "k = (if s1 \<noteq> [] \<and> (hd s1 = 43 \<or> hd s1 = 45) then 1 else 0)"
  assume "match_exponent s = Some (v, n)"
  then have "n = 1 + k + length (takeWhile is_digit (drop k s1))"
    using Cons by (auto simp: match_exponent_def Let_def k_def split: if_splits)
  moreover have "length (takeWhile is_digit (drop k s1)) \<le> length s1 - k"
    using takeWhile_length_le [of is_digit "drop k s1"] by simp
  moreover have "k \<le> length s1" by (cases s1) (auto simp: k_def)
  ultimately show ?thesis using Cons by simp
qed (simp add: match_exponent_def)

lemma match_decimal_length:
  assumes "match_decimal s = Some d"
  shows "0 < match_length d \<and> match_length d \<le> length s"
proof -
  define ids where "ids = takeWhile is_digit s"
  define s1 where "s1 = drop (length ids) s"
  define point where "point = (s1 \<noteq> [] \<and> hd s1 = 46)"
  define fds where "fds = (if point then takeWhile is_digit (tl s1) else [])"
  define s2 where "s2 = (if point then drop (length fds) (tl s1) else s1)"
  define len where "len = length ids + (if point then 1 + length fds else 0)"
  have ids: "length ids \<le> length s" by (simp add: ids_def takeWhile_length_le)
  have fds: "point \<Longrightarrow> length fds \<le> length s1 - 1"
    using takeWhile_length_le [of is_digit "tl s1"] by (simp add: fds_def)
  have s1: "length s1 = length s - length ids" by (simp add: s1_def)
  have point_len: "point \<Longrightarrow> 1 \<le> length s1" by (auto simp: point_def Suc_le_eq)
  have total: "len + length s2 = length s"
    using ids fds s1 point_len by (auto simp: len_def s2_def)
  have nonempty: "ids \<noteq> [] \<or> fds \<noteq> []" and
    d: "match_length d = len \<or> (\<exists>v n. match_exponent s2 = Some (v, n) \<and> match_length d = len + n)"
    using assms
    by (auto simp: match_decimal_def Let_def ids_def s1_def point_def fds_def s2_def len_def
        split: if_splits option.splits)
  from nonempty have "0 < len" by (auto simp: len_def fds_def split: if_splits)
  with d total match_exponent_length show ?thesis by fastforce
qed

lemma match_name_length:
  "match_name s = Some name \<Longrightarrow> 0 < length name \<and> length name \<le> length s"
  using takeWhile_length_le [of is_word] by (cases s) (auto split: if_splits)

lemma match_operator_length:
  "match_operator s = Some text \<Longrightarrow> 0 < length text \<and> length text \<le> length s"
proof -
  have two: "length t = 2" if "t \<in> set two_char_operators" for t
    using that by (auto simp: two_char_operators_def)
  assume "match_operator s = Some text"
  then show ?thesis using two [of "take 2 s"]
    by (cases s) (auto simp: match_operator_def split: if_splits)
qed

lemma lex_at_bounds:
  assumes "lex_at src start rest = Inr lx" "rest \<noteq> []"
  shows "lx_start lx = start \<and> start < lx_end lx \<and> lx_end lx \<le> start + length rest
    \<and> lx_kind lx \<noteq> K_end"
proof (cases "match_decimal rest")
  case (Some d)
  with assms match_decimal_length [OF Some] show ?thesis
    by (auto simp: lex_at_def lex_number_def Let_def split: if_splits)
next
  case None
  show ?thesis
  proof (cases "hd rest = 34 \<or> hd rest = 39")
    case True
    with None assms(1) obtain v c where s: "lex_string (hd rest) start (start + 1) (tl rest) [] = Inr (v, c)"
      and lx: "lx_start lx = start" "lx_end lx = c" "lx_kind lx = K_string"
      by (auto simp: lex_at_def)
    from lex_string_bounds [OF s] assms(2) lx show ?thesis by (cases rest) auto
  next
    case False
    with None assms(1) show ?thesis
      using match_name_length [of rest] match_operator_length [of rest]
      by (auto simp: lex_at_def symbol_lexeme_def split: if_splits option.splits)
  qed
qed

text \<open>The value a number or string lexeme carries.\<close>

definition lexeme_ok :: "Lexeme \<Rightarrow> bool" where
  "lexeme_ok lx \<longleftrightarrow>
     (lx_kind lx = K_number \<longrightarrow>
        (\<exists>x b. lx_value lx = Some (LNum x) \<and> lx_integer lx = Some b \<and> isFinite x
           \<and> (b \<longrightarrow> isSafeInteger x)))
     \<and> (lx_kind lx = K_string \<longrightarrow> (\<exists>v. lx_value lx = Some (LStr v)))"

lemma lex_at_ok: "lex_at src start rest = Inr lx \<Longrightarrow> lexeme_ok lx"
  by (auto simp: lex_at_def lex_number_def symbol_lexeme_def lexeme_ok_def Let_def
      split: if_splits option.splits)

lemma skip_spaces_ge: "cursor \<le> skip_spaces src cursor"
  by (simp add: skip_spaces_def)

lemma skip_spaces_le: "cursor \<le> length src \<Longrightarrow> skip_spaces src cursor \<le> length src"
  using takeWhile_length_le [of is_space "drop cursor src"] by (simp add: skip_spaces_def)

text \<open>What reading a lexeme does to the state.\<close>

lemma next_lexeme_Inr:
  assumes "next_lexeme st = Inr (lx, st')" "p_cursor st \<le> length (p_source st)"
  shows "p_source st' = p_source st" "p_count st' = Suc (p_count st)" "p_depth st' = p_depth st"
    "p_current st' = p_current st" "p_cursor st' = lx_end lx" "p_cursor st \<le> lx_start lx"
    "lx_start lx \<le> lx_end lx" "lx_end lx \<le> length (p_source st)"
    "lx_kind lx \<noteq> K_end \<Longrightarrow> lx_start lx < lx_end lx"
    "lx_kind lx = K_end \<Longrightarrow> lx_text lx = []" "lexeme_ok lx"
proof -
  define start where "start = skip_spaces (p_source st) (p_cursor st)"
  define rest where "rest = drop start (p_source st)"
  have start: "p_cursor st \<le> start" "start \<le> length (p_source st)"
    using assms(2) by (simp_all add: start_def skip_spaces_ge skip_spaces_le)
  show "p_source st' = p_source st" "p_count st' = Suc (p_count st)" "p_depth st' = p_depth st"
    "p_current st' = p_current st" "p_cursor st' = lx_end lx" "p_cursor st \<le> lx_start lx"
    "lx_start lx \<le> lx_end lx" "lx_end lx \<le> length (p_source st)"
    "lx_kind lx \<noteq> K_end \<Longrightarrow> lx_start lx < lx_end lx"
    "lx_kind lx = K_end \<Longrightarrow> lx_text lx = []"
    using assms(1) start lex_at_bounds [of "p_source st" start rest lx]
    by (auto simp: next_lexeme_def Let_def symbol_lexeme_def rest_def simp flip: start_def
        split: if_splits)
  show "lexeme_ok lx"
    using assms(1)
    by (auto simp: next_lexeme_def Let_def symbol_lexeme_def lexeme_ok_def
        dest!: lex_at_ok split: if_splits)
qed

lemma match_version_length: "match_version src = Some (ds, n) \<Longrightarrow> n \<le> length src"
proof -
  assume m: "match_version src = Some (ds, n)"
  define k where "k = length (takeWhile is_space src)"
  define s where "s = drop k src"
  have k: "k \<le> length src" by (simp add: k_def takeWhile_length_le)
  from m have s: "s \<noteq> []" and ds: "ds = takeWhile is_digit (tl s)"
    and colon: "drop (length ds) (tl s) \<noteq> []" and n: "n = k + 1 + length ds + 1"
    by (auto simp: match_version_def Let_def k_def s_def split: if_splits)
  have "length s = length src - k" by (simp add: s_def)
  with k s colon n show ?thesis by (cases s) auto
qed

end
