(* ===== verification/BillingParser.thy ===== *)
theory BillingParser
  imports BillingLexer
begin

text \<open>
  The precedence-climbing parser of \<open>billing-expression/parser.ts\<close>: \<open>expression\<close>, its operator loop,
  \<open>primary\<close> and the argument loop, with the depth limit, over the lexer's state. The recursion is
  bounded by fuel, \<open>None\<close> when it runs out; twice the source length and four always suffices
  (\<open>expression_total\<close>), so parsing always returns. The second half shows how the spans of the nodes
  nest, which makes a node of a parsed tree determined by its value.
\<close>

section \<open>The parser\<close>

type_synonym 'a outcome = "(thrown + 'a \<times> ParserState) option"

fun thenP :: "'a outcome \<Rightarrow> ('a \<Rightarrow> ParserState \<Rightarrow> 'b outcome) \<Rightarrow> 'b outcome" where
  "thenP None k = None"
| "thenP (Some (Inl e)) k = Some (Inl e)"
| "thenP (Some (Inr (v, st))) k = k v st"

text \<open>\<open>token.value\<close> of a number or string lexeme.\<close>

definition token_literal :: "Lexeme \<Rightarrow> literal" where
  "token_literal token = (case lx_value token of Some v \<Rightarrow> v | None \<Rightarrow> LNull)"

text \<open>The forms of \<open>primary\<close> that are complete with their first lexeme.\<close>

definition literal_node :: "literal \<Rightarrow> bool option \<Rightarrow> Lexeme \<Rightarrow> ExpressionNode" where
  "literal_node v i token = Literal v i (lx_start token) (lx_end token)"

fun expression :: "nat \<Rightarrow> nat \<Rightarrow> ParserState \<Rightarrow> ExpressionNode outcome"
  and operator_loop :: "nat \<Rightarrow> nat \<Rightarrow> ExpressionNode \<Rightarrow> ParserState \<Rightarrow> ExpressionNode outcome"
  and primary :: "nat \<Rightarrow> ParserState \<Rightarrow> ExpressionNode outcome"
  and call_arguments :: "nat \<Rightarrow> ExpressionNode list \<Rightarrow> ParserState \<Rightarrow> ExpressionNode list outcome"
where
  "expression 0 minimum st = None"
| "expression (Suc fuel) minimum st =
     (let st = st\<lparr>p_depth := p_depth st + 1\<rparr> in
      if p_depth st > 128 then Some (throw D_limit (js ''expression depth''))
      else
        thenP (primary fuel st) (\<lambda>left st.
        thenP (operator_loop fuel minimum left st) (\<lambda>left st.
          if minimum = 0 \<and> is_text st ''?'' then
            thenP (Some (take_lexeme st)) (\<lambda>_ st.
            thenP (expression fuel 0 st) (\<lambda>yes st.
            thenP (Some (expect '':'' st)) (\<lambda>_ st.
            thenP (expression fuel 0 st) (\<lambda>no st.
              Some (Inr (Conditional left yes no (nstart left) (nend no),
                         st\<lparr>p_depth := p_depth st - 1\<rparr>))))))
          else Some (Inr (left, st\<lparr>p_depth := p_depth st - 1\<rparr>)))))"
| "operator_loop 0 minimum left st = None"
| "operator_loop (Suc fuel) minimum left st =
     (case map_of PRECEDENCE (lx_text (p_current st)) of
        None \<Rightarrow> Some (Inr (left, st))
      | Some precedence \<Rightarrow>
          if precedence < minimum then Some (Inr (left, st))
          else
            thenP (Some (take_lexeme st)) (\<lambda>token st.
            thenP (expression fuel (precedence + 1) st) (\<lambda>right st.
              operator_loop fuel minimum
                (Binary (lx_text token) left right (nstart left) (nend right)) st)))"
| "primary 0 st = None"
| "primary (Suc fuel) st =
     thenP (Some (take_lexeme st)) (\<lambda>token st.
       if lx_kind token = K_number then
         Some (Inr (literal_node (token_literal token) (lx_integer token) token, st))
       else if lx_kind token = K_string then
         Some (Inr (literal_node (token_literal token) None token, st))
       else if lx_text token = js ''('' then
         thenP (expression fuel 0 st) (\<lambda>inner st.
         thenP (Some (expect '')'' st)) (\<lambda>close st.
           Some (Inr (with_span inner (lx_start token) (lx_end close), st))))
       else if lx_text token \<in> {js ''!'', js ''+'', js ''-''} then
         thenP (expression fuel 7 st) (\<lambda>operand st.
           Some (Inr (Unary (lx_text token) operand (lx_start token) (nend operand), st)))
       else if lx_kind token \<noteq> K_name then
         Some (throw_at D_syntax (lx_text token) (lx_start token))
       else if lx_text token = js ''nil'' then
         Some (Inr (literal_node LNull None token, st))
       else if lx_text token = js ''true'' \<or> lx_text token = js ''false'' then
         Some (Inr (literal_node (LBool (lx_text token = js ''true'')) None token, st))
       else if \<not> is_text st ''('' then
         if lx_text token \<notin> set BILLING_VARIABLES then
           Some (throw_at D_unsupported (lx_text token) (lx_start token))
         else Some (Inr (Variable (lx_text token) (lx_start token) (lx_end token), st))
       else if \<not> hasOwn BILLING_FUNCTIONS (lx_text token) then
         Some (throw_at D_unsupported (lx_text token) (lx_start token))
       else
         thenP (Some (take_lexeme st)) (\<lambda>_ st.
         thenP (call_arguments fuel [] st) (\<lambda>args st.
         thenP (Some (expect '')'' st)) (\<lambda>close st.
           if map_of BILLING_FUNCTIONS (lx_text token) \<noteq> Some (length args) then
             Some (throw_at D_type (lx_text token) (lx_start token))
           else Some (Inr (Call (lx_text token) args (lx_start token) (lx_end close), st))))))"
| "call_arguments 0 args st = None"
| "call_arguments (Suc fuel) args st =
     (if is_text st '')'' then Some (Inr (args, st))
      else
        thenP (expression fuel 0 st) (\<lambda>arg st.
          if \<not> is_text st '','' then Some (Inr (args @ [arg], st))
          else
            thenP (Some (take_lexeme st)) (\<lambda>_ st.
              call_arguments fuel (args @ [arg]) st)))"

definition parse_fuel :: "jstr \<Rightarrow> nat" where
  "parse_fuel src = 2 * length src + 4"

text \<open>\<open>new BillingParser(source).parse()\<close>.\<close>

definition parse :: "jstr \<Rightarrow> thrown + ExpressionNode" where
  "parse src =
     andThen (new_parser src) (\<lambda>st.
       case expression (parse_fuel src) 0 st of
         None \<Rightarrow> Inl (OtherError (js ''out of fuel''))
       | Some (Inl e) \<Rightarrow> Inl e
       | Some (Inr (node, st)) \<Rightarrow>
           if lx_kind (p_current st) \<noteq> K_end
           then throw_at D_unsupported (lx_text (p_current st)) (lx_start (p_current st))
           else Inr node)"

section \<open>Progress\<close>

lemma thenP_Inr_iff:
  "thenP m k = Some (Inr (w, st')) \<longleftrightarrow> (\<exists>v st. m = Some (Inr (v, st)) \<and> k v st = Some (Inr (w, st')))"
  by (cases m rule: option.exhaust; cases "the m" rule: sum.exhaust) auto

lemma thenP_total:
  "m \<noteq> None \<Longrightarrow> (\<And>v st. m = Some (Inr (v, st)) \<Longrightarrow> k v st \<noteq> None) \<Longrightarrow> thenP m k \<noteq> None"
  by (cases m rule: option.exhaust; cases "the m" rule: sum.exhaust) auto

lemma token_texts:
  "js ''('' \<noteq> []" "js '')'' \<noteq> []" "js '','' \<noteq> []" "js ''?'' \<noteq> []" "js '':'' \<noteq> []"
  by simp_all

text \<open>The parser's invariant: the cursor stands behind the current lexeme, inside the source.\<close>

definition wf_state :: "ParserState \<Rightarrow> bool" where
  "wf_state st \<longleftrightarrow>
     p_cursor st = lx_end (p_current st) \<and> lx_end (p_current st) \<le> length (p_source st)
     \<and> lexeme_ok (p_current st)
     \<and> (if lx_kind (p_current st) = K_end
        then lx_start (p_current st) \<le> lx_end (p_current st) \<and> lx_text (p_current st) = []
        else lx_start (p_current st) < lx_end (p_current st))"

text \<open>How much is left to read, counting the current lexeme.\<close>

definition remaining :: "ParserState \<Rightarrow> nat" where
  "remaining st =
     length (p_source st) - lx_end (p_current st) + (if lx_kind (p_current st) = K_end then 0 else 1)"

definition current_start :: "ParserState \<Rightarrow> nat" where
  "current_start st = lx_start (p_current st)"

text \<open>The states a step may lead to.\<close>

definition advances :: "ParserState \<Rightarrow> ParserState \<Rightarrow> bool" where
  "advances st st' \<longleftrightarrow>
     wf_state st' \<and> p_source st' = p_source st \<and> remaining st' < remaining st"

lemma wf_state_depth [simp]:
  "wf_state (st\<lparr>p_depth := d\<rparr>) = wf_state st" "remaining (st\<lparr>p_depth := d\<rparr>) = remaining st"
  "current_start (st\<lparr>p_depth := d\<rparr>) = current_start st"
  "advances st (st'\<lparr>p_depth := d\<rparr>) = advances st st'"
  "advances (st\<lparr>p_depth := d\<rparr>) st' = advances st st'"
  by (simp_all add: wf_state_def remaining_def current_start_def advances_def)

lemma wf_state_current:
  assumes "wf_state st" "lx_kind (p_current st) \<noteq> K_end"
  shows "current_start st < lx_end (p_current st)" "lx_end (p_current st) \<le> length (p_source st)"
  using assms by (simp_all add: wf_state_def current_start_def)

lemma take_lexeme_advances:
  assumes st: "wf_state st" and t: "take_lexeme st = Inr (token, st')"
    and kind: "lx_kind (p_current st) \<noteq> K_end"
  shows "token = p_current st" "advances st st'" "lx_end token \<le> current_start st'"
proof -
  obtain lx st1 where n: "next_lexeme st = Inr (lx, st1)"
    and e: "token = p_current st" "st' = st1\<lparr>p_current := lx\<rparr>"
    using t by (auto simp: take_lexeme_def)
  have le: "p_cursor st \<le> length (p_source st)" using st by (simp add: wf_state_def)
  note facts = next_lexeme_Inr [OF n le]
  have cur: "p_cursor st = lx_end (p_current st)" using st by (simp add: wf_state_def)
  show "token = p_current st" by (fact e(1))
  show "lx_end token \<le> current_start st'"
    using facts(6) cur e by (simp add: current_start_def)
  have "wf_state st'" using facts e by (auto simp: wf_state_def)
  moreover have "remaining st' < remaining st"
    using facts(1,6-9) cur e kind by (auto simp: remaining_def)
  ultimately show "advances st st'" using facts(1) e by (simp add: advances_def)
qed

lemma text_not_end: "wf_state st \<Longrightarrow> lx_text (p_current st) \<noteq> [] \<Longrightarrow> lx_kind (p_current st) \<noteq> K_end"
  by (auto simp: wf_state_def)

lemma is_text_not_end:
  "wf_state st \<Longrightarrow> is_text st t \<Longrightarrow> t \<noteq> [] \<Longrightarrow> lx_kind (p_current st) \<noteq> K_end"
  by (auto simp: wf_state_def is_text_def)

lemma expect_advances:
  assumes "wf_state st" "expect t st = Inr (token, st')" "t \<noteq> []"
  shows "token = p_current st" "advances st st'" "lx_end token \<le> current_start st'"
    "current_start st < lx_end token"
proof -
  have t: "take_lexeme st = Inr (token, st')" and k: "lx_kind (p_current st) \<noteq> K_end"
    using assms by (auto simp: expect_def wf_state_def split: if_splits)
  note f = take_lexeme_advances [OF assms(1) t k]
  show "token = p_current st" "advances st st'" "lx_end token \<le> current_start st'" by (fact f)+
  show "current_start st < lx_end token" using wf_state_current [OF assms(1) k] f(1) by simp
qed

lemma advances_trans: "advances a b \<Longrightarrow> advances b c \<Longrightarrow> advances a c"
  by (auto simp: advances_def)

lemma advances_wf: "advances a b \<Longrightarrow> wf_state b"
  by (simp add: advances_def)

lemma precedence_not_end: "wf_state st \<Longrightarrow> map_of PRECEDENCE (lx_text (p_current st)) = Some p
  \<Longrightarrow> lx_kind (p_current st) \<noteq> K_end"
  by (auto simp: wf_state_def PRECEDENCE_def split: if_splits)

section \<open>Well-formed nodes\<close>

text \<open>The names, operators, arities and literals the parser lets through.\<close>

fun well_formed :: "ExpressionNode \<Rightarrow> bool" where
  "well_formed (Literal (LNum x) i _ _) =
     (isFinite x \<and> (case i of None \<Rightarrow> False | Some b \<Rightarrow> b \<longrightarrow> isSafeInteger x))"
| "well_formed (Literal _ i _ _) = (i = None)"
| "well_formed (Variable name _ _) = (name \<in> set BILLING_VARIABLES)"
| "well_formed (Call f args _ _) =
     (map_of BILLING_FUNCTIONS f = Some (length args) \<and> list_all well_formed args)"
| "well_formed (Unary op x _ _) = (op \<in> {js ''!'', js ''+'', js ''-''} \<and> well_formed x)"
| "well_formed (Binary op l r _ _) = (hasOwn PRECEDENCE op \<and> well_formed l \<and> well_formed r)"
| "well_formed (Conditional c y n _ _) = (well_formed c \<and> well_formed y \<and> well_formed n)"

lemma well_formed_with_span [simp]: "well_formed (with_span n a b) = well_formed n"
  by (cases n rule: well_formed.cases) simp_all

lemma well_formed_token:
  "lexeme_ok token \<Longrightarrow> lx_kind token = K_number
    \<Longrightarrow> well_formed (Literal (token_literal token) (lx_integer token) a b)"
  "lexeme_ok token \<Longrightarrow> lx_kind token = K_string
    \<Longrightarrow> well_formed (Literal (token_literal token) None a b)"
  by (auto simp: lexeme_ok_def token_literal_def)

section \<open>Spans\<close>

text \<open>Nodes one after the other between two positions, none empty.\<close>

fun spanned :: "nat \<Rightarrow> ExpressionNode list \<Rightarrow> nat \<Rightarrow> bool" where
  "spanned a [] b = (a \<le> b)"
| "spanned a (n # ns) b = (a \<le> nstart n \<and> nstart n < nend n \<and> spanned (nend n) ns b)"

fun well_spanned :: "ExpressionNode \<Rightarrow> bool" where
  "well_spanned n =
     (nstart n < nend n \<and> spanned (nstart n) (children n) (nend n)
      \<and> list_all (\<lambda>c. (nstart c, nend c) \<noteq> (nstart n, nend n) \<and> well_spanned c) (children n))"

declare well_spanned.simps [simp del]

lemma spanned_append: "spanned a (ms @ ns) c \<longleftrightarrow> (\<exists>b. spanned a ms b \<and> spanned b ns c)"
proof (induction ms arbitrary: a)
  case Nil
  have "spanned a ns c \<Longrightarrow> a' \<le> a \<Longrightarrow> spanned a' ns c" for a a'
    by (cases ns) auto
  then show ?case by auto
qed auto

lemma spanned_mono: "spanned a ns b \<Longrightarrow> a' \<le> a \<Longrightarrow> b \<le> b' \<Longrightarrow> spanned a' ns b'"
  by (induction ns arbitrary: a a') auto

lemma spanned_le: "spanned a ns b \<Longrightarrow> a \<le> b"
  by (induction ns arbitrary: a) force+

lemma spanned_member: "spanned a ns b \<Longrightarrow> n \<in> set ns \<Longrightarrow> a \<le> nstart n \<and> nstart n < nend n \<and> nend n \<le> b"
proof (induction ns arbitrary: a)
  case (Cons m ns)
  then show ?case using spanned_le [of "nend m" ns b] by fastforce
qed simp

text \<open>A node of the parser: its span starts at \<open>a\<close> and ends before the current lexeme.\<close>

definition read_node :: "nat \<Rightarrow> ExpressionNode \<Rightarrow> ParserState \<Rightarrow> bool" where
  "read_node a n st \<longleftrightarrow> nstart n = a \<and> nend n \<le> current_start st \<and> well_spanned n
     \<and> well_formed n"

lemma read_node_bounds: "read_node a n st \<Longrightarrow> nstart n = a \<and> a < nend n \<and> nend n \<le> current_start st"
  by (auto simp: read_node_def well_spanned.simps [of n])

lemma well_spanned_leaf: "children n = [] \<Longrightarrow> nstart n < nend n \<Longrightarrow> well_spanned n"
  by (simp add: well_spanned.simps [of n])

lemma span_with_span [simp]: "nstart (with_span n a b) = a" "nend (with_span n a b) = b"
  "children (with_span n a b) = children n"
  by (cases n; simp)+

lemma well_spanned_widen:
  assumes "well_spanned n" "a \<le> nstart n" "nend n \<le> b"
  shows "well_spanned (with_span n a b)"
proof -
  have sp: "spanned (nstart n) (children n) (nend n)" "nstart n < nend n"
    and ch: "list_all (\<lambda>c. (nstart c, nend c) \<noteq> (nstart n, nend n) \<and> well_spanned c) (children n)"
    using assms(1) by (simp_all add: well_spanned.simps [of n])
  have "list_all (\<lambda>c. (nstart c, nend c) \<noteq> (a, b) \<and> well_spanned c) (children n)"
    using ch sp assms(2,3)
    by (fastforce simp: list_all_iff dest: spanned_member [OF sp(1)])
  with sp assms(2,3) show ?thesis
    by (auto simp: well_spanned.simps [of "with_span n a b"] intro: spanned_mono)
qed

lemma well_spanned_bounds: "well_spanned n \<Longrightarrow> nstart n < nend n"
  by (simp add: well_spanned.simps [of n])

lemma well_spanned_Unary:
  "a < nstart x \<Longrightarrow> well_spanned x \<Longrightarrow> well_spanned (Unary op x a (nend x))"
  using well_spanned_bounds [of x] by (simp add: well_spanned.simps [of "Unary op x a (nend x)"])

lemma well_spanned_Binary:
  "well_spanned l \<Longrightarrow> well_spanned r \<Longrightarrow> nend l \<le> nstart r
    \<Longrightarrow> well_spanned (Binary op l r (nstart l) (nend r))"
  using well_spanned_bounds [of l] well_spanned_bounds [of r]
  by (simp add: well_spanned.simps [of "Binary op l r (nstart l) (nend r)"])

lemma well_spanned_Conditional:
  "well_spanned c \<Longrightarrow> well_spanned y \<Longrightarrow> well_spanned n \<Longrightarrow> nend c \<le> nstart y \<Longrightarrow> nend y \<le> nstart n
    \<Longrightarrow> well_spanned (Conditional c y n (nstart c) (nend n))"
  using well_spanned_bounds [of c] well_spanned_bounds [of y] well_spanned_bounds [of n]
  by (simp add: well_spanned.simps [of "Conditional c y n (nstart c) (nend n)"])

lemma well_spanned_Call:
  "list_all well_spanned args \<Longrightarrow> spanned b args c \<Longrightarrow> a < b \<Longrightarrow> c \<le> e
    \<Longrightarrow> well_spanned (Call f args a e)"
  using spanned_le [of b args c]
  by (auto simp: well_spanned.simps [of "Call f args a e"] list_all_iff
      intro: spanned_mono dest: spanned_member)

text \<open>The arguments read so far stand between the opening bracket and the current lexeme.\<close>

definition read_args :: "nat \<Rightarrow> ExpressionNode list \<Rightarrow> ParserState \<Rightarrow> bool" where
  "read_args a args st \<longleftrightarrow> list_all well_spanned args \<and> list_all well_formed args
     \<and> spanned a args (current_start st)"

lemma read_args_snoc:
  "read_args a args st \<Longrightarrow> read_node (current_start st) n st' \<Longrightarrow> read_args a (args @ [n]) st'"
  by (auto simp: read_args_def read_node_def spanned_append well_spanned.simps [of n]
      dest: spanned_le)

section \<open>Every successful call consumes input and returns nested spans\<close>

lemma read_node_later:
  "read_node a n st \<Longrightarrow> current_start st \<le> current_start st' \<Longrightarrow> read_node a n st'"
  by (auto simp: read_node_def)

lemma take_lexeme_steps:
  assumes "wf_state st" "take_lexeme st = Inr (token, st')" "lx_kind (p_current st) \<noteq> K_end"
  shows "token = p_current st" "advances st st'" "wf_state st'" "lx_start token = current_start st"
    "current_start st < lx_end token" "lx_end token \<le> current_start st'"
    "current_start st < current_start st'"
  using take_lexeme_advances [OF assms] wf_state_current(1) [OF assms(1,3)]
  by (auto simp: advances_def current_start_def)

lemma expect_steps:
  assumes "wf_state st" "expect t st = Inr (token, st')" "t \<noteq> []"
  shows "advances st st'" "wf_state st'" "current_start st < lx_end token"
    "lx_end token \<le> current_start st'" "current_start st < current_start st'"
  using expect_advances [OF assms] by (auto simp: advances_def)

text \<open>
  The joint statement, for calls with a given fuel: an expression or primary read from \<open>st\<close> starts at
  its current lexeme; the operator loop extends its left operand; the argument loop the arguments.
\<close>

definition reads :: "ParserState \<Rightarrow> ExpressionNode \<Rightarrow> ParserState \<Rightarrow> bool" where
  "reads st n st' \<longleftrightarrow> advances st st' \<and> read_node (current_start st) n st'"

definition sound_expression :: "nat \<Rightarrow> bool" where
  "sound_expression fuel \<longleftrightarrow>
     (\<forall>m st n st'. wf_state st \<longrightarrow> expression fuel m st = Some (Inr (n, st')) \<longrightarrow> reads st n st')"

definition sound_operator_loop :: "nat \<Rightarrow> bool" where
  "sound_operator_loop fuel \<longleftrightarrow>
     (\<forall>m l st n st' a. wf_state st \<longrightarrow> operator_loop fuel m l st = Some (Inr (n, st'))
        \<longrightarrow> read_node a l st \<longrightarrow> (advances st st' \<or> st' = st) \<and> read_node a n st')"

definition sound_primary :: "nat \<Rightarrow> bool" where
  "sound_primary fuel \<longleftrightarrow>
     (\<forall>st n st'. wf_state st \<longrightarrow> primary fuel st = Some (Inr (n, st')) \<longrightarrow> reads st n st')"

definition sound_call_arguments :: "nat \<Rightarrow> bool" where
  "sound_call_arguments fuel \<longleftrightarrow>
     (\<forall>args st args' st' b. wf_state st \<longrightarrow> call_arguments fuel args st = Some (Inr (args', st'))
        \<longrightarrow> read_args b args st \<longrightarrow> (advances st st' \<or> st' = st) \<and> read_args b args' st')"

definition sound_at :: "nat \<Rightarrow> bool" where
  "sound_at fuel \<longleftrightarrow> sound_expression fuel \<and> sound_operator_loop fuel \<and> sound_primary fuel
     \<and> sound_call_arguments fuel"

lemma sound_atD:
  assumes "sound_at fuel" "wf_state st"
  shows "expression fuel m st = Some (Inr (n, st')) \<Longrightarrow> reads st n st'"
    "operator_loop fuel m l st = Some (Inr (n, st')) \<Longrightarrow> read_node a l st
      \<Longrightarrow> (advances st st' \<or> st' = st) \<and> read_node a n st'"
    "primary fuel st = Some (Inr (n, st')) \<Longrightarrow> reads st n st'"
    "call_arguments fuel args st = Some (Inr (args', st')) \<Longrightarrow> read_args b args st
      \<Longrightarrow> (advances st st' \<or> st' = st) \<and> read_args b args' st'"
proof -
  from assms(1) have s: "sound_expression fuel" "sound_operator_loop fuel" "sound_primary fuel"
    "sound_call_arguments fuel" by (simp_all add: sound_at_def)
  show "expression fuel m st = Some (Inr (n, st')) \<Longrightarrow> reads st n st'"
    using s(1) assms(2) unfolding sound_expression_def by blast
  show "operator_loop fuel m l st = Some (Inr (n, st')) \<Longrightarrow> read_node a l st
      \<Longrightarrow> (advances st st' \<or> st' = st) \<and> read_node a n st'"
    using s(2) assms(2) unfolding sound_operator_loop_def by blast
  show "primary fuel st = Some (Inr (n, st')) \<Longrightarrow> reads st n st'"
    using s(3) assms(2) unfolding sound_primary_def by blast
  show "call_arguments fuel args st = Some (Inr (args', st')) \<Longrightarrow> read_args b args st
      \<Longrightarrow> (advances st st' \<or> st' = st) \<and> read_args b args' st'"
    using s(4) assms(2) unfolding sound_call_arguments_def by blast
qed

lemma reads_facts:
  assumes "reads st n st'"
  shows "advances st st'" "wf_state st'" "well_spanned n" "nstart n = current_start st"
    "current_start st < nend n" "nend n \<le> current_start st'" "current_start st < current_start st'"
    "well_formed n"
proof -
  from assms have r: "advances st st'" "read_node (current_start st) n st'"
    by (simp_all add: reads_def)
  then show "advances st st'" "wf_state st'" by (simp_all add: advances_def)
  from read_node_bounds [OF r(2)]
  show "nstart n = current_start st" "current_start st < nend n" "nend n \<le> current_start st'"
    "current_start st < current_start st'" by linarith+
  from r(2) show "well_spanned n" "well_formed n" by (simp_all add: read_node_def)
qed

lemma conditional_sound:
  assumes s: "sound_at fuel" and st: "wf_state st" and c: "read_node a c st" and q: "is_text st ''?''"
    and t: "take_lexeme st = Inr (t1, s1)" and y: "expression fuel 0 s1 = Some (Inr (y, s2))"
    and e: "expect '':'' s2 = Inr (t2, s3)" and n: "expression fuel 0 s3 = Some (Inr (n, s4))"
  shows "advances st s4" "read_node a (Conditional c y n (nstart c) (nend n)) s4"
proof -
  note t1 = take_lexeme_steps [OF st t is_text_not_end [OF st q]]
  note y1 = reads_facts [OF sound_atD(1) [OF s t1(3) y]]
  note t2 = expect_steps [OF y1(2) e]
  note n1 = reads_facts [OF sound_atD(1) [OF s t2(2) n]]
  show "advances st s4"
    using t1(2) y1(1) t2(1) n1(1) by (blast intro: advances_trans)
  have "nend c \<le> nstart y" "nend y \<le> nstart n"
    using c t1(7) y1(4,6) t2(5) n1(4) by (auto simp: read_node_def)
  with c y1(3,8) n1(3,6,8) show "read_node a (Conditional c y n (nstart c) (nend n)) s4"
    using well_spanned_Conditional [of c y n] by (auto simp: read_node_def)
qed

lemma expression_sound:
  assumes s: "sound_at fuel" and st: "wf_state st"
    and e: "expression (Suc fuel) m st = Some (Inr (n, st'))"
  shows "reads st n st'"
proof -
  define st0 where "st0 = st\<lparr>p_depth := p_depth st + 1\<rparr>"
  have st0: "wf_state st0" "current_start st0 = current_start st" "advances st0 u = advances st u" for u
    using st by (simp_all add: st0_def)
  obtain l s1 l2 s2 where p: "primary fuel st0 = Some (Inr (l, s1))"
    and o: "operator_loop fuel m l s1 = Some (Inr (l2, s2))"
    and r: "(if m = 0 \<and> is_text s2 ''?'' then
            thenP (Some (take_lexeme s2)) (\<lambda>_ st. thenP (expression fuel 0 st) (\<lambda>y st.
            thenP (Some (expect '':'' st)) (\<lambda>_ st. thenP (expression fuel 0 st) (\<lambda>no st.
              Some (Inr (Conditional l2 y no (nstart l2) (nend no), st\<lparr>p_depth := p_depth st - 1\<rparr>))))))
          else Some (Inr (l2, s2\<lparr>p_depth := p_depth s2 - 1\<rparr>))) = Some (Inr (n, st'))"
    using e by (auto simp: Let_def thenP_Inr_iff st0_def simp del: thenP.simps split: if_splits)
  note p1 = reads_facts [OF sound_atD(3) [OF s st0(1) p]]
  have "read_node (current_start st) l s1" using p1 st0(2) by (simp add: read_node_def)
  from sound_atD(2) [OF s p1(2) o this]
  have o1: "advances s1 s2 \<or> s2 = s1" "read_node (current_start st) l2 s2" by auto
  then have a2: "advances st s2" "wf_state s2"
    using p1(1,2) st0(3) advances_trans advances_wf by blast+
  show ?thesis
  proof (cases "m = 0 \<and> is_text s2 ''?''")
    case True
    with r obtain t1 s3 y s4 t2 s5 no s6 where c: "take_lexeme s2 = Inr (t1, s3)"
      "expression fuel 0 s3 = Some (Inr (y, s4))" "expect '':'' s4 = Inr (t2, s5)"
      "expression fuel 0 s5 = Some (Inr (no, s6))"
      and eq: "n = Conditional l2 y no (nstart l2) (nend no)" "st' = s6\<lparr>p_depth := p_depth s6 - 1\<rparr>"
      by (auto simp: thenP_Inr_iff simp del: thenP.simps)
    from True have q: "is_text s2 ''?''" by simp
    note cs = conditional_sound [OF s a2(2) o1(2) q c]
    from advances_trans [OF a2(1) cs(1)] cs(2) show ?thesis
      unfolding eq reads_def read_node_def wf_state_depth by auto
  next
    case False
    with r a2 o1(2) show ?thesis by (auto simp: reads_def read_node_def)
  qed
qed

lemma operator_loop_sound:
  assumes s: "sound_at fuel" and st: "wf_state st" and l: "read_node a l st"
    and e: "operator_loop (Suc fuel) m l st = Some (Inr (n, st'))"
  shows "(advances st st' \<or> st' = st) \<and> read_node a n st'"
proof (cases "(n, st') = (l, st)")
  case False
  then obtain p token s1 r s2 where pr: "map_of PRECEDENCE (lx_text (p_current st)) = Some p"
    and t: "take_lexeme st = Inr (token, s1)" and r: "expression fuel (p + 1) s1 = Some (Inr (r, s2))"
    and o: "operator_loop fuel m (Binary (lx_text token) l r (nstart l) (nend r)) s2 = Some (Inr (n, st'))"
    using e by (auto simp: thenP_Inr_iff simp del: thenP.simps split: option.splits if_splits)
  note t1 = take_lexeme_steps [OF st t precedence_not_end [OF st pr]]
  note r1 = reads_facts [OF sound_atD(1) [OF s t1(3) r]]
  have "nend l \<le> nstart r" using l t1(7) r1(4) by (simp add: read_node_def)
  moreover have "hasOwn PRECEDENCE (lx_text token)" using pr t1(1) by (simp add: hasOwn_def)
  ultimately have "read_node a (Binary (lx_text token) l r (nstart l) (nend r)) s2"
    using l r1 well_spanned_Binary [of l r] by (auto simp: read_node_def)
  from sound_atD(2) [OF s r1(2) o this] t1(2) r1(1) show ?thesis by (blast intro: advances_trans)
qed (use l in simp)

lemma call_arguments_sound:
  assumes s: "sound_at fuel" and st: "wf_state st" and l: "read_args b args st"
    and e: "call_arguments (Suc fuel) args st = Some (Inr (args', st'))"
  shows "(advances st st' \<or> st' = st) \<and> read_args b args' st'"
proof (cases "is_text st '')''")
  case False
  with e obtain arg s1 where x: "expression fuel 0 st = Some (Inr (arg, s1))"
    and r: "(if \<not> is_text s1 '','' then Some (Inr (args @ [arg], s1))
       else thenP (Some (take_lexeme s1)) (\<lambda>_ st. call_arguments fuel (args @ [arg]) st))
       = Some (Inr (args', st'))"
    by (auto simp: thenP_Inr_iff simp del: thenP.simps)
  note x0 = sound_atD(1) [OF s st x]
  note x1 = reads_facts [OF x0]
  have a1: "read_args b (args @ [arg]) s1" using l x0 read_args_snoc by (auto simp: reads_def)
  show ?thesis
  proof (cases "is_text s1 '',''")
    case True
    with r obtain token s2 where t: "take_lexeme s1 = Inr (token, s2)"
      and c: "call_arguments fuel (args @ [arg]) s2 = Some (Inr (args', st'))"
      by (auto simp: thenP_Inr_iff simp del: thenP.simps)
    note t1 = take_lexeme_steps [OF x1(2) t is_text_not_end [OF x1(2) True]]
    have "read_args b (args @ [arg]) s2"
      using a1 t1(7) by (auto simp: read_args_def intro: spanned_mono)
    from sound_atD(4) [OF s t1(3) c this] x1(1) t1(2) show ?thesis by (blast intro: advances_trans)
  qed (use r x1(1) a1 in auto)
qed (use e l in simp)

lemma leaf_reads:
  assumes "advances st st'" "lx_start token = current_start st" "current_start st < lx_end token"
    "lx_end token \<le> current_start st'" "children n = []" "nstart n = lx_start token"
    "nend n = lx_end token" "well_formed n"
  shows "reads st n st'"
  using assms well_spanned_leaf [of n] by (simp add: reads_def read_node_def)

lemma bracket_sound:
  assumes s: "sound_at fuel" and st: "wf_state st" and kind: "lx_kind (p_current st) \<noteq> K_end"
    and t: "take_lexeme st = Inr (token, s1)" and e: "expression fuel 0 s1 = Some (Inr (x, s2))"
    and c: "expect '')'' s2 = Inr (close, s3)"
  shows "reads st (with_span x (lx_start token) (lx_end close)) s3"
proof -
  note t1 = take_lexeme_steps [OF st t kind]
  note x1 = reads_facts [OF sound_atD(1) [OF s t1(3) e]]
  note c1 = expect_steps [OF x1(2) c]
  have "well_spanned (with_span x (lx_start token) (lx_end close))"
    using x1 t1(4,7) c1(3) by (intro well_spanned_widen) auto
  moreover have "advances st s3" using t1(2) x1(1) c1(1) by (blast intro: advances_trans)
  ultimately show ?thesis using t1(4) c1(4) x1(8) by (simp add: reads_def read_node_def)
qed

lemma unary_sound:
  assumes s: "sound_at fuel" and st: "wf_state st" and kind: "lx_kind (p_current st) \<noteq> K_end"
    and t: "take_lexeme st = Inr (token, s1)" and e: "expression fuel 7 s1 = Some (Inr (x, s2))"
    and o: "lx_text token \<in> {js ''!'', js ''+'', js ''-''}"
  shows "reads st (Unary (lx_text token) x (lx_start token) (nend x)) s2"
proof -
  note t1 = take_lexeme_steps [OF st t kind]
  note x1 = reads_facts [OF sound_atD(1) [OF s t1(3) e]]
  have "advances st s2" using t1(2) x1(1) by (blast intro: advances_trans)
  moreover have "well_spanned (Unary (lx_text token) x (lx_start token) (nend x))"
    using x1 t1(4,7) by (intro well_spanned_Unary) auto
  ultimately show ?thesis using t1(4) x1(6,8) o by (auto simp: reads_def read_node_def)
qed

lemma call_sound:
  assumes s: "sound_at fuel" and st: "wf_state st" and kind: "lx_kind (p_current st) \<noteq> K_end"
    and t: "take_lexeme st = Inr (token, s1)" and o: "is_text s1 ''(''"
    and b: "take_lexeme s1 = Inr (bracket, s2)"
    and a: "call_arguments fuel [] s2 = Some (Inr (args, s3))"
    and c: "expect '')'' s3 = Inr (close, s4)"
    and f: "map_of BILLING_FUNCTIONS f = Some (length args)"
  shows "reads st (Call f args (lx_start token) (lx_end close)) s4"
proof -
  note t1 = take_lexeme_steps [OF st t kind]
  note b1 = take_lexeme_steps [OF t1(3) b is_text_not_end [OF t1(3) o]]
  have "read_args (current_start s2) [] s2" by (simp add: read_args_def)
  from sound_atD(4) [OF s b1(3) a this]
  have a1: "advances s2 s3 \<or> s3 = s2" "read_args (current_start s2) args s3" by auto
  then have s3: "wf_state s3" using b1(3) advances_wf by blast
  note c1 = expect_steps [OF s3 c]
  have "well_spanned (Call f args (lx_start token) (lx_end close))"
    using a1(2) t1(4,7) b1(7) c1(3)
    by (intro well_spanned_Call [where b = "current_start s2" and c = "current_start s3"])
      (auto simp: read_args_def)
  moreover have "advances st s4" using t1(2) b1(2) a1(1) c1(1) by (blast intro: advances_trans)
  ultimately show ?thesis using t1(4) c1(4) a1(2) f
    by (simp add: reads_def read_node_def read_args_def)
qed

lemma name_not_end: "wf_state st \<Longrightarrow> lx_kind (p_current st) = K_end \<Longrightarrow>
  primary (Suc fuel) st \<noteq> Some (Inr (n, st'))"
  by (auto simp: thenP_Inr_iff take_lexeme_def wf_state_def simp del: thenP.simps split: if_splits)

lemma primary_sound:
  assumes s: "sound_at fuel" and st: "wf_state st"
    and e: "primary (Suc fuel) st = Some (Inr (n, st'))"
  shows "reads st n st'"
proof -
  have kind: "lx_kind (p_current st) \<noteq> K_end" using name_not_end [OF st] e by blast
  from e obtain token s1 where t: "take_lexeme st = Inr (token, s1)"
    by (auto simp: thenP_Inr_iff simp del: thenP.simps)
  note t1 = take_lexeme_steps [OF st t kind]
  note body = e [unfolded primary.simps t thenP.simps]
  have "lexeme_ok token" using st t1(1) by (simp add: wf_state_def)
  note token_ok = well_formed_token [OF this]
  consider (leaf) "st' = s1" "children n = []" "nstart n = lx_start token" "nend n = lx_end token"
        "well_formed n"
    | (bracket) x s2 close where "expression fuel 0 s1 = Some (Inr (x, s2))"
        "expect '')'' s2 = Inr (close, st')" "n = with_span x (lx_start token) (lx_end close)"
    | (unary) x where "expression fuel 7 s1 = Some (Inr (x, st'))"
        "lx_text token \<in> {js ''!'', js ''+'', js ''-''}"
        "n = Unary (lx_text token) x (lx_start token) (nend x)"
    | (call) b s2 args s3 close where "is_text s1 ''(''" "take_lexeme s1 = Inr (b, s2)"
        "call_arguments fuel [] s2 = Some (Inr (args, s3))" "expect '')'' s3 = Inr (close, st')"
        "map_of BILLING_FUNCTIONS (lx_text token) = Some (length args)"
        "n = Call (lx_text token) args (lx_start token) (lx_end close)"
    using body
    by (auto simp: thenP_Inr_iff literal_node_def token_ok simp del: thenP.simps split: if_splits)
  then show ?thesis
  proof cases
    case leaf
    with leaf_reads [OF t1(2,4,5,6)] show ?thesis by simp
  qed (use bracket_sound [OF s st kind t] unary_sound [OF s st kind t] call_sound [OF s st kind t] in simp_all)
qed

lemma sound_all: "sound_at fuel"
proof (induction fuel)
  case 0
  show ?case
    by (simp add: sound_at_def sound_expression_def sound_operator_loop_def sound_primary_def
        sound_call_arguments_def)
next
  case (Suc fuel)
  have "sound_expression (Suc fuel)"
    unfolding sound_expression_def using expression_sound [OF Suc] by blast
  moreover have "sound_operator_loop (Suc fuel)"
    unfolding sound_operator_loop_def using operator_loop_sound [OF Suc] by blast
  moreover have "sound_primary (Suc fuel)"
    unfolding sound_primary_def using primary_sound [OF Suc] by blast
  moreover have "sound_call_arguments (Suc fuel)"
    unfolding sound_call_arguments_def using call_arguments_sound [OF Suc] by blast
  ultimately show ?case by (simp add: sound_at_def)
qed

lemmas parser_sound = sound_atD [OF sound_all]

section \<open>Enough fuel\<close>

text \<open>Two units per lexeme left bound every call; the argument loop needs two more.\<close>

definition total_at :: "nat \<Rightarrow> bool" where
  "total_at fuel \<longleftrightarrow>
     (\<forall>m st. wf_state st \<longrightarrow> 2 * remaining st + 1 < fuel \<longrightarrow> expression fuel m st \<noteq> None)
     \<and> (\<forall>m l st. wf_state st \<longrightarrow> 2 * remaining st < fuel \<longrightarrow> operator_loop fuel m l st \<noteq> None)
     \<and> (\<forall>st. wf_state st \<longrightarrow> 2 * remaining st < fuel \<longrightarrow> primary fuel st \<noteq> None)
     \<and> (\<forall>args st. wf_state st \<longrightarrow> 2 * remaining st + 2 < fuel \<longrightarrow> call_arguments fuel args st \<noteq> None)"

lemma total_atD:
  assumes "total_at fuel" "wf_state st"
  shows "2 * remaining st + 1 < fuel \<Longrightarrow> expression fuel m st \<noteq> None"
    "2 * remaining st < fuel \<Longrightarrow> operator_loop fuel m l st \<noteq> None"
    "2 * remaining st < fuel \<Longrightarrow> primary fuel st \<noteq> None"
    "2 * remaining st + 2 < fuel \<Longrightarrow> call_arguments fuel args st \<noteq> None"
  using assms by (simp_all add: total_at_def)

lemma advances_remaining: "advances st st' \<Longrightarrow> wf_state st' \<and> remaining st' < remaining st"
  by (simp add: advances_def)

text \<open>Total correctness of an outcome, and the rule for sequencing.\<close>

definition returns :: "('a \<Rightarrow> ParserState \<Rightarrow> bool) \<Rightarrow> 'a outcome \<Rightarrow> bool" where
  "returns P m \<longleftrightarrow> m \<noteq> None \<and> (\<forall>v st. m = Some (Inr (v, st)) \<longrightarrow> P v st)"

lemma returns_thenP:
  "returns Q m \<Longrightarrow> (\<And>v st. Q v st \<Longrightarrow> returns P (k v st)) \<Longrightarrow> returns P (thenP m k)"
  by (cases m rule: option.exhaust; cases "the m" rule: sum.exhaust) (auto simp: returns_def)

lemma returns_Inr: "P v st \<Longrightarrow> returns P (Some (Inr (v, st)))"
  by (simp add: returns_def)

lemma returns_throw: "returns P (Some (throw c d))" "returns P (Some (throw_at c d p))"
  by (simp_all add: returns_def)

lemma returns_weaken: "returns P m \<Longrightarrow> (\<And>v st. P v st \<Longrightarrow> Q v st) \<Longrightarrow> returns Q m"
  by (auto simp: returns_def)

definition below :: "nat \<Rightarrow> ParserState \<Rightarrow> bool" where
  "below r st \<longleftrightarrow> wf_state st \<and> remaining st < r"

lemma below_depth [simp]: "below r (st\<lparr>p_depth := d\<rparr>) = below r st"
  by (simp add: below_def)

lemma below_trans: "below r st \<Longrightarrow> r \<le> r' \<Longrightarrow> below r' st"
  by (simp add: below_def)

lemma advances_below: "advances st st' \<Longrightarrow> remaining st \<le> r \<Longrightarrow> below r st'"
  by (simp add: advances_def below_def)

lemma take_below:
  "wf_state st \<Longrightarrow> lx_kind (p_current st) \<noteq> K_end
    \<Longrightarrow> returns (\<lambda>token st'. below (remaining st) st') (Some (take_lexeme st))"
  using take_lexeme_steps(2) by (auto simp: returns_def intro: advances_below)

lemma expect_below:
  "wf_state st \<Longrightarrow> t \<noteq> [] \<Longrightarrow> returns (\<lambda>_ st'. below (remaining st) st') (Some (expect t st))"
  by (simp add: returns_def) (blast intro: advances_below expect_steps(1))

lemma expression_below:
  "total_at fuel \<Longrightarrow> wf_state st \<Longrightarrow> 2 * remaining st + 1 < fuel
    \<Longrightarrow> returns (\<lambda>n st'. below (remaining st) st') (expression fuel m st)"
  using total_atD(1) [of fuel st m]
  by (simp add: returns_def) (blast intro: advances_below reads_facts(1) [OF parser_sound(1)])

lemma call_arguments_below:
  "total_at fuel \<Longrightarrow> wf_state st \<Longrightarrow> 2 * remaining st + 2 < fuel
    \<Longrightarrow> returns (\<lambda>args st'. below (Suc (remaining st)) st') (call_arguments fuel [] st)"
  using total_atD(4) parser_sound(4) [of st fuel "[]" _ _ "current_start st"]
  by (fastforce simp: returns_def read_args_def below_def advances_def)

lemma returns_not_None: "returns (\<lambda>_ _. True) m \<Longrightarrow> m \<noteq> None"
  by (simp add: returns_def)

lemma primary_reads_below:
  "total_at fuel \<Longrightarrow> wf_state st \<Longrightarrow> 2 * remaining st < fuel
    \<Longrightarrow> returns (\<lambda>n st'. reads st n st') (primary fuel st)"
  using total_atD(3) parser_sound(3) by (auto simp: returns_def)

lemma conditional_total:
  assumes t: "total_at fuel" and st: "wf_state st" "is_text st ''?''" and f: "2 * remaining st + 1 < fuel"
  shows "returns (\<lambda>_ _. True)
    (thenP (Some (take_lexeme st)) (\<lambda>_ st. thenP (expression fuel 0 st) (\<lambda>y st.
      thenP (Some (expect '':'' st)) (\<lambda>_ st. thenP (expression fuel 0 st) (\<lambda>no st.
        Some (Inr (Conditional c y no (nstart c) (nend no), st\<lparr>p_depth := p_depth st - 1\<rparr>)))))))"
proof (rule returns_thenP [OF take_below [OF st(1) is_text_not_end [OF st]]])
  fix t1 s1 assume s1: "below (remaining st) s1"
  show "returns (\<lambda>_ _. True) (thenP (expression fuel 0 s1) (\<lambda>y st.
      thenP (Some (expect '':'' st)) (\<lambda>_ st. thenP (expression fuel 0 st) (\<lambda>no st.
        Some (Inr (Conditional c y no (nstart c) (nend no), st\<lparr>p_depth := p_depth st - 1\<rparr>))))))"
  proof (rule returns_thenP [OF expression_below [OF t]])
    fix y s2 assume s2: "below (remaining s1) s2"
    show "returns (\<lambda>_ _. True) (thenP (Some (expect '':'' s2)) (\<lambda>_ st. thenP (expression fuel 0 st)
        (\<lambda>no st. Some (Inr (Conditional c y no (nstart c) (nend no), st\<lparr>p_depth := p_depth st - 1\<rparr>)))))"
    proof (rule returns_thenP [OF expect_below])
      fix t2 s3 assume s3: "below (remaining s2) s3"
      show "returns (\<lambda>_ _. True) (thenP (expression fuel 0 s3)
        (\<lambda>no st. Some (Inr (Conditional c y no (nstart c) (nend no), st\<lparr>p_depth := p_depth st - 1\<rparr>))))"
        by (rule returns_thenP [OF expression_below [OF t]])
          (use s1 s2 s3 f in \<open>auto simp: below_def intro: returns_Inr\<close>)
    qed (use s2 in \<open>auto simp: below_def\<close>)
  qed (use s1 f in \<open>auto simp: below_def\<close>)
qed simp

lemma expression_total_step:
  assumes t: "total_at fuel" and st: "wf_state st" and f: "2 * remaining st + 1 < Suc fuel"
  shows "expression (Suc fuel) m st \<noteq> None"
proof (cases "p_depth st + 1 > 128")
  case False
  define st0 where "st0 = st\<lparr>p_depth := p_depth st + 1\<rparr>"
  have st0: "wf_state st0" "remaining st0 = remaining st" using st by (simp_all add: st0_def)
  have loop: "returns (\<lambda>l2 s2. below (remaining st) s2) (operator_loop fuel m l s1)"
    if r: "reads st0 l s1" for l s1
  proof -
    note s1 = reads_facts(1,2) [OF r]
    have rem: "remaining s1 < remaining st" using s1(1) st0(2) by (simp add: advances_def)
    have "advances s1 s2 \<or> s2 = s1" if "operator_loop fuel m l s1 = Some (Inr (l2, s2))" for l2 s2
      using parser_sound(2) [OF s1(2) that, of "current_start st0"] r by (simp add: reads_def)
    with total_atD(2) [OF t s1(2)] rem f s1(2) show ?thesis
      by (fastforce simp: returns_def below_def advances_def)
  qed
  have "returns (\<lambda>_ _. True) (expression (Suc fuel) m st)"
    unfolding expression.simps Let_def st0_def [symmetric]
    using False conditional_total [OF t] f st0
    by (auto simp: st0_def below_def
        intro!: returns_throw returns_thenP [OF primary_reads_below [OF t]] returns_thenP [OF loop] returns_Inr)
  then show ?thesis by (rule returns_not_None)
qed (simp add: Let_def throw_def)

lemma operator_loop_total_step:
  assumes t: "total_at fuel" and st: "wf_state st" and f: "2 * remaining st < Suc fuel"
  shows "operator_loop (Suc fuel) m l st \<noteq> None"
proof (cases "map_of PRECEDENCE (lx_text (p_current st))")
  case (Some p)
  have "returns (\<lambda>_ _. True) (thenP (Some (take_lexeme st)) (\<lambda>token st.
      thenP (expression fuel (p + 1) st) (\<lambda>right st. operator_loop fuel m
        (Binary (lx_text token) l right (nstart l) (nend right)) st)))"
  proof (rule returns_thenP [OF take_below [OF st precedence_not_end [OF st Some]]])
    fix token s1 assume s1: "below (remaining st) s1"
    show "returns (\<lambda>_ _. True) (thenP (expression fuel (p + 1) s1) (\<lambda>right st.
      operator_loop fuel m (Binary (lx_text token) l right (nstart l) (nend right)) st))"
    proof (rule returns_thenP [OF expression_below [OF t]])
      fix r s2 assume "below (remaining s1) s2"
      with s1 f total_atD(2) [OF t, of s2]
      show "returns (\<lambda>_ _. True)
        (operator_loop fuel m (Binary (lx_text token) l r (nstart l) (nend r)) s2)"
        by (simp add: below_def returns_def)
    qed (use s1 f in \<open>auto simp: below_def\<close>)
  qed
  with Some returns_not_None show ?thesis by (auto simp: returns_def)
qed simp

lemma call_arguments_total_step:
  assumes t: "total_at fuel" and st: "wf_state st" and f: "2 * remaining st + 2 < Suc fuel"
  shows "call_arguments (Suc fuel) args st \<noteq> None"
proof (cases "is_text st '')''")
  case False
  have "returns (\<lambda>_ _. True) (thenP (expression fuel 0 st) (\<lambda>arg st.
      if \<not> is_text st '','' then Some (Inr (args @ [arg], st))
      else thenP (Some (take_lexeme st)) (\<lambda>_ st. call_arguments fuel (args @ [arg]) st)))"
  proof (rule returns_thenP [OF expression_below [OF t st]])
    fix arg s1 assume s1: "below (remaining st) s1"
    show "returns (\<lambda>_ _. True) (if \<not> is_text s1 '','' then Some (Inr (args @ [arg], s1))
      else thenP (Some (take_lexeme s1)) (\<lambda>_ st. call_arguments fuel (args @ [arg]) st))"
    proof (cases "is_text s1 '',''")
      case True
      have w: "wf_state s1" using s1 by (simp add: below_def)
      have "returns (\<lambda>_ _. True)
        (thenP (Some (take_lexeme s1)) (\<lambda>_ st. call_arguments fuel (args @ [arg]) st))"
      proof (rule returns_thenP [OF take_below [OF w is_text_not_end [OF w True]]])
        fix token s2 assume "below (remaining s1) s2"
        with s1 f total_atD(4) [OF t, of s2]
        show "returns (\<lambda>_ _. True) (call_arguments fuel (args @ [arg]) s2)"
          by (simp add: below_def returns_def)
      qed simp
      with True show ?thesis by simp
    qed (simp add: returns_Inr)
  qed (use f in simp)
  with False returns_not_None show ?thesis by (auto simp: returns_def)
qed simp

lemma call_total:
  assumes t: "total_at fuel" and st: "wf_state st" "is_text st ''(''" and f: "2 * remaining st < fuel"
  shows "returns (\<lambda>_ _. True) (thenP (Some (take_lexeme st)) (\<lambda>_ st.
      thenP (call_arguments fuel [] st) (\<lambda>args st.
      thenP (Some (expect '')'' st)) (\<lambda>close st.
        if map_of BILLING_FUNCTIONS f' \<noteq> Some (length args) then Some (throw_at D_type f' s)
        else Some (Inr (Call f' args s (lx_end close), st))))))"
proof (rule returns_thenP [OF take_below [OF st(1) is_text_not_end [OF st]]])
  fix token s1 assume s1: "below (remaining st) s1"
  show "returns (\<lambda>_ _. True) (thenP (call_arguments fuel [] s1) (\<lambda>args st.
      thenP (Some (expect '')'' st)) (\<lambda>close st.
        if map_of BILLING_FUNCTIONS f' \<noteq> Some (length args) then Some (throw_at D_type f' s)
        else Some (Inr (Call f' args s (lx_end close), st)))))"
  proof (rule returns_thenP [OF call_arguments_below [OF t]])
    fix args s2 assume s2: "below (Suc (remaining s1)) s2"
    show "returns (\<lambda>_ _. True) (thenP (Some (expect '')'' s2)) (\<lambda>close st.
        if map_of BILLING_FUNCTIONS f' \<noteq> Some (length args) then Some (throw_at D_type f' s)
        else Some (Inr (Call f' args s (lx_end close), st))))"
      by (rule returns_thenP [OF expect_below]) (use s2 in \<open>auto simp: below_def returns_def\<close>)
  qed (use s1 f in \<open>auto simp: below_def\<close>)
qed simp

lemma primary_end_total: "wf_state st \<Longrightarrow> lx_kind (p_current st) = K_end
    \<Longrightarrow> primary (Suc fuel) st \<noteq> None"
  by (cases "take_lexeme st")
    (auto simp: wf_state_def throw_at_def take_lexeme_def andThen_Inr_iff)

lemma primary_total_step:
  assumes t: "total_at fuel" and st: "wf_state st" and f: "2 * remaining st < Suc fuel"
  shows "primary (Suc fuel) st \<noteq> None"
proof (cases "lx_kind (p_current st) = K_end")
  case False
  have bracket: "returns (\<lambda>_ _. True) (thenP (expression fuel 0 s1) (\<lambda>inner st.
      thenP (Some (expect '')'' st)) (\<lambda>close st.
        Some (Inr (with_span inner a (lx_end close), st)))))"
    if s1: "below (remaining st) s1" for s1 a
  proof (rule returns_thenP [OF expression_below [OF t]])
    fix x s2 assume s2: "below (remaining s1) s2"
    show "returns (\<lambda>_ _. True) (thenP (Some (expect '')'' s2)) (\<lambda>close st.
        Some (Inr (with_span x a (lx_end close), st))))"
      by (rule returns_thenP [OF expect_below]) (use s2 in \<open>auto simp: below_def returns_def\<close>)
  qed (use s1 f in \<open>auto simp: below_def\<close>)
  have unary: "returns (\<lambda>_ _. True) (thenP (expression fuel 7 s1) (\<lambda>x st.
      Some (Inr (Unary op x a (nend x), st))))" if s1: "below (remaining st) s1" for s1 a op
    by (rule returns_thenP [OF expression_below [OF t]])
      (use s1 f in \<open>auto simp: below_def returns_def\<close>)
  have call: "2 * remaining s1 < fuel" "wf_state s1" if "below (remaining st) s1" for s1
    using that f by (auto simp: below_def)
  have "returns (\<lambda>_ _. True) (primary (Suc fuel) st)"
    unfolding primary.simps
    by (rule returns_thenP [OF take_below [OF st False]])
      (auto intro: returns_Inr returns_throw bracket unary call_total [OF t] call simp del: thenP.simps)
  then show ?thesis by (rule returns_not_None)
qed (use primary_end_total st in blast)

lemma total_all: "total_at fuel"
proof (induction fuel)
  case (Suc fuel)
  show ?case
    unfolding total_at_def
    using expression_total_step [OF Suc] operator_loop_total_step [OF Suc]
      primary_total_step [OF Suc] call_arguments_total_step [OF Suc] by blast
qed (simp add: total_at_def)

section \<open>What a parsed tree is like\<close>

lemma new_parser_wf:
  assumes "new_parser src = Inr st"
  shows "wf_state st" "p_source st = src" "remaining st \<le> Suc (length src)"
proof -
  obtain st0 lx st1 where n: "next_lexeme st0 = Inr (lx, st1)" and st: "st = st1\<lparr>p_current := lx\<rparr>"
    and src: "p_source st0 = src" and c: "p_cursor st0 \<le> length src"
  proof -
    have c: "(case match_version src of Some (ds, n) \<Rightarrow> n | None \<Rightarrow> 0) \<le> length src"
      using match_version_length by (auto split: option.splits)
    from assms that show ?thesis
      by (auto simp: new_parser_def Let_def c split: if_splits)
  qed
  from c src have "p_cursor st0 \<le> length (p_source st0)" by simp
  note f = next_lexeme_Inr [OF n this]
  from f st show "wf_state st" by (auto simp: wf_state_def)
  from f(1) st src show "p_source st = src" by simp
  then have "remaining st = length src - lx_end (p_current st) + (if lx_kind (p_current st) = K_end then 0 else 1)"
    by (simp only: remaining_def)
  then show "remaining st \<le> Suc (length src)" by (auto split: if_splits)
qed

lemma parser_returns:
  "new_parser src = Inr st \<Longrightarrow> expression (parse_fuel src) 0 st \<noteq> None"
  using total_atD(1) [OF total_all new_parser_wf(1)] new_parser_wf(3)
  by (fastforce simp: parse_fuel_def)

lemma parse_Inr:
  assumes "parse src = Inr n"
  obtains st st' where "new_parser src = Inr st" "expression (parse_fuel src) 0 st = Some (Inr (n, st'))"
    "lx_kind (p_current st') = K_end"
  using assms by (auto simp: parse_def split: option.splits sum.splits if_splits)

lemma parse_node:
  assumes "parse src = Inr n"
  shows "well_spanned n" "nend n \<le> length src" "well_formed n"
proof -
  from parse_Inr [OF assms] obtain st st' where st: "new_parser src = Inr st"
    and e: "expression (parse_fuel src) 0 st = Some (Inr (n, st'))" by metis
  note wf = new_parser_wf [OF st]
  note r = parser_sound(1) [OF wf(1) e]
  from reads_facts [OF r] show "well_spanned n" "well_formed n" by blast+
  have "wf_state st'" "p_source st' = src" using r wf(2) by (auto simp: reads_def advances_def)
  then have "current_start st' \<le> length src"
    by (auto simp: wf_state_def current_start_def split: if_splits)
  with reads_facts(6) [OF r] show "nend n \<le> length src" by simp
qed

text \<open>The spans of the nodes below a node lie in its span, and no two nodes of a tree are equal.\<close>

lemma well_spanned_child:
  "well_spanned n \<Longrightarrow> c \<in> set (children n) \<Longrightarrow>
    well_spanned c \<and> nstart n \<le> nstart c \<and> nend c \<le> nend n \<and> (nstart c, nend c) \<noteq> (nstart n, nend n)"
  using spanned_member [of "nstart n" "children n" "nend n" c]
  by (auto simp: well_spanned.simps [of n] list_all_iff)

lemma well_spanned_subnode:
  "well_spanned n \<Longrightarrow> m \<in> set (postorder n) \<Longrightarrow>
    well_spanned m \<and> nstart n \<le> nstart m \<and> nend m \<le> nend n"
proof (induction n rule: postorder.induct)
  case (1 n)
  from 1(3) consider "m = n" | c where "c \<in> set (children n)" "m \<in> set (postorder c)"
    by (auto simp: postorder.simps [of n])
  then show ?case
  proof cases
    case 2
    from well_spanned_child [OF 1(2) 2(1)] 1(1) [OF 2(1) _ 2(2)] show ?thesis by fastforce
  qed (use 1(2) in simp)
qed

lemma distinct_concat_postorder:
  "spanned a ns b \<Longrightarrow> (\<And>n. n \<in> set ns \<Longrightarrow> well_spanned n \<and> distinct (postorder n))
    \<Longrightarrow> distinct (concat (map postorder ns))"
proof (induction ns arbitrary: a)
  case (Cons n ns)
  have sp: "spanned (nend n) ns b" using Cons.prems(1) by simp
  have "set (postorder n) \<inter> set (concat (map postorder ns)) = {}"
  proof (rule ccontr)
    assume "\<not> ?thesis"
    then obtain m k where m: "m \<in> set (postorder n)" "k \<in> set ns" "m \<in> set (postorder k)" by auto
    have "well_spanned m \<and> nend m \<le> nend n" and "nstart k \<le> nstart m"
      using Cons.prems(2) m well_spanned_subnode by auto
    with spanned_member [OF sp m(2)] well_spanned_bounds [of m] show False by simp
  qed
  with Cons.IH [OF sp] Cons.prems(2) show ?case by simp
qed simp

lemma well_spanned_distinct: "well_spanned n \<Longrightarrow> distinct (postorder n)"
proof (induction n rule: postorder.induct)
  case (1 n)
  have children: "well_spanned c \<and> distinct (postorder c)" if "c \<in> set (children n)" for c
    using 1 that well_spanned_child by auto
  have "n \<notin> set (postorder c)" if c: "c \<in> set (children n)" for c
  proof
    assume "n \<in> set (postorder c)"
    with well_spanned_subnode [of c n] children [OF c]
    have "nstart c \<le> nstart n" "nend n \<le> nend c" by auto
    with well_spanned_child [OF 1(2) c] show False by auto
  qed
  moreover have "distinct (concat (map postorder (children n)))"
    using 1(2) children by (intro distinct_concat_postorder) (auto simp: well_spanned.simps [of n])
  ultimately show ?case by (subst postorder.simps) auto
qed

lemma parsed_distinct: "parse src = Inr n \<Longrightarrow> distinct (postorder n)"
  using well_spanned_distinct parse_node(1) by blast

end
