(* ===== verification/BillingCheck.thy ===== *)
theory BillingCheck
  imports BillingParser
begin

text \<open>
  The static checks of \<open>billing-expression/parser.ts\<close>: \<open>checkExpressionTypes\<close>, which records a type
  for every visited node in a map, and \<open>validateFixedPricingTree\<close>. The checker is shown to accept
  exactly the trees that have a type in the declarative typing relation \<open>has_type\<close>, and to record
  the type the relation gives.
\<close>

section \<open>The type checker\<close>

datatype ExpressionType = ET_number | ET_string | ET_boolean | ET_nil | ET_dynamic

fun type_name :: "ExpressionType \<Rightarrow> jstr" where
  "type_name ET_number = js ''number''"
| "type_name ET_string = js ''string''"
| "type_name ET_boolean = js ''boolean''"
| "type_name ET_nil = js ''nil''"
| "type_name ET_dynamic = js ''dynamic''"

type_synonym type_map = "ExpressionNode \<Rightarrow> ExpressionType option"

definition requireType :: "type_map \<Rightarrow> ExpressionNode \<Rightarrow> ExpressionType \<Rightarrow> thrown + unit" where
  "requireType types child expected =
     (let actual = types child in
      if actual \<noteq> Some expected \<and> actual \<noteq> Some ET_dynamic
      then throw_at D_type (type_name expected @ js '' operand'') (nstart child)
      else Inr ())"

text \<open>\<open>requireType(node.args[i], expected)\<close>; a missing argument is \<open>undefined\<close>.\<close>

definition requireArg ::
  "type_map \<Rightarrow> ExpressionNode list \<Rightarrow> nat \<Rightarrow> ExpressionType \<Rightarrow> thrown + unit" where
  "requireArg types args i expected =
     (case nth_opt args i of
        None \<Rightarrow> Inl (OtherError (js ''TypeError''))
      | Some child \<Rightarrow> requireType types child expected)"

fun requireAll :: "type_map \<Rightarrow> ExpressionNode list \<Rightarrow> ExpressionType \<Rightarrow> thrown + unit" where
  "requireAll types [] expected = Inr ()"
| "requireAll types (c # cs) expected =
     andThen (requireType types c expected) (\<lambda>_. requireAll types cs expected)"

fun literal_type :: "literal \<Rightarrow> ExpressionType" where
  "literal_type LNull = ET_nil"
| "literal_type (LNum _) = ET_number"
| "literal_type (LStr _) = ET_string"
| "literal_type (LBool _) = ET_boolean"

definition LOGICAL :: "jstr set" where
  "LOGICAL = {js ''&&'', js ''||''}"

definition COMPARISON :: "jstr set" where
  "COMPARISON = {js ''=='', js ''!='', js ''<'', js ''<='', js ''>'', js ''>=''}"

definition NUMERIC_CALLS :: "jstr set" where
  "NUMERIC_CALLS = {js ''fixed'', js ''min'', js ''max'', js ''abs'', js ''ceil'', js ''floor''}"

definition check_binary ::
  "type_map \<Rightarrow> jstr \<Rightarrow> ExpressionNode \<Rightarrow> ExpressionNode \<Rightarrow> thrown + ExpressionType" where
  "check_binary types op l r =
     (if op \<in> LOGICAL then
        andThen (requireType types l ET_boolean) (\<lambda>_.
        andThen (requireType types r ET_boolean) (\<lambda>_. Inr ET_boolean))
      else if op \<in> COMPARISON then Inr ET_boolean
      else if op = js ''+'' \<and> types l = Some ET_string \<and> types r = Some ET_string then Inr ET_string
      else
        andThen (requireType types l ET_number) (\<lambda>_.
        andThen (requireType types r ET_number) (\<lambda>_. Inr ET_number)))"

definition check_call :: "type_map \<Rightarrow> jstr \<Rightarrow> ExpressionNode list \<Rightarrow> thrown + ExpressionType" where
  "check_call types f args =
     andThen
       (if f \<in> {js ''param'', js ''header'', js ''u''} \<union> set TIME_FUNCTIONS
        then requireArg types args 0 ET_string else Inr ())
       (\<lambda>_.
         if f = js ''header'' then Inr ET_string
         else if f = js ''has'' then
           andThen (requireArg types args 1 ET_string) (\<lambda>_. Inr ET_boolean)
         else if f = js ''tier'' then
           andThen (requireArg types args 0 ET_string) (\<lambda>_.
           andThen (requireArg types args 1 ET_number) (\<lambda>_. Inr ET_number))
         else if f \<in> set TIME_FUNCTIONS then Inr ET_number
         else if f \<in> NUMERIC_CALLS then
           andThen (requireAll types args ET_number) (\<lambda>_. Inr ET_number)
         else Inr ET_dynamic)"

definition check_node :: "type_map \<Rightarrow> ExpressionNode \<Rightarrow> thrown + ExpressionType" where
  "check_node types node =
     (case node of
        Literal v _ _ _ \<Rightarrow> Inr (literal_type v)
      | Variable _ _ _ \<Rightarrow> Inr ET_number
      | Unary op x _ _ \<Rightarrow>
          let result = (if op = js ''!'' then ET_boolean else ET_number) in
          andThen (requireType types x result) (\<lambda>_. Inr result)
      | Conditional c y n _ _ \<Rightarrow>
          andThen (requireType types c ET_boolean) (\<lambda>_.
            Inr (if types y = types n
                 then (case types y of Some t \<Rightarrow> t | None \<Rightarrow> ET_dynamic)
                 else ET_dynamic))
      | Binary op l r _ _ \<Rightarrow> check_binary types op l r
      | Call f args _ _ \<Rightarrow> check_call types f args)"

definition type_visitor :: "type_map visitor" where
  "type_visitor node types = andThen (check_node types node) (\<lambda>t. Inr (types(node \<mapsto> t)))"

definition checkExpressionTypes :: "ExpressionNode \<Rightarrow> thrown + unit" where
  "checkExpressionTypes ast =
     andThen (visitExpression ast type_visitor Map.empty) (\<lambda>_. Inr ())"

section \<open>The typing relation\<close>

text \<open>\<open>dynamic\<close> is accepted wherever a type is required; the value is checked when it is used.\<close>

definition accepts :: "ExpressionType \<Rightarrow> ExpressionType \<Rightarrow> bool" where
  "accepts t expected \<longleftrightarrow> t = expected \<or> t = ET_dynamic"

inductive has_type :: "ExpressionNode \<Rightarrow> ExpressionType \<Rightarrow> bool" where
  literal: "has_type (Literal v i s e) (literal_type v)"
| variable: "has_type (Variable name s e) ET_number"
| negation: "has_type x t \<Longrightarrow> accepts t ET_boolean
    \<Longrightarrow> has_type (Unary (js ''!'') x s e) ET_boolean"
| sign: "op \<noteq> js ''!'' \<Longrightarrow> has_type x t \<Longrightarrow> accepts t ET_number \<Longrightarrow> has_type (Unary op x s e) ET_number"
| conditional: "has_type c tc \<Longrightarrow> accepts tc ET_boolean \<Longrightarrow> has_type y ty \<Longrightarrow> has_type n tn
    \<Longrightarrow> has_type (Conditional c y n s e) (if ty = tn then ty else ET_dynamic)"
| logical: "op \<in> LOGICAL \<Longrightarrow> has_type l t1 \<Longrightarrow> has_type r t2 \<Longrightarrow> accepts t1 ET_boolean
    \<Longrightarrow> accepts t2 ET_boolean \<Longrightarrow> has_type (Binary op l r s e) ET_boolean"
| comparison: "op \<in> COMPARISON \<Longrightarrow> has_type l t1 \<Longrightarrow> has_type r t2
    \<Longrightarrow> has_type (Binary op l r s e) ET_boolean"
| concatenation: "has_type l ET_string \<Longrightarrow> has_type r ET_string
    \<Longrightarrow> has_type (Binary (js ''+'') l r s e) ET_string"
| arithmetic: "op \<notin> LOGICAL \<union> COMPARISON \<Longrightarrow> has_type l t1 \<Longrightarrow> has_type r t2
    \<Longrightarrow> accepts t1 ET_number \<Longrightarrow> accepts t2 ET_number \<Longrightarrow> has_type (Binary op l r s e) ET_number"
| lookup: "f \<in> {js ''param'', js ''u''} \<Longrightarrow> has_type a t \<Longrightarrow> accepts t ET_string
    \<Longrightarrow> has_type (Call f [a] s e) ET_dynamic"
| header: "has_type a t \<Longrightarrow> accepts t ET_string \<Longrightarrow> has_type (Call (js ''header'') [a] s e) ET_string"
| time: "f \<in> set TIME_FUNCTIONS \<Longrightarrow> has_type a t \<Longrightarrow> accepts t ET_string
    \<Longrightarrow> has_type (Call f [a] s e) ET_number"
| has: "has_type a t1 \<Longrightarrow> has_type b t2 \<Longrightarrow> accepts t2 ET_string
    \<Longrightarrow> has_type (Call (js ''has'') [a, b] s e) ET_boolean"
| tier: "has_type a t1 \<Longrightarrow> has_type b t2 \<Longrightarrow> accepts t1 ET_string \<Longrightarrow> accepts t2 ET_number
    \<Longrightarrow> has_type (Call (js ''tier'') [a, b] s e) ET_number"
| numeric: "f \<in> NUMERIC_CALLS \<Longrightarrow> map_of BILLING_FUNCTIONS f = Some (length args)
    \<Longrightarrow> \<forall>a \<in> set args. \<exists>t. has_type a t \<and> accepts t ET_number
    \<Longrightarrow> has_type (Call f args s e) ET_number"

inductive_cases has_type_LiteralE [elim!]: "has_type (Literal v i s e) t"
inductive_cases has_type_VariableE [elim!]: "has_type (Variable n s e) t"
inductive_cases has_type_UnaryE: "has_type (Unary op x s e) t"
inductive_cases has_type_BinaryE: "has_type (Binary op l r s e) t"
inductive_cases has_type_ConditionalE: "has_type (Conditional c y n s e) t"
inductive_cases has_type_CallE: "has_type (Call f args s e) t"

lemmas vocabulary_defs = LOGICAL_def COMPARISON_def NUMERIC_CALLS_def TIME_FUNCTIONS_def

lemma operator_classes:
  "op \<in> LOGICAL \<Longrightarrow> op \<notin> COMPARISON" "js ''+'' \<notin> LOGICAL" "js ''+'' \<notin> COMPARISON"
  by (auto simp: vocabulary_defs)

lemma accepts_concrete [simp]:
  "\<not> accepts ET_string ET_number" "\<not> accepts ET_string ET_boolean" "\<not> accepts ET_number ET_string"
  "accepts t t" "accepts ET_dynamic t"
  by (simp_all add: accepts_def)

lemma has_type_unique: "has_type n t \<Longrightarrow> has_type n t' \<Longrightarrow> t' = t"
proof (induction arbitrary: t' rule: has_type.induct)
  case (logical op l t1 r t2 s e)
  from logical.prems logical.hyps(1) show ?case
    by (cases rule: has_type_BinaryE) (auto simp: operator_classes)
next
  case (comparison op l t1 r t2 s e)
  from comparison.prems comparison.hyps(1) show ?case
    by (cases rule: has_type_BinaryE) (auto simp: operator_classes)
next
  case (concatenation l r s e)
  from concatenation.prems concatenation.IH show ?case
    by (cases rule: has_type_BinaryE) (fastforce simp: operator_classes)+
next
  case (arithmetic op l t1 r t2 s e)
  have "\<not> (t1 = ET_string)" using arithmetic.hyps(4) by auto
  with arithmetic.prems arithmetic.hyps(1) show ?case
    by (cases rule: has_type_BinaryE) (use arithmetic.IH(1) in auto)
next
  case (conditional c tc y ty n tn s e)
  from conditional.prems obtain ty' tn' where "has_type y ty'" "has_type n tn'"
    "t' = (if ty' = tn' then ty' else ET_dynamic)"
    by (cases rule: has_type_ConditionalE) (auto split: if_splits)
  with conditional.IH(2) [of ty'] conditional.IH(3) [of tn'] show ?case by simp
next
  case (lookup f a t s e)
  from lookup.prems lookup.hyps(1) show ?case
    by (cases rule: has_type_CallE) (auto simp: vocabulary_defs)
next
  case (header a t s e)
  from header.prems show ?case by (cases rule: has_type_CallE) (auto simp: vocabulary_defs)
next
  case (time f a t s e)
  from time.prems time.hyps(1) show ?case
    by (cases rule: has_type_CallE) (auto simp: vocabulary_defs)
next
  case (has a t1 b t2 s e)
  from has.prems show ?case by (cases rule: has_type_CallE) (auto simp: vocabulary_defs)
next
  case (tier a t1 b t2 s e)
  from tier.prems show ?case by (cases rule: has_type_CallE) (auto simp: vocabulary_defs)
next
  case (numeric f args s e)
  from numeric.prems numeric.hyps(1) show ?case
    by (cases rule: has_type_CallE) (auto simp: vocabulary_defs)
next
  case (negation x t s e)
  from negation.prems show ?case by (cases rule: has_type_UnaryE) auto
next
  case (sign op x t s e)
  from sign.prems sign.hyps(1) show ?case by (cases rule: has_type_UnaryE) auto
qed auto

lemma has_type_children: "has_type n t \<Longrightarrow> c \<in> set (children n) \<Longrightarrow> \<exists>u. has_type c u"
  by (erule has_type.cases) auto

lemma has_type_subnode: "has_type n t \<Longrightarrow> m \<in> set (postorder n) \<Longrightarrow> \<exists>u. has_type m u"
proof (induction n arbitrary: t rule: postorder.induct)
  case (1 n)
  from 1(3) consider "m = n" | c where "c \<in> set (children n)" "m \<in> set (postorder c)"
    by (auto simp: postorder.simps [of n])
  then show ?case
  proof cases
    case 2
    with 1 has_type_children show ?thesis by blast
  qed (use 1(2) in blast)
qed

section \<open>The checker decides the relation\<close>

text \<open>The map after visiting \<open>ns\<close>: the type of every node of \<open>ns\<close>, and nothing else.\<close>

definition records_types :: "ExpressionNode list \<Rightarrow> type_map \<Rightarrow> bool" where
  "records_types ns types \<longleftrightarrow> dom types = set ns \<and> (\<forall>n t. types n = Some t \<longrightarrow> has_type n t)"

lemma records_types_get:
  assumes "records_types ns types" "c \<in> set ns"
  obtains t where "types c = Some t" "has_type c t"
proof -
  from assms have "c \<in> dom types" by (simp add: records_types_def)
  then obtain t where "types c = Some t" by auto
  with that assms(1) show ?thesis by (simp add: records_types_def)
qed

lemma requireType_Inr:
  "requireType types c expected = Inr u \<longleftrightarrow> (\<exists>t. types c = Some t \<and> accepts t expected)"
  by (cases "types c") (auto simp: requireType_def accepts_def)

lemma requireArg_Inr:
  "requireArg types args i expected = Inr u \<longleftrightarrow>
     (\<exists>c t. nth_opt args i = Some c \<and> types c = Some t \<and> accepts t expected)"
  by (auto simp: requireArg_def requireType_Inr split: option.splits)

lemma requireAll_Inr:
  "requireAll types cs expected = Inr u \<longleftrightarrow>
     (\<forall>c \<in> set cs. \<exists>t. types c = Some t \<and> accepts t expected)"
  by (induction cs) (auto simp: andThen_Inr_iff requireType_Inr)

text \<open>The arity of a well-formed call.\<close>

lemma length_1_2:
  "length xs = Suc 0 \<longleftrightarrow> (\<exists>a. xs = [a])" "length xs = 2 \<longleftrightarrow> (\<exists>a b. xs = [a, b])"
  by (auto simp: numeral_2_eq_2 length_Suc_conv)

lemma arity_1:
  "well_formed (Call f args s e) \<Longrightarrow>
    f \<in> {js ''param'', js ''header'', js ''u''} \<union> set TIME_FUNCTIONS \<Longrightarrow> \<exists>a. args = [a]"
  by (auto simp: BILLING_FUNCTIONS_def TIME_FUNCTIONS_def Suc_length_conv)

lemma arity_2:
  "well_formed (Call f args s e) \<Longrightarrow> f \<in> {js ''has'', js ''tier''} \<Longrightarrow> \<exists>a b. args = [a, b]"
  by (auto simp: BILLING_FUNCTIONS_def eq_commute [of _ "length args"] length_1_2 numeral_2_eq_2 [symmetric])

lemma well_formed_call_name:
  "well_formed (Call f args s e) \<Longrightarrow>
    f \<in> {js ''param'', js ''header'', js ''u''} \<union> set TIME_FUNCTIONS \<union> {js ''has'', js ''tier''}
      \<union> NUMERIC_CALLS"
  by (auto simp: BILLING_FUNCTIONS_def vocabulary_defs split: if_splits)

text \<open>One step of the checker against the relation.\<close>

lemma check_call_sound:
  assumes wf: "well_formed (Call f args s e)" and rec: "records_types ns types"
    and sub: "set args \<subseteq> set ns" and c: "check_call types f args = Inr t"
  shows "has_type (Call f args s e) t"
proof -
  have get: "types a = Some u \<Longrightarrow> has_type a u" for a u using rec by (simp add: records_types_def)
  from well_formed_call_name [OF wf] consider
      (one) "f \<in> {js ''param'', js ''header'', js ''u''} \<union> set TIME_FUNCTIONS"
    | (two) "f \<in> {js ''has'', js ''tier''}" | (num) "f \<in> NUMERIC_CALLS" by blast
  then show ?thesis
  proof cases
    case one
    with arity_1 [OF wf one] c obtain a u where a: "args = [a]" "has_type a u" "accepts u ET_string"
      by (auto simp: check_call_def requireArg_Inr dest!: get)
    show ?thesis
    proof (cases "f \<in> set TIME_FUNCTIONS")
      case True
      with c have "t = ET_number" by (auto simp: check_call_def vocabulary_defs)
      with True a show ?thesis by (auto intro: has_type.time)
    next
      case False
      with one a c show ?thesis
        by (auto simp: check_call_def vocabulary_defs intro: has_type.lookup has_type.header)
    qed
  next
    case two
    from arity_2 [OF wf two] obtain a b where args: "args = [a, b]" by blast
    then obtain u v where "has_type a u" "has_type b v" "types a = Some u" "types b = Some v"
      using records_types_get [OF rec] sub by (metis insert_subset list.simps(15))
    note facts = this
    show ?thesis
    proof (cases "f = js ''has''")
      case True
      with facts c args have "accepts v ET_string" "t = ET_boolean"
        by (auto simp: check_call_def requireArg_Inr vocabulary_defs)
      with facts True args has_type.has show ?thesis by blast
    next
      case False
      with two have f: "f = js ''tier''" by simp
      with facts c args have "accepts u ET_string" "accepts v ET_number" "t = ET_number"
        by (auto simp: check_call_def requireArg_Inr vocabulary_defs)
      with facts f args has_type.tier show ?thesis by blast
    qed
  next
    case num
    with c have "t = ET_number" "\<forall>a \<in> set args. \<exists>u. types a = Some u \<and> accepts u ET_number"
      by (auto simp: check_call_def requireAll_Inr vocabulary_defs split: if_splits)
    with num wf get show ?thesis by (fastforce intro: has_type.numeric)
  qed
qed

lemma check_node_sound:
  assumes wf: "well_formed n" and rec: "records_types ns types"
    and sub: "set (children n) \<subseteq> set ns" and c: "check_node types n = Inr t"
  shows "has_type n t"
proof -
  have get: "types a = Some u \<Longrightarrow> has_type a u" for a u using rec by (simp add: records_types_def)
  note have_type = records_types_get [OF rec subsetD [OF sub]]
  show ?thesis
  proof (cases n)
    case (Call f args s e)
    with check_call_sound wf rec sub c show ?thesis by (simp add: check_node_def)
  next
    case (Unary op x s e)
    with c show ?thesis
      by (auto simp: check_node_def Let_def requireType_Inr split: if_splits dest!: get
          intro: has_type.negation has_type.sign)
  next
    case (Binary op l r s e)
    then obtain t1 t2 where "types l = Some t1" "types r = Some t2" "has_type l t1" "has_type r t2"
      using have_type [of l] have_type [of r] by (metis children.simps(3) list.set_intros)
    with Binary c show ?thesis
      by (auto simp: check_node_def check_binary_def requireType_Inr split: if_splits
          intro: has_type.intros)
  next
    case (Conditional b y m s e)
    then obtain t1 t2 where "types y = Some t1" "types m = Some t2" "has_type y t1" "has_type m t2"
      using have_type [of y] have_type [of m] by (metis children.simps(4) list.set_intros)
    moreover from Conditional c obtain u where "has_type b u" "accepts u ET_boolean"
      by (auto simp: check_node_def requireType_Inr dest!: get)
    moreover from calculation Conditional c have "t = (if t1 = t2 then t1 else ET_dynamic)"
      by (auto simp: check_node_def)
    ultimately show ?thesis unfolding Conditional by (simp only: has_type.conditional)
  qed (use c in \<open>auto simp: check_node_def intro: has_type.intros\<close>)
qed

lemma check_node_complete:
  assumes rec: "records_types ns types" and sub: "set (children n) \<subseteq> set ns" and t: "has_type n t"
  shows "\<exists>u. check_node types n = Inr u"
proof -
  have get: "types c = Some u" if "c \<in> set (children n)" "has_type c u" for c u
    using records_types_get [OF rec] has_type_unique that sub by (metis subsetD)
  show ?thesis
    using t
  proof cases
    case (negation x t s e)
    with get [of x t] show ?thesis by (auto simp: check_node_def Let_def andThen_Inr_iff requireType_Inr)
  next
    case (sign op x t s e)
    with get [of x t] show ?thesis by (auto simp: check_node_def Let_def andThen_Inr_iff requireType_Inr)
  next
    case (conditional c tc y ty n tn s e)
    with get [of c tc] show ?thesis by (auto simp: check_node_def andThen_Inr_iff requireType_Inr)
  next
    case (logical op l t1 r t2 s e)
    with get [of l t1] get [of r t2] show ?thesis
      by (auto simp: check_node_def check_binary_def andThen_Inr_iff requireType_Inr)
  next
    case (arithmetic op l t1 r t2 s e)
    with get [of l t1] get [of r t2] show ?thesis
      by (auto simp: check_node_def check_binary_def andThen_Inr_iff requireType_Inr)
  next
    case (concatenation l r s e)
    with get [of l] get [of r] show ?thesis
      by (auto simp: check_node_def check_binary_def operator_classes)
  next
    case (lookup f a t s e)
    with get [of a t] show ?thesis
      by (auto simp: check_node_def check_call_def andThen_Inr_iff requireArg_Inr vocabulary_defs)
  next
    case (header a t s e)
    with get [of a t] show ?thesis
      by (auto simp: check_node_def check_call_def andThen_Inr_iff requireArg_Inr vocabulary_defs)
  next
    case (time f a t s e)
    with get [of a t] show ?thesis
      by (auto simp: check_node_def check_call_def andThen_Inr_iff requireArg_Inr vocabulary_defs)
  next
    case (has a t1 b t2 s e)
    with get [of b t2] show ?thesis
      by (auto simp: check_node_def check_call_def andThen_Inr_iff requireArg_Inr vocabulary_defs)
  next
    case (tier a t1 b t2 s e)
    with get [of a t1] get [of b t2] show ?thesis
      by (auto simp: check_node_def check_call_def andThen_Inr_iff requireArg_Inr vocabulary_defs)
  next
    case (numeric f args s e)
    then have "requireAll types args ET_number = Inr ()"
      using get by (fastforce simp: requireAll_Inr)
    with numeric show ?thesis
      by (auto simp: check_node_def check_call_def vocabulary_defs)
  qed (auto simp: check_node_def check_binary_def operator_classes)
qed

definition typable :: "ExpressionNode \<Rightarrow> bool" where
  "typable n \<longleftrightarrow> (\<exists>t. has_type n t)"

text \<open>
  The checker as a visitor: on well-formed nodes it keeps \<open>records_types\<close>, and it does not throw on
  typable ones.
\<close>

interpretation typing: total_visitor type_visitor records_types well_formed typable
proof unfold_locales
  fix n ns types types'
  assume n: "well_formed n" "set (children n) \<subseteq> set ns" and rec: "records_types ns types"
  {
    assume "type_visitor n types = Inr types'"
    then obtain t where t: "check_node types n = Inr t" "types' = types(n \<mapsto> t)"
      by (auto simp: type_visitor_def)
    with check_node_sound [OF n(1) rec n(2)] rec show "records_types (ns @ [n]) types'"
      by (auto simp: records_types_def)
  next
    assume "typable n"
    with check_node_complete [OF rec n(2)] show "\<exists>s'. type_visitor n types = Inr s'"
      by (fastforce simp: typable_def type_visitor_def andThen_Inr_iff)
  }
qed

lemma well_formed_children: "well_formed n \<Longrightarrow> c \<in> set (children n) \<Longrightarrow> well_formed c"
  by (cases n) (auto simp: list_all_iff)

lemma well_formed_postorder: "well_formed n \<Longrightarrow> list_all well_formed (postorder n)"
proof (induction n rule: postorder.induct)
  case (1 n)
  then show ?case
    using well_formed_children [OF 1(2)] by (auto simp: postorder.simps [of n] list_all_iff)
qed

lemma records_types_Nil [simp]: "records_types [] Map.empty"
  by (simp add: records_types_def)

lemma checkExpressionTypes_iff:
  assumes "well_formed ast"
  shows "checkExpressionTypes ast = Inr u \<longleftrightarrow> node_depth ast \<le> 256 \<and> typable ast"
proof
  assume "checkExpressionTypes ast = Inr u"
  then obtain types where v: "visitExpression ast type_visitor Map.empty = Inr types"
    by (auto simp: checkExpressionTypes_def)
  from typing.visit_keeps [OF well_formed_postorder [OF assms] records_types_Nil v]
  have "records_types (postorder ast) types" .
  from records_types_get [OF this postorder_self] have "typable ast" by (auto simp: typable_def)
  with v show "node_depth ast \<le> 256 \<and> typable ast" by (simp add: visitExpression_Inr)
next
  assume ast: "node_depth ast \<le> 256 \<and> typable ast"
  then have "list_all typable (postorder ast)"
    using has_type_subnode by (auto simp: typable_def list_all_iff)
  with ast typing.visit_total [of Map.empty ast] well_formed_postorder [OF assms]
  obtain types where "visitExpression ast type_visitor Map.empty = Inr types" by auto
  then show "checkExpressionTypes ast = Inr u" by (simp add: checkExpressionTypes_def)
qed

section \<open>Fixed pricing\<close>

definition containsPricingMarker :: "ExpressionNode \<Rightarrow> thrown + bool" where
  "containsPricingMarker node =
     andThen (expressionDependencies node) (\<lambda>(variables, functions).
       Inr (js ''tier'' \<in> set functions \<or> js ''fixed'' \<in> set functions))"

definition find_rule :: "RequestRule list \<Rightarrow> ExpressionNode \<Rightarrow> RequestRule option" where
  "find_rule rules node = find (\<lambda>rule. rule_node rule = node) rules"

definition fixed_pricing_message :: jstr where
  "fixed_pricing_message = js ''Use tier(name, fixed(amount)) with a finite, non-negative numeric literal; combine pricing branches only with conditions and request multipliers.''"

text \<open>\<open>amount.kind === 'literal'\<close> with a finite, non-negative price.\<close>

fun is_fixed_amount :: "ExpressionNode \<Rightarrow> bool" where
  "is_fixed_amount (Literal (LNum v) _ _ _) = (js_le (num 0) v \<and> isFinite (js_mul v (num 1000000)))"
| "is_fixed_amount _ = False"

text \<open>A factor that may multiply a fixed price: \<open>image_count\<close> or a non-negative request rule.\<close>

definition price_factor :: "RequestRule list \<Rightarrow> ExpressionNode \<Rightarrow> thrown + bool" where
  "price_factor rules factor =
     (if (case factor of Variable name _ _ \<Rightarrow> name = js ''image_count'' | _ \<Rightarrow> False) then Inr True
      else
        (case find_rule rules factor of
           None \<Rightarrow> Inr False
         | Some rule \<Rightarrow>
             if js_le (num 0) (rule_multiplier rule) then
               andThen (containsPricingMarker (rule_condition rule)) (\<lambda>marked. Inr (\<not> marked))
             else Inr False))"

definition validate_tier :: "ExpressionNode \<Rightarrow> thrown + unit" where
  "validate_tier node =
     (let failure = throw_at D_type fixed_pricing_message (nstart node) in
      case node of
        Call f args _ _ \<Rightarrow>
          if f \<noteq> js ''tier'' then failure
          else (case args of
            label # price # _ \<Rightarrow>
              andThen (containsPricingMarker label) (\<lambda>marked.
                if marked then failure
                else (case price of
                  Call g gargs _ _ \<Rightarrow>
                    if g = js ''fixed'' then
                      (case gargs of
                         amount # _ \<Rightarrow> if is_fixed_amount amount then Inr () else failure
                       | [] \<Rightarrow> Inl (OtherError (js ''TypeError'')))
                    else andThen (containsPricingMarker price)
                           (\<lambda>marked. if marked then failure else Inr ())
                | _ \<Rightarrow> andThen (containsPricingMarker price)
                           (\<lambda>marked. if marked then failure else Inr ())))
          | _ \<Rightarrow> Inl (OtherError (js ''TypeError'')))
      | _ \<Rightarrow> failure)"

function validateFixedPricingTree :: "ExpressionNode \<Rightarrow> RequestRule list \<Rightarrow> thrown + unit" where
  "validateFixedPricingTree node rules =
     (case node of
        Conditional condition yes no _ _ \<Rightarrow>
          andThen (containsPricingMarker condition) (\<lambda>marked.
            if \<not> marked then
              andThen (validateFixedPricingTree yes rules) (\<lambda>_. validateFixedPricingTree no rules)
            else validate_tier node)
      | Binary op left right _ _ \<Rightarrow>
          if op = js ''*'' then
            andThen (price_factor rules right) (\<lambda>ok.
              if ok then validateFixedPricingTree left rules
              else
                andThen (price_factor rules left) (\<lambda>ok.
                  if ok then validateFixedPricingTree right rules else validate_tier node))
          else validate_tier node
      | _ \<Rightarrow> validate_tier node)"
  by auto
termination by (relation "measure (\<lambda>(node, rules). size node)") auto

declare validateFixedPricingTree.simps [simp del]

section \<open>What the fixed-price check accepts\<close>

text \<open>
  The grammar of fixed pricing trees: \<open>tier(label, fixed(amount))\<close> with a finite, non-negative literal,
  or a tier with no marker in its price, combined by unmarked conditions and multiplied by
  \<open>image_count\<close> or by non-negative request rules.
\<close>

definition unmarked :: "ExpressionNode \<Rightarrow> bool" where
  "unmarked n \<longleftrightarrow> containsPricingMarker n = Inr False"

definition priced_factor :: "RequestRule list \<Rightarrow> ExpressionNode \<Rightarrow> bool" where
  "priced_factor rules factor \<longleftrightarrow>
     (\<exists>s e. factor = Variable (js ''image_count'') s e)
     \<or> (\<exists>rule. find_rule rules factor = Some rule \<and> js_le (num 0) (rule_multiplier rule)
               \<and> unmarked (rule_condition rule))"

inductive fixed_tree :: "RequestRule list \<Rightarrow> ExpressionNode \<Rightarrow> bool" for rules where
  fixed_price: "is_fixed_amount amount \<Longrightarrow> unmarked label
    \<Longrightarrow> fixed_tree rules (Call (js ''tier'') (label # Call (js ''fixed'') (amount # rest') s1 e1 # rest) s e)"
| plain_price: "unmarked label \<Longrightarrow> unmarked price
    \<Longrightarrow> fixed_tree rules (Call (js ''tier'') (label # price # rest) s e)"
| branch: "unmarked c \<Longrightarrow> fixed_tree rules y \<Longrightarrow> fixed_tree rules n
    \<Longrightarrow> fixed_tree rules (Conditional c y n s e)"
| right_factor: "priced_factor rules r \<Longrightarrow> fixed_tree rules l
    \<Longrightarrow> fixed_tree rules (Binary (js ''*'') l r s e)"
| left_factor: "priced_factor rules l \<Longrightarrow> fixed_tree rules r
    \<Longrightarrow> fixed_tree rules (Binary (js ''*'') l r s e)"

lemma priced_factor_iff: "price_factor rules f = Inr True \<Longrightarrow> priced_factor rules f"
  by (cases f) (auto simp: price_factor_def priced_factor_def unmarked_def andThen_Inr_iff
      split: option.splits if_splits)

lemma fixed_marker: "unmarked (Call (js ''fixed'') args s e) \<Longrightarrow> False"
proof -
  assume "unmarked (Call (js ''fixed'') args s e)"
  then obtain vs fs where d: "expressionDependencies (Call (js ''fixed'') args s e) = Inr (vs, fs)"
    and m: "js ''fixed'' \<notin> set fs"
    by (auto simp: unmarked_def containsPricingMarker_def)
  have "js ''fixed'' \<in> function_names (set (postorder (Call (js ''fixed'') args s e)))"
    using postorder_self by (force simp: function_names_def)
  with expressionDependencies_sets(2) [OF d] m show False by simp
qed

lemma validate_tier_Inr:
  "validate_tier node = Inr () \<Longrightarrow> fixed_tree rules node"
  by (auto simp: validate_tier_def Let_def unmarked_def andThen_Inr_iff
      split: ExpressionNode.splits if_splits list.splits
      intro: fixed_price plain_price)

lemma validateFixedPricingTree_sound:
  "validateFixedPricingTree node rules = Inr () \<Longrightarrow> fixed_tree rules node"
proof (induction node rules rule: validateFixedPricingTree.induct)
  case (1 node rules)
  note IH = 1
  show ?case
  proof (cases node)
    case (Conditional c y n s e)
    with 1(5) consider "unmarked c" "validateFixedPricingTree y rules = Inr ()"
        "validateFixedPricingTree n rules = Inr ()"
      | "validate_tier node = Inr ()"
      by (auto simp: validateFixedPricingTree.simps [of "Conditional c y n s e"] unmarked_def split: if_splits)
    then show ?thesis
    proof cases
      case 1
      then have c: "containsPricingMarker c = Inr False" by (simp add: unmarked_def)
      from IH(3) [OF Conditional c] IH(4) [OF Conditional c] 1
      have "fixed_tree rules y" "fixed_tree rules n" by simp_all
      with 1(1) Conditional show ?thesis by (simp add: branch)
    qed (rule validate_tier_Inr)
  next
    case (Binary op l r s e)
    show ?thesis
    proof (cases "validate_tier node = Inr ()")
      case False
      with 1(5) Binary have op: "op = js ''*''"
        by (auto simp: validateFixedPricingTree.simps [of "Binary op l r s e"] split: if_splits)
      from False 1(5) Binary consider
          "price_factor rules r = Inr True" "validateFixedPricingTree l rules = Inr ()"
        | "price_factor rules r = Inr False" "price_factor rules l = Inr True"
          "validateFixedPricingTree r rules = Inr ()"
        unfolding op Binary validateFixedPricingTree.simps [of "Binary (js ''*'') l r s e"]
        by (auto split: if_splits)
      then show ?thesis
      proof cases
        case 1
        with IH(1) [OF Binary op 1(1)] priced_factor_iff Binary op show ?thesis
          by (simp add: right_factor)
      next
        case 2
        with IH(2) [OF Binary op 2(1) _ 2(2)] priced_factor_iff Binary op show ?thesis
          by (simp add: left_factor)
      qed
    qed (use validate_tier_Inr in blast)
  qed (use 1(5) in \<open>auto simp: validateFixedPricingTree.simps [of "Literal _ _ _ _"]
      validateFixedPricingTree.simps [of "Variable _ _ _"]
      validateFixedPricingTree.simps [of "Call _ _ _ _"]
      validateFixedPricingTree.simps [of "Unary _ _ _ _"] intro: validate_tier_Inr\<close>)
qed

end
