(* ===== verification/BillingCompile.thy ===== *)
theory BillingCompile
  imports BillingCheck
begin

text \<open>
  \<open>compileBillingExpression\<close> of \<open>billing-expression/parser.ts\<close>: parsing, checking, dependency analysis,
  extraction of the request rules, and the first-in-first-out cache of 128 results. A memo table is an
  interface (\<open>memo_table\<close>) that the compile cache implements here and the runtime's time zone table
  implements in \<open>BillingRuntime\<close>.
\<close>

section \<open>Compilation\<close>

definition RULE_FUNCTIONS :: "jstr set" where
  "RULE_FUNCTIONS = {js ''param'', js ''header''} \<union> set TIME_FUNCTIONS"

text \<open>\<open>node.yes\<close> a number literal and \<open>node.no\<close> the literal 1.\<close>

fun rule_multiplier_of :: "ExpressionNode \<Rightarrow> (ExpressionNode \<times> jsnum) option" where
  "rule_multiplier_of (Conditional c (Literal (LNum m) _ _ _) (Literal (LNum one) _ _ _) _ _) =
     (if js_num_eq one (num 1) then Some (c, m) else None)"
| "rule_multiplier_of _ = None"

definition request_rule_visitor :: "jstr \<Rightarrow> RequestRule list visitor" where
  "request_rule_visitor src node rules =
     (case rule_multiplier_of node of
        None \<Rightarrow> Inr rules
      | Some (condition, multiplier) \<Rightarrow>
          andThen (expressionDependencies condition) (\<lambda>(variables, functions).
            if \<not> list_ex (\<lambda>name. name \<in> RULE_FUNCTIONS) functions then Inr rules
            else Inr (rules @ [\<lparr>rule_node = node, rule_condition = condition,
                                rule_multiplier = multiplier,
                                rule_cond = slice src (nstart condition) (nend condition)\<rparr>])))"

definition compile_ready :: "jstr \<Rightarrow> thrown + CompiledBillingExpression" where
  "compile_ready src =
     andThen (parse src) (\<lambda>ast.
     andThen (checkExpressionTypes ast) (\<lambda>_.
     andThen (expressionDependencies ast) (\<lambda>(variables, functions).
     andThen (visitExpression ast (request_rule_visitor src) []) (\<lambda>rules.
     andThen (if js ''fixed'' \<in> set functions then validateFixedPricingTree ast rules else Inr ()) (\<lambda>_.
       Inr \<lparr>c_source = src, c_ast = ast, c_variables = variables, c_functions = functions,
            c_requestRules = rules\<rparr>)))))"

definition compile_source :: "jstr \<Rightarrow> CompilationResult" where
  "compile_source src =
     (case compile_ready src of
        Inr compiled \<Rightarrow> Ready compiled
      | Inl error \<Rightarrow> Failed (expressionFailure error))"

text \<open>The cache: a \<open>Map\<close> in insertion order.\<close>

type_synonym compile_cache = "(jstr \<times> CompilationResult) list"

definition cache_put :: "compile_cache \<Rightarrow> jstr \<Rightarrow> CompilationResult \<Rightarrow> compile_cache" where
  "cache_put cache src result =
     (if length cache \<ge> 128 then tl cache else cache) @ [(src, result)]"

definition compileBillingExpression ::
  "compile_cache \<Rightarrow> jstr \<Rightarrow> CompilationResult \<times> compile_cache" where
  "compileBillingExpression cache src =
     (case map_of cache src of
        Some cached \<Rightarrow> (cached, cache)
      | None \<Rightarrow>
          let result = compile_source src in
          (result, cache_put cache src result))"

section \<open>Memo tables\<close>

text \<open>
  A table from keys to computed results, \<open>computes k v\<close> saying that \<open>v\<close> is one for \<open>k\<close>. An entry is only added under a key that has none; adding may
  drop other entries but never changes one.
\<close>

locale memo_table =
  fixes get :: "'c \<Rightarrow> 'k \<Rightarrow> 'v option"
    and put :: "'c \<Rightarrow> 'k \<Rightarrow> 'v \<Rightarrow> 'c"
    and inv :: "'c \<Rightarrow> bool"
    and computes :: "'k \<Rightarrow> 'v \<Rightarrow> bool"
  assumes put_inv: "inv c \<Longrightarrow> get c k = None \<Longrightarrow> inv (put c k v)"
    and get_put_same: "inv c \<Longrightarrow> get c k = None \<Longrightarrow> get (put c k v) k = Some v"
    and get_put_other: "inv c \<Longrightarrow> get c k = None \<Longrightarrow> k' \<noteq> k \<Longrightarrow> get (put c k v) k' = Some w
      \<Longrightarrow> get c k' = Some w"
begin

definition sound :: "'c \<Rightarrow> bool" where
  "sound c \<longleftrightarrow> inv c \<and> (\<forall>k v. get c k = Some v \<longrightarrow> computes k v)"

lemma sound_hit: "sound c \<Longrightarrow> get c k = Some v \<Longrightarrow> computes k v"
  by (simp add: sound_def)

lemma sound_miss:
  assumes c: "sound c" and k: "get c k = None" and v: "computes k v"
  shows "sound (put c k v)"
proof -
  have "computes k' w" if "get (put c k v) k' = Some w" for k' w
  proof (cases "k' = k")
    case True
    with that c k v get_put_same [of c k v] show ?thesis by (simp add: sound_def)
  next
    case False
    with that c k get_put_other [of c k k' v w] show ?thesis by (simp add: sound_def)
  qed
  with c k put_inv show ?thesis by (simp add: sound_def)
qed

end

definition cache_inv :: "compile_cache \<Rightarrow> bool" where
  "cache_inv cache \<longleftrightarrow> distinct (map fst cache) \<and> length cache \<le> 128"

lemma map_of_tl: "distinct (map fst c) \<Longrightarrow> map_of (tl c) k = Some v \<Longrightarrow> map_of c k = Some v"
  by (cases c) (auto simp: weak_map_of_SomeI rev_image_eqI dest: map_of_SomeD)

lemma cache_put_fresh:
  "map_of c k = None \<Longrightarrow> map_of (if length c \<ge> 128 then tl c else c) k = None"
  by (cases c) (auto split: if_splits)

interpretation compiledCache: memo_table "map_of :: compile_cache \<Rightarrow> _" cache_put cache_inv
  "\<lambda>src r. r = compile_source src"
proof unfold_locales
  fix c :: compile_cache and k v k' w
  assume c: "cache_inv c" and k: "map_of c k = None"
  have tl: "distinct (map fst (tl c))" "length c \<ge> 128 \<Longrightarrow> Suc (length (tl c)) \<le> 128"
    "fst ` set (tl c) \<subseteq> fst ` set c"
    using c by (cases c; auto simp: cache_inv_def)+
  from k have "k \<notin> fst ` set c" by (simp add: map_of_eq_None_iff)
  with c tl show "cache_inv (cache_put c k v)" by (auto simp: cache_inv_def cache_put_def)
  show "map_of (cache_put c k v) k = Some v"
    using cache_put_fresh [OF k] by (simp add: cache_put_def map_add_Some_iff split: if_splits)
  show "map_of c k' = Some w" if "k' \<noteq> k" "map_of (cache_put c k v) k' = Some w"
    using that c map_of_tl [of c k' w] by (auto simp: cache_put_def cache_inv_def split: if_splits)
qed

text \<open>The cache is transparent: every call returns what an uncached compilation returns.\<close>

fun compile_all :: "compile_cache \<Rightarrow> jstr list \<Rightarrow> CompilationResult list \<times> compile_cache" where
  "compile_all cache [] = ([], cache)"
| "compile_all cache (src # srcs) =
     (let (result, cache) = compileBillingExpression cache src;
          (results, cache) = compile_all cache srcs
      in (result # results, cache))"

lemma compileBillingExpression_sound:
  assumes "compiledCache.sound cache"
  shows "fst (compileBillingExpression cache src) = compile_source src"
    "compiledCache.sound (snd (compileBillingExpression cache src))"
proof -
  have "fst (compileBillingExpression cache src) = compile_source src
    \<and> compiledCache.sound (snd (compileBillingExpression cache src))"
  proof (cases "map_of cache src")
    case None
    from compiledCache.sound_miss [OF assms None refl] None show ?thesis
      by (simp add: compileBillingExpression_def Let_def)
  next
    case (Some r)
    from compiledCache.sound_hit [OF assms Some] Some assms show ?thesis
      by (simp add: compileBillingExpression_def)
  qed
  then show "fst (compileBillingExpression cache src) = compile_source src"
    "compiledCache.sound (snd (compileBillingExpression cache src))" by auto
qed

lemma compile_all_sound:
  "compiledCache.sound cache \<Longrightarrow>
    fst (compile_all cache srcs) = map compile_source srcs
    \<and> compiledCache.sound (snd (compile_all cache srcs))"
proof (induction srcs arbitrary: cache)
  case (Cons src srcs)
  from compileBillingExpression_sound [OF Cons.prems, of src] Cons.IH
  show ?case by (fastforce simp: Let_def split: prod.splits)
qed simp

lemma sound_empty [simp]: "compiledCache.sound []"
  by (simp add: compiledCache.sound_def cache_inv_def)

section \<open>What a compiled expression is like\<close>

text \<open>The conditionals that are request rules, and the rule each one gives.\<close>

definition is_request_rule :: "ExpressionNode \<Rightarrow> bool" where
  "is_request_rule n \<longleftrightarrow>
     (case rule_multiplier_of n of
        None \<Rightarrow> False
      | Some (c, m) \<Rightarrow> function_names (set (postorder c)) \<inter> RULE_FUNCTIONS \<noteq> {})"

definition rule_matches :: "jstr \<Rightarrow> RequestRule \<Rightarrow> bool" where
  "rule_matches src rule \<longleftrightarrow>
     rule_multiplier_of (rule_node rule) = Some (rule_condition rule, rule_multiplier rule)
     \<and> rule_cond rule = slice src (nstart (rule_condition rule)) (nend (rule_condition rule))"

definition extracts_rules :: "jstr \<Rightarrow> ExpressionNode list \<Rightarrow> RequestRule list \<Rightarrow> bool" where
  "extracts_rules src ns rules \<longleftrightarrow>
     map rule_node rules = filter is_request_rule ns \<and> list_all (rule_matches src) rules"

interpretation request_rules: expression_visitor "request_rule_visitor src" "extracts_rules src" "\<lambda>n. True"
  for src
proof unfold_locales
  fix n ns rules rules'
  assume rules: "extracts_rules src ns rules" and v: "request_rule_visitor src n rules = Inr rules'"
  show "extracts_rules src (ns @ [n]) rules'"
  proof (cases "rule_multiplier_of n")
    case None
    with rules v show ?thesis
      by (auto simp: request_rule_visitor_def extracts_rules_def is_request_rule_def)
  next
    case (Some cm)
    then obtain c m where cm: "rule_multiplier_of n = Some (c, m)" by (cases cm) auto
    with v obtain vs fs where d: "expressionDependencies c = Inr (vs, fs)"
      by (auto simp: request_rule_visitor_def)
    have "list_ex (\<lambda>name. name \<in> RULE_FUNCTIONS) fs \<longleftrightarrow> is_request_rule n"
      using expressionDependencies_sets(2) [OF d] cm by (auto simp: is_request_rule_def list_ex_iff)
    with cm d v rules show ?thesis
      by (auto simp: request_rule_visitor_def extracts_rules_def rule_matches_def split: if_splits)
  qed
qed

lemma compile_ready_facts:
  assumes "compile_ready src = Inr compiled"
  shows "c_source compiled = src" "parse src = Inr (c_ast compiled)"
    "node_depth (c_ast compiled) \<le> 256" "typable (c_ast compiled)" "well_formed (c_ast compiled)"
    "set (c_variables compiled) = variable_names (set (postorder (c_ast compiled)))"
    "set (c_functions compiled) = function_names (set (postorder (c_ast compiled)))"
    "extracts_rules src (postorder (c_ast compiled)) (c_requestRules compiled)"
    "js ''fixed'' \<in> set (c_functions compiled) \<longrightarrow>
       fixed_tree (c_requestRules compiled) (c_ast compiled)"
proof -
  let ?ast = "c_ast compiled"
  from assms have p: "parse src = Inr ?ast" and t: "checkExpressionTypes ?ast = Inr ()"
    and d: "expressionDependencies ?ast = Inr (c_variables compiled, c_functions compiled)"
    and v: "visitExpression ?ast (request_rule_visitor src) [] = Inr (c_requestRules compiled)"
    and f: "js ''fixed'' \<in> set (c_functions compiled) \<longrightarrow>
      validateFixedPricingTree ?ast (c_requestRules compiled) = Inr ()"
    and s: "c_source compiled = src"
    by (auto simp: compile_ready_def)
  show "c_source compiled = src" "parse src = Inr ?ast" by fact+
  show wf: "well_formed ?ast" using parse_node [OF p] by blast
  from t checkExpressionTypes_iff [OF wf] show "node_depth ?ast \<le> 256" "typable ?ast" by auto
  from expressionDependencies_sets [OF d]
  show "set (c_variables compiled) = variable_names (set (postorder ?ast))"
    "set (c_functions compiled) = function_names (set (postorder ?ast))" by auto
  show "extracts_rules src (postorder ?ast) (c_requestRules compiled)"
    using request_rules.visit_keeps [OF _ _ v] by (simp add: extracts_rules_def list_all_iff)
  from f validateFixedPricingTree_sound show "js ''fixed'' \<in> set (c_functions compiled) \<longrightarrow>
      fixed_tree (c_requestRules compiled) ?ast" by blast
qed

lemma compile_source_Ready:
  "compile_source src = Ready compiled \<longleftrightarrow> compile_ready src = Inr compiled"
  by (auto simp: compile_source_def split: sum.splits)

end
