(* ===== verification/BillingRuntime.thy ===== *)
theory BillingRuntime
  imports BillingCompile
begin

text \<open>
  \<open>billing-expression/runtime.ts\<close>: request paths, the text of request values, calendar values in a
  billing zone, and the evaluator \<open>BillingRuntime\<close> with its mutable fields as a state that every step
  threads. \<open>Intl.DateTimeFormat\<close> is a parameter; \<open>Date\<close> is its time value in milliseconds.
\<close>

section \<open>Request paths\<close>

text \<open>Splitting a path at dots; a backslash takes the next unit literally.\<close>

fun path_parts :: "jstr \<Rightarrow> jstr \<Rightarrow> jstr list \<Rightarrow> jstr \<Rightarrow> thrown + jstr list" where
  "path_parts path part parts [] = Inr (parts @ [part])"
| "path_parts path part parts (char # cs) =
     (if char = 92 then
        (case cs of
           [] \<Rightarrow> throw D_unsupported path
         | c # cs' \<Rightarrow> path_parts path (part @ [c]) parts cs')
      else if char = 46 then path_parts path [] (parts @ [part]) cs
      else if char \<in> set (js ''*?[]()|@!'') then throw D_unsupported path
      else path_parts path (part @ [char]) parts cs)"

definition is_index :: "jstr \<Rightarrow> bool" where
  "is_index key \<longleftrightarrow> key \<noteq> [] \<and> list_all is_digit key"

text \<open>\<open>value[index]\<close> of an array.\<close>

definition array_get :: "jsvalue list \<Rightarrow> jstr \<Rightarrow> jsvalue" where
  "array_get xs key =
     (case js_Number key of
        Fin r \<Rightarrow> if isSafeInteger (Fin r)
                 then (case nth_opt xs (nat \<lfloor>r\<rfloor>) of Some v \<Rightarrow> v | None \<Rightarrow> JUndefined)
                 else JUndefined
      | _ \<Rightarrow> JUndefined)"

fun read_parts :: "jstr \<Rightarrow> jsvalue \<Rightarrow> jstr list \<Rightarrow> thrown + jsvalue" where
  "read_parts path v [] = Inr (if is_nullish v then JNull else v)"
| "read_parts path (JArr xs) (key # rest) =
     (if key = js ''#'' then
        (if rest = [] then Inr (JNum (num (of_nat (length xs)))) else throw D_unsupported path)
      else if \<not> is_index key then Inr JNull
      else read_parts path (array_get xs key) rest)"
| "read_parts path (JObj props) (key # rest) =
     (if hasOwn props key then read_parts path (get_prop (JObj props) key) rest else Inr JNull)"
| "read_parts path v (key # rest) = Inr JNull"

definition readRequestPath :: "jsvalue \<Rightarrow> jstr \<Rightarrow> thrown + jsvalue" where
  "readRequestPath body rawPath =
     (let path = trim rawPath in
      if path = [] then Inr JNull
      else andThen (path_parts path [] [] path) (read_parts path body))"

section \<open>The text of a request value\<close>

definition pad2 :: "jstr \<Rightarrow> jstr" where
  "pad2 s = replicate (2 - length s) 48 @ s"

text \<open>A finite number: exponent form from \<open>1e6\<close> and below \<open>1e-4\<close>, as Go prints it.\<close>

definition billingNumber :: "jsnum \<Rightarrow> thrown + jstr" where
  "billingNumber x =
     (case x of
        Fin r \<Rightarrow>
          let (mantissa, exponent) = to_exponential r in
          if exponent \<ge> 6 \<or> exponent < - 4
          then Inr (mantissa @ js ''e'' @ (if exponent < 0 then js ''-'' else js ''+'')
                    @ pad2 (int_text \<bar>exponent\<bar>))
          else Inr (js_num_string x)
      | NZero \<Rightarrow> Inr (js ''-0'')
      | _ \<Rightarrow> throw D_number (js ''request number''))"

lemma size_sort_entries [termination_simp]:
  "(k, v) \<in> set ps \<Longrightarrow> size v < Suc (size_list (size_prod (\<lambda>_. 0) size) ps)"
  by (induction ps) auto

function billingString :: "jsvalue \<Rightarrow> nat \<Rightarrow> thrown + jstr" where
  "billingString v depth =
     (if depth > 128 then throw D_limit (js ''request value depth'')
      else case v of
          JUndefined \<Rightarrow> Inr (js ''<nil>'')
        | JNull \<Rightarrow> Inr (js ''<nil>'')
        | JArr xs \<Rightarrow>
            andThen (traverse (\<lambda>item. billingString item (depth + 1)) xs) (\<lambda>items.
              Inr (js ''['' @ join (js '' '') items @ js '']''))
        | JObj props \<Rightarrow>
            andThen (traverse (\<lambda>e. andThen (billingString (snd e) (depth + 1)) (\<lambda>item.
                       Inr (fst e @ js '':'' @ item))) (sort_entries props)) (\<lambda>items.
              Inr (js ''map['' @ join (js '' '') items @ js '']''))
        | JNum x \<Rightarrow> billingNumber x
        | JBool b \<Rightarrow> Inr (if b then js ''true'' else js ''false'')
        | JStr s \<Rightarrow> Inr s)"
  by auto
termination
proof (relation "measure (size \<circ> fst)", goal_cases)
  case (2 v depth xs item)
  then show ?case by (simp add: less_Suc_eq_le size_list_estimation')
next
  case (3 v depth props e)
  then show ?case using size_sort_entries [of "fst e" "snd e" props] by simp
qed simp

declare billingString.simps [simp del]

section \<open>Time in a billing zone\<close>

record TimeValues =
  tv_hour :: jsnum
  tv_minute :: jsnum
  tv_weekday :: jsnum
  tv_month :: jsnum
  tv_day :: jsnum

text \<open>
  \<open>Intl.DateTimeFormat\<close> with the options of the source: the constructor throws (\<open>None\<close>) or resolves
  the zone to a name; \<open>formatToParts\<close> lists typed parts of a date.
\<close>

record IntlProvider =
  intl_resolve :: "jstr \<Rightarrow> jstr option"
  intl_parts :: "jstr \<Rightarrow> jsnum \<Rightarrow> (jstr \<times> jstr) list"

definition zone_part_ok :: "jstr \<Rightarrow> bool" where
  "zone_part_ok part =
     (case part of [] \<Rightarrow> False
      | c # cs \<Rightarrow> is_upper c \<and> list_all (\<lambda>d. is_word d \<or> d = 43 \<or> d = 45) cs)"

definition zone_name_ok :: "jstr \<Rightarrow> bool" where
  "zone_name_ok zone = list_all zone_part_ok (split_at 47 zone)"

text \<open>The zone \<open>Intl\<close> formats in, \<open>None\<close> where the \<open>try\<close> block throws.\<close>

definition formatter_zone :: "IntlProvider \<Rightarrow> jstr \<Rightarrow> jstr option" where
  "formatter_zone intl timezone =
     (if \<not> zone_name_ok timezone then None
      else case intl_resolve intl timezone of
          None \<Rightarrow> None
        | Some resolved \<Rightarrow>
            if toLowerCase resolved = toLowerCase timezone \<and> resolved \<noteq> timezone then None
            else Some timezone)"

text \<open>
  The UTC fields of a time value, after ECMAScript's \<open>Day\<close>, \<open>HourFromTime\<close>, \<open>MinFromTime\<close>, \<open>WeekDay\<close>,
  \<open>MonthFromTime\<close> and \<open>DateFromTime\<close>; the month and day come from the day number of the proleptic
  Gregorian calendar counted in 400-year eras that start on the first of March.
\<close>

definition day_number :: "int \<Rightarrow> int" where
  "day_number t = t div 86400000"

definition day_of_era_year :: "int \<Rightarrow> int" where
  "day_of_era_year days =
     (let doe = (days + 719468) mod 146097;
          yoe = (doe - doe div 1460 + doe div 36524 - doe div 146096) div 365
      in doe - (365 * yoe + yoe div 4 - yoe div 100))"

definition utc_month :: "int \<Rightarrow> int" where
  "utc_month t =
     (let mp = (5 * day_of_era_year (day_number t) + 2) div 153 in if mp < 10 then mp + 3 else mp - 9)"

definition utc_date :: "int \<Rightarrow> int" where
  "utc_date t =
     (let doy = day_of_era_year (day_number t); mp = (5 * doy + 2) div 153
      in doy - (153 * mp + 2) div 5 + 1)"

definition utc_hours :: "int \<Rightarrow> int" where
  "utc_hours t = t div 3600000 mod 24"

definition utc_minutes :: "int \<Rightarrow> int" where
  "utc_minutes t = t div 60000 mod 60"

definition utc_day :: "int \<Rightarrow> int" where
  "utc_day t = (day_number t + 4) mod 7"

definition int_num :: "int \<Rightarrow> jsnum" where
  "int_num i = num (of_int i)"

definition utc_values :: "int \<Rightarrow> TimeValues" where
  "utc_values t =
     \<lparr>tv_hour = int_num (utc_hours t), tv_minute = int_num (utc_minutes t),
      tv_weekday = int_num (utc_day t), tv_month = int_num (utc_month t),
      tv_day = int_num (utc_date t)\<rparr>"

fun index_of :: "'a list \<Rightarrow> 'a \<Rightarrow> int" where
  "index_of [] x = -1"
| "index_of (y # ys) x = (if y = x then 0 else (let i = index_of ys x in if i < 0 then i else i + 1))"

definition part_number :: "(jstr \<times> jstr) list \<Rightarrow> string \<Rightarrow> jsnum" where
  "part_number parts name =
     (case map_of (rev parts) (js name) of None \<Rightarrow> NaN | Some text \<Rightarrow> js_Number text)"

definition formatted_values :: "(jstr \<times> jstr) list \<Rightarrow> TimeValues" where
  "formatted_values parts =
     \<lparr>tv_hour = part_number parts ''hour'', tv_minute = part_number parts ''minute'',
      tv_weekday =
        int_num (case map_of (rev parts) (js ''weekday'') of
            None \<Rightarrow> -1
          | Some w \<Rightarrow> index_of (map js [''Sun'', ''Mon'', ''Tue'', ''Wed'', ''Thu'', ''Fri'', ''Sat'']) w),
      tv_month = part_number parts ''month'', tv_day = part_number parts ''day''\<rparr>"

text \<open>The Date \<open>now\<close> is its time value, an integer or NaN.\<close>

definition timeInBillingZone :: "IntlProvider \<Rightarrow> jsnum \<Rightarrow> jstr \<Rightarrow> thrown + TimeValues" where
  "timeInBillingZone intl now zone =
     (case now of
        Fin t \<Rightarrow>
          let timezone = (if trim zone = [] then js ''UTC'' else trim zone) in
          if timezone = js ''Local'' then throw D_unsupported (js ''server Local timezone'')
          else (case formatter_zone intl timezone of
              None \<Rightarrow> Inr (utc_values \<lfloor>t\<rfloor>)
            | Some z \<Rightarrow> Inr (formatted_values (intl_parts intl z now)))
      | _ \<Rightarrow> throw D_type (js ''simulation time''))"

section \<open>The evaluator\<close>

record RuntimeValue =
  rv_value :: jsvalue
  rv_integer :: "bool option"

definition plain :: "jsvalue \<Rightarrow> RuntimeValue" where
  "plain v = \<lparr>rv_value = v, rv_integer = None\<rparr>"

text \<open>The readonly parts of a \<open>BillingRuntime\<close> and its mutable fields.\<close>

record RuntimeEnv =
  env_compiled :: CompiledBillingExpression
  env_context :: BillingSimulationContext
  env_now :: jsnum
  env_intl :: IntlProvider

record BillingRuntime =
  rt_requestRules :: "BillingRequestRule list"
  rt_matchedTier :: jstr
  rt_billingUnit :: BillingUnit
  rt_fixedPrice :: "jsnum option"
  rt_timeValues :: "(jstr \<times> TimeValues) list"
  rt_headers :: "(jstr \<times> jstr) list"
  rt_depth :: nat

type_synonym 'a step_result = "thrown + 'a \<times> BillingRuntime"

text \<open>The header map of the constructor; \<open>Map.set\<close> under a key that exists replaces its value.\<close>

fun read_headers :: "(jstr \<times> jsvalue) list \<Rightarrow> (jstr \<times> jstr) list \<Rightarrow> thrown + (jstr \<times> jstr) list" where
  "read_headers [] hs = Inr hs"
| "read_headers ((name, rawValue) # es) hs =
     (case rawValue of
        JStr raw \<Rightarrow>
          let key = toLowerCase (trim name); v = trim raw in
          read_headers es (if key \<noteq> [] \<and> v \<noteq> [] then (key, v) # hs else hs)
      | _ \<Rightarrow> throw D_type (js ''request header''))"

definition context_headers :: "BillingSimulationContext \<Rightarrow> (jstr \<times> jsvalue) list" where
  "context_headers context =
     (case ctx_request context of
        None \<Rightarrow> []
      | Some request \<Rightarrow> (case req_headers request of None \<Rightarrow> [] | Some hs \<Rightarrow> hs))"

text \<open>The constructor; \<open>clock\<close> is what \<open>new Date()\<close> gives when the context has no time.\<close>

definition new_runtime ::
  "CompiledBillingExpression \<Rightarrow> BillingSimulationContext \<Rightarrow> thrown + BillingRuntime" where
  "new_runtime compiled context =
     andThen (read_headers (context_headers context) []) (\<lambda>headers.
       Inr \<lparr>rt_requestRules = map (\<lambda>rule. \<lparr>rr_cond = rule_cond rule, rr_multiplier = rule_multiplier rule,
                                          rr_matched = False\<rparr>) (c_requestRules compiled),
            rt_matchedTier = [], rt_billingUnit = TokenUnit, rt_fixedPrice = None,
            rt_timeValues = [], rt_headers = headers, rt_depth = 0\<rparr>)"

definition runtime_env ::
  "CompiledBillingExpression \<Rightarrow> BillingSimulationContext \<Rightarrow> jsnum \<Rightarrow> IntlProvider \<Rightarrow> RuntimeEnv" where
  "runtime_env compiled context clock intl =
     \<lparr>env_compiled = compiled, env_context = context,
      env_now = (case ctx_now context of Some now \<Rightarrow> now | None \<Rightarrow> clock), env_intl = intl\<rparr>"

text \<open>The checks on a result: \<open>boolean\<close>, \<open>numeric\<close> and \<open>string\<close>.\<close>

fun expect_boolean :: "ExpressionNode \<Rightarrow> RuntimeValue \<times> BillingRuntime \<Rightarrow> bool step_result" where
  "expect_boolean node (rv, st) =
     (case rv_value rv of JBool b \<Rightarrow> Inr (b, st)
      | _ \<Rightarrow> throw_at D_type (js ''boolean condition'') (nstart node))"

fun expect_numeric ::
  "ExpressionNode \<Rightarrow> RuntimeValue \<times> BillingRuntime \<Rightarrow> (jsnum \<times> bool option) step_result" where
  "expect_numeric node (rv, st) =
     (case rv_value rv of JNum x \<Rightarrow> Inr ((x, rv_integer rv), st)
      | _ \<Rightarrow> throw_at D_type (js ''numeric operand'') (nstart node))"

fun expect_string :: "ExpressionNode \<Rightarrow> RuntimeValue \<times> BillingRuntime \<Rightarrow> jstr step_result" where
  "expect_string node (rv, st) =
     (case rv_value rv of JStr s \<Rightarrow> Inr (s, st)
      | _ \<Rightarrow> throw_at D_type (js ''string argument'') (nstart node))"

text \<open>The checks \<open>evaluate\<close> makes on every result.\<close>

definition check_result :: "ExpressionNode \<Rightarrow> RuntimeValue \<Rightarrow> thrown + RuntimeValue" where
  "check_result node rv =
     (case rv_value rv of
        JNum x \<Rightarrow>
          if \<not> isFinite x then throw_at D_number (js ''non-finite result'') (nstart node)
          else if rv_integer rv = Some True \<and> \<not> isSafeInteger x
               then throw_at D_unsupported (js ''integer precision'') (nstart node)
          else Inr rv
      | _ \<Rightarrow> Inr rv)"

definition evaluate_variable :: "RuntimeEnv \<Rightarrow> jstr \<Rightarrow> nat \<Rightarrow> thrown + RuntimeValue" where
  "evaluate_variable env name start =
     (if name = js ''image_count'' then
        let v = (case ctx_imageCount (env_context env) of None \<Rightarrow> num 1 | Some n \<Rightarrow> n) in
        if \<not> isInteger v \<or> js_lt v (num 1) \<or> js_lt (num 128) v
        then throw_at D_number (js ''image_count must be between 1 and 128'') start
        else Inr (plain (JNum v))
      else
        let v = (case ctx_tokens (env_context env) of
                   None \<Rightarrow> JUndefined
                 | Some tokens \<Rightarrow> (case map_of tokens name of None \<Rightarrow> JUndefined | Some v \<Rightarrow> v))
        in case v of
             JUndefined \<Rightarrow> throw_at D_missing_context name start
           | JNum x \<Rightarrow> if js_lt x (num 0) then throw_at D_number name start else Inr (plain (JNum x))
           | _ \<Rightarrow> throw_at D_number name start)"

text \<open>Marking the first rule whose node is the conditional just taken.\<close>

fun find_index :: "('a \<Rightarrow> bool) \<Rightarrow> 'a list \<Rightarrow> nat option" where
  "find_index P [] = None"
| "find_index P (x # xs) = (if P x then Some 0 else map_option Suc (find_index P xs))"

definition mark_rule :: "RuntimeEnv \<Rightarrow> ExpressionNode \<Rightarrow> BillingRuntime \<Rightarrow> BillingRuntime" where
  "mark_rule env node st =
     (case find_index (\<lambda>rule. rule_node rule = node) (c_requestRules (env_compiled env)) of
        None \<Rightarrow> st
      | Some i \<Rightarrow> st\<lparr>rt_requestRules :=
          (rt_requestRules st)[i := (rt_requestRules st ! i)\<lparr>rr_matched := True\<rparr>]\<rparr>)"

definition is_object :: "jsvalue \<Rightarrow> bool" where
  "is_object v \<longleftrightarrow> js_typeof v = T_object"

text \<open>The binary operators on evaluated operands.\<close>

definition compare_values :: "jstr \<Rightarrow> jsvalue \<Rightarrow> jsvalue \<Rightarrow> bool option" where
  "compare_values op a b =
     (case (a, b) of
        (JNum x, JNum y) \<Rightarrow>
          if op = js ''<'' then Some (js_lt x y) else if op = js ''<='' then Some (js_le x y)
          else if op = js ''>'' then Some (js_lt y x) else if op = js ''>='' then Some (js_le y x)
          else None
      | (JStr s, JStr t) \<Rightarrow>
          if op = js ''<'' then Some (str_less s t) else if op = js ''<='' then Some (\<not> str_less t s)
          else if op = js ''>'' then Some (str_less t s) else if op = js ''>='' then Some (\<not> str_less s t)
          else None
      | _ \<Rightarrow> None)"

definition arithmetic ::
  "jstr \<Rightarrow> nat \<Rightarrow> jsnum \<Rightarrow> jsnum \<Rightarrow> bool \<Rightarrow> thrown + RuntimeValue" where
  "arithmetic op start x y integer =
     (if op = js ''+'' then Inr \<lparr>rv_value = JNum (js_add x y), rv_integer = Some integer\<rparr>
      else if op = js ''-'' then Inr \<lparr>rv_value = JNum (js_sub x y), rv_integer = Some integer\<rparr>
      else if op = js ''*'' then Inr \<lparr>rv_value = JNum (js_mul x y), rv_integer = Some integer\<rparr>
      else if op = js ''/'' then Inr (plain (JNum (js_div x y)))
      else if op = js ''%'' then
        (if \<not> integer then throw_at D_type (js ''integer modulo'') start
         else Inr \<lparr>rv_value = JNum (js_rem x y), rv_integer = Some True\<rparr>)
      else throw_at D_unsupported op start)"

definition apply_binary ::
  "jstr \<Rightarrow> nat \<Rightarrow> RuntimeValue \<Rightarrow> RuntimeValue \<Rightarrow> thrown + RuntimeValue" where
  "apply_binary op start left right =
     (let a = rv_value left; b = rv_value right in
      if op = js ''=='' \<or> op = js ''!='' then
        (if a \<noteq> JNull \<and> b \<noteq> JNull \<and> (is_object a \<or> is_object b)
         then throw_at D_unsupported (js ''object comparison'') start
         else Inr (plain (JBool (if op = js ''=='' then strict_eq a b else \<not> strict_eq a b))))
      else case (op = js ''+'', a, b) of
          (True, JStr s, JStr t) \<Rightarrow> Inr (plain (JStr (s @ t)))
        | _ \<Rightarrow>
            (case compare_values op a b of
               Some r \<Rightarrow> Inr (plain (JBool r))
             | None \<Rightarrow>
                 (case (a, b) of
                    (JNum x, JNum y) \<Rightarrow>
                      arithmetic op start x y
                        (rv_integer left = Some True \<and> rv_integer right = Some True)
                  | _ \<Rightarrow> throw_at D_type op start)))"

definition time_value :: "jstr \<Rightarrow> TimeValues \<Rightarrow> jsnum" where
  "time_value name v =
     (if name = js ''hour'' then tv_hour v else if name = js ''minute'' then tv_minute v
      else if name = js ''weekday'' then tv_weekday v else if name = js ''month'' then tv_month v
      else tv_day v)"

text \<open>The zone table: a computed value is kept under its zone.\<close>

definition zone_values :: "RuntimeEnv \<Rightarrow> jstr \<Rightarrow> BillingRuntime \<Rightarrow> TimeValues step_result" where
  "zone_values env zone st =
     (case map_of (rt_timeValues st) zone of
        Some v \<Rightarrow> Inr (v, st)
      | None \<Rightarrow>
          andThen (timeInBillingZone (env_intl env) (env_now env) zone) (\<lambda>v.
            Inr (v, st\<lparr>rt_timeValues := rt_timeValues st @ [(zone, v)]\<rparr>)))"

definition header_get :: "BillingRuntime \<Rightarrow> jstr \<Rightarrow> jstr" where
  "header_get st name =
     (case map_of (rt_headers st) (toLowerCase (trim name)) of None \<Rightarrow> [] | Some v \<Rightarrow> v)"

definition usage_get :: "(jstr \<times> jsvalue) list \<Rightarrow> jstr \<Rightarrow> jsvalue" where
  "usage_get usage name = (case map_of usage name of None \<Rightarrow> JNull | Some v \<Rightarrow> v)"

definition missing_argument :: "unit \<Rightarrow> thrown + 'a" where
  "missing_argument _ = Inl (OtherError (js ''TypeError''))"

lemma nth_opt_size: "nth_opt args i = Some a \<Longrightarrow> size a < Suc (size_list size args)"
  by (meson le_imp_less_Suc nth_opt_Some order_refl size_list_estimation')

text \<open>\<open>evaluate\<close>, \<open>evaluateNode\<close>, \<open>binary\<close> and \<open>call\<close>.\<close>

function evaluate :: "RuntimeEnv \<Rightarrow> ExpressionNode \<Rightarrow> BillingRuntime \<Rightarrow> RuntimeValue step_result"
  and evaluateNode :: "RuntimeEnv \<Rightarrow> ExpressionNode \<Rightarrow> BillingRuntime \<Rightarrow> RuntimeValue step_result"
  and binary :: "RuntimeEnv \<Rightarrow> jstr \<Rightarrow> ExpressionNode \<Rightarrow> ExpressionNode \<Rightarrow> nat \<Rightarrow> BillingRuntime
    \<Rightarrow> RuntimeValue step_result"
  and call :: "RuntimeEnv \<Rightarrow> jstr \<Rightarrow> ExpressionNode list \<Rightarrow> nat \<Rightarrow> BillingRuntime
    \<Rightarrow> RuntimeValue step_result"
where
  "evaluate env node st =
     (let st = st\<lparr>rt_depth := rt_depth st + 1\<rparr> in
      if rt_depth st > 256 then throw D_limit (js ''evaluation depth'')
      else
        andThen (evaluateNode env node st) (\<lambda>(rv, st).
        andThen (check_result node rv) (\<lambda>rv.
          Inr (rv, st\<lparr>rt_depth := rt_depth st - 1\<rparr>))))"
| "evaluateNode env node st =
     (case node of
        Literal v i _ _ \<Rightarrow>
          Inr (\<lparr>rv_value = (case v of LNum x \<Rightarrow> JNum x | LStr s \<Rightarrow> JStr s | LBool b \<Rightarrow> JBool b
                                    | LNull \<Rightarrow> JNull),
                rv_integer = i\<rparr>, st)
      | Variable name start _ \<Rightarrow>
          andThen (evaluate_variable env name start) (\<lambda>rv. Inr (rv, st))
      | Conditional c y n _ _ \<Rightarrow>
          andThen (andThen (evaluate env c st) (expect_boolean c)) (\<lambda>(condition, st).
            if condition then evaluate env y (mark_rule env node st) else evaluate env n st)
      | Unary op x _ _ \<Rightarrow>
          if op = js ''!'' then
            andThen (andThen (evaluate env x st) (expect_boolean x)) (\<lambda>(b, st).
              Inr (plain (JBool (\<not> b)), st))
          else
            andThen (andThen (evaluate env x st) (expect_numeric x)) (\<lambda>((v, i), st).
              Inr (\<lparr>rv_value = JNum (if op = js ''-'' then js_neg v else v), rv_integer = i\<rparr>, st))
      | Binary op l r start _ \<Rightarrow> binary env op l r start st
      | Call f args start _ \<Rightarrow> call env f args start st)"
| "binary env op l r start st =
     (if op = js ''&&'' then
        andThen (andThen (evaluate env l st) (expect_boolean l)) (\<lambda>(a, st).
          if a then
            andThen (andThen (evaluate env r st) (expect_boolean r)) (\<lambda>(b, st).
              Inr (plain (JBool b), st))
          else Inr (plain (JBool False), st))
      else if op = js ''||'' then
        andThen (andThen (evaluate env l st) (expect_boolean l)) (\<lambda>(a, st).
          if a then Inr (plain (JBool True), st)
          else
            andThen (andThen (evaluate env r st) (expect_boolean r)) (\<lambda>(b, st).
              Inr (plain (JBool b), st)))
      else
        andThen (evaluate env l st) (\<lambda>(left, st).
        andThen (evaluate env r st) (\<lambda>(right, st).
        andThen (apply_binary op start left right) (\<lambda>rv. Inr (rv, st)))))"
| "call env f args start st =
     (case (nth_opt args 0, nth_opt args 1) of
        (None, _) \<Rightarrow> missing_argument ()
      | (Some a, second) \<Rightarrow>
          if f = js ''fixed'' then
            andThen (andThen (evaluate env a st) (expect_numeric a)) (\<lambda>((amount, _), st).
              Inr (plain (JNum (js_mul amount (num 1000000))),
                   st\<lparr>rt_billingUnit := RequestUnit, rt_fixedPrice := Some amount\<rparr>))
          else if f = js ''tier'' then
            andThen (andThen (evaluate env a st) (expect_string a)) (\<lambda>(name, st).
              case second of
                None \<Rightarrow> missing_argument ()
              | Some b \<Rightarrow>
                  andThen (andThen (evaluate env b st) (expect_numeric b)) (\<lambda>((v, _), st).
                    Inr (plain (JNum v), st\<lparr>rt_matchedTier := name\<rparr>)))
          else if f = js ''param'' then
            andThen (andThen (evaluate env a st) (expect_string a)) (\<lambda>(path, st).
              case ctx_request (env_context env) of
                None \<Rightarrow> throw_at D_missing_context (js ''request body'') start
              | Some request \<Rightarrow>
                  andThen (readRequestPath (req_body request) path) (\<lambda>v. Inr (plain v, st)))
          else if f = js ''header'' then
            andThen (andThen (evaluate env a st) (expect_string a)) (\<lambda>(name, st).
              case ctx_request (env_context env) of
                None \<Rightarrow> throw_at D_missing_context (js ''request headers'') start
              | Some request \<Rightarrow>
                  Inr (plain (JStr (header_get st name)), st))
          else if f = js ''u'' then
            andThen (andThen (evaluate env a st) (expect_string a)) (\<lambda>(name, st).
              case ctx_usage (env_context env) of
                None \<Rightarrow> throw_at D_missing_context (js ''task usage'') start
              | Some usage \<Rightarrow>
                  Inr (plain (usage_get usage name), st))
          else if f = js ''has'' then
            andThen (evaluate env a st) (\<lambda>(source, st).
              case second of
                None \<Rightarrow> missing_argument ()
              | Some b \<Rightarrow>
                  andThen (andThen (evaluate env b st) (expect_string b)) (\<lambda>(substring, st).
                    if \<not> is_nullish (rv_value source) \<and> substring \<noteq> [] then
                      andThen (billingString (rv_value source) 0) (\<lambda>text.
                        Inr (plain (JBool (str_includes text substring)), st))
                    else Inr (plain (JBool False), st)))
          else if f = js ''min'' \<or> f = js ''max'' then
            andThen (andThen (evaluate env a st) (expect_numeric a)) (\<lambda>((x, _), st).
              case second of
                None \<Rightarrow> missing_argument ()
              | Some b \<Rightarrow>
                  andThen (andThen (evaluate env b st) (expect_numeric b)) (\<lambda>((y, _), st).
                    Inr (plain (JNum (if f = js ''min'' then js_min x y else js_max x y)), st)))
          else if f = js ''abs'' \<or> f = js ''floor'' \<or> f = js ''ceil'' then
            andThen (andThen (evaluate env a st) (expect_numeric a)) (\<lambda>((x, _), st).
              Inr (plain (JNum (if f = js ''abs'' then js_abs x
                                else if f = js ''floor'' then js_floor x else js_ceil x)), st))
          else if f \<notin> set TIME_FUNCTIONS then throw D_unsupported f
          else
            andThen (andThen (evaluate env a st) (expect_string a)) (\<lambda>(zone, st).
            andThen (zone_values env (trim zone) st) (\<lambda>(values, st).
              Inr (\<lparr>rv_value = JNum (time_value f values), rv_integer = Some True\<rparr>, st))))"
  by pat_completeness auto
termination
  by (relation "measure (\<lambda>x. case x of
        Inl (Inl (env, node, st)) \<Rightarrow> 3 * size node + 2
      | Inl (Inr (env, node, st)) \<Rightarrow> 3 * size node + 1
      | Inr (Inl (env, op, l, r, s, st)) \<Rightarrow> 3 * (size l + size r) + 3
      | Inr (Inr (env, f, args, s, st)) \<Rightarrow> 3 * size_list size args + 3)")
    (auto dest!: sym [of "Some _"] nth_opt_size)

declare evaluate.simps [simp del] evaluateNode.simps [simp del] binary.simps [simp del]
  call.simps [simp del]

section \<open>Entry points\<close>

definition evaluateBillingCondition ::
  "IntlProvider \<Rightarrow> CompiledBillingExpression \<Rightarrow> ExpressionNode \<Rightarrow> jsnum \<Rightarrow> bool option" where
  "evaluateBillingCondition intl compiled node now =
     (let context = \<lparr>ctx_imageCount = None, ctx_tokens = None, ctx_request = None, ctx_usage = None,
                     ctx_now = Some now\<rparr>
      in case andThen (new_runtime compiled context)
                (evaluate (runtime_env compiled context now intl) node) of
           Inr (rv, _) \<Rightarrow> (case rv_value rv of JBool b \<Rightarrow> Some b | _ \<Rightarrow> None)
         | Inl _ \<Rightarrow> None)"

text \<open>The check of the token counts before evaluation.\<close>

fun check_tokens :: "(jstr \<times> jsvalue) list \<Rightarrow> thrown + unit" where
  "check_tokens [] = Inr ()"
| "check_tokens ((name, v) # es) =
     (case v of
        JNum x \<Rightarrow> if \<not> isFinite x \<or> js_lt x (num 0) then throw D_number name else check_tokens es
      | _ \<Rightarrow> throw D_number name)"

definition evaluate_compiled ::
  "IntlProvider \<Rightarrow> jsnum \<Rightarrow> CompiledBillingExpression \<Rightarrow> BillingSimulationContext \<Rightarrow> thrown + BillingSuccess" where
  "evaluate_compiled intl clock compiled context =
     andThen (check_tokens (case ctx_tokens context of None \<Rightarrow> [] | Some ts \<Rightarrow> ts)) (\<lambda>_.
     andThen (new_runtime compiled context) (\<lambda>runtime.
     andThen (evaluate (runtime_env compiled context clock intl) (c_ast compiled) runtime) (\<lambda>(rv, st).
       case rv_value rv of
         JNum result \<Rightarrow>
           if \<not> isFinite result \<or> js_lt result (num 0) then throw D_number (js ''billing result'')
           else Inr \<lparr>res_cost = result, res_billingUnit = rt_billingUnit st,
                     res_fixedPrice = rt_fixedPrice st,
                     res_imageCount =
                       (if js ''image_count'' \<in> set (c_variables compiled)
                        then Some (case ctx_imageCount context of None \<Rightarrow> num 1 | Some n \<Rightarrow> n)
                        else None),
                     res_matchedTier = rt_matchedTier st,
                     res_requestRules = rt_requestRules st\<rparr>
       | _ \<Rightarrow> throw D_number (js ''billing result''))))"

text \<open>With a source text the expression is compiled through the cache first.\<close>

definition evaluateCompilation ::
  "IntlProvider \<Rightarrow> jsnum \<Rightarrow> CompilationResult \<Rightarrow> BillingSimulationContext \<Rightarrow> BillingEvaluationResult" where
  "evaluateCompilation intl clock compiled context =
     (case compiled of
        Failed failure \<Rightarrow> EvalFailure failure
      | Ready c \<Rightarrow>
          (case evaluate_compiled intl clock c context of
             Inl error \<Rightarrow> EvalFailure (expressionFailure error)
           | Inr success \<Rightarrow> EvalSuccess success))"

definition evaluateBillingExpression ::
  "IntlProvider \<Rightarrow> jsnum \<Rightarrow> compile_cache \<Rightarrow> jstr \<Rightarrow> BillingSimulationContext
    \<Rightarrow> BillingEvaluationResult \<times> compile_cache" where
  "evaluateBillingExpression intl clock cache src context =
     (let (compiled, cache) = compileBillingExpression cache src
      in (evaluateCompilation intl clock compiled context, cache))"

end
