(* ===== verification/BillingSemantics.thy ===== *)
theory BillingSemantics
  imports BillingRuntime
begin

text \<open>
  A big-step semantics of billing expressions, one rule per way a node produces a value, and the proof
  that \<open>evaluate\<close> of \<open>billing-expression/runtime.ts\<close> implements it. The properties of the evaluator
  (state invariants, type soundness) are then rule inductions.
\<close>

section \<open>The rules\<close>

abbreviation number :: "jsnum \<Rightarrow> RuntimeValue" where
  "number x \<equiv> plain (JNum x)"

abbreviation boolean :: "bool \<Rightarrow> RuntimeValue" where
  "boolean b \<equiv> plain (JBool b)"

fun literal_value :: "literal \<Rightarrow> jsvalue" where
  "literal_value (LNum x) = JNum x"
| "literal_value (LStr s) = JStr s"
| "literal_value (LBool b) = JBool b"
| "literal_value LNull = JNull"

definition two_numbers :: "jstr \<Rightarrow> jsnum \<Rightarrow> jsnum \<Rightarrow> jsnum" where
  "two_numbers f x y = (if f = js ''min'' then js_min x y else js_max x y)"

definition one_number :: "jstr \<Rightarrow> jsnum \<Rightarrow> jsnum" where
  "one_number f x =
     (if f = js ''abs'' then js_abs x else if f = js ''floor'' then js_floor x else js_ceil x)"

inductive eval :: "RuntimeEnv \<Rightarrow> ExpressionNode \<Rightarrow> BillingRuntime \<Rightarrow> RuntimeValue \<Rightarrow> BillingRuntime \<Rightarrow> bool"
  and eval_at :: "RuntimeEnv \<Rightarrow> ExpressionNode \<Rightarrow> BillingRuntime \<Rightarrow> RuntimeValue \<Rightarrow> BillingRuntime \<Rightarrow> bool"
  for env
where
  enter: "rt_depth st < 256 \<Longrightarrow> eval_at env n (st\<lparr>rt_depth := rt_depth st + 1\<rparr>) rv st'
    \<Longrightarrow> check_result n rv = Inr rv \<Longrightarrow> eval env n st rv (st'\<lparr>rt_depth := rt_depth st' - 1\<rparr>)"
| literal: "eval_at env (Literal v i s e) st \<lparr>rv_value = literal_value v, rv_integer = i\<rparr> st"
| variable: "evaluate_variable env name s = Inr rv \<Longrightarrow> eval_at env (Variable name s e) st rv st"
| yes: "eval env c st rv st1 \<Longrightarrow> rv_value rv = JBool True
    \<Longrightarrow> eval env y (mark_rule env (Conditional c y n s e) st1) w st2
    \<Longrightarrow> eval_at env (Conditional c y n s e) st w st2"
| no: "eval env c st rv st1 \<Longrightarrow> rv_value rv = JBool False \<Longrightarrow> eval env n st1 w st2
    \<Longrightarrow> eval_at env (Conditional c y n s e) st w st2"
| not: "eval env x st rv st1 \<Longrightarrow> rv_value rv = JBool b
    \<Longrightarrow> eval_at env (Unary (js ''!'') x s e) st (boolean (\<not> b)) st1"
| sign: "op \<noteq> js ''!'' \<Longrightarrow> eval env x st rv st1 \<Longrightarrow> rv_value rv = JNum v
    \<Longrightarrow> eval_at env (Unary op x s e) st
          \<lparr>rv_value = JNum (if op = js ''-'' then js_neg v else v), rv_integer = rv_integer rv\<rparr> st1"
| and_false: "eval env l st rv st1 \<Longrightarrow> rv_value rv = JBool False
    \<Longrightarrow> eval_at env (Binary (js ''&&'') l r s e) st (boolean False) st1"
| and_true: "eval env l st rv st1 \<Longrightarrow> rv_value rv = JBool True \<Longrightarrow> eval env r st1 w st2
    \<Longrightarrow> rv_value w = JBool b \<Longrightarrow> eval_at env (Binary (js ''&&'') l r s e) st (boolean b) st2"
| or_true: "eval env l st rv st1 \<Longrightarrow> rv_value rv = JBool True
    \<Longrightarrow> eval_at env (Binary (js ''||'') l r s e) st (boolean True) st1"
| or_false: "eval env l st rv st1 \<Longrightarrow> rv_value rv = JBool False \<Longrightarrow> eval env r st1 w st2
    \<Longrightarrow> rv_value w = JBool b \<Longrightarrow> eval_at env (Binary (js ''||'') l r s e) st (boolean b) st2"
| operator: "op \<notin> LOGICAL \<Longrightarrow> eval env l st a st1 \<Longrightarrow> eval env r st1 b st2
    \<Longrightarrow> apply_binary op s a b = Inr rv \<Longrightarrow> eval_at env (Binary op l r s e) st rv st2"
| fixed: "nth_opt args 0 = Some a \<Longrightarrow> eval env a st rv st1 \<Longrightarrow> rv_value rv = JNum x
    \<Longrightarrow> eval_at env (Call (js ''fixed'') args s e) st (number (js_mul x (num 1000000)))
          (st1\<lparr>rt_billingUnit := RequestUnit, rt_fixedPrice := Some x\<rparr>)"
| tier: "nth_opt args 0 = Some a \<Longrightarrow> nth_opt args (Suc 0) = Some b \<Longrightarrow> eval env a st rv st1
    \<Longrightarrow> rv_value rv = JStr t \<Longrightarrow> eval env b st1 w st2 \<Longrightarrow> rv_value w = JNum x
    \<Longrightarrow> eval_at env (Call (js ''tier'') args s e) st (number x) (st2\<lparr>rt_matchedTier := t\<rparr>)"
| param: "nth_opt args 0 = Some a \<Longrightarrow> eval env a st rv st1 \<Longrightarrow> rv_value rv = JStr path
    \<Longrightarrow> ctx_request (env_context env) = Some request
    \<Longrightarrow> readRequestPath (req_body request) path = Inr v
    \<Longrightarrow> eval_at env (Call (js ''param'') args s e) st (plain v) st1"
| header: "nth_opt args 0 = Some a \<Longrightarrow> eval env a st rv st1 \<Longrightarrow> rv_value rv = JStr name
    \<Longrightarrow> ctx_request (env_context env) = Some request
    \<Longrightarrow> eval_at env (Call (js ''header'') args s e) st (plain (JStr (header_get st1 name))) st1"
| usage: "nth_opt args 0 = Some a \<Longrightarrow> eval env a st rv st1 \<Longrightarrow> rv_value rv = JStr name
    \<Longrightarrow> ctx_usage (env_context env) = Some facts
    \<Longrightarrow> eval_at env (Call (js ''u'') args s e) st (plain (usage_get facts name)) st1"
| has_nothing: "nth_opt args 0 = Some a \<Longrightarrow> nth_opt args (Suc 0) = Some b \<Longrightarrow> eval env a st rv st1
    \<Longrightarrow> eval env b st1 w st2 \<Longrightarrow> rv_value w = JStr t \<Longrightarrow> is_nullish (rv_value rv) \<or> t = []
    \<Longrightarrow> eval_at env (Call (js ''has'') args s e) st (boolean False) st2"
| has: "nth_opt args 0 = Some a \<Longrightarrow> nth_opt args (Suc 0) = Some b \<Longrightarrow> eval env a st rv st1
    \<Longrightarrow> eval env b st1 w st2 \<Longrightarrow> rv_value w = JStr t \<Longrightarrow> \<not> is_nullish (rv_value rv) \<Longrightarrow> t \<noteq> []
    \<Longrightarrow> billingString (rv_value rv) 0 = Inr text
    \<Longrightarrow> eval_at env (Call (js ''has'') args s e) st (boolean (str_includes text t)) st2"
| min_max: "f \<in> {js ''min'', js ''max''} \<Longrightarrow> nth_opt args 0 = Some a \<Longrightarrow> nth_opt args (Suc 0) = Some b
    \<Longrightarrow> eval env a st rv st1 \<Longrightarrow> rv_value rv = JNum x \<Longrightarrow> eval env b st1 w st2
    \<Longrightarrow> rv_value w = JNum y \<Longrightarrow> eval_at env (Call f args s e) st (number (two_numbers f x y)) st2"
| rounding: "f \<in> {js ''abs'', js ''floor'', js ''ceil''} \<Longrightarrow> nth_opt args 0 = Some a
    \<Longrightarrow> eval env a st rv st1 \<Longrightarrow> rv_value rv = JNum x
    \<Longrightarrow> eval_at env (Call f args s e) st (number (one_number f x)) st1"
| time: "f \<in> set TIME_FUNCTIONS \<Longrightarrow> nth_opt args 0 = Some a \<Longrightarrow> eval env a st rv st1
    \<Longrightarrow> rv_value rv = JStr zone \<Longrightarrow> zone_values env (trim zone) st1 = Inr (tv, st2)
    \<Longrightarrow> eval_at env (Call f args s e) st \<lparr>rv_value = JNum (time_value f tv), rv_integer = Some True\<rparr> st2"

section \<open>The evaluator implements the rules\<close>

lemma expect_Inr:
  "expect_boolean n p = Inr q \<longleftrightarrow> (\<exists>b. rv_value (fst p) = JBool b \<and> q = (b, snd p))"
  "expect_numeric n p = Inr r \<longleftrightarrow>
     (\<exists>x. rv_value (fst p) = JNum x \<and> r = ((x, rv_integer (fst p)), snd p))"
  "expect_string n p = Inr t \<longleftrightarrow> (\<exists>s. rv_value (fst p) = JStr s \<and> t = (s, snd p))"
  by (cases p; auto split: jsvalue.splits)+

lemma expect_value [simp]:
  "rv_value rv = JBool b \<Longrightarrow> expect_boolean n (rv, st) = Inr (b, st)"
  "rv_value rv = JBool False \<Longrightarrow> expect_boolean n (rv, st) = Inr (False, st)"
  "rv_value rv = JNum x \<Longrightarrow> expect_numeric n (rv, st) = Inr ((x, rv_integer rv), st)"
  "rv_value rv = JStr s \<Longrightarrow> expect_string n (rv, st) = Inr (s, st)"
  by simp_all

declare expect_boolean.simps [simp del] expect_numeric.simps [simp del] expect_string.simps [simp del]

lemma check_result_Inr: "check_result n rv = Inr w \<Longrightarrow> w = rv"
  by (auto simp: check_result_def split: jsvalue.splits if_splits)

lemma literal_value_case:
  "(case v of LNum x \<Rightarrow> JNum x | LStr s \<Rightarrow> JStr s | LBool b \<Rightarrow> JBool b | LNull \<Rightarrow> JNull)
    = literal_value v"
  by (cases v) auto

lemmas call_names = TIME_FUNCTIONS_def two_numbers_def one_number_def

text \<open>From the rules to the evaluator.\<close>

lemma eval_evaluate:
  "eval env n st rv st' \<Longrightarrow> evaluate env n st = Inr (rv, st')"
  "eval_at env n st rv st' \<Longrightarrow> evaluateNode env n st = Inr (rv, st')"
proof (induction rule: eval_eval_at.inducts)
  case (enter st n rv st')
  then show ?case by (simp add: evaluate.simps [of env n] Let_def)
next
  case (operator op l st a st1 r b st2 s rv e)
  then show ?case by (auto simp: evaluateNode.simps binary.simps LOGICAL_def)
next
  case (time f args a st rv st1 zone tv st2 s e)
  then show ?case
    by (auto simp: evaluateNode.simps call.simps TIME_FUNCTIONS_def)
next
  case (has_nothing args a b st rv st1 w st2 t s e)
  then show ?case by (auto simp: evaluateNode.simps call.simps)
next
  case (min_max f args a b st rv st1 x w st2 y s e)
  then show ?case by (auto simp: evaluateNode.simps call.simps two_numbers_def)
next
  case (rounding f args a st rv st1 x s e)
  then show ?case by (auto simp: evaluateNode.simps call.simps one_number_def)
qed (simp_all add: evaluateNode.simps binary.simps call.simps literal_value_case)

text \<open>And back.\<close>

lemma binary_node:
  assumes "binary env op l r s st = Inr (rv, st')"
    and l: "\<And>v t. evaluate env l st = Inr (v, t) \<Longrightarrow> eval env l st v t"
    and r: "\<And>t0 v t. evaluate env r t0 = Inr (v, t) \<Longrightarrow> eval env r t0 v t"
  shows "eval_at env (Binary op l r s e) st rv st'"
proof -
  consider "op = js ''&&''" | "op = js ''||''" | "op \<notin> LOGICAL" by (auto simp: LOGICAL_def)
  then show ?thesis
  proof cases
    case 1
    with assms(1) show ?thesis
      by (auto simp: binary.simps expect_Inr dest!: l r split: if_splits)
        (blast intro: eval_eval_at.and_true eval_eval_at.and_false)+
  next
    case 2
    with assms(1) show ?thesis
      by (auto simp: binary.simps expect_Inr dest!: l r split: if_splits)
        (blast intro: eval_eval_at.or_true eval_eval_at.or_false)+
  next
    case 3
    with assms(1) show ?thesis
      by (auto simp: binary.simps LOGICAL_def dest!: l r intro!: eval_eval_at.operator)
  qed
qed

lemma call_node:
  assumes c: "call env f args s st = Inr (rv, st')"
    and arg: "\<And>a t0 v t. a \<in> set args \<Longrightarrow> evaluate env a t0 = Inr (v, t) \<Longrightarrow> eval env a t0 v t"
  shows "eval_at env (Call f args s e) st rv st'"
proof -
  obtain a where a: "nth_opt args 0 = Some a"
    using c by (auto simp: call.simps missing_argument_def split: option.splits)
  have eval_a: "evaluate env a t0 = Inr (v, t) \<Longrightarrow> eval env a t0 v t" for t0 v t
    using arg nth_opt_Some [OF a] by blast
  have eval_b: "nth_opt args (Suc 0) = Some b \<Longrightarrow> evaluate env b t0 = Inr (v, t) \<Longrightarrow> eval env b t0 v t"
    for b t0 v t
    using arg nth_opt_Some by metis
  note step = expect_Inr missing_argument_def
  consider (fixed) "f = js ''fixed''" | (tier) "f = js ''tier''" | (param) "f = js ''param''"
    | (header) "f = js ''header''" | (u) "f = js ''u''" | (has) "f = js ''has''"
    | (two) "f \<in> {js ''min'', js ''max''}" | (one) "f \<in> {js ''abs'', js ''floor'', js ''ceil''}"
    | (time) "f \<in> set TIME_FUNCTIONS"
    | (other) "f \<notin> {js ''fixed'', js ''tier'', js ''param'', js ''header'', js ''u'', js ''has'',
        js ''min'', js ''max'', js ''abs'', js ''floor'', js ''ceil''} \<union> set TIME_FUNCTIONS"
    by blast
  then show ?thesis
  proof cases
    case fixed
    with c show ?thesis unfolding call.simps [of env f args s st] a
      by (auto simp: step dest!: eval_a)
        (blast intro: eval_eval_at.fixed [OF a])+
  next
    case tier
    with c show ?thesis unfolding call.simps [of env f args s st] a
      by (auto simp: step split: option.splits dest!: eval_a)
        (blast intro: eval_eval_at.tier [OF a] dest: eval_b)+
  next
    case param
    with c show ?thesis unfolding call.simps [of env f args s st] a
      by (auto simp: step split: option.splits dest!: eval_a)
        (blast intro: eval_eval_at.param [OF a])+
  next
    case header
    with c show ?thesis unfolding call.simps [of env f args s st] a
      by (auto simp: step split: option.split_asm dest!: eval_a)
        (blast intro: eval_eval_at.header [OF a])+
  next
    case u
    with c show ?thesis unfolding call.simps [of env f args s st] a
      by (auto simp: step split: option.split_asm dest!: eval_a)
        (blast intro: eval_eval_at.usage [OF a])+
  next
    case has
    with c show ?thesis unfolding call.simps [of env f args s st] a
      by (auto simp: step split: option.splits if_splits dest!: eval_a)
        (blast intro: eval_eval_at.has_nothing [OF a] eval_eval_at.has [OF a] dest: eval_b)+
  next
    case two
    with c obtain v t b w x y where "evaluate env a st = Inr (v, t)" "rv_value v = JNum x"
      "nth_opt args (Suc 0) = Some b" "evaluate env b t = Inr (w, st')" "rv_value w = JNum y"
      "rv = number (two_numbers f x y)"
      unfolding call.simps [of env f args s st] a two_numbers_def
      by (auto simp: step split: option.splits)
    with eval_eval_at.min_max [OF two a] eval_a eval_b show ?thesis by (metis One_nat_def)
  next
    case one
    with c obtain v x where "evaluate env a st = Inr (v, st')" "rv_value v = JNum x"
      "rv = number (one_number f x)"
      unfolding call.simps [of env f args s st] a one_number_def by (auto simp: step)
    with eval_eval_at.rounding [OF one a] eval_a show ?thesis by metis
  next
    case time
    with c obtain v t zone tv where "evaluate env a st = Inr (v, t)" "rv_value v = JStr zone"
      "zone_values env (trim zone) t = Inr (tv, st')"
      "rv = \<lparr>rv_value = JNum (time_value f tv), rv_integer = Some True\<rparr>"
      unfolding call.simps [of env f args s st] a by (auto simp: step TIME_FUNCTIONS_def)
    with eval_eval_at.time [OF time a] eval_a show ?thesis by metis
  next
    case other
    with c show ?thesis unfolding call.simps [of env f args s st] a
      by (auto simp: step)
  qed
qed

lemma evaluate_eval:
  "evaluate env n st = Inr (rv, st') \<Longrightarrow> eval env n st rv st'"
  "evaluateNode env n st = Inr (rv, st') \<Longrightarrow> eval_at env n st rv st'"
proof (induction n arbitrary: st rv st' rule: postorder.induct)
  case (1 n)
  have IH: "evaluate env c st0 = Inr (v, t) \<Longrightarrow> eval env c st0 v t" if "c \<in> set (children n)" for c st0 v t
    using 1(1) that by blast
  show node: "eval_at env n st rv st'" if "evaluateNode env n st = Inr (rv, st')" for st rv st'
  proof (cases n)
    case (Literal v i s e)
    with that eval_eval_at.literal show ?thesis
      by (auto simp: evaluateNode.simps literal_value_case)
  next
    case (Variable name s e)
    with that show ?thesis by (auto simp: evaluateNode.simps intro: eval_eval_at.variable)
  next
    case (Unary op x s e)
    with that IH [of x] show ?thesis
      by (auto simp: evaluateNode.simps expect_Inr split: if_splits)
        (use eval_eval_at.not eval_eval_at.sign [of op] eval_eval_at.sign [of "js ''-''"] in fastforce)+
  next
    case (Conditional c y m s e)
    with that IH [of c] IH [of y] IH [of m] show ?thesis
      by (auto simp: evaluateNode.simps expect_Inr split: if_splits)
        (blast intro: eval_eval_at.yes eval_eval_at.no)+
  next
    case (Binary op l r s e)
    with that IH [of l] IH [of r] binary_node show ?thesis by (simp add: evaluateNode.simps)
  next
    case (Call f args s e)
    with that IH call_node show ?thesis by (simp add: evaluateNode.simps)
  qed
  show "eval env n st rv st'" if e: "evaluate env n st = Inr (rv, st')" for st rv st'
  proof -
    from e obtain st1 where d: "rt_depth st < 256"
      and n: "evaluateNode env n (st\<lparr>rt_depth := rt_depth st + 1\<rparr>) = Inr (rv, st1)"
      and c: "check_result n rv = Inr rv" and st': "st' = st1\<lparr>rt_depth := rt_depth st1 - 1\<rparr>"
      by (auto simp: evaluate.simps [of env n] Let_def split: if_splits dest: check_result_Inr)
    from eval_eval_at.enter [OF d node [OF n] c] show ?thesis by (simp add: st')
  qed
qed

theorem evaluate_iff: "evaluate env n st = Inr (rv, st') \<longleftrightarrow> eval env n st rv st'"
  using evaluate_eval(1) eval_evaluate(1) by blast

end
