(* ===== verification/BillingSoundness.thy ===== *)
theory BillingSoundness
  imports BillingSemantics
begin

text \<open>
  Properties of the evaluator by rule induction over the semantics: an interface for relations between
  the states before and after an evaluation (\<open>runtime_invariant\<close>) with its instances on the mutable
  fields of \<open>BillingRuntime\<close>, and type soundness with respect to the static checker.
\<close>

section \<open>Names used below a node\<close>

definition uses :: "ExpressionNode \<Rightarrow> jstr set" where
  "uses n = function_names (set (postorder n))"

lemma function_names_UN: "function_names (\<Union>x \<in> A. S x) = (\<Union>x \<in> A. function_names (S x))"
  by (auto simp: function_names_def)

lemma uses_unfold: "uses n = node_function n \<union> (\<Union>c \<in> set (children n). uses c)"
proof -
  have "uses n = function_names (set (concat (map postorder (children n)))) \<union> function_names {n}"
    by (auto simp: uses_def postorder.simps [of n] function_names_def)
  then show ?thesis by (auto simp: function_names_def uses_def)
qed

lemma uses_simps [simp]:
  "uses (Literal v i s e) = {}" "uses (Variable name s e) = {}"
  "uses (Call f args s e) = insert f (\<Union>c \<in> set args. uses c)"
  "uses (Unary op x s e) = uses x" "uses (Binary op l r s e) = uses l \<union> uses r"
  "uses (Conditional c y n s e) = uses c \<union> uses y \<union> uses n"
  by (simp_all add: uses_unfold [of "Literal v i s e"] uses_unfold [of "Variable name s e"]
      uses_unfold [of "Call f args s e"] uses_unfold [of "Unary op x s e"]
      uses_unfold [of "Binary op l r s e"] uses_unfold [of "Conditional c y n s e"] Un_assoc)

section \<open>Relations between states\<close>

text \<open>
  A relation that the state changes of the evaluator respect, among the functions a predicate allows,
  holds between the states before and after an evaluation.
\<close>

locale runtime_invariant =
  fixes env :: RuntimeEnv
    and rel :: "BillingRuntime \<Rightarrow> BillingRuntime \<Rightarrow> bool"
    and allows :: "jstr \<Rightarrow> bool"
  assumes refl: "rel st st"
    and trans: "rel st st1 \<Longrightarrow> rel st1 st2 \<Longrightarrow> rel st st2"
    and depth: "rel st (st\<lparr>rt_depth := d\<rparr>)"
    and mark: "rel st (mark_rule env n st)"
    and price: "allows (js ''fixed'')
      \<Longrightarrow> rel st (st\<lparr>rt_billingUnit := RequestUnit, rt_fixedPrice := Some x\<rparr>)"
    and tier: "allows (js ''tier'') \<Longrightarrow> rel st (st\<lparr>rt_matchedTier := t\<rparr>)"
    and zone: "zone_values env z st = Inr (tv, st') \<Longrightarrow> rel st st'"
begin

lemma arg_uses: "nth_opt args i = Some a \<Longrightarrow> (\<Union>c \<in> set args. uses c) \<subseteq> S \<Longrightarrow> uses a \<subseteq> S"
  using nth_opt_Some [of args i a] by blast

lemma preserved:
  "eval env n st rv st' \<Longrightarrow> uses n \<subseteq> Collect allows \<Longrightarrow> rel st st'"
  "eval_at env n st rv st' \<Longrightarrow> uses n \<subseteq> Collect allows \<Longrightarrow> rel st st'"
proof (induction rule: eval_eval_at.inducts)
  case (enter st n rv st')
  then have "rel (st\<lparr>rt_depth := rt_depth st + 1\<rparr>) st'" by simp
  from trans [OF trans [OF depth this] depth] show ?case .
next
  case (yes c st rv st1 y n s e w st2)
  then have "rel st st1" "rel (mark_rule env (Conditional c y n s e) st1) st2" by simp_all
  with trans mark show ?case by blast
next
  case (fixed args a st rv st1 x s e)
  then have "rel st st1" "allows (js ''fixed'')" using arg_uses by simp_all
  with trans price show ?case by blast
next
  case (tier args a b st rv st1 t w st2 x s e)
  then have r: "rel st st1" "rel st1 st2" and t: "allows (js ''tier'')" using arg_uses by simp_all
  from trans [OF trans [OF r] runtime_invariant.tier [OF runtime_invariant_axioms t]] show ?case .
next
  case (time f args a st rv st1 z tv st2 s e)
  then have r: "rel st st1" using arg_uses by simp
  from time have "zone_values env (trim z) st1 = Inr (tv, st2)" by simp
  from trans [OF r zone [OF this]] show ?case .
next
  case (literal v i s e st)
  show ?case by (rule refl)
next
  case (variable name s rv e st)
  show ?case by (rule refl)
next
  case (no c st rv st1 n w st2 y s e)
  then show ?case using trans [of st st1 st2] by simp
next
  case (and_true l st rv st1 r w st2 b s e)
  then show ?case using trans [of st st1 st2] by simp
next
  case (or_false l st rv st1 r w st2 b s e)
  then show ?case using trans [of st st1 st2] by simp
next
  case (operator op l st a st1 r b st2 s rv e)
  then show ?case using trans [of st st1 st2] by simp
next
  case (has_nothing args a b st rv st1 w st2 t s e)
  then show ?case using trans [of st st1 st2] arg_uses by simp
next
  case (has args a b st rv st1 w st2 u v s e)
  then show ?case using trans [of st st1 st2] arg_uses by simp
next
  case (min_max f args a b st rv st1 x w st2 y s e)
  then show ?case using trans [of st st1 st2] arg_uses by simp
qed (use arg_uses in \<open>simp_all\<close>)

end

lemma mark_rule_fields [simp]:
  "rt_matchedTier (mark_rule env n st) = rt_matchedTier st"
  "rt_billingUnit (mark_rule env n st) = rt_billingUnit st"
  "rt_fixedPrice (mark_rule env n st) = rt_fixedPrice st"
  "rt_timeValues (mark_rule env n st) = rt_timeValues st"
  "rt_headers (mark_rule env n st) = rt_headers st"
  "rt_depth (mark_rule env n st) = rt_depth st"
  by (simp_all add: mark_rule_def split: option.splits)

lemma zone_values_fields:
  assumes "zone_values env z st = Inr (tv, st')"
  shows "rt_matchedTier st' = rt_matchedTier st" "rt_billingUnit st' = rt_billingUnit st"
    "rt_fixedPrice st' = rt_fixedPrice st" "rt_requestRules st' = rt_requestRules st"
    "rt_headers st' = rt_headers st" "rt_depth st' = rt_depth st"
  using assms by (auto simp: zone_values_def split: option.splits)

section \<open>Instances\<close>

text \<open>The billing unit and the fixed price change only through \<open>fixed\<close>, the tier only through \<open>tier\<close>.\<close>

interpretation price_kept: runtime_invariant env
  "\<lambda>st st'. rt_billingUnit st' = rt_billingUnit st \<and> rt_fixedPrice st' = rt_fixedPrice st"
  "\<lambda>f. f \<noteq> js ''fixed''" for env
  by unfold_locales (auto dest: zone_values_fields)

interpretation tier_kept: runtime_invariant env
  "\<lambda>st st'. rt_matchedTier st' = rt_matchedTier st" "\<lambda>f. f \<noteq> js ''tier''" for env
  by unfold_locales (auto dest: zone_values_fields)

text \<open>A request is billed exactly when a fixed price is known.\<close>

definition unit_agrees :: "BillingRuntime \<Rightarrow> bool" where
  "unit_agrees st \<longleftrightarrow> (rt_billingUnit st = RequestUnit \<longleftrightarrow> rt_fixedPrice st \<noteq> None)"

interpretation unit_agreement: runtime_invariant env
  "\<lambda>st st'. unit_agrees st \<longrightarrow> unit_agrees st'" "\<lambda>f. True" for env
  by unfold_locales (auto simp: unit_agrees_def dest: zone_values_fields)

text \<open>The rules keep their number, condition and multiplier, and a matched rule stays matched.\<close>

definition rule_step :: "BillingRequestRule \<Rightarrow> BillingRequestRule \<Rightarrow> bool" where
  "rule_step r r' \<longleftrightarrow>
     rr_cond r' = rr_cond r \<and> rr_multiplier r' = rr_multiplier r \<and> (rr_matched r \<longrightarrow> rr_matched r')"

lemma list_all2_update: "list_all2 R xs xs \<Longrightarrow> i < length xs \<Longrightarrow> R (xs ! i) y \<Longrightarrow> list_all2 R xs (xs[i := y])"
  by (auto simp: list_all2_conv_all_nth nth_list_update)

lemma rule_step_refl [simp]: "list_all2 rule_step rs rs"
  by (simp add: rule_step_def list_all2_refl)

lemma rule_step_trans: "list_all2 rule_step a b \<Longrightarrow> list_all2 rule_step b c \<Longrightarrow> list_all2 rule_step a c"
  by (rule list_all2_trans [where ?P1.0 = rule_step and ?P2.0 = rule_step]) (auto simp: rule_step_def)

interpretation rules_kept: runtime_invariant env
  "\<lambda>st st'. list_all2 rule_step (rt_requestRules st) (rt_requestRules st') \<and> rt_headers st' = rt_headers st"
  "\<lambda>f. True" for env
proof unfold_locales
  fix st n
  have "list_all2 rule_step rs (rs[i := (rs ! i)\<lparr>rr_matched := True\<rparr>])" for rs i
    by (cases "i < length rs") (auto simp: rule_step_def list_update_beyond intro: list_all2_update)
  then show "list_all2 rule_step (rt_requestRules st) (rt_requestRules (mark_rule env n st))
      \<and> rt_headers (mark_rule env n st) = rt_headers st"
    by (simp add: mark_rule_def split: option.splits)
qed (auto dest: zone_values_fields intro: rule_step_trans)

text \<open>
  The zone table is a memo table of \<open>timeInBillingZone\<close>: what it holds is what the function returns, so
  the calendar functions do not depend on the order of evaluation.
\<close>

definition zone_put :: "(jstr \<times> TimeValues) list \<Rightarrow> jstr \<Rightarrow> TimeValues \<Rightarrow> (jstr \<times> TimeValues) list" where
  "zone_put table zone v = table @ [(zone, v)]"

interpretation timeValues: memo_table map_of zone_put "\<lambda>table. True"
  "\<lambda>z v. timeInBillingZone (env_intl env) (env_now env) z = Inr v"
  for env :: RuntimeEnv
  by unfold_locales (auto simp: zone_put_def map_add_Some_iff map_add_def split: if_splits option.splits)

interpretation zones_sound: runtime_invariant env
  "\<lambda>st st'. timeValues.sound env (rt_timeValues st) \<longrightarrow> timeValues.sound env (rt_timeValues st')"
  "\<lambda>f. True" for env
proof unfold_locales
  fix z st tv st'
  assume z: "zone_values env z st = Inr (tv, st')"
  show "timeValues.sound env (rt_timeValues st) \<longrightarrow> timeValues.sound env (rt_timeValues st')"
  proof
    assume sound: "timeValues.sound env (rt_timeValues st)"
    show "timeValues.sound env (rt_timeValues st')"
    proof (cases "map_of (rt_timeValues st) z")
      case None
      with z have t: "timeInBillingZone (env_intl env) (env_now env) z = Inr tv"
        and st': "st' = st\<lparr>rt_timeValues := zone_put (rt_timeValues st) z tv\<rparr>"
        by (auto simp: zone_values_def zone_put_def)
      from timeValues.sound_miss [OF sound None t] st' show ?thesis by simp
    qed (use z sound in \<open>auto simp: zone_values_def\<close>)
  qed
qed auto

section \<open>The depth counter\<close>

lemma depth_restored:
  "eval env n st rv st' \<Longrightarrow> rt_depth st' = rt_depth st"
  "eval_at env n st rv st' \<Longrightarrow> rt_depth st' = rt_depth st"
proof (induction rule: eval_eval_at.inducts)
  case (time f args a st rv st1 z tv st2 s e)
  then have "zone_values env (trim z) st1 = Inr (tv, st2)" by simp
  with time zone_values_fields(6) show ?case by simp
qed simp_all

section \<open>Type soundness\<close>

text \<open>The values of a static type; \<open>dynamic\<close> says nothing.\<close>

fun of_type :: "ExpressionType \<Rightarrow> jsvalue \<Rightarrow> bool" where
  "of_type ET_number v = is_JNum v"
| "of_type ET_string v = is_JStr v"
| "of_type ET_boolean v = is_JBool v"
| "of_type ET_nil v = (v = JNull)"
| "of_type ET_dynamic v = True"

text \<open>
  \<open>+\<close> on two operands of unknown type is typed as a number but concatenates when both turn out to be
  strings. A tree is definite when no \<open>+\<close> in it has two dynamic operands.
\<close>

fun definite :: "ExpressionNode \<Rightarrow> bool" where
  "definite (Binary op l r _ _) =
     (definite l \<and> definite r
      \<and> (op = js ''+'' \<longrightarrow> \<not> (has_type l ET_dynamic \<and> has_type r ET_dynamic)))"
| "definite (Unary _ x _ _) = definite x"
| "definite (Conditional c y n _ _) = (definite c \<and> definite y \<and> definite n)"
| "definite (Call _ args _ _) = list_all definite args"
| "definite _ = True"

text \<open>Without a conversion of strings the operators keep to their types.\<close>

lemma arithmetic_number:
  "arithmetic op s x y i = Inr rv \<Longrightarrow> is_JNum (rv_value rv)"
  by (auto simp: arithmetic_def plain_def split: if_splits)

lemma is_J_iff: "is_JNum v \<longleftrightarrow> (\<exists>x. v = JNum x)" "is_JStr v \<longleftrightarrow> (\<exists>s. v = JStr s)"
  "is_JBool v \<longleftrightarrow> (\<exists>b. v = JBool b)"
  by (cases v; simp)+

lemma apply_comparison:
  assumes "op \<in> COMPARISON" "apply_binary op s a b = Inr rv"
  shows "is_JBool (rv_value rv)"
  using assms
  by (auto simp: apply_binary_def Let_def plain_def COMPARISON_def arithmetic_def
      split: if_splits option.splits prod.splits jsvalue.splits bool.splits)

lemma apply_arithmetic:
  assumes "op \<notin> LOGICAL \<union> COMPARISON" "apply_binary op s a b = Inr rv"
  shows "is_JNum (rv_value rv) \<or>
    op = js ''+'' \<and> is_JStr (rv_value a) \<and> is_JStr (rv_value b) \<and> is_JStr (rv_value rv)"
proof -
  have c: "compare_values op (rv_value a) (rv_value b) = None"
    using assms(1) by (auto simp: compare_values_def COMPARISON_def split: jsvalue.splits)
  from assms(1) have "\<not> (op = js ''=='' \<or> op = js ''!='')" by (auto simp: COMPARISON_def)
  with assms(2) c show ?thesis
    by (auto simp: apply_binary_def Let_def plain_def dest: arithmetic_number
        split: if_splits prod.splits jsvalue.splits bool.splits)
qed

lemma evaluate_variable_number: "evaluate_variable env name s = Inr rv \<Longrightarrow> is_JNum (rv_value rv)"
  by (auto simp: evaluate_variable_def Let_def plain_def split: if_splits option.splits jsvalue.splits)

lemma literal_of_type: "of_type (literal_type v) (literal_value v)"
  by (cases v) auto

text \<open>The type of a form whose operator or function fixes it.\<close>

lemma has_type_not: "has_type (Unary (js ''!'') x s e) t \<Longrightarrow> t = ET_boolean"
  by (auto elim: has_type_UnaryE)

lemma has_type_sign: "op \<noteq> js ''!'' \<Longrightarrow> has_type (Unary op x s e) t \<Longrightarrow> t = ET_number"
  by (auto elim: has_type_UnaryE)

lemma has_type_logical: "op \<in> LOGICAL \<Longrightarrow> has_type (Binary op l r s e) t \<Longrightarrow> t = ET_boolean"
  by (erule has_type_BinaryE) (auto simp: operator_classes)

lemma has_type_and_or:
  "has_type (Binary (js ''&&'') l r s e) t \<Longrightarrow> t = ET_boolean"
  "has_type (Binary (js ''||'') l r s e) t \<Longrightarrow> t = ET_boolean"
  by (rule has_type_logical; auto simp: LOGICAL_def)+

lemma has_type_operator:
  assumes "op \<notin> LOGICAL \<union> COMPARISON" "has_type (Binary op l r s e) t"
  obtains (strings) "op = js ''+''" "t = ET_string" "has_type l ET_string" "has_type r ET_string"
    | (numbers) t1 t2 where "t = ET_number" "has_type l t1" "has_type r t2"
      "accepts t1 ET_number" "accepts t2 ET_number"
  using assms(2,1) that by (cases rule: has_type_BinaryE) auto

lemma has_type_call:
  assumes "has_type (Call f args s e) t"
  shows "f = js ''header'' \<Longrightarrow> t = ET_string" "f = js ''has'' \<Longrightarrow> t = ET_boolean"
    "f \<in> {js ''param'', js ''u''} \<Longrightarrow> t = ET_dynamic"
    "f \<in> {js ''tier''} \<union> set TIME_FUNCTIONS \<union> NUMERIC_CALLS \<Longrightarrow> t = ET_number"
proof -
  show "f = js ''header'' \<Longrightarrow> t = ET_string"
    using assms by (cases rule: has_type_CallE) (auto simp: vocabulary_defs)
  show "f = js ''has'' \<Longrightarrow> t = ET_boolean"
    using assms by (cases rule: has_type_CallE) (auto simp: vocabulary_defs)
  show "f \<in> {js ''param'', js ''u''} \<Longrightarrow> t = ET_dynamic"
    using assms by (cases rule: has_type_CallE) (auto simp: vocabulary_defs)
  show "f \<in> {js ''tier''} \<union> set TIME_FUNCTIONS \<union> NUMERIC_CALLS \<Longrightarrow> t = ET_number"
    using assms by (cases rule: has_type_CallE) (auto simp: vocabulary_defs)
qed

lemma has_type_comparison: "op \<in> COMPARISON \<Longrightarrow> has_type (Binary op l r s e) t \<Longrightarrow> t = ET_boolean"
  by (erule has_type_BinaryE) (auto simp: operator_classes)

lemma type_sound:
  "eval env n st rv st' \<Longrightarrow> has_type n t \<Longrightarrow> definite n \<Longrightarrow> of_type t (rv_value rv)"
  "eval_at env n st rv st' \<Longrightarrow> has_type n t \<Longrightarrow> definite n \<Longrightarrow> of_type t (rv_value rv)"
proof (induction arbitrary: t and t rule: eval_eval_at.inducts)
  case (literal v i s e st)
  then show ?case using literal_of_type by auto
next
  case (variable name s rv e st)
  then show ?case using evaluate_variable_number by auto
next
  case (yes c st rv st1 y n s e w st2)
  from yes.prems(1) show ?case
    by (cases rule: has_type_ConditionalE) (use yes in \<open>auto split: if_splits\<close>)
next
  case (no c st rv st1 n w st2 y s e)
  from no.prems(1) show ?case
    by (cases rule: has_type_ConditionalE) (use no in \<open>auto split: if_splits\<close>)
next
  case (operator op l st a st1 r b st2 s rv e)
  then have bin: "apply_binary op s a b = Inr rv" and nl: "op \<notin> LOGICAL"
    and l: "has_type l u \<Longrightarrow> of_type u (rv_value a)" and r: "has_type r u \<Longrightarrow> of_type u (rv_value b)"
    and d: "op = js ''+'' \<longrightarrow> \<not> (has_type l ET_dynamic \<and> has_type r ET_dynamic)" for u
    by auto
  show ?case
  proof (cases "op \<in> COMPARISON")
    case True
    with has_type_comparison operator.prems(1) apply_comparison [OF True bin] show ?thesis
      by (metis of_type.simps(3))
  next
    case False
    with nl have op: "op \<notin> LOGICAL \<union> COMPARISON" by simp
    from op operator.prems(1) show ?thesis
    proof (cases rule: has_type_operator)
      case strings
      with l [of ET_string] r [of ET_string] bin show ?thesis
        by (auto simp: is_J_iff apply_binary_def Let_def plain_def)
    next
      case (numbers t1 t2)
      from apply_arithmetic [OF op bin] show ?thesis
      proof
        assume "op = js ''+'' \<and> is_JStr (rv_value a) \<and> is_JStr (rv_value b) \<and> is_JStr (rv_value rv)"
        with numbers l [of t1] r [of t2] d show ?thesis by (auto simp: accepts_def is_J_iff)
      qed (use numbers in simp)
    qed
  qed
qed (auto dest: has_type_not has_type_sign has_type_and_or has_type_call
    simp: LOGICAL_def NUMERIC_CALLS_def plain_def)

text \<open>Every number an evaluation returns is finite, and safe where it is marked as an integer.\<close>

lemma check_result_number:
  "check_result n rv = Inr rv \<Longrightarrow> rv_value rv = JNum x
    \<Longrightarrow> isFinite x \<and> (rv_integer rv = Some True \<longrightarrow> isSafeInteger x)"
  by (auto simp: check_result_def split: if_splits)

lemma eval_finite:
  "eval env n st rv st' \<Longrightarrow> rv_value rv = JNum x
    \<Longrightarrow> isFinite x \<and> (rv_integer rv = Some True \<longrightarrow> isSafeInteger x)"
  by (erule eval.cases) (auto dest: check_result_number)

section \<open>Errors are diagnosed\<close>

text \<open>A computation that throws nothing but the core's own diagnostics.\<close>

definition diagnosed :: "thrown + 'a \<Rightarrow> bool" where
  "diagnosed m \<longleftrightarrow> (\<forall>msg. m \<noteq> Inl (OtherError msg))"

lemma diagnosed_simps [simp]:
  "diagnosed (Inr v)" "diagnosed (throw c d)" "diagnosed (throw_at c d p)"
  by (simp_all add: diagnosed_def throw_def throw_at_def)

lemma diagnosed_andThen [intro!]:
  "diagnosed m \<Longrightarrow> (\<And>v. m = Inr v \<Longrightarrow> diagnosed (k v)) \<Longrightarrow> diagnosed (andThen m k)"
  by (cases m) (auto simp: diagnosed_def)

lemma diagnosed_traverse: "(\<And>x. x \<in> set xs \<Longrightarrow> diagnosed (f x)) \<Longrightarrow> diagnosed (traverse f xs)"
  by (induction xs) auto

lemma diagnosed_path_parts: "diagnosed (path_parts path part parts cs)"
  by (induction path part parts cs rule: path_parts.induct) (auto split: list.splits)

lemma diagnosed_read_parts: "diagnosed (read_parts path v parts)"
  by (induction path v parts rule: read_parts.induct) auto

lemma diagnosed_readRequestPath: "diagnosed (readRequestPath body raw)"
  by (auto simp: readRequestPath_def Let_def diagnosed_path_parts diagnosed_read_parts)

lemma diagnosed_billingString: "diagnosed (billingString v d)"
proof (induction v d rule: billingString.induct)
  case (1 v d)
  show ?case
  proof (cases v)
    case (JArr xs)
    with 1(1) show ?thesis
      by (auto simp: billingString.simps [of "JArr xs"] intro!: diagnosed_traverse)
  next
    case (JObj ps)
    with 1(2) show ?thesis
      by (auto simp: billingString.simps [of "JObj ps"] intro!: diagnosed_traverse)
  qed (auto simp: billingString.simps [of JUndefined] billingString.simps [of JNull]
      billingString.simps [of "JBool _"] billingString.simps [of "JNum _"]
      billingString.simps [of "JStr _"] billingNumber_def Let_def split: jsnum.splits prod.splits)
qed

lemma diagnosed_timeInBillingZone: "diagnosed (timeInBillingZone intl now z)"
  by (auto simp: timeInBillingZone_def Let_def split: jsnum.splits option.splits)

lemma diagnosed_zone_values: "diagnosed (zone_values env z st)"
  by (auto simp: zone_values_def diagnosed_timeInBillingZone split: option.splits)

lemma diagnosed_expect:
  "diagnosed (expect_boolean n p)" "diagnosed (expect_numeric n p)" "diagnosed (expect_string n p)"
  by (cases p; simp add: expect_boolean.simps expect_numeric.simps expect_string.simps
      split: jsvalue.splits)+

lemma diagnosed_check_result: "diagnosed (check_result n rv)"
  by (auto simp: check_result_def split: jsvalue.splits)

lemma diagnosed_variable: "diagnosed (evaluate_variable env name s)"
  by (auto simp: evaluate_variable_def Let_def split: option.splits jsvalue.splits)

lemma diagnosed_apply_binary: "diagnosed (apply_binary op s a b)"
  by (auto simp: apply_binary_def arithmetic_def Let_def split: option.splits jsvalue.splits
      prod.splits bool.splits)

lemmas diagnosed_steps = diagnosed_expect diagnosed_check_result diagnosed_variable
  diagnosed_apply_binary diagnosed_zone_values diagnosed_readRequestPath diagnosed_billingString

lemma diagnosed_binary:
  "(\<And>st. diagnosed (evaluate env l st)) \<Longrightarrow> (\<And>st. diagnosed (evaluate env r st))
    \<Longrightarrow> diagnosed (binary env op l r s st)"
  by (auto simp: binary.simps diagnosed_steps)

lemma diagnosed_call:
  assumes wf: "well_formed (Call f args s e)"
    and args: "\<And>a st. a \<in> set args \<Longrightarrow> diagnosed (evaluate env a st)"
  shows "diagnosed (call env f args s st)"
proof -
  from wf have len: "map_of BILLING_FUNCTIONS f = Some (length args)" by simp
  then obtain a where a: "nth_opt args 0 = Some a" "a \<in> set args"
    by (cases args) (auto simp: BILLING_FUNCTIONS_def split: if_splits)
  have b: "\<exists>b. nth_opt args (Suc 0) = Some b \<and> b \<in> set args"
    if "f \<in> {js ''tier'', js ''has'', js ''min'', js ''max''}"
  proof -
    from len that have "length args = 2" by (auto simp: BILLING_FUNCTIONS_def)
    then show ?thesis by (auto simp: length_1_2)
  qed
  show ?thesis
    unfolding call.simps [of env f args s st] a(1)
    using b args [OF a(2)] args
    by (auto simp: diagnosed_steps split: option.splits)
qed

lemma diagnosed_evaluate:
  "well_formed n \<Longrightarrow> diagnosed (evaluate env n st)"
proof (induction n arbitrary: st rule: postorder.induct)
  case (1 n)
  have IH: "diagnosed (evaluate env c st)" if "c \<in> set (children n)" for c st
    using 1 that well_formed_children by blast
  have "diagnosed (evaluateNode env n st)" for st
  proof (cases n)
    case (Call f args s e)
    with IH 1(2) diagnosed_call show ?thesis by (simp add: evaluateNode.simps)
  next
    case (Binary op l r s e)
    with IH diagnosed_binary show ?thesis by (simp add: evaluateNode.simps)
  next
    case (Conditional c y m s e)
    with IH show ?thesis by (auto simp: evaluateNode.simps diagnosed_steps)
  qed (use IH in \<open>auto simp: evaluateNode.simps diagnosed_steps\<close>)
  then show ?case by (auto simp: evaluate.simps [of env n] Let_def diagnosed_steps)
qed

end
