(* ===== verification/BillingService.thy ===== *)
theory BillingService
  imports BillingSoundness
begin

text \<open>
  The path from source text to billing result: parsing, compiling and evaluating report every failure
  as a classified diagnostic, and what a successful result satisfies.
\<close>

section \<open>Parsing is diagnosed\<close>

lemma diagnosed_lex_string: "diagnosed (lex_string quote start pos s v)"
  by (induction quote start pos s v rule: lex_string.induct)
    (auto simp: unterminated_def Let_def split: list.splits option.splits)

lemma diagnosed_lex_at: "diagnosed (lex_at src start rest)"
  by (auto simp: lex_at_def lex_number_def diagnosed_lex_string Let_def split: option.splits)

lemma diagnosed_next_lexeme: "diagnosed (next_lexeme st)"
  by (auto simp: next_lexeme_def Let_def diagnosed_lex_at)

lemma diagnosed_take_lexeme: "diagnosed (take_lexeme st)"
  by (auto simp: take_lexeme_def diagnosed_next_lexeme)

lemma diagnosed_expect_text: "diagnosed (expect t st)"
  by (simp add: expect_def diagnosed_take_lexeme)

lemma diagnosed_new_parser: "diagnosed (new_parser src)"
  by (auto simp: new_parser_def Let_def diagnosed_next_lexeme)

definition parsing :: "'a outcome \<Rightarrow> bool" where
  "parsing m \<longleftrightarrow> (\<forall>r. m = Some r \<longrightarrow> diagnosed r)"

lemma parsing_simps [simp]: "parsing None" "parsing (Some r) = diagnosed r"
  by (simp_all add: parsing_def)

lemma parsing_thenP [intro!]: "parsing m \<Longrightarrow> (\<And>v st. parsing (k v st)) \<Longrightarrow> parsing (thenP m k)"
proof (cases "(m, k)" rule: thenP.cases)
  case (2 e k')
  then show "parsing m \<Longrightarrow> (\<And>v st. parsing (k v st)) \<Longrightarrow> parsing (thenP m k)"
    by (auto simp: diagnosed_def)
qed auto

lemma parsing_all:
  "parsing (expression fuel minimum st)" "parsing (operator_loop fuel minimum left st)"
  "parsing (primary fuel st)" "parsing (call_arguments fuel args st)"
proof (induction fuel arbitrary: minimum st left args)
  case (Suc fuel)
  note steps = diagnosed_take_lexeme diagnosed_expect_text Suc
  {
    case 1
    show ?case by (auto simp: Let_def steps)
  next
    case 2
    show ?case by (auto simp: steps split: option.splits)
  next
    case 3
    show ?case unfolding primary.simps
      by (intro parsing_thenP) (auto simp: steps)
  next
    case 4
    show ?case by (auto simp: steps)
  }
qed simp_all

lemma throw_OtherError [simp]:
  "throw c d \<noteq> Inl (OtherError msg)" "throw_at c d p \<noteq> Inl (OtherError msg)"
  by (simp_all add: throw_def throw_at_def)

lemma diagnosed_parse: "diagnosed (parse src)"
proof -
  have "diagnosed (case expression (parse_fuel src) 0 st of
        None \<Rightarrow> Inl (OtherError (js ''out of fuel''))
      | Some (Inl e) \<Rightarrow> Inl e
      | Some (Inr (node, st)) \<Rightarrow>
          if lx_kind (p_current st) \<noteq> K_end
          then throw_at D_unsupported (lx_text (p_current st)) (lx_start (p_current st))
          else Inr node)" if "new_parser src = Inr st" for st
    using parser_returns [OF that] parsing_all(1) [of "parse_fuel src" 0 st]
    by (auto simp: diagnosed_def parsing_def split: option.splits sum.splits)
  then show ?thesis using diagnosed_new_parser by (auto simp: parse_def)
qed

section \<open>Compiling is diagnosed\<close>

lemma visit_events_nodes: "Some m \<in> set (visit_events d n) \<Longrightarrow> m \<in> set (postorder n)"
proof (induction d n rule: visit_events.induct)
  case (1 d n)
  then show ?case
    by (auto simp: visit_events.simps [of d n] postorder.simps [of n] split: if_splits)
qed

lemma diagnosed_run_events:
  "(\<And>m s. Some m \<in> set es \<Longrightarrow> diagnosed (v m s)) \<Longrightarrow> diagnosed (run_events v es s)"
proof (induction es arbitrary: s)
  case (Cons e es)
  then show ?case by (cases e) auto
qed simp

lemma diagnosed_visitExpression:
  assumes "\<And>m s. m \<in> set (postorder n) \<Longrightarrow> diagnosed (v m s)"
  shows "diagnosed (visitExpression n v s)"
  using assms visit_events_nodes [of _ 0 n]
  by (auto simp: visitExpression_def visit_loop_events intro!: diagnosed_run_events)

lemma diagnosed_expressionDependencies: "diagnosed (expressionDependencies n)"
  by (auto simp: expressionDependencies_def dependency_visitor_def split: prod.splits
      intro!: diagnosed_visitExpression)

lemma diagnosed_requireType: "diagnosed (requireType types c t)"
  by (simp add: requireType_def Let_def)

lemma diagnosed_requireArg: "i < length args \<Longrightarrow> diagnosed (requireArg types args i t)"
  by (simp add: requireArg_def nth_opt_def diagnosed_requireType)

lemma diagnosed_requireAll: "diagnosed (requireAll types cs t)"
  by (induction cs) (auto simp: diagnosed_requireType)

lemma call_arity:
  assumes "well_formed (Call f args s e)"
  shows "0 < length args" "f \<in> {js ''has'', js ''tier''} \<Longrightarrow> 1 < length args"
  using assms by (auto simp: BILLING_FUNCTIONS_def split: if_splits)

lemma diagnosed_check_node: "well_formed n \<Longrightarrow> diagnosed (check_node types n)"
proof (cases n)
  case (Call f args s e)
  assume "well_formed n"
  with Call call_arity [of f args s e] show ?thesis
    by (auto simp: check_node_def check_call_def diagnosed_requireArg diagnosed_requireAll)
qed (auto simp: check_node_def check_binary_def Let_def diagnosed_requireType)

lemma diagnosed_checkExpressionTypes:
  "well_formed ast \<Longrightarrow> diagnosed (checkExpressionTypes ast)"
  using well_formed_postorder [of ast]
  by (auto simp: checkExpressionTypes_def type_visitor_def diagnosed_check_node list_all_iff
      intro!: diagnosed_visitExpression)

lemma diagnosed_request_rule_visitor: "diagnosed (request_rule_visitor src n rules)"
  by (auto simp: request_rule_visitor_def diagnosed_expressionDependencies
      split: option.splits prod.splits)

lemma diagnosed_containsPricingMarker: "diagnosed (containsPricingMarker n)"
  by (auto simp: containsPricingMarker_def diagnosed_expressionDependencies)

lemma diagnosed_price_factor: "diagnosed (price_factor rules f)"
  by (auto simp: price_factor_def diagnosed_containsPricingMarker
      split: option.splits ExpressionNode.splits)

lemma fixed_arity: "well_formed (Call (js ''fixed'') args s e) \<Longrightarrow> args \<noteq> []"
  using call_arity(1) by blast

lemma diagnosed_validate_tier: "well_formed n \<Longrightarrow> diagnosed (validate_tier n)"
proof (cases n)
  case (Call f args s e)
  assume wf: "well_formed n"
  show ?thesis
  proof (cases "f = js ''tier''")
    case True
    with wf Call obtain a b where args: "args = [a, b]" using arity_2 by blast
    with wf Call have "well_formed b" by simp
    then show ?thesis
      using True Call args fixed_arity
      by (cases b) (auto simp: validate_tier_def Let_def diagnosed_containsPricingMarker
          split: list.splits)
  qed (use Call in \<open>simp add: validate_tier_def\<close>)
qed (simp_all add: validate_tier_def)

lemma diagnosed_validateFixedPricingTree:
  "well_formed n \<Longrightarrow> diagnosed (validateFixedPricingTree n rules)"
proof (induction n rules rule: validateFixedPricingTree.induct)
  case (1 n rules)
  note tier = diagnosed_validate_tier [OF 1(5)]
  show ?case
  proof (cases n)
    case (Conditional c y m s e)
    have "diagnosed (validateFixedPricingTree y rules)"
      "validateFixedPricingTree y rules = Inr () \<Longrightarrow> diagnosed (validateFixedPricingTree m rules)"
      if "containsPricingMarker c = Inr False"
      using 1(3) [OF Conditional that] 1(4) [OF Conditional that] 1(5) Conditional by auto
    then show ?thesis
      using tier diagnosed_containsPricingMarker Conditional
      by (subst validateFixedPricingTree.simps) auto
  next
    case (Binary op l r s e)
    show ?thesis
    proof (cases "op = js ''*''")
      case True
      have "diagnosed (validateFixedPricingTree l rules)" if "price_factor rules r = Inr True"
        using 1(1) [OF Binary True that] 1(5) Binary by auto
      moreover have "diagnosed (validateFixedPricingTree r rules)"
        if "price_factor rules r = Inr False" "price_factor rules l = Inr True"
        using 1(2) [OF Binary True that(1) _ that(2)] 1(5) Binary by auto
      ultimately show ?thesis
        using tier diagnosed_price_factor Binary True
        by (subst validateFixedPricingTree.simps) auto
    qed (use tier Binary in \<open>subst validateFixedPricingTree.simps, simp\<close>)
  qed (use tier in \<open>subst validateFixedPricingTree.simps, simp\<close>)+
qed

lemma diagnosed_compile_ready: "diagnosed (compile_ready src)"
  using parse_node(3) [of src]
  by (auto simp: compile_ready_def diagnosed_parse diagnosed_checkExpressionTypes
      diagnosed_expressionDependencies diagnosed_request_rule_visitor
      diagnosed_validateFixedPricingTree intro!: diagnosed_visitExpression)

section \<open>Evaluation\<close>

lemma diagnosed_check_tokens: "diagnosed (check_tokens ts)"
  by (induction ts rule: check_tokens.induct) (auto split: jsvalue.splits)

lemma diagnosed_read_headers: "diagnosed (read_headers es hs)"
  by (induction es hs rule: read_headers.induct) (auto simp: Let_def split: jsvalue.splits)

lemma diagnosed_new_runtime: "diagnosed (new_runtime compiled context)"
  by (auto simp: new_runtime_def diagnosed_read_headers)

lemma diagnosed_evaluate_compiled:
  "well_formed (c_ast compiled) \<Longrightarrow> diagnosed (evaluate_compiled intl clock compiled context)"
  by (auto simp: evaluate_compiled_def diagnosed_check_tokens diagnosed_new_runtime
      diagnosed_evaluate split: jsvalue.splits)

text \<open>A failure is classified by the code of its diagnostic.\<close>

definition classified :: "ExpressionFailure \<Rightarrow> bool" where
  "classified f \<longleftrightarrow>
     failure_status f =
       (case diag_code (diagnostic f) of
          D_missing_context \<Rightarrow> S_missing_context
        | D_unsupported \<Rightarrow> S_unsupported
        | D_limit \<Rightarrow> S_unsupported
        | _ \<Rightarrow> S_invalid)"

lemma expressionFailure_classified: "classified (expressionFailure e)"
  by (cases e) (auto simp: classified_def expressionFailure_def Let_def split: DiagnosticCode.splits)

lemma compile_source_classified: "compile_source src = Failed f \<Longrightarrow> classified f"
  by (auto simp: compile_source_def expressionFailure_classified split: sum.splits)

lemma evaluateCompilation_classified:
  "evaluateCompilation intl clock (compile_source src) context = EvalFailure f \<Longrightarrow> classified f"
  by (auto simp: evaluateCompilation_def expressionFailure_classified
      dest: compile_source_classified split: CompilationResult.splits sum.splits)

text \<open>What a success says about the expression and the final state.\<close>

lemma evaluate_compiled_Inr:
  assumes "evaluate_compiled intl clock compiled context = Inr r"
  obtains st0 rv st where "new_runtime compiled context = Inr st0"
    "eval (runtime_env compiled context clock intl) (c_ast compiled) st0 rv st"
    "rv_value rv = JNum (res_cost r)" "isFinite (res_cost r)" "\<not> js_lt (res_cost r) (num 0)"
    "res_billingUnit r = rt_billingUnit st" "res_fixedPrice r = rt_fixedPrice st"
    "res_matchedTier r = rt_matchedTier st" "res_requestRules r = rt_requestRules st"
    "res_imageCount r = (if js ''image_count'' \<in> set (c_variables compiled)
       then Some (case ctx_imageCount context of None \<Rightarrow> num 1 | Some n \<Rightarrow> n) else None)"
  using assms that
  by (auto simp: evaluate_compiled_def evaluate_iff split: jsvalue.splits if_splits)

lemma new_runtime_fields:
  assumes "new_runtime compiled context = Inr st"
  shows "rt_billingUnit st = TokenUnit" "rt_fixedPrice st = None" "rt_matchedTier st = []"
    "map rr_cond (rt_requestRules st) = map rule_cond (c_requestRules compiled)"
    "map rr_multiplier (rt_requestRules st) = map rule_multiplier (c_requestRules compiled)"
    "rt_timeValues st = []" "rt_depth st = 0"
  using assms by (auto simp: new_runtime_def)

lemma rule_steps_fields:
  "list_all2 rule_step rs rs' \<Longrightarrow>
    map rr_cond rs' = map rr_cond rs \<and> map rr_multiplier rs' = map rr_multiplier rs"
  by (induction rule: list_all2_induct) (auto simp: rule_step_def)

lemma success_result:
  assumes "evaluate_compiled intl clock compiled context = Inr r"
  shows "res_billingUnit r = RequestUnit \<longleftrightarrow> res_fixedPrice r \<noteq> None"
    "js ''fixed'' \<notin> uses (c_ast compiled) \<Longrightarrow> res_billingUnit r = TokenUnit \<and> res_fixedPrice r = None"
    "js ''tier'' \<notin> uses (c_ast compiled) \<Longrightarrow> res_matchedTier r = []"
    "map rr_cond (res_requestRules r) = map rule_cond (c_requestRules compiled)"
    "map rr_multiplier (res_requestRules r) = map rule_multiplier (c_requestRules compiled)"
proof -
  from assms obtain st0 rv st where new: "new_runtime compiled context = Inr st0"
    and e: "eval (runtime_env compiled context clock intl) (c_ast compiled) st0 rv st"
    and r: "res_billingUnit r = rt_billingUnit st" "res_fixedPrice r = rt_fixedPrice st"
      "res_matchedTier r = rt_matchedTier st" "res_requestRules r = rt_requestRules st"
    by (rule evaluate_compiled_Inr)
  note init = new_runtime_fields [OF new]
  have "unit_agrees st" using unit_agreement.preserved(1) [OF e] init by (simp add: unit_agrees_def)
  with r show "res_billingUnit r = RequestUnit \<longleftrightarrow> res_fixedPrice r \<noteq> None"
    by (simp add: unit_agrees_def)
  show "js ''fixed'' \<notin> uses (c_ast compiled) \<Longrightarrow> res_billingUnit r = TokenUnit \<and> res_fixedPrice r = None"
    using price_kept.preserved(1) [OF e] init r by auto
  show "js ''tier'' \<notin> uses (c_ast compiled) \<Longrightarrow> res_matchedTier r = []"
    using tier_kept.preserved(1) [OF e] init r by auto
  have "list_all2 rule_step (rt_requestRules st0) (rt_requestRules st)"
    using rules_kept.preserved(1) [OF e] by simp
  from rule_steps_fields [OF this] init r
  show "map rr_cond (res_requestRules r) = map rule_cond (c_requestRules compiled)"
    "map rr_multiplier (res_requestRules r) = map rule_multiplier (c_requestRules compiled)" by auto
qed

end
