(* ===== verification/BillingProperties.thy ===== *)
theory BillingProperties
  imports BillingService
begin

text \<open>
  The properties of the billing-expression core, each with a witness at a concrete expression: parser,
  static checks, compilation, evaluation.
\<close>

section \<open>A sample\<close>

definition sample_intl :: IntlProvider where
  "sample_intl = \<lparr>intl_resolve = (\<lambda>z. None), intl_parts = (\<lambda>z t. [])\<rparr>"

definition sample_context :: BillingSimulationContext where
  "sample_context =
     \<lparr>ctx_imageCount = None,
      ctx_tokens = Some [(js ''p'', JNum (num 1000)), (js ''c'', JNum (num 2))],
      ctx_request = Some \<lparr>req_body = JObj [(js ''a'', JStr (js ''x''))], req_headers = None\<rparr>,
      ctx_usage = None, ctx_now = None\<rparr>"

definition sample_source :: jstr where
  "sample_source = js ''tier(\"a\", p * 2) * (hour(\"UTC\") < 12 ? 3 : 1)''"

definition sample_compiled :: CompiledBillingExpression where
  "sample_compiled =
     (case compile_source sample_source of
        Ready c \<Rightarrow> c
      | Failed f \<Rightarrow> \<lparr>c_source = [], c_ast = Literal LNull None 0 0, c_variables = [],
                      c_functions = [], c_requestRules = []\<rparr>)"

definition sample_env :: RuntimeEnv where
  "sample_env = runtime_env sample_compiled sample_context (num 0) sample_intl"

definition sample_state :: BillingRuntime where
  "sample_state =
     \<lparr>rt_requestRules = [], rt_matchedTier = [], rt_billingUnit = TokenUnit, rt_fixedPrice = None,
      rt_timeValues = [], rt_headers = [], rt_depth = 0\<rparr>"

lemma sample_compiles: "compile_source sample_source = Ready sample_compiled"
proof -
  have "(case compile_source sample_source of Ready c \<Rightarrow> True | Failed f \<Rightarrow> False)" by code_simp
  then show ?thesis by (simp add: sample_compiled_def split: CompilationResult.splits)
qed

lemma sample_ready: "compile_ready sample_source = Inr sample_compiled"
  using sample_compiles by (simp add: compile_source_Ready)

section \<open>Evaluation\<close>

text \<open>
  C1: \<open>evaluate\<close> implements the big-step semantics: it returns a value with a final state exactly when
  the rules derive that value and state.
\<close>

theorem evaluator_implements_semantics:
  "evaluate env n st = Inr (rv, st') \<longleftrightarrow> eval env n st rv st'"
  using evaluate_eval(1) eval_evaluate(1) by blast

text \<open>
  C2: A successful billing evaluation has a finite, non-negative cost; it bills per request exactly when
  it reports a fixed price; and it reports every request rule of the expression, in order, with its
  condition and multiplier.
\<close>

theorem successful_result:
  assumes "compile_source src = Ready compiled"
    and "evaluateCompilation intl clock (Ready compiled) context = EvalSuccess r"
  shows "isFinite (res_cost r) \<and> \<not> js_lt (res_cost r) (num 0)
    \<and> (res_billingUnit r = RequestUnit \<longleftrightarrow> res_fixedPrice r \<noteq> None)
    \<and> map (\<lambda>rule. (rr_cond rule, rr_multiplier rule)) (res_requestRules r)
       = map (\<lambda>rule. (rule_cond rule, rule_multiplier rule)) (c_requestRules compiled)
    \<and> map rule_node (c_requestRules compiled) = filter is_request_rule (postorder (c_ast compiled))"
proof -
  from assms(2) have e: "evaluate_compiled intl clock compiled context = Inr r"
    by (simp add: evaluateCompilation_def split: sum.splits)
  have pair: "map (\<lambda>x. (f x, g x)) xs = zip (map f xs) (map g xs)" for f g and xs :: "'z list"
    by (simp add: zip_map_map zip_same_conv_map)
  from evaluate_compiled_Inr [OF e] have "isFinite (res_cost r) \<and> \<not> js_lt (res_cost r) (num 0)"
    by metis
  moreover have "extracts_rules src (postorder (c_ast compiled)) (c_requestRules compiled)"
    using assms(1) compile_ready_facts(8) by (simp add: compile_source_Ready)
  ultimately show ?thesis
    using success_result [OF e] by (simp add: pair extracts_rules_def)
qed

theorem successful_result_witness:
  "\<exists>r. evaluateCompilation sample_intl (num 0) (compile_source sample_source) sample_context = EvalSuccess r
     \<and> isFinite (res_cost r) \<and> length (res_requestRules r) = 1"
proof -
  have "(case evaluateCompilation sample_intl (num 0) (compile_source sample_source) sample_context of
      EvalSuccess r \<Rightarrow> length (res_requestRules r) = 1 | EvalFailure f \<Rightarrow> False)" by code_simp
  then obtain r where r: "evaluateCompilation sample_intl (num 0) (Ready sample_compiled) sample_context
      = EvalSuccess r" "length (res_requestRules r) = 1"
    by (auto simp: sample_compiles split: BillingEvaluationResult.splits)
  from successful_result [OF sample_compiles r(1)] r show ?thesis by (auto simp: sample_compiles)
qed

text \<open>
  C3: Type soundness. The value of an accepted expression without an undetermined \<open>+\<close> has the static
  type the checker gives the expression.
\<close>

theorem accepted_values_typed:
  assumes "compile_source src = Ready compiled" and "definite (c_ast compiled)"
    and "evaluate env (c_ast compiled) st = Inr (rv, st')"
  shows "\<exists>t. has_type (c_ast compiled) t \<and> of_type t (rv_value rv)"
  using assms compile_ready_facts(4) [of src compiled] type_sound(1)
  by (auto simp: compile_source_Ready typable_def evaluate_iff)

lemma sample_definite: "definite (c_ast sample_compiled)"
proof -
  have "js ''+'' \<noteq> js ''*''" "js ''+'' \<noteq> js ''<''" by simp_all
  have "c_ast sample_compiled =
    Binary (js ''*'')
      (Call (js ''tier'') [Literal (LStr (js ''a'')) None 5 8,
         Binary (js ''*'') (Variable (js ''p'') 10 11) (Literal (LNum (num 2)) (Some True) 14 15) 10 15] 0 16)
      (Conditional (Binary (js ''<'') (Call (js ''hour'') [Literal (LStr (js ''UTC'')) None 25 30] 20 31)
          (Literal (LNum (num 12)) (Some True) 34 36) 20 36)
        (Literal (LNum (num 3)) (Some True) 39 40) (Literal (LNum (num 1)) (Some True) 43 44) 19 45) 0 45"
    by code_simp
  then show ?thesis by simp
qed

theorem accepted_values_typed_witness:
  "\<exists>rv st'. evaluate sample_env (c_ast sample_compiled) sample_state = Inr (rv, st')
     \<and> (\<exists>t. has_type (c_ast sample_compiled) t \<and> of_type t (rv_value rv))"
proof -
  have "(case evaluate sample_env (c_ast sample_compiled) sample_state of Inr r \<Rightarrow> True | Inl e \<Rightarrow> False)"
    by code_simp
  then obtain rv st' where e: "evaluate sample_env (c_ast sample_compiled) sample_state = Inr (rv, st')"
    by (auto split: sum.splits)
  from accepted_values_typed [OF sample_compiles sample_definite e] e show ?thesis by blast
qed

text \<open>
  C4: The type checker accepts exactly the well-formed trees of depth at most 256 that have a type in
  the typing relation, and the type is unique.
\<close>

theorem checker_decides_typing:
  assumes "well_formed ast"
  shows "(checkExpressionTypes ast = Inr () \<longleftrightarrow> node_depth ast \<le> 256 \<and> (\<exists>t. has_type ast t))
    \<and> (\<forall>t u. has_type ast t \<and> has_type ast u \<longrightarrow> t = u)"
  using checkExpressionTypes_iff [OF assms] has_type_unique by (auto simp: typable_def)

theorem checker_decides_typing_witness:
  "\<exists>t. has_type (Binary (js ''-'') (Variable (js ''p'') 0 1) (Variable (js ''c'') 4 5) 0 5) t"
proof -
  let ?ast = "Binary (js ''-'') (Variable (js ''p'') 0 1) (Variable (js ''c'') 4 5) 0 5"
  have wf: "well_formed ?ast" by (simp add: hasOwn_def PRECEDENCE_def BILLING_VARIABLES_def TOKEN_VARIABLES_def)
  have "checkExpressionTypes ?ast = Inr ()" by code_simp
  with checker_decides_typing [OF wf] show ?thesis by blast
qed

text \<open>
  C5: Whatever the source text and the context, neither compiling nor evaluating fails with an error that
  is not one of the core's own diagnostics, and every failure of either carries the status that the code
  of its diagnostic determines. A text that does not compile evaluates to its compile failure.
\<close>

theorem failures_diagnosed:
  "diagnosed (compile_ready src)
    \<and> (case compile_source src of
         Failed f \<Rightarrow> classified f \<and> evaluateCompilation intl clock (compile_source src) context = EvalFailure f
       | Ready compiled \<Rightarrow> diagnosed (evaluate_compiled intl clock compiled context))
    \<and> (case evaluateCompilation intl clock (compile_source src) context of
         EvalFailure f \<Rightarrow> classified f
       | EvalSuccess r \<Rightarrow> True)"
proof (intro conjI)
  show "diagnosed (compile_ready src)" by (rule diagnosed_compile_ready)
  show "case compile_source src of
      Failed f \<Rightarrow> classified f \<and> evaluateCompilation intl clock (compile_source src) context = EvalFailure f
    | Ready compiled \<Rightarrow> diagnosed (evaluate_compiled intl clock compiled context)"
    using compile_source_classified [of src] diagnosed_evaluate_compiled compile_ready_facts(5) [of src]
    by (auto simp: evaluateCompilation_def compile_source_Ready split: CompilationResult.splits)
  show "case evaluateCompilation intl clock (compile_source src) context of
      EvalFailure f \<Rightarrow> classified f | EvalSuccess r \<Rightarrow> True"
    using evaluateCompilation_classified by (auto split: BillingEvaluationResult.splits)
qed

section \<open>Parsing\<close>

text \<open>
  C7: The recursive-descent parser returns for every source it starts on: fuel of twice the length and
  four is never used up.
\<close>

theorem parser_terminates:
  "(\<exists>e. new_parser src = Inl e)
   \<or> (\<exists>st r. new_parser src = Inr st \<and> expression (2 * length src + 4) 0 st = Some r)"
proof (cases "new_parser src")
  case (Inr st)
  with parser_returns [OF Inr] show ?thesis by (auto simp: parse_fuel_def)
qed auto

text \<open>
  C8: The nodes of a parsed tree have spans inside the source and inside their parents' spans, siblings
  follow each other without overlap, and no node occurs twice, so a node is identified by its value.
\<close>

theorem parsed_tree_spans:
  assumes "parse src = Inr n"
  shows "well_spanned n \<and> nend n \<le> length src \<and> distinct (postorder n) \<and> well_formed n"
  using assms parse_node parsed_distinct by blast

theorem parsed_tree_spans_witness:
  "\<exists>n. parse (js ''p * (c + 1)'') = Inr n \<and> length (postorder n) = 5 \<and> distinct (postorder n)"
proof -
  have "(case parse (js ''p * (c + 1)'') of Inr n \<Rightarrow> length (postorder n) = 5 | Inl e \<Rightarrow> False)"
    by code_simp
  then obtain n where "parse (js ''p * (c + 1)'') = Inr n" "length (postorder n) = 5"
    by (auto split: sum.splits)
  with parsed_tree_spans show ?thesis by blast
qed

section \<open>Traversal and analysis\<close>

text \<open>
  C9: The explicit-stack traversal is a postorder walk bounded at depth 256: it succeeds exactly on trees
  within the bound whose postorder run of the visitor succeeds, with that run's state.
\<close>

theorem traversal_is_bounded_postorder:
  "visitExpression n visitor s = Inr s'
    \<longleftrightarrow> node_depth n \<le> 256 \<and> run_visitor visitor (postorder n) s = Inr s'"
  by (rule visitExpression_Inr)

text \<open>
  The dependency analysis returns, without repetition, exactly the variables and the functions that
  occur in the tree.
\<close>

theorem dependencies_exact:
  assumes "expressionDependencies n = Inr (vs, fs)"
  shows "set vs = (\<Union>m \<in> set (postorder n). node_variable m) \<and> distinct vs
    \<and> set fs = (\<Union>m \<in> set (postorder n). node_function m) \<and> distinct fs"
  using expressionDependencies_sets [OF assms] by (simp add: variable_names_def function_names_def)

theorem dependencies_exact_witness:
  "js ''p'' \<in> (\<Union>m \<in> set (postorder (Binary (js ''+'') (Variable (js ''p'') 0 1) (Variable (js ''p'') 2 3) 0 3)).
     node_variable m)"
proof -
  have "expressionDependencies (Binary (js ''+'') (Variable (js ''p'') 0 1) (Variable (js ''p'') 2 3) 0 3)
      = Inr ([js ''p''], [])" by code_simp
  from dependencies_exact [OF this] have "set [js ''p''] =
    (\<Union>m \<in> set (postorder (Binary (js ''+'') (Variable (js ''p'') 0 1) (Variable (js ''p'') 2 3) 0 3)).
     node_variable m)" by blast
  then show ?thesis by auto
qed

section \<open>Compilation\<close>

text \<open>
  C11: The bounded cache is transparent: whatever was compiled before, each source compiles to what
  compiling it alone gives, and the cache never holds more than 128 entries.
\<close>

theorem compile_cache_transparent:
  "fst (compile_all (snd (compile_all [] before)) srcs) = map compile_source srcs
   \<and> length (snd (compile_all [] before)) \<le> 128"
proof -
  have s: "compiledCache.sound (snd (compile_all [] before))" using compile_all_sound by simp
  then have "cache_inv (snd (compile_all [] before))" by (simp add: compiledCache.sound_def)
  with compile_all_sound [OF s] show ?thesis by (simp add: cache_inv_def)
qed

text \<open>
  An expression that uses \<open>fixed\<close> is accepted only when its tree is a fixed pricing tree: tiers with
  a finite, non-negative literal price, joined by unmarked conditions and multiplied by \<open>image_count\<close> or
  by non-negative request rules.
\<close>

theorem fixed_pricing_checked:
  assumes "compile_source src = Ready compiled" and "js ''fixed'' \<in> uses (c_ast compiled)"
  shows "fixed_tree (c_requestRules compiled) (c_ast compiled)"
  using assms compile_ready_facts(7,9) [of src compiled] by (simp add: compile_source_Ready uses_def)

theorem fixed_pricing_checked_witness:
  "\<exists>c. compile_source (js ''image_count * tier(\"a\", fixed(0.5))'') = Ready c
     \<and> fixed_tree (c_requestRules c) (c_ast c)"
proof -
  have "(case compile_source (js ''image_count * tier(\"a\", fixed(0.5))'') of
      Ready c \<Rightarrow> js ''fixed'' \<in> set (c_functions c) | Failed f \<Rightarrow> False)" by code_simp
  then obtain c where c: "compile_source (js ''image_count * tier(\"a\", fixed(0.5))'') = Ready c"
    and f: "js ''fixed'' \<in> set (c_functions c)" by (auto split: CompilationResult.splits)
  from f compile_ready_facts(7) [of _ c] c have "js ''fixed'' \<in> uses (c_ast c)"
    by (auto simp: compile_source_Ready uses_def)
  from c fixed_pricing_checked [OF c this] show ?thesis by blast
qed

text \<open>
  Only \<open>fixed\<close> switches to billing per request and only \<open>tier\<close> names a tier: without them the result
  stays in token units and names none.
\<close>

theorem unit_and_tier_origin:
  assumes "compile_source src = Ready compiled"
    and "evaluateCompilation intl clock (Ready compiled) context = EvalSuccess r"
  shows "(js ''fixed'' \<notin> set (c_functions compiled)
      \<longrightarrow> res_billingUnit r = TokenUnit \<and> res_fixedPrice r = None)
    \<and> (js ''tier'' \<notin> set (c_functions compiled) \<longrightarrow> res_matchedTier r = [])"
proof -
  from assms(2) have e: "evaluate_compiled intl clock compiled context = Inr r"
    by (simp add: evaluateCompilation_def split: sum.splits)
  from assms(1) have "set (c_functions compiled) = uses (c_ast compiled)"
    using compile_ready_facts(7) by (simp add: compile_source_Ready uses_def)
  with success_result(2,3) [OF e] show ?thesis by simp
qed

theorem unit_and_tier_origin_witness:
  "\<exists>c r. compile_source (js ''p * 2'') = Ready c
     \<and> evaluateCompilation sample_intl (num 0) (Ready c) sample_context = EvalSuccess r
     \<and> res_matchedTier r = []"
proof -
  have "(case compile_source (js ''p * 2'') of
      Ready c \<Rightarrow> c_functions c = [] \<and>
        (case evaluateCompilation sample_intl (num 0) (Ready c) sample_context of
           EvalSuccess r \<Rightarrow> True | EvalFailure f \<Rightarrow> False)
    | Failed f \<Rightarrow> False)" by code_simp
  then obtain c r where c: "compile_source (js ''p * 2'') = Ready c" "c_functions c = []"
    "evaluateCompilation sample_intl (num 0) (Ready c) sample_context = EvalSuccess r"
    by (auto split: CompilationResult.splits BillingEvaluationResult.splits)
  from unit_and_tier_origin [OF c(1) c(3)] c show ?thesis by auto
qed

text \<open>
  The time functions do not depend on the order of evaluation: a zone looked up during an evaluation
  that starts with an empty table has the values \<open>timeInBillingZone\<close> gives for it.
\<close>

theorem zone_table_transparent:
  assumes "evaluate env n st0 = Inr (rv, st)" and "rt_timeValues st0 = []"
  shows "zone_values env zone st =
    andThen (timeInBillingZone (env_intl env) (env_now env) zone) (\<lambda>v.
      Inr (v, st\<lparr>rt_timeValues := (if map_of (rt_timeValues st) zone = None
                then rt_timeValues st @ [(zone, v)] else rt_timeValues st)\<rparr>))"
proof -
  have s: "timeValues.sound env (rt_timeValues st)"
    using zones_sound.preserved(1) [of env n st0 rv st] assms
    by (auto simp: evaluate_iff timeValues.sound_def)
  show ?thesis
    using timeValues.sound_hit [OF s] by (auto simp: zone_values_def split: option.splits)
qed

theorem zone_table_transparent_witness:
  "\<exists>rv st. evaluate sample_env (c_ast sample_compiled) sample_state = Inr (rv, st)
     \<and> zone_values sample_env (js ''UTC'') st = Inr (utc_values 0, st)"
proof -
  have "(case evaluate sample_env (c_ast sample_compiled) sample_state of
      Inr (rv, st) \<Rightarrow> map fst (rt_timeValues st) = [js ''UTC''] | Inl e \<Rightarrow> False)" by code_simp
  then obtain rv st where e: "evaluate sample_env (c_ast sample_compiled) sample_state = Inr (rv, st)"
    and z: "map fst (rt_timeValues st) = [js ''UTC'']" by (auto split: sum.splits)
  from z have "map_of (rt_timeValues st) (js ''UTC'') \<noteq> None" by (auto simp: map_of_eq_None_iff)
  moreover have "timeInBillingZone (env_intl sample_env) (env_now sample_env) (js ''UTC'')
      = Inr (utc_values 0)" by code_simp
  moreover have "rt_timeValues sample_state = []" by (simp add: sample_state_def)
  ultimately show ?thesis using zone_table_transparent [OF e] e by auto
qed

text \<open>
  The one gap of static typing: \<open>+\<close> on two operands of unknown type is typed as a number, and
  concatenates when both turn out to be strings.
\<close>

lemma dynamic_addition_concatenates:
  "\<exists>c rv st. compile_source (js ''param(\"a\") + param(\"a\")'') = Ready c
     \<and> has_type (c_ast c) ET_number
     \<and> evaluate (runtime_env c sample_context (num 0) sample_intl) (c_ast c) sample_state = Inr (rv, st)
     \<and> rv_value rv = JStr (js ''xx'')"
proof -
  let ?a = "\<lambda>s. Call (js ''param'') [Literal (LStr (js ''a'')) None (s + 6) (s + 9)] s (s + 10)"
  have "(case compile_source (js ''param(\"a\") + param(\"a\")'') of
      Ready c \<Rightarrow> c_ast c = Binary (js ''+'') (?a 0) (?a 13) 0 23
        \<and> (case evaluate (runtime_env c sample_context (num 0) sample_intl) (c_ast c) sample_state of
             Inr (rv, st) \<Rightarrow> rv_value rv = JStr (js ''xx'') | Inl e \<Rightarrow> False)
    | Failed f \<Rightarrow> False)" by code_simp
  then obtain c rv st where c: "compile_source (js ''param(\"a\") + param(\"a\")'') = Ready c"
    "c_ast c = Binary (js ''+'') (?a 0) (?a 13) 0 23"
    "evaluate (runtime_env c sample_context (num 0) sample_intl) (c_ast c) sample_state = Inr (rv, st)"
    "rv_value rv = JStr (js ''xx'')"
    by (auto split: CompilationResult.splits sum.splits)
  have a: "has_type (?a s) ET_dynamic" for s
    by (rule has_type.lookup [OF _ has_type.literal]) (simp_all add: accepts_def)
  have "has_type (c_ast c) ET_number"
    unfolding c(2) by (rule has_type.arithmetic [OF _ a a]) (simp_all add: operator_classes accepts_def)
  with c show ?thesis by blast
qed

end
