(* ===== verification/BillingDisplay.thy ===== *)
theory BillingDisplay
  imports BillingService
begin

text \<open>
  \<open>billing-expression/display.ts\<close>: reading the tiers of an accepted expression back from its tree, for
  token pricing (\<open>readTokenTierChain\<close>), time-dependent token pricing (\<open>readTimeTokenPricing\<close>) and task
  pricing (\<open>readTaskTierChain\<close>).
\<close>

section \<open>Token tiers\<close>

record TokenTierCondition =
  tc_var :: jstr
  tc_op :: jstr
  tc_value :: jsnum

record TokenTier =
  tt_conditionText :: "jstr option"
  tt_imageCount :: bool
  tt_billingUnit :: "BillingUnit option"
  tt_fixedPrice :: "jsnum option"
  tt_label :: jstr
  tt_conditions :: "TokenTierCondition list"
  tt_prices :: "(jstr \<times> jsnum) list"

fun flattenBinary :: "ExpressionNode \<Rightarrow> jstr \<Rightarrow> ExpressionNode list" where
  "flattenBinary (Binary op l r s e) operator =
     (if op \<noteq> operator then [Binary op l r s e]
      else flattenBinary l operator @ flattenBinary r operator)"
| "flattenBinary node operator = [node]"

definition TIER_OPERATORS :: "jstr set" where
  "TIER_OPERATORS = {js ''<'', js ''<='', js ''>'', js ''>=''}"

definition TIER_VARIABLES :: "jstr set" where
  "TIER_VARIABLES = {js ''p'', js ''c'', js ''len''}"

fun token_condition :: "ExpressionNode \<Rightarrow> TokenTierCondition option" where
  "token_condition (Binary op (Variable name _ _) (Literal (LNum x) _ _ _) _ _) =
     (if op \<notin> TIER_OPERATORS \<or> name \<notin> TIER_VARIABLES \<or> js_lt x (num 0) then None
      else Some \<lparr>tc_var = name, tc_op = op, tc_value = x\<rparr>)"
| "token_condition _ = None"

definition tokenConditions :: "ExpressionNode \<Rightarrow> TokenTierCondition list option" where
  "tokenConditions node = all_some (map token_condition (flattenBinary node (js ''&&'')))"

fun is_zero_literal :: "ExpressionNode \<Rightarrow> bool" where
  "is_zero_literal (Literal (LNum x) _ _ _) = js_num_eq x (num 0)"
| "is_zero_literal _ = False"

definition nonnegativePriceLiteral :: "ExpressionNode \<Rightarrow> jsnum option" where
  "nonnegativePriceLiteral node =
     (case node of
        Literal (LNum x) _ _ _ \<Rightarrow> if js_le (num 0) x then Some x else None
      | Unary op x _ _ \<Rightarrow> if op = js ''-'' \<and> is_zero_literal x then Some NZero else None
      | _ \<Rightarrow> None)"

text \<open>The factor that is a price literal, preferably on the right, and the other factor.\<close>

fun price_term :: "ExpressionNode \<Rightarrow> (ExpressionNode \<times> jsnum) option" where
  "price_term (Binary op l r _ _) =
     (if op \<noteq> js ''*'' then None
      else case nonnegativePriceLiteral r of
          Some price \<Rightarrow> Some (l, price)
        | None \<Rightarrow> (case nonnegativePriceLiteral l of
              Some price \<Rightarrow> Some (r, price)
            | None \<Rightarrow> None))"
| "price_term _ = None"

text \<open>\<open>len - ai\<close>, the text part of the input.\<close>

fun is_text_remainder :: "ExpressionNode \<Rightarrow> bool" where
  "is_text_remainder (Binary op (Variable a _ _) (Variable b _ _) _ _) =
     (op = js ''-'' \<and> a = js ''len'' \<and> b = js ''ai'')"
| "is_text_remainder _ = False"

fun price_variable :: "ExpressionNode \<Rightarrow> jstr option" where
  "price_variable (Variable name _ _) =
     (if name \<noteq> js ''len'' \<and> name \<noteq> js ''image_count'' then Some name else None)"
| "price_variable (Call f [a, b] _ _) =
     (if f \<noteq> js ''max'' then None
      else if is_zero_literal a then (if is_text_remainder b then Some (js ''p'') else None)
      else if \<not> is_zero_literal b then None
      else if is_text_remainder a then Some (js ''p'') else None)"
| "price_variable _ = None"

fun read_prices :: "(jstr \<times> jsnum) list \<Rightarrow> ExpressionNode list \<Rightarrow> (jstr \<times> jsnum) list option" where
  "read_prices prices [] = Some prices"
| "read_prices prices (term # terms) =
     (case price_term term of
        None \<Rightarrow> None
      | Some (input, price) \<Rightarrow>
          (case price_variable input of
             None \<Rightarrow> None
           | Some variable \<Rightarrow>
               if hasOwn prices variable then None
               else read_prices (prices @ [(variable, price)]) terms))"

text \<open>\<open>body.kind === 'call' && body.name === 'fixed'\<close> on a number literal.\<close>

fun fixed_literal :: "ExpressionNode \<Rightarrow> jsnum option" where
  "fixed_literal (Call f (Literal (LNum x) _ _ _ # _) _ _) = (if f = js ''fixed'' then Some x else None)"
| "fixed_literal _ = None"

definition plain_tier :: "jstr \<Rightarrow> TokenTierCondition list \<Rightarrow> (jstr \<times> jsnum) list \<Rightarrow> TokenTier" where
  "plain_tier label conditions prices =
     \<lparr>tt_conditionText = None, tt_imageCount = False, tt_billingUnit = None, tt_fixedPrice = None,
      tt_label = label, tt_conditions = conditions, tt_prices = prices\<rparr>"

fun tokenTier :: "ExpressionNode \<Rightarrow> TokenTierCondition list \<Rightarrow> TokenTier option" where
  "tokenTier (Call f (Literal (LStr label) _ _ _ # body # _) _ _) conditions =
     (if f \<noteq> js ''tier'' then None
      else case fixed_literal body of
          Some x \<Rightarrow>
            Some ((plain_tier label conditions [])
              \<lparr>tt_billingUnit := Some RequestUnit, tt_fixedPrice := Some x\<rparr>)
        | None \<Rightarrow>
            (case read_prices [] (flattenBinary body (js ''+'')) of
               None \<Rightarrow> None
             | Some prices \<Rightarrow>
                 if prices = [] then None else Some (plain_tier label conditions prices)))"
| "tokenTier _ _ = None"

text \<open>The variables \<open>ai\<close> and \<open>ao\<close> compared with zero in the two sides of a disjunction.\<close>

fun audio_probe :: "ExpressionNode \<Rightarrow> jstr set" where
  "audio_probe (Binary op (Variable name _ _) r _ _) =
     (if op = js ''>'' \<and> (name = js ''ai'' \<or> name = js ''ao'') \<and> is_zero_literal r then {name} else {})"
| "audio_probe _ = {}"

fun audio_split :: "ExpressionNode \<Rightarrow> bool" where
  "audio_split (Binary op l r _ _) = (op = js ''||'' \<and> card (audio_probe l \<union> audio_probe r) = 2)"
| "audio_split _ = False"

text \<open>The linear chain of the final loop.\<close>

fun tier_chain :: "ExpressionNode \<Rightarrow> TokenTier list option" where
  "tier_chain (Conditional c y n _ _) =
     (case tokenConditions c of
        None \<Rightarrow> None
      | Some conditions \<Rightarrow>
          (case tokenTier y conditions of
             None \<Rightarrow> None
           | Some tier \<Rightarrow> map_option (\<lambda>tiers. tier # tiers) (tier_chain n)))"
| "tier_chain node = map_option (\<lambda>tier. [tier]) (tokenTier node [])"

fun is_image_count :: "ExpressionNode \<Rightarrow> bool" where
  "is_image_count (Variable name _ _) = (name = js ''image_count'')"
| "is_image_count _ = False"

fun audio_tiers :: "ExpressionNode \<Rightarrow> TokenTier list option" where
  "audio_tiers (Conditional c y n _ _) =
     (if audio_split c then
        (case (tokenTier y [], tokenTier n []) of
           (Some audio, Some text) \<Rightarrow>
             Some [audio\<lparr>tt_conditionText := Some (js ''Audio requests'')\<rparr>,
                   text\<lparr>tt_conditionText := Some (js ''Text-only requests'')\<rparr>]
         | _ \<Rightarrow> None)
      else None)"
| "audio_tiers _ = None"

text \<open>The operand that \<open>image_count\<close> multiplies.\<close>

fun image_count_operand :: "ExpressionNode \<Rightarrow> ExpressionNode option" where
  "image_count_operand (Binary op l r _ _) =
     (if op \<noteq> js ''*'' then None
      else if is_image_count l then Some r
      else if is_image_count r then Some l else None)"
| "image_count_operand _ = None"

lemma image_count_operand_size [termination_simp]:
  "image_count_operand n = Some pricing \<Longrightarrow> size pricing < size n"
  by (cases n) (auto split: if_splits)

fun readTokenTierChain :: "ExpressionNode \<Rightarrow> TokenTier list option" where
  "readTokenTierChain node =
     (case audio_tiers node of
        Some tiers \<Rightarrow> Some tiers
      | None \<Rightarrow>
          (case image_count_operand node of
             Some pricing \<Rightarrow>
               map_option (map (\<lambda>tier. tier\<lparr>tt_imageCount := True\<rparr>)) (readTokenTierChain pricing)
           | None \<Rightarrow> tier_chain node))"

declare readTokenTierChain.simps [simp del]

section \<open>Time-dependent token tiers\<close>

definition isTimeCondition :: "ExpressionNode \<Rightarrow> thrown + bool" where
  "isTimeCondition node =
     andThen (expressionDependencies node) (\<lambda>(variables, functions).
       Inr (variables = []
         \<and> list_ex (\<lambda>name. name \<in> set TIME_FUNCTIONS) functions
         \<and> list_all (\<lambda>name. name \<in> set TIME_FUNCTIONS \<union>
               {js ''min'', js ''max'', js ''abs'', js ''ceil'', js ''floor''}) functions))"

type_synonym time_path = "(ExpressionNode \<times> bool) list"

record TimeTokenTier =
  tm_tier :: TokenTier
  tm_conditions :: time_path
  tm_conditionText :: jstr

definition path_text :: "jstr \<Rightarrow> time_path \<Rightarrow> jstr" where
  "path_text src path =
     join (js '' && '') (map (\<lambda>(condition, matches).
       (if matches then js ''('' else js ''!('')
         @ slice src (nstart condition) (nend condition) @ js '')'') path)"

definition tier_condition_text :: "TokenTierCondition \<Rightarrow> jstr" where
  "tier_condition_text c = tc_var c @ js '' '' @ tc_op c @ js '' '' @ js_num_string (tc_value c)"

definition time_tier :: "jstr \<Rightarrow> time_path \<Rightarrow> TokenTier \<Rightarrow> TimeTokenTier" where
  "time_tier src path tier =
     \<lparr>tm_tier = tier, tm_conditions = path,
      tm_conditionText =
        join (js '' && '') (path_text src path # map tier_condition_text (tt_conditions tier))\<rparr>"

fun timeTierBranches ::
  "jstr \<Rightarrow> ExpressionNode \<Rightarrow> time_path \<Rightarrow> thrown + TimeTokenTier list option" where
  "timeTierBranches src (Conditional c y n s e) path =
     andThen (isTimeCondition c) (\<lambda>is_time.
       if is_time then
         andThen (timeTierBranches src y (path @ [(c, True)])) (\<lambda>yes.
         andThen (timeTierBranches src n (path @ [(c, False)])) (\<lambda>no.
           Inr (case (yes, no) of (Some a, Some b) \<Rightarrow> Some (a @ b) | _ \<Rightarrow> None)))
       else
         Inr (case readTokenTierChain (Conditional c y n s e) of
                None \<Rightarrow> None
              | Some tiers \<Rightarrow> if path = [] then None else Some (map (time_tier src path) tiers)))"
| "timeTierBranches src node path =
     Inr (case readTokenTierChain node of
            None \<Rightarrow> None
          | Some tiers \<Rightarrow> if path = [] then None else Some (map (time_tier src path) tiers))"

text \<open>
  \<open>compileBillingExpression\<close> goes through the cache, which is transparent, so its result stands here as
  \<open>compile_source\<close>.
\<close>

definition readTimeTokenPricing ::
  "IntlProvider \<Rightarrow> jstr \<Rightarrow> jsnum option \<Rightarrow> thrown + (TimeTokenTier list \<times> TimeTokenTier list) option" where
  "readTimeTokenPricing intl src now =
     (case compile_source src of
        Failed f \<Rightarrow> Inr None
      | Ready compiled \<Rightarrow>
          andThen (timeTierBranches (c_source compiled) (c_ast compiled) []) (\<lambda>branches.
            Inr (case branches of
                   None \<Rightarrow> None
                 | Some tiers \<Rightarrow>
                     Some (tiers,
                       (case now of
                          None \<Rightarrow> []
                        | Some t \<Rightarrow>
                            filter (\<lambda>tier. list_all (\<lambda>(condition, matches).
                                evaluateBillingCondition intl compiled condition t = Some matches)
                              (tm_conditions tier)) tiers)))))"

section \<open>Task tiers\<close>

text \<open>The fields of \<open>BillingUsageFieldSchema\<close> the readers use; an absent \<open>type\<close> or \<open>unit\<close> is \<open>None\<close>.\<close>

record BillingUsageField =
  uf_type :: "jstr option"
  uf_unit :: "jstr option"
  uf_enum :: "jstr list option"

type_synonym BillingUsageSchema = "(jstr \<times> BillingUsageField) list"

record TaskTier =
  kt_conditionText :: "jstr option"
  kt_label :: jstr
  kt_conditions :: "(jstr \<times> jstr) list"
  kt_constant :: jsnum
  kt_unitPrices :: "(jstr \<times> jsnum) list"

definition field_unit :: "BillingUsageField \<Rightarrow> jstr option" where
  "field_unit d = (case uf_unit d of Some u \<Rightarrow> if u = [] then None else Some u | None \<Rightarrow> None)"

definition is_number_field :: "BillingUsageField \<Rightarrow> bool" where
  "is_number_field d \<longleftrightarrow> uf_type d = Some (js ''number'')"

definition is_boolean_field :: "BillingUsageField \<Rightarrow> bool" where
  "is_boolean_field d \<longleftrightarrow> uf_type d = Some (js ''boolean'')"

fun literal_text :: "literal \<Rightarrow> jstr" where
  "literal_text LNull = js ''null''"
| "literal_text (LBool b) = (if b then js ''true'' else js ''false'')"
| "literal_text (LNum x) = js_num_string x"
| "literal_text (LStr s) = s"

text \<open>\<open>u("field")\<close>.\<close>

fun usage_field :: "ExpressionNode \<Rightarrow> jstr option" where
  "usage_field (Call f (Literal (LStr field) _ _ _ # _) _ _) = (if f = js ''u'' then Some field else None)"
| "usage_field _ = None"

text \<open>One conjunct: the condition it states and whether the schema can still produce the value.\<close>

fun task_condition ::
  "BillingUsageSchema \<Rightarrow> bool \<Rightarrow> ExpressionNode \<Rightarrow> ((jstr \<times> jstr) \<times> bool) option" where
  "task_condition schema includeBoolean (Binary op l (Literal v _ _ _) _ _) =
     (if op \<noteq> js ''=='' then None
      else case usage_field l of
          None \<Rightarrow> None
        | Some field \<Rightarrow>
            let definition' = map_of schema field in
            if (case definition' of Some d \<Rightarrow> is_boolean_field d | None \<Rightarrow> False) then
              (case v of
                 LBool b \<Rightarrow> if includeBoolean then Some ((field, literal_text v), True) else None
               | _ \<Rightarrow> None)
            else
              (case (v, definition') of
                 (LStr s, Some d) \<Rightarrow>
                   (case uf_enum d of
                      None \<Rightarrow> None
                    | Some values \<Rightarrow> Some ((field, s), s \<in> set values))
               | _ \<Rightarrow> None))"
| "task_condition schema includeBoolean _ = None"

datatype TaskConditions = Reachable "(jstr \<times> jstr) list" | Unreachable

definition taskConditions ::
  "ExpressionNode \<Rightarrow> BillingUsageSchema \<Rightarrow> bool \<Rightarrow> TaskConditions option" where
  "taskConditions node schema includeBoolean =
     (case all_some (map (task_condition schema includeBoolean) (flattenBinary node (js ''&&''))) of
        None \<Rightarrow> None
      | Some parts \<Rightarrow> Some (if list_all snd parts then Reachable (map fst parts) else Unreachable))"

text \<open>A price term: a constant, or a field times a price, divided by a million for token units.\<close>

datatype task_term = Constant jsnum | UnitPrice jstr jsnum

definition is_million :: "ExpressionNode \<Rightarrow> bool" where
  "is_million node =
     (case node of Literal (LNum x) _ _ _ \<Rightarrow> js_num_eq x (num 1000000) | _ \<Rightarrow> False)"

definition unit_price :: "BillingUsageSchema \<Rightarrow> bool \<Rightarrow> ExpressionNode \<Rightarrow> task_term option" where
  "unit_price schema scaled term =
     (case term of
        Binary op l r _ _ \<Rightarrow>
          if op \<noteq> js ''*'' then None
          else (case (usage_field l, nonnegativePriceLiteral r) of
              (Some field, Some price) \<Rightarrow>
                (case map_of schema field of
                   None \<Rightarrow> None
                 | Some d \<Rightarrow>
                     if \<not> is_number_field d then None
                     else (case field_unit d of
                         None \<Rightarrow> None
                       | Some u \<Rightarrow>
                           if (u = js ''token'') \<noteq> scaled then None else Some (UnitPrice field price)))
            | _ \<Rightarrow> None)
      | _ \<Rightarrow> None)"

definition task_term_of :: "BillingUsageSchema \<Rightarrow> ExpressionNode \<Rightarrow> task_term option" where
  "task_term_of schema term =
     (case nonnegativePriceLiteral term of
        Some x \<Rightarrow> Some (Constant x)
      | None \<Rightarrow>
          (case term of
             Binary op l r _ _ \<Rightarrow>
               if op = js ''/'' then (if is_million r then unit_price schema True l else None)
               else unit_price schema False term
           | _ \<Rightarrow> None))"

fun read_task_terms ::
  "BillingUsageSchema \<Rightarrow> jsnum option \<Rightarrow> (jstr \<times> jsnum) list \<Rightarrow> ExpressionNode list
    \<Rightarrow> (jsnum \<times> (jstr \<times> jsnum) list) option" where
  "read_task_terms schema constant prices [] =
     Some (case constant of None \<Rightarrow> num 0 | Some x \<Rightarrow> x, prices)"
| "read_task_terms schema constant prices (term # terms) =
     (case task_term_of schema term of
        None \<Rightarrow> None
      | Some (Constant x) \<Rightarrow>
          if constant \<noteq> None then None else read_task_terms schema (Some x) prices terms
      | Some (UnitPrice field price) \<Rightarrow>
          if hasOwn prices field then None
          else read_task_terms schema constant (prices @ [(field, price)]) terms)"

fun taskTier ::
  "ExpressionNode \<Rightarrow> (jstr \<times> jstr) list \<Rightarrow> BillingUsageSchema \<Rightarrow> TaskTier option" where
  "taskTier (Call f (Literal (LStr label) _ _ _ # body # _) _ _) conditions schema =
     (if f \<noteq> js ''tier'' then None
      else case read_task_terms schema None [] (flattenBinary body (js ''+'')) of
          None \<Rightarrow> None
        | Some (constant, unitPrices) \<Rightarrow>
            if unitPrices = [] then None
            else Some \<lparr>kt_conditionText = None, kt_label = label, kt_conditions = conditions,
                       kt_constant = constant, kt_unitPrices = unitPrices\<rparr>)"
| "taskTier _ conditions schema = None"

fun readTaskTierChain ::
  "ExpressionNode \<Rightarrow> BillingUsageSchema \<Rightarrow> bool \<Rightarrow> TaskTier list option" where
  "readTaskTierChain (Conditional c y n _ _) schema includeBoolean =
     (case taskConditions c schema includeBoolean of
        None \<Rightarrow> None
      | Some Unreachable \<Rightarrow> readTaskTierChain n schema includeBoolean
      | Some (Reachable conditions) \<Rightarrow>
          (case taskTier y conditions schema of
             None \<Rightarrow> None
           | Some tier \<Rightarrow>
               map_option (\<lambda>tiers. tier # tiers) (readTaskTierChain n schema includeBoolean)))"
| "readTaskTierChain node schema includeBoolean =
     map_option (\<lambda>tier. [tier]) (taskTier node [] schema)"

section \<open>The summary names the tier the evaluator matches\<close>

text \<open>A condition on the token counts; a count that is not given satisfies none.\<close>

definition condition_holds :: "(jstr \<times> jsvalue) list option \<Rightarrow> TokenTierCondition \<Rightarrow> bool" where
  "condition_holds tokens c =
     (case tokens of
        None \<Rightarrow> False
      | Some ts \<Rightarrow>
          (case map_of ts (tc_var c) of
             Some v \<Rightarrow> compare_values (tc_op c) v (JNum (tc_value c)) = Some True
           | None \<Rightarrow> False))"

text \<open>
  What the texts of the audio split say: there are audio tokens of the input or of the output, or there
  are none. A tier applies when its text and its conditions hold.
\<close>

definition has_audio :: "(jstr \<times> jsvalue) list option \<Rightarrow> bool" where
  "has_audio tokens \<longleftrightarrow>
     list_ex (\<lambda>name. condition_holds tokens \<lparr>tc_var = name, tc_op = js ''>'', tc_value = num 0\<rparr>)
       [js ''ai'', js ''ao'']"

definition text_holds :: "(jstr \<times> jsvalue) list option \<Rightarrow> jstr option \<Rightarrow> bool" where
  "text_holds tokens t \<longleftrightarrow>
     t = None \<or> t = Some (js ''Audio requests'') \<and> has_audio tokens
     \<or> t = Some (js ''Text-only requests'') \<and> \<not> has_audio tokens"

definition tier_applies :: "(jstr \<times> jsvalue) list option \<Rightarrow> TokenTier \<Rightarrow> bool" where
  "tier_applies tokens tier \<longleftrightarrow>
     text_holds tokens (tt_conditionText tier) \<and> list_all (condition_holds tokens) (tt_conditions tier)"

definition matching_tier :: "(jstr \<times> jsvalue) list option \<Rightarrow> TokenTier list \<Rightarrow> TokenTier option" where
  "matching_tier tokens tiers = find (tier_applies tokens) tiers"

lemma text_holds_simps [simp]:
  "text_holds tokens None" "text_holds tokens (Some (js ''Audio requests'')) = has_audio tokens"
  "text_holds tokens (Some (js ''Text-only requests'')) = (\<not> has_audio tokens)"
  by (simp_all add: text_holds_def)

lemma child_in_postorder: "c \<in> set (children n) \<Longrightarrow> c \<in> set (postorder n)"
  using postorder_child postorder_self by blast

lemma eval_enter:
  assumes "eval env n st rv st'"
  obtains st1 where "eval_at env n (st\<lparr>rt_depth := rt_depth st + 1\<rparr>) rv st1"
    "st' = st1\<lparr>rt_depth := rt_depth st1 - 1\<rparr>"
  using assms by cases auto

inductive_cases at_ConditionalE: "eval_at env (Conditional c y n s e) st rv st'"
inductive_cases at_BinaryE: "eval_at env (Binary op l r s e) st rv st'"
inductive_cases at_CallE: "eval_at env (Call f args s e) st rv st'"
inductive_cases at_LiteralE: "eval_at env (Literal v i s e) st rv st'"
inductive_cases at_VariableE: "eval_at env (Variable name s e) st rv st'"

lemma eval_Variable:
  assumes "eval env (Variable name s e) st rv st'"
  shows "st' = st" "evaluate_variable env name s = Inr rv"
  using eval_evaluate(1) [OF assms]
  by (auto simp: evaluate.simps [of env "Variable name s e"] evaluateNode.simps Let_def
      dest: check_result_Inr split: if_splits)

lemma eval_Literal:
  assumes "eval env (Literal v i s e) st rv st'"
  shows "st' = st" "rv_value rv = literal_value v"
  using eval_evaluate(1) [OF assms]
  by (auto simp: evaluate.simps [of env "Literal v i s e"] evaluateNode.simps Let_def
      literal_value_case dest!: check_result_Inr split: if_splits)

lemma eval_Binary_operator:
  assumes "eval env (Binary op l r s e) st rv st'" "op \<notin> LOGICAL"
  obtains st0 a st1 b st2 where "eval env l st0 a st1" "eval env r st1 b st2"
    "apply_binary op s a b = Inr rv" "rt_matchedTier st0 = rt_matchedTier st"
    "rt_fixedPrice st0 = rt_fixedPrice st" "rt_matchedTier st' = rt_matchedTier st2"
    "rt_fixedPrice st' = rt_fixedPrice st2"
proof -
  from eval_enter [OF assms(1)] obtain st3 where
    at: "eval_at env (Binary op l r s e) (st\<lparr>rt_depth := rt_depth st + 1\<rparr>) rv st3"
    and st': "st' = st3\<lparr>rt_depth := rt_depth st3 - 1\<rparr>" .
  from at show ?thesis
    by (cases rule: at_BinaryE) (use that st' assms(2) in \<open>auto simp: LOGICAL_def\<close>)
qed

lemma eval_And:
  assumes "eval env (Binary (js ''&&'') l r s e) st rv st'"
  obtains (stops) st0 a st1 where "eval env l st0 a st1" "rv_value a = JBool False"
      "rv_value rv = JBool False"
    | (goes_on) st0 a st1 b st2 c where "eval env l st0 a st1" "rv_value a = JBool True"
      "eval env r st1 b st2" "rv_value b = JBool c" "rv_value rv = JBool c"
proof -
  from eval_enter [OF assms] obtain st3 where
    "eval_at env (Binary (js ''&&'') l r s e) (st\<lparr>rt_depth := rt_depth st + 1\<rparr>) rv st3" .
  then show ?thesis
    by (cases rule: at_BinaryE) (use that in \<open>auto simp: LOGICAL_def plain_def\<close>)
qed

lemma eval_Or:
  assumes "eval env (Binary (js ''||'') l r s e) st rv st'"
  obtains (stops) st0 a st1 where "eval env l st0 a st1" "rv_value a = JBool True"
      "rv_value rv = JBool True"
    | (goes_on) st0 a st1 b st2 c where "eval env l st0 a st1" "rv_value a = JBool False"
      "eval env r st1 b st2" "rv_value b = JBool c" "rv_value rv = JBool c"
proof -
  from eval_enter [OF assms] obtain st3 where
    "eval_at env (Binary (js ''||'') l r s e) (st\<lparr>rt_depth := rt_depth st + 1\<rparr>) rv st3" .
  then show ?thesis
    by (cases rule: at_BinaryE) (use that in \<open>auto simp: LOGICAL_def plain_def\<close>)
qed

lemma evaluate_variable_token:
  assumes "evaluate_variable env name s = Inr rv" "name \<noteq> js ''image_count''"
  obtains ts y where "ctx_tokens (env_context env) = Some ts" "map_of ts name = Some (JNum y)"
    "rv_value rv = JNum y"
  using assms that
  by (auto simp: evaluate_variable_def Let_def plain_def
      split: option.splits jsvalue.splits if_splits)

lemma compare_numbers: "op \<in> TIER_OPERATORS \<Longrightarrow> \<exists>b. compare_values op (JNum x) (JNum y) = Some b"
  by (auto simp: compare_values_def TIER_OPERATORS_def)

lemma count_compare_eval:
  assumes "eval env (Binary op (Variable name s1 e1) (Literal (LNum x) i s2 e2) s e) st rv st'"
    and "op \<in> TIER_OPERATORS" "name \<noteq> js ''image_count''"
  shows "rv_value rv = JBool (condition_holds (ctx_tokens (env_context env))
    \<lparr>tc_var = name, tc_op = op, tc_value = x\<rparr>)"
proof -
  have "op \<notin> LOGICAL" using assms(2) by (auto simp: TIER_OPERATORS_def LOGICAL_def)
  with assms(1) obtain st0 a st1 b st2 where "eval env (Variable name s1 e1) st0 a st1"
    "eval env (Literal (LNum x) i s2 e2) st1 b st2" and ap: "apply_binary op s a b = Inr rv"
    by (blast elim: eval_Binary_operator)
  then have a: "evaluate_variable env name s1 = Inr a" and b: "rv_value b = JNum x"
    using eval_Variable eval_Literal by auto
  from evaluate_variable_token [OF a assms(3)] obtain ts y where ts: "ctx_tokens (env_context env) = Some ts"
    "map_of ts name = Some (JNum y)" "rv_value a = JNum y" .
  from compare_numbers [OF assms(2)] obtain h where h: "compare_values op (JNum y) (JNum x) = Some h" by blast
  have "rv_value rv = JBool h"
    using ap ts(3) b h assms(2) by (auto simp: apply_binary_def Let_def plain_def TIER_OPERATORS_def)
  with ts h show ?thesis by (cases h) (simp_all add: condition_holds_def)
qed

lemma token_condition_eval:
  assumes "token_condition n = Some c" "eval env n st rv st'"
  shows "rv_value rv = JBool (condition_holds (ctx_tokens (env_context env)) c)"
proof -
  from assms(1) obtain op name s1 e1 x i s2 e2 s e where
    n: "n = Binary op (Variable name s1 e1) (Literal (LNum x) i s2 e2) s e"
    and op: "op \<in> TIER_OPERATORS" "name \<in> TIER_VARIABLES"
    and c: "c = \<lparr>tc_var = name, tc_op = op, tc_value = x\<rparr>"
    by (auto elim!: token_condition.elims split: if_splits)
  from op(2) have "name \<noteq> js ''image_count''" by (auto simp: TIER_VARIABLES_def)
  from count_compare_eval [OF assms(2) [unfolded n] op(1) this] c show ?thesis by simp
qed

text \<open>A side of the audio split evaluates to whether there are tokens of its variable.\<close>

lemma zero_bound: "js_num_eq x (num 0) \<Longrightarrow> js_lt x y = js_lt (num 0) y"
  by (cases x; cases y) (auto split: if_splits)

lemma audio_probe_eval:
  assumes "audio_probe n = {name}" "eval env n st rv st'"
  shows "rv_value rv = JBool (condition_holds (ctx_tokens (env_context env))
    \<lparr>tc_var = name, tc_op = js ''>'', tc_value = num 0\<rparr>)"
proof -
  from assms(1) obtain s1 e1 r s e where n: "n = Binary (js ''>'') (Variable name s1 e1) r s e"
    and name: "name = js ''ai'' \<or> name = js ''ao''" and r: "is_zero_literal r"
    by (cases n rule: audio_probe.cases) (auto split: if_splits)
  from r obtain x i s2 e2 where lit: "r = Literal (LNum x) i s2 e2" "js_num_eq x (num 0)"
    by (cases r rule: is_zero_literal.cases) auto
  have "name \<noteq> js ''image_count''" "js ''>'' \<in> TIER_OPERATORS" using name by (auto simp: TIER_OPERATORS_def)
  with count_compare_eval assms(2) n lit(1)
  have "rv_value rv = JBool (condition_holds (ctx_tokens (env_context env))
      \<lparr>tc_var = name, tc_op = js ''>'', tc_value = x\<rparr>)" by blast
  then show "rv_value rv = JBool (condition_holds (ctx_tokens (env_context env))
      \<lparr>tc_var = name, tc_op = js ''>'', tc_value = num 0\<rparr>)"
    using zero_bound [OF lit(2)]
    by (auto simp: condition_holds_def compare_values_def split: option.splits jsvalue.splits)
qed

lemma audio_split_eval:
  assumes "audio_split c" "eval env c st rv st'"
  shows "rv_value rv = JBool (has_audio (ctx_tokens (env_context env)))"
proof -
  have sides: "audio_probe n = {} \<or> audio_probe n = {js ''ai''} \<or> audio_probe n = {js ''ao''}" for n
    by (cases n rule: audio_probe.cases) auto
  from assms(1) obtain l r s e where c: "c = Binary (js ''||'') l r s e"
    and two: "card (audio_probe l \<union> audio_probe r) = 2"
    by (cases c rule: audio_split.cases) auto
  from two sides [of l] sides [of r] consider
    (ai_first) "audio_probe l = {js ''ai''}" "audio_probe r = {js ''ao''}"
    | (ao_first) "audio_probe l = {js ''ao''}" "audio_probe r = {js ''ai''}" by auto
  then obtain a b where probes: "audio_probe l = {a}" "audio_probe r = {b}" "{a, b} = {js ''ai'', js ''ao''}"
    by cases auto
  let ?holds = "\<lambda>name. condition_holds (ctx_tokens (env_context env))
    \<lparr>tc_var = name, tc_op = js ''>'', tc_value = num 0\<rparr>"
  have audio: "has_audio (ctx_tokens (env_context env)) = (?holds a \<or> ?holds b)"
    using probes(3) by (auto simp: has_audio_def doubleton_eq_iff)
  from assms(2) [unfolded c] show "rv_value rv = JBool (has_audio (ctx_tokens (env_context env)))"
  proof (cases rule: eval_Or)
    case (stops st0 w st1)
    from audio_probe_eval(1) [OF probes(1) stops(1)] stops audio show ?thesis by simp
  next
    case (goes_on st0 w st1 v st2 h)
    from audio_probe_eval(1) [OF probes(1) goes_on(1)] audio_probe_eval(1) [OF probes(2) goes_on(3)]
      goes_on audio show ?thesis by simp
  qed
qed

lemma all_some_append:
  "all_some (xs @ ys) = Some zs \<longleftrightarrow> (\<exists>as bs. all_some xs = Some as \<and> all_some ys = Some bs \<and> zs = as @ bs)"
  by (auto simp: all_some_Some_iff map_eq_append_conv append_eq_map_conv)

lemma tokenConditions_eval:
  "all_some (map token_condition (flattenBinary n (js ''&&''))) = Some cs \<Longrightarrow> eval env n st rv st'
    \<Longrightarrow> rv_value rv = JBool (list_all (condition_holds (ctx_tokens (env_context env))) cs)"
proof (induction n "js ''&&''" arbitrary: cs st rv st' rule: flattenBinary.induct)
  case (1 op l r s e)
  show ?case
  proof (cases "op = js ''&&''")
    case True
    with "1.prems"(1) obtain as bs where
      as: "all_some (map token_condition (flattenBinary l (js ''&&''))) = Some as"
      and bs: "all_some (map token_condition (flattenBinary r (js ''&&''))) = Some bs"
      and cs: "cs = as @ bs"
      by (auto simp: all_some_append)
    from True "1.prems"(2) have "eval env (Binary (js ''&&'') l r s e) st rv st'" by simp
    then show ?thesis
    proof (cases rule: eval_And)
      case (stops st0 a st1)
      from "1.hyps"(1) [OF _ as stops(1)] True stops cs show ?thesis by simp
    next
      case (goes_on st0 a st1 b st2 c)
      from "1.hyps"(1) [OF _ as goes_on(1)] "1.hyps"(2) [OF _ bs goes_on(3)] True goes_on cs
      show ?thesis by simp
    qed
  next
    case False
    with "1.prems"(1) have "token_condition (Binary op l r s e) = Some (hd cs) \<and> cs = [hd cs]"
      by (cases "token_condition (Binary op l r s e)") auto
    then obtain c where c: "token_condition (Binary op l r s e) = Some c" "cs = [c]"
      by blast
    from token_condition_eval [OF c(1) "1.prems"(2)] c(2) show ?thesis by simp
  qed
qed simp_all

text \<open>The functions used below a readable condition, price or tier.\<close>

lemma uses_flattenBinary: "uses n = (\<Union>m \<in> set (flattenBinary n op). uses m)"
  by (induction n op rule: flattenBinary.induct) auto

lemma token_condition_uses: "token_condition n = Some c \<Longrightarrow> uses n = {}"
  by (auto elim!: token_condition.elims split: if_splits)

lemma tokenConditions_uses: "tokenConditions n = Some cs \<Longrightarrow> uses n = {}"
  unfolding tokenConditions_def uses_flattenBinary [of n "js ''&&''"] all_some_Some_iff
  by (auto dest!: arg_cong [where f = set]) (metis imageE image_eqI token_condition_uses equals0D)

lemma is_zero_literal_uses: "is_zero_literal n \<Longrightarrow> uses n = {}"
  by (cases n rule: is_zero_literal.cases) auto

lemma audio_probe_uses: "audio_probe n \<noteq> {} \<Longrightarrow> uses n = {}"
  by (cases n rule: audio_probe.cases) (auto dest: is_zero_literal_uses split: if_splits)

lemma audio_split_uses: "audio_split c \<Longrightarrow> uses c = {}"
proof -
  assume "audio_split c"
  then obtain l r s e where c: "c = Binary (js ''||'') l r s e"
    and two: "card (audio_probe l \<union> audio_probe r) = 2"
    by (cases c rule: audio_split.cases) auto
  have "card (audio_probe n) \<le> 1" for n by (cases n rule: audio_probe.cases) auto
  from this [of l] this [of r] two have "audio_probe l \<noteq> {}" "audio_probe r \<noteq> {}" by auto
  with c audio_probe_uses show ?thesis by simp
qed

lemma nonnegativePriceLiteral_uses: "nonnegativePriceLiteral n = Some x \<Longrightarrow> uses n = {}"
  by (auto simp: nonnegativePriceLiteral_def is_zero_literal_uses
      split: ExpressionNode.splits literal.splits if_splits)

lemma is_text_remainder_uses: "is_text_remainder n \<Longrightarrow> uses n = {}"
  by (cases n rule: is_text_remainder.cases) auto

lemma price_variable_uses: "price_variable n = Some v \<Longrightarrow> uses n \<subseteq> {js ''max''}"
  by (cases n rule: price_variable.cases)
    (auto dest: is_zero_literal_uses is_text_remainder_uses split: if_splits)

lemma price_term_uses:
  "price_term n = Some (input, x) \<Longrightarrow> price_variable input = Some v \<Longrightarrow> uses n \<subseteq> {js ''max''}"
  by (cases n rule: price_term.cases)
    (auto dest!: nonnegativePriceLiteral_uses price_variable_uses split: if_splits option.splits)

lemma read_prices_uses:
  "read_prices prices terms = Some ps \<Longrightarrow> m \<in> set terms \<Longrightarrow> uses m \<subseteq> {js ''max''}"
proof (induction prices terms rule: read_prices.induct)
  case (2 prices part parts)
  from "2.prems"(1) obtain input price variable where
    t: "price_term part = Some (input, price)" "price_variable input = Some variable"
    and dup: "\<not> hasOwn prices variable"
    and rest: "read_prices (prices @ [(variable, price)]) parts = Some ps"
    by (auto split: option.splits if_splits)
  from "2.IH" [OF t(1) refl t(2) dup rest] "2.prems"(2) price_term_uses [OF t] show ?case by auto
qed simp

text \<open>A tier call sets the label; its fixed price is the one of the tier, if it has one.\<close>

lemma eval_tier:
  assumes "eval env (Call (js ''tier'') (Literal (LStr label) i s1 e1 # body # rest) s e) st rv st'"
  obtains st0 w st1 where "eval env body st0 w st1" "rt_fixedPrice st0 = rt_fixedPrice st"
    "rt_matchedTier st' = label" "rt_fixedPrice st' = rt_fixedPrice st1"
proof -
  let ?n = "Call (js ''tier'') (Literal (LStr label) i s1 e1 # body # rest) s e"
  from eval_enter [OF assms] obtain st2 where
    at: "eval_at env ?n (st\<lparr>rt_depth := rt_depth st + 1\<rparr>) rv st2"
    and st': "st' = st2\<lparr>rt_depth := rt_depth st2 - 1\<rparr>" .
  from at obtain v st3 w st4 t x where l: "eval env (Literal (LStr label) i s1 e1)
      (st\<lparr>rt_depth := rt_depth st + 1\<rparr>) v st3" "rv_value v = JStr t"
    and b: "eval env body st3 w st4" and st2: "st2 = st4\<lparr>rt_matchedTier := t\<rparr>"
    by (cases rule: at_CallE) (auto simp: TIME_FUNCTIONS_def)
  from eval_Literal [OF l(1)] l(2) have "st3 = st\<lparr>rt_depth := rt_depth st + 1\<rparr>" "t = label" by auto
  with that [OF b] st' st2 show ?thesis by simp
qed

lemma eval_fixed_literal:
  assumes "fixed_literal body = Some x" "eval env body st w st'"
  shows "rt_fixedPrice st' = Some x"
proof -
  from assms(1) obtain i s1 e1 rest s e where
    b: "body = Call (js ''fixed'') (Literal (LNum x) i s1 e1 # rest) s e"
    by (cases body rule: fixed_literal.cases) (auto split: if_splits)
  from eval_enter [OF assms(2)] obtain st2 where
    at: "eval_at env body (st\<lparr>rt_depth := rt_depth st + 1\<rparr>) w st2"
    and st': "st' = st2\<lparr>rt_depth := rt_depth st2 - 1\<rparr>" .
  from at [unfolded b] obtain v st3 y where l: "eval env (Literal (LNum x) i s1 e1)
      (st\<lparr>rt_depth := rt_depth st + 1\<rparr>) v st3" "rv_value v = JNum y"
    and st2: "st2 = st3\<lparr>rt_billingUnit := RequestUnit, rt_fixedPrice := Some y\<rparr>"
    by (cases rule: at_CallE) (auto simp: TIME_FUNCTIONS_def)
  from eval_Literal [OF l(1)] l(2) st2 st' show ?thesis by simp
qed

text \<open>What a state says about a tier.\<close>

definition shows_tier :: "BillingRuntime \<Rightarrow> TokenTier \<Rightarrow> BillingRuntime \<Rightarrow> bool" where
  "shows_tier st tier st' \<longleftrightarrow>
     rt_matchedTier st' = tt_label tier
     \<and> rt_fixedPrice st' = (case tt_fixedPrice tier of Some x \<Rightarrow> Some x | None \<Rightarrow> rt_fixedPrice st)"

lemma tokenTier_conditions:
  "tokenTier n conditions = Some tier \<Longrightarrow> tt_conditions tier = conditions \<and> tt_conditionText tier = None"
  by (auto elim!: tokenTier.elims split: if_splits option.splits simp: plain_tier_def)

lemma tokenTier_eval:
  assumes "tokenTier n conditions = Some tier" "eval env n st rv st'"
  shows "tt_conditions tier = conditions" "shows_tier st tier st'" "tt_conditionText tier = None"
proof -
  from assms(1) obtain label i s1 e1 body rest s e where
    n: "n = Call (js ''tier'') (Literal (LStr label) i s1 e1 # body # rest) s e"
    by (auto elim!: tokenTier.elims split: if_splits)
  from eval_tier [OF assms(2) [unfolded n]] obtain st0 w st1 where
    body: "eval env body st0 w st1" "rt_fixedPrice st0 = rt_fixedPrice st"
    and st': "rt_matchedTier st' = label" "rt_fixedPrice st' = rt_fixedPrice st1" .
  have "tt_conditions tier = conditions \<and> shows_tier st tier st' \<and> tt_conditionText tier = None"
  proof (cases "fixed_literal body")
    case (Some x)
    from eval_fixed_literal [OF this body(1)] Some assms(1) n st' show ?thesis
      by (auto simp: shows_tier_def plain_tier_def)
  next
    case None
    with assms(1) n obtain prices where p: "read_prices [] (flattenBinary body (js ''+'')) = Some prices"
      and t: "tier = plain_tier label conditions prices"
      by (auto split: option.splits if_splits)
    from read_prices_uses [OF p] have "uses body \<subseteq> {f. f \<noteq> js ''fixed''}"
      by (subst uses_flattenBinary [of body "js ''+''"]) force
    from price_kept.preserved(1) [OF body(1) this] t st' body(2) show ?thesis
      by (simp add: shows_tier_def plain_tier_def)
  qed
  then show "tt_conditions tier = conditions" "shows_tier st tier st'" "tt_conditionText tier = None" by auto
qed

lemma eval_Conditional:
  assumes "eval env (Conditional c y n s e) st rv st'"
  obtains (yes) st0 w st1 st2 st3 where "eval env c st0 w st1" "rv_value w = JBool True"
      "eval env y st2 rv st3" "rt_fixedPrice st0 = rt_fixedPrice st" "rt_fixedPrice st2 = rt_fixedPrice st1"
      "rt_matchedTier st' = rt_matchedTier st3" "rt_fixedPrice st' = rt_fixedPrice st3"
      "rt_matchedTier st0 = rt_matchedTier st" "rt_matchedTier st2 = rt_matchedTier st1"
    | (no) st0 w st1 st3 where "eval env c st0 w st1" "rv_value w = JBool False"
      "eval env n st1 rv st3" "rt_fixedPrice st0 = rt_fixedPrice st"
      "rt_matchedTier st' = rt_matchedTier st3" "rt_fixedPrice st' = rt_fixedPrice st3"
      "rt_matchedTier st0 = rt_matchedTier st"
proof -
  from eval_enter [OF assms] obtain st3 where
    at: "eval_at env (Conditional c y n s e) (st\<lparr>rt_depth := rt_depth st + 1\<rparr>) rv st3"
    and st': "st' = st3\<lparr>rt_depth := rt_depth st3 - 1\<rparr>" .
  from eval_evaluate(2) [OF at] obtain w st1 b where
    c: "eval env c (st\<lparr>rt_depth := rt_depth st + 1\<rparr>) w st1" "rv_value w = JBool b"
    and br: "if b then eval env y (mark_rule env (Conditional c y n s e) st1) rv st3 else eval env n st1 rv st3"
    by (auto simp: evaluateNode.simps expect_Inr evaluate_iff split: if_splits)
  show ?thesis
  proof (cases b)
    case True
    with yes [OF c(1) _ _ _ _] c(2) br st' show ?thesis by simp
  next
    case False
    with no [OF c(1)] c(2) br st' show ?thesis by simp
  qed
qed

lemma tier_chain_eval:
  "tier_chain n = Some tiers \<Longrightarrow> eval env n st rv st'
    \<Longrightarrow> \<exists>tier. matching_tier (ctx_tokens (env_context env)) tiers = Some tier \<and> shows_tier st tier st'"
proof (induction n arbitrary: tiers st rv st' rule: tier_chain.induct)
  case (1 c y n s e)
  let ?tokens = "ctx_tokens (env_context env)"
  from "1.prems"(1) obtain conditions tier rest where
    c: "tokenConditions c = Some conditions" and t: "tokenTier y conditions = Some tier"
    and r: "tier_chain n = Some rest" and tiers: "tiers = tier # rest"
    by (auto split: option.splits)
  have c_tier: "tt_conditions tier = conditions" "tt_conditionText tier = None"
    using tokenTier_conditions [OF t] by simp_all
  have plain: "rt_fixedPrice st1 = rt_fixedPrice st0" if "eval env c st0 w st1" for st0 w st1
    using price_kept.preserved(1) [OF that] tokenConditions_uses [OF c] by simp
  note holds = tokenConditions_eval [OF c [unfolded tokenConditions_def]]
  from "1.prems"(2) show ?case
  proof (cases rule: eval_Conditional)
    case (yes st0 w st1 st2 st3)
    have "tier_applies ?tokens tier" using c_tier holds [OF yes(1)] yes(2) by (simp add: tier_applies_def)
    with tokenTier_eval(2) [OF t yes(3)] yes plain [OF yes(1)] tiers show ?thesis
      by (simp add: matching_tier_def shows_tier_def split: option.split)
  next
    case (no st0 w st1 st3)
    from "1.IH" [OF c t r no(3)] obtain tier' where
      m: "matching_tier ?tokens rest = Some tier'" "shows_tier st1 tier' st3" by blast
    have "\<not> tier_applies ?tokens tier" using c_tier(1) holds [OF no(1)] no(2) by (simp add: tier_applies_def)
    with m no plain [OF no(1)] tiers show ?thesis
      by (simp add: matching_tier_def shows_tier_def split: option.split)
  qed
qed (use tokenTier_eval in \<open>fastforce simp: matching_tier_def tier_applies_def\<close>)+

lemma matching_tier_map:
  "(\<And>t. tier_applies tokens (f t) = tier_applies tokens t)
    \<Longrightarrow> matching_tier tokens (map f tiers) = map_option f (matching_tier tokens tiers)"
  by (induction tiers) (auto simp: matching_tier_def)

lemma image_count_product:
  assumes "image_count_operand n = Some pricing" "eval env n st rv st'"
  obtains st0 w st1 where "eval env pricing st0 w st1" "rt_fixedPrice st0 = rt_fixedPrice st"
    "rt_matchedTier st' = rt_matchedTier st1" "rt_fixedPrice st' = rt_fixedPrice st1"
proof -
  from assms(1) obtain l r s e where n: "n = Binary (js ''*'') l r s e"
    and o: "is_image_count l \<and> pricing = r \<or> \<not> is_image_count l \<and> is_image_count r \<and> pricing = l"
    by (cases n rule: image_count_operand.cases) (auto split: if_splits)
  have var: "st2 = st1" if "is_image_count m" "eval env m st1 w st2" for m st1 w st2
    using that by (cases m rule: is_image_count.cases) (auto dest: eval_Variable)
  have "js ''*'' \<notin> LOGICAL" by (simp add: LOGICAL_def)
  from eval_Binary_operator [OF assms(2) [unfolded n] this] obtain st0 a st1 b st2 where
    e: "eval env l st0 a st1" "eval env r st1 b st2"
    and st: "rt_fixedPrice st0 = rt_fixedPrice st" "rt_matchedTier st' = rt_matchedTier st2"
      "rt_fixedPrice st' = rt_fixedPrice st2" by metis
  from o show ?thesis
  proof
    assume "is_image_count l \<and> pricing = r"
    with var [OF _ e(1)] e(2) that st show ?thesis by auto
  next
    assume "\<not> is_image_count l \<and> is_image_count r \<and> pricing = l"
    with var [OF _ e(2)] e(1) that st show ?thesis by auto
  qed
qed

lemma audio_tiers_eval:
  assumes "audio_tiers n = Some tiers" "eval env n st rv st'"
  shows "\<exists>tier. matching_tier (ctx_tokens (env_context env)) tiers = Some tier \<and> shows_tier st tier st'"
proof -
  from assms(1) obtain c y m s e audio plain where n: "n = Conditional c y m s e" and split: "audio_split c"
    and audio: "tokenTier y [] = Some audio" and plain: "tokenTier m [] = Some plain"
    and tiers: "tiers = [audio\<lparr>tt_conditionText := Some (js ''Audio requests'')\<rparr>,
        plain\<lparr>tt_conditionText := Some (js ''Text-only requests'')\<rparr>]"
    by (cases n rule: audio_tiers.cases) (auto split: if_splits option.splits)
  note none = tokenTier_conditions [OF audio] tokenTier_conditions [OF plain]
  have price: "rt_fixedPrice st1 = rt_fixedPrice st0" if "eval env c st0 w st1" for st0 w st1
    using price_kept.preserved(1) [OF that] audio_split_uses [OF split] by simp
  from assms(2) [unfolded n] show ?thesis
  proof (cases rule: eval_Conditional)
    case (yes st0 w st1 st2 st3)
    from audio_split_eval [OF split yes(1)] yes(2) none tokenTier_eval(2) [OF audio yes(3)] yes
      price [OF yes(1)] tiers
    show ?thesis by (simp add: matching_tier_def tier_applies_def shows_tier_def split: option.split)
  next
    case (no st0 w st1 st3)
    from audio_split_eval [OF split no(1)] no(2) none tokenTier_eval(2) [OF plain no(3)] no
      price [OF no(1)] tiers
    show ?thesis by (simp add: matching_tier_def tier_applies_def shows_tier_def split: option.split)
  qed
qed

lemma readTokenTierChain_eval:
  "readTokenTierChain n = Some tiers \<Longrightarrow> eval env n st rv st'
    \<Longrightarrow> \<exists>tier. matching_tier (ctx_tokens (env_context env)) tiers = Some tier \<and> shows_tier st tier st'"
proof (induction n arbitrary: tiers st rv st' rule: readTokenTierChain.induct)
  case (1 n)
  consider (audio) ts where "audio_tiers n = Some ts"
    | (chain) "audio_tiers n = None" "image_count_operand n = None"
    | (product) pricing where "audio_tiers n = None" "image_count_operand n = Some pricing"
    by (cases "audio_tiers n"; cases "image_count_operand n") auto
  then show ?case
  proof cases
    case (audio ts)
    with "1.prems"(1) have "ts = tiers" by (simp add: readTokenTierChain.simps [of n])
    with audio "1.prems"(2) audio_tiers_eval show ?thesis by blast
  next
    case chain
    with "1.prems" show ?thesis
      by (auto simp: readTokenTierChain.simps [of n] intro: tier_chain_eval)
  next
    case (product pricing)
    let ?f = "\<lambda>tier. tier\<lparr>tt_imageCount := True\<rparr>"
    from "1.prems"(1) product obtain ts where ts: "readTokenTierChain pricing = Some ts"
      and tiers: "tiers = map ?f ts"
      by (auto simp: readTokenTierChain.simps [of n])
    from image_count_product [OF product(2) "1.prems"(2)] obtain st0 w st1 where
      e: "eval env pricing st0 w st1" and st: "rt_fixedPrice st0 = rt_fixedPrice st"
      "rt_matchedTier st' = rt_matchedTier st1" "rt_fixedPrice st' = rt_fixedPrice st1" .
    from "1.IH" [OF product ts e] obtain tier where
      "matching_tier (ctx_tokens (env_context env)) ts = Some tier" "shows_tier st0 tier st1" by blast
    with st tiers show ?thesis
      by (auto simp: matching_tier_map tier_applies_def shows_tier_def split: option.splits)
  qed
qed

section \<open>Task tiers are grounded in the schema\<close>

text \<open>
  Every price of a task tier is a non-negative number of a number field with a unit; every condition is
  on a field of the schema, with a declared value.
\<close>

definition schema_field :: "BillingUsageSchema \<Rightarrow> jstr \<Rightarrow> bool" where
  "schema_field schema field \<longleftrightarrow>
     (\<exists>d. map_of schema field = Some d \<and> is_number_field d \<and> field_unit d \<noteq> None)"

lemma nonnegative_price: "nonnegativePriceLiteral n = Some x \<Longrightarrow> js_le (num 0) x"
  by (auto simp: nonnegativePriceLiteral_def js_le_def split: ExpressionNode.splits literal.splits if_splits)

lemma task_term_of_unit:
  "task_term_of schema n = Some (UnitPrice field x) \<Longrightarrow> schema_field schema field \<and> js_le (num 0) x"
  by (auto simp: task_term_of_def unit_price_def schema_field_def nonnegative_price
      split: option.splits ExpressionNode.splits if_splits)

lemma task_term_of_constant: "task_term_of schema n = Some (Constant x) \<Longrightarrow> js_le (num 0) x"
  by (auto simp: task_term_of_def unit_price_def nonnegative_price
      split: option.splits ExpressionNode.splits if_splits)

definition grounded_prices :: "BillingUsageSchema \<Rightarrow> (jstr \<times> jsnum) list \<Rightarrow> bool" where
  "grounded_prices schema ps \<longleftrightarrow>
     distinct (map fst ps) \<and> (\<forall>(field, x) \<in> set ps. schema_field schema field \<and> js_le (num 0) x)"

lemma read_task_terms_grounded:
  "read_task_terms schema k prices terms = Some (c, ps) \<Longrightarrow> grounded_prices schema prices
    \<Longrightarrow> (\<forall>x. k = Some x \<longrightarrow> js_le (num 0) x)
    \<Longrightarrow> grounded_prices schema ps \<and> js_le (num 0) c"
proof (induction terms arbitrary: k prices)
  case Nil
  then show ?case by (cases k) (auto simp: js_le_def)
next
  case (Cons part parts)
  from Cons.prems(1) obtain t where t: "task_term_of schema part = Some t"
    by (auto split: option.splits)
  show ?case
  proof (cases t)
    case (Constant x)
    with Cons t task_term_of_constant [of schema part x] show ?thesis by (auto split: if_splits)
  next
    case (UnitPrice field x)
    with Cons.prems t have new: "\<not> hasOwn prices field"
      and r: "read_task_terms schema k (prices @ [(field, x)]) parts = Some (c, ps)"
      by (auto split: if_splits)
    from new have "grounded_prices schema (prices @ [(field, x)])"
      using Cons.prems(2) task_term_of_unit [OF t [unfolded UnitPrice]]
      by (auto simp: grounded_prices_def hasOwn_def map_of_eq_None_iff)
    with Cons r show ?thesis by blast
  qed
qed

definition declared_condition :: "BillingUsageSchema \<Rightarrow> jstr \<times> jstr \<Rightarrow> bool" where
  "declared_condition schema c \<longleftrightarrow>
     (\<exists>d. map_of schema (fst c) = Some d
        \<and> (is_boolean_field d \<or> (\<exists>vs. uf_enum d = Some vs \<and> snd c \<in> set vs)))"

definition grounded_tier :: "BillingUsageSchema \<Rightarrow> TaskTier \<Rightarrow> bool" where
  "grounded_tier schema tier \<longleftrightarrow>
     grounded_prices schema (kt_unitPrices tier) \<and> kt_unitPrices tier \<noteq> []
     \<and> js_le (num 0) (kt_constant tier)
     \<and> list_all (declared_condition schema) (kt_conditions tier)"

lemma taskTier_grounded:
  assumes "taskTier n conditions schema = Some tier" "list_all (declared_condition schema) conditions"
  shows "grounded_tier schema tier"
proof -
  from assms(1) obtain label i s1 e1 body rest s e c ps where
    r: "read_task_terms schema None [] (flattenBinary body (js ''+'')) = Some (c, ps)" and ps: "ps \<noteq> []"
    and t: "tier = \<lparr>kt_conditionText = None, kt_label = label, kt_conditions = conditions,
                   kt_constant = c, kt_unitPrices = ps\<rparr>"
    by (auto elim!: taskTier.elims split: if_splits option.splits)
  from read_task_terms_grounded [OF r] ps t assms(2) show ?thesis
    by (simp add: grounded_tier_def grounded_prices_def)
qed

lemma task_condition_declared:
  "task_condition schema b n = Some (c, True) \<Longrightarrow> declared_condition schema c"
  by (auto elim!: task_condition.elims simp: Let_def declared_condition_def
      split: if_splits option.splits literal.splits)

lemma taskConditions_declared:
  assumes "taskConditions n schema b = Some (Reachable cs)"
  shows "list_all (declared_condition schema) cs"
proof -
  from assms obtain parts where p: "map (task_condition schema b) (flattenBinary n (js ''&&'')) = map Some parts"
    and r: "list_all snd parts" and cs: "cs = map fst parts"
    by (auto simp: taskConditions_def all_some_Some_iff split: option.splits if_splits)
  have "declared_condition schema (fst q)" if "q \<in> set parts" for q
  proof -
    from that have "Some q \<in> set (map Some parts)" by simp
    with p have "Some q \<in> set (map (task_condition schema b) (flattenBinary n (js ''&&'')))" by simp
    then obtain m where "task_condition schema b m = Some q" by auto
    with r that task_condition_declared show ?thesis by (cases q) (auto simp: list_all_iff)
  qed
  with cs show ?thesis by (simp add: list_all_iff)
qed

lemma readTaskTierChain_grounded:
  "readTaskTierChain n schema b = Some tiers \<Longrightarrow> list_all (grounded_tier schema) tiers"
proof (induction n schema b arbitrary: tiers rule: readTaskTierChain.induct)
  case (1 c y n s e schema b)
  then show ?case
    by (auto split: option.splits TaskConditions.splits dest!: taskConditions_declared
        intro: taskTier_grounded)
qed (auto dest: taskTier_grounded [of _ "[]"])

end
