(* ===== verification/BillingVisual.thy ===== *)
theory BillingVisual
  imports BillingDisplay
begin

text \<open>
  \<open>billing-expression/visual.ts\<close>: the visual pricing document read from an accepted expression, and its
  serialization, which patches the source spans of the nodes it came from. The main result is that
  serializing an unedited document gives back its source, unit for unit.
\<close>

section \<open>The document\<close>

record visual_comparison =
  vc_probe :: jstr
  vc_timezone :: jstr
  vc_operator :: jstr
  vc_value :: jstr

text \<open>\<open>VisualCondition\<close>: every form has an identifier and, when read from a source, the node it is from.\<close>

datatype VisualCondition =
    VComparison (vcond_id: jstr) (vcond_origin: "ExpressionNode option") visual_comparison
  | VAll (vcond_id: jstr) (vcond_origin: "ExpressionNode option") "VisualCondition list"
  | VAny (vcond_id: jstr) (vcond_origin: "ExpressionNode option") "VisualCondition list"
  | VNot (vcond_id: jstr) (vcond_origin: "ExpressionNode option") VisualCondition

record VisualPrice =
  vp_variable :: jstr
  vp_value :: jstr
  vp_origin :: "ExpressionNode option"

record visual_tier =
  vt_label :: jstr
  vt_prices :: "VisualPrice list"
  vt_billingUnit :: BillingUnit
  vt_fixedPrice :: jstr

datatype VisualPricingNode =
    VTier (vnode_id: jstr) (vnode_origin: "ExpressionNode option") visual_tier
  | VBranch (vnode_id: jstr) (vnode_origin: "ExpressionNode option")
      VisualCondition VisualPricingNode VisualPricingNode

record VisualBillingDocument =
  vd_source :: jstr
  vd_root :: VisualPricingNode

record VisualBillingIssue =
  vi_id :: jstr
  vi_message :: jstr

datatype VisualBillingSerialization = Serialized jstr | Issues "VisualBillingIssue list"

text \<open>The domain of each time function: its least and greatest value.\<close>

definition TIME_DOMAINS :: "(jstr \<times> rat \<times> rat) list" where
  "TIME_DOMAINS =
     [(js ''hour'', 0, 23), (js ''minute'', 0, 59), (js ''weekday'', 0, 6), (js ''month'', 1, 12),
      (js ''day'', 1, 31)]"

text \<open>Identifiers of new nodes: \<open>draft-\<close> and a counter, which is passed as state.\<close>

definition visualNodeId :: "nat \<Rightarrow> jstr \<times> nat" where
  "visualNodeId nextId = (js ''draft-'' @ int_text (int (nextId + 1)), nextId + 1)"

definition createEmptyVisualCondition :: "nat \<Rightarrow> VisualCondition \<times> nat" where
  "createEmptyVisualCondition nextId =
     (let (i, nextId') = visualNodeId nextId in
      (VComparison i None
         \<lparr>vc_probe = js ''hour'', vc_timezone = js ''Asia/Shanghai'', vc_operator = js ''>='', vc_value = []\<rparr>,
       nextId'))"

section \<open>Reading\<close>

definition span_id :: "string \<Rightarrow> ExpressionNode \<Rightarrow> jstr" where
  "span_id kind node =
     js kind @ js ''-'' @ int_text (int (nstart node)) @ js ''-'' @ int_text (int (nend node))"

definition comparison_probe :: "ExpressionNode \<Rightarrow> (jstr \<times> jstr) option" where
  "comparison_probe node =
     (case node of
        Variable name _ _ \<Rightarrow> if name \<in> TIER_VARIABLES then Some (name, []) else None
      | Call f args _ _ \<Rightarrow>
          if f \<notin> set TIME_FUNCTIONS then None
          else (case nth_opt args 0 of
              Some (Literal (LStr zone) _ _ _) \<Rightarrow> Some (f, zone)
            | _ \<Rightarrow> None)
      | _ \<Rightarrow> None)"

fun read_comparison :: "ExpressionNode \<Rightarrow> VisualCondition option" where
  "read_comparison (Binary op l (Literal (LNum x) i s1 e1) s e) =
     (if op \<notin> COMPARISON then None
      else case comparison_probe l of
          None \<Rightarrow> None
        | Some (probe, zone) \<Rightarrow>
            let node = Binary op l (Literal (LNum x) i s1 e1) s e in
            Some (VComparison (span_id ''condition'' node) (Some node)
              \<lparr>vc_probe = probe, vc_timezone = zone, vc_operator = op, vc_value = js_num_string x\<rparr>))"
| "read_comparison node = None"

lemma flattenBinary_size: "m \<in> set (flattenBinary n op) \<Longrightarrow> size m \<le> size n"
  by (induction n op rule: flattenBinary.induct) (auto split: if_splits)

lemma flattenBinary_child_size [termination_simp]:
  "m \<in> set (flattenBinary (Binary op l r s e) op) \<Longrightarrow> size m < Suc (size l + size r)"
  using flattenBinary_size [of m l op] flattenBinary_size [of m r op] by fastforce

function readVisualCondition :: "ExpressionNode \<Rightarrow> VisualCondition option" where
  "readVisualCondition node =
     (case node of
        Unary op x _ _ \<Rightarrow>
          if op \<noteq> js ''!'' then None
          else map_option (\<lambda>child. VNot (span_id ''condition'' node) (Some node) child)
                 (readVisualCondition x)
      | Binary op l r s e \<Rightarrow>
          if op \<in> LOGICAL then
            map_option
              (\<lambda>children. (if op = js ''&&'' then VAll else VAny)
                 (span_id ''condition'' node) (Some node) children)
              (all_some (map readVisualCondition (flattenBinary (Binary op l r s e) op)))
          else read_comparison node
      | _ \<Rightarrow> None)"
  by auto
termination
proof (relation "measure size", goal_cases)
  case (3 node op l r s e z)
  then show ?case using flattenBinary_child_size [of z op l r s e] by simp
qed auto

declare readVisualCondition.simps [simp del]

text \<open>One price term of a tier.\<close>

fun read_visual_price :: "ExpressionNode \<Rightarrow> VisualPrice option" where
  "read_visual_price (Binary op (Variable name s1 e1) (Literal (LNum x) i s2 e2) s e) =
     (if op \<noteq> js ''*'' \<or> name = js ''len'' \<or> name = js ''image_count'' \<or> js_lt x (num 0) then None
      else Some \<lparr>vp_variable = name, vp_value = js_num_string x,
                 vp_origin = Some (Binary op (Variable name s1 e1) (Literal (LNum x) i s2 e2) s e)\<rparr>)"
| "read_visual_price _ = None"

fun read_visual_prices :: "VisualPrice list \<Rightarrow> ExpressionNode list \<Rightarrow> VisualPrice list option" where
  "read_visual_prices prices [] = Some prices"
| "read_visual_prices prices (t # ts) =
     (case read_visual_price t of
        None \<Rightarrow> None
      | Some price \<Rightarrow>
          if vp_variable price \<in> set (map vp_variable prices) then None
          else read_visual_prices (prices @ [price]) ts)"

text \<open>\<open>fixed(literal)\<close>, with the literal's text.\<close>

fun fixed_text :: "ExpressionNode \<Rightarrow> jstr option" where
  "fixed_text (Call f (Literal v _ _ _ # _) _ _) = (if f = js ''fixed'' then Some (literal_text v) else None)"
| "fixed_text _ = None"

fun read_visual_tier :: "ExpressionNode \<Rightarrow> VisualPricingNode option" where
  "read_visual_tier (Call f (Literal (LStr label) i s1 e1 # body # rest) s e) =
     (let node = Call f (Literal (LStr label) i s1 e1 # body # rest) s e;
          tier = (\<lambda>prices billing_unit fixed. VTier (span_id ''pricing'' node) (Some node)
            \<lparr>vt_label = label, vt_prices = prices, vt_billingUnit = billing_unit, vt_fixedPrice = fixed\<rparr>)
      in if f \<noteq> js ''tier'' then None
         else case fixed_text body of
             Some text \<Rightarrow> Some (tier [] RequestUnit text)
           | None \<Rightarrow>
               map_option (\<lambda>prices. tier prices TokenUnit [])
                 (read_visual_prices [] (flattenBinary body (js ''+''))))"
| "read_visual_tier _ = None"

fun readVisualPricing :: "ExpressionNode \<Rightarrow> VisualPricingNode option" where
  "readVisualPricing (Conditional c y n s e) =
     (case (readVisualCondition c, readVisualPricing y, readVisualPricing n) of
        (Some condition, Some yes, Some no) \<Rightarrow>
          Some (VBranch (span_id ''pricing'' (Conditional c y n s e)) (Some (Conditional c y n s e))
            condition yes no)
      | _ \<Rightarrow> None)"
| "readVisualPricing node = read_visual_tier node"

section \<open>Patching\<close>

type_synonym patch = "ExpressionNode \<times> jstr"

definition apply_patch :: "nat \<Rightarrow> patch \<Rightarrow> jstr \<Rightarrow> jstr" where
  "apply_patch start p result =
     take (nstart (fst p) - start) result @ snd p @ drop (nend (fst p) - start) result"

text \<open>The patches are applied from the last to the first, in a stable order of their starts.\<close>

definition patchSource :: "jstr \<Rightarrow> ExpressionNode \<Rightarrow> patch list \<Rightarrow> jstr" where
  "patchSource src origin patches =
     fold (apply_patch (nstart origin)) (sort_key (\<lambda>p. - int (nstart (fst p))) patches)
       (slice src (nstart origin) (nend origin))"

definition parseNonNegativeNumber :: "jstr \<Rightarrow> jsnum option" where
  "parseNonNegativeNumber s =
     (case match_decimal (trim s) of
        None \<Rightarrow> None
      | Some d \<Rightarrow>
          if match_length d \<noteq> length (trim s) then None
          else let x = js_Number s in
            if isFinite x \<and> js_le (num 0) x then Some x else None)"

section \<open>Writing\<close>

definition issue :: "jstr \<Rightarrow> string \<Rightarrow> VisualBillingIssue" where
  "issue i message = \<lparr>vi_id = i, vi_message = js message\<rparr>"

definition valid_value :: "visual_comparison \<Rightarrow> bool" where
  "valid_value c =
     (case parseNonNegativeNumber (vc_value c) of
        None \<Rightarrow> False
      | Some x \<Rightarrow>
          (case map_of TIME_DOMAINS (vc_probe c) of
             None \<Rightarrow> True
           | Some (least, greatest) \<Rightarrow>
               isInteger x \<and> js_le (num least) x
               \<and> js_le x (num (greatest + (if vc_operator c = js ''<'' then 1 else 0)))))"

text \<open>The zone of the comparison the node was read from.\<close>

fun original_zone :: "ExpressionNode option \<Rightarrow> literal option" where
  "original_zone (Some (Binary op (Call f (Literal v _ _ _ # _) _ _) r _ _)) = Some v"
| "original_zone _ = None"

definition zone_ok :: "IntlProvider \<Rightarrow> jstr \<Rightarrow> bool" where
  "zone_ok intl zone \<longleftrightarrow> trim zone \<noteq> [] \<and> intl_resolve intl (trim zone) \<noteq> None"

definition probe_text :: "visual_comparison \<Rightarrow> jstr" where
  "probe_text c =
     (if vc_probe c \<in> set TIME_FUNCTIONS
      then vc_probe c @ js ''('' @ json_stringify_string (vc_timezone c) @ js '')''
      else vc_probe c)"

text \<open>The probe's own text where it is unchanged.\<close>

definition patched_probe :: "jstr \<Rightarrow> ExpressionNode \<Rightarrow> visual_comparison \<Rightarrow> jstr" where
  "patched_probe src old c =
     (case old of
        Variable name s e \<Rightarrow> if name = vc_probe c then slice src s e else probe_text c
      | Call f args s e \<Rightarrow>
          (case nth_opt args 0 of
             Some (Literal v _ _ _) \<Rightarrow>
               if f = vc_probe c \<and> v = LStr (vc_timezone c) then slice src s e else probe_text c
           | _ \<Rightarrow> probe_text c)
      | _ \<Rightarrow> probe_text c)"

text \<open>\<open>value === literal.value\<close>.\<close>

definition same_number :: "jsnum option \<Rightarrow> literal \<Rightarrow> bool" where
  "same_number x v = (case (x, v) of (Some a, LNum b) \<Rightarrow> js_num_eq a b | (None, LNull) \<Rightarrow> True | _ \<Rightarrow> False)"

text \<open>A literal's own text where the value is unchanged.\<close>

definition patched_value :: "jstr \<Rightarrow> ExpressionNode \<Rightarrow> jstr \<Rightarrow> jstr" where
  "patched_value src old text =
     (case old of
        Literal v _ s e \<Rightarrow> if same_number (parseNonNegativeNumber text) v then slice src s e else text
      | _ \<Rightarrow> text)"

definition write_comparison ::
  "IntlProvider \<Rightarrow> jstr \<Rightarrow> jstr \<Rightarrow> ExpressionNode option \<Rightarrow> visual_comparison
    \<Rightarrow> jstr \<times> VisualBillingIssue list" where
  "write_comparison intl src i origin c =
     (let is_time = vc_probe c \<in> set TIME_FUNCTIONS;
          value_issues = (if valid_value c then [] else [issue i ''Enter a valid condition value.'']);
          zone_issues =
            (if is_time \<and> original_zone origin \<noteq> Some (LStr (vc_timezone c)) \<and> \<not> zone_ok intl (vc_timezone c)
             then [issue i ''Choose a valid IANA timezone.''] else []);
          text = (case origin of
              Some (Binary op l r s e) \<Rightarrow>
                if op = vc_operator c then
                  patchSource src (Binary op l r s e)
                    [(l, patched_probe src l c), (r, patched_value src r (vc_value c))]
                else js ''('' @ probe_text c @ js '' '' @ vc_operator c @ js '' '' @ vc_value c @ js '')''
            | _ \<Rightarrow> js ''('' @ probe_text c @ js '' '' @ vc_operator c @ js '' '' @ vc_value c @ js '')'')
      in (text, value_issues @ zone_issues))"

definition in_parens :: "jstr \<Rightarrow> jstr" where
  "in_parens s = js ''('' @ s @ js '')''"

text \<open>The text of a group from the texts of its children.\<close>

definition write_group ::
  "jstr \<Rightarrow> jstr \<Rightarrow> ExpressionNode option \<Rightarrow> VisualCondition list \<Rightarrow> jstr list \<Rightarrow> jstr" where
  "write_group src op origin kids texts =
     (let fresh = in_parens (join (js '' '' @ op @ js '' '') (map in_parens texts)) in
      case origin of
        Some (Binary op' l r s e) \<Rightarrow>
          (let original = flattenBinary (Binary op' l r s e) op in
           if op' = op \<and> map vcond_origin kids = map Some original
           then patchSource src (Binary op' l r s e) (zip original texts)
           else fresh)
      | _ \<Rightarrow> fresh)"

fun writeVisualCondition ::
  "IntlProvider \<Rightarrow> jstr \<Rightarrow> VisualCondition \<Rightarrow> jstr \<times> VisualBillingIssue list" where
  "writeVisualCondition intl src (VNot i origin child) =
     (let (text, issues) = writeVisualCondition intl src child in
      (case origin of
         Some (Unary op x s e) \<Rightarrow>
           if vcond_origin child = Some x then patchSource src (Unary op x s e) [(x, text)]
           else js ''!'' @ in_parens text
       | _ \<Rightarrow> js ''!'' @ in_parens text, issues))"
| "writeVisualCondition intl src (VAll i origin kids) =
     (let ws = map (writeVisualCondition intl src) kids in
      (write_group src (js ''&&'') origin kids (map fst ws),
       (if kids = [] then [issue i ''Add at least one condition to this group.''] else [])
         @ concat (map snd ws)))"
| "writeVisualCondition intl src (VAny i origin kids) =
     (let ws = map (writeVisualCondition intl src) kids in
      (write_group src (js ''||'') origin kids (map fst ws),
       (if kids = [] then [issue i ''Add at least one condition to this group.''] else [])
         @ concat (map snd ws)))"
| "writeVisualCondition intl src (VComparison i origin c) = write_comparison intl src i origin c"

definition visualConditionExpression :: "IntlProvider \<Rightarrow> VisualCondition \<Rightarrow> jstr \<Rightarrow> jstr option" where
  "visualConditionExpression intl node src =
     (let (expression, issues) = writeVisualCondition intl src node
      in if issues = [] then Some expression else None)"

text \<open>The label's own text where it is unchanged.\<close>

definition patched_label :: "jstr \<Rightarrow> ExpressionNode \<Rightarrow> jstr \<Rightarrow> jstr" where
  "patched_label src old label =
     (case old of
        Literal (LStr s0) _ s e \<Rightarrow> if s0 = label then slice src s e else json_stringify_string label
      | _ \<Rightarrow> json_stringify_string label)"

definition price_issue :: "jstr \<Rightarrow> VisualBillingIssue" where
  "price_issue i = issue i ''Enter a finite, non-negative price.''"

text \<open>A tier billed per request.\<close>

definition fixed_price_text :: "jstr \<Rightarrow> ExpressionNode \<Rightarrow> jstr \<Rightarrow> jstr" where
  "fixed_price_text src price text =
     (let fresh = js ''fixed('' @ text @ js '')'' in
      case price of
        Call f (Literal v i s1 e1 # rest) s e \<Rightarrow>
          if f = js ''fixed'' then
            patchSource src price [(Literal v i s1 e1, patched_value src (Literal v i s1 e1) text)]
          else fresh
      | _ \<Rightarrow> fresh)"

definition write_request_tier ::
  "jstr \<Rightarrow> jstr \<Rightarrow> ExpressionNode option \<Rightarrow> visual_tier \<Rightarrow> jstr \<times> VisualBillingIssue list" where
  "write_request_tier src i origin tier =
     (let x = parseNonNegativeNumber (vt_fixedPrice tier);
          issues = (if (case x of None \<Rightarrow> True | Some v \<Rightarrow> \<not> isFinite (js_mul v (num 1000000)))
                    then [price_issue (i @ js '':fixed'')] else []);
          fresh = js ''tier('' @ json_stringify_string (vt_label tier) @ js '', fixed(''
                    @ vt_fixedPrice tier @ js ''))''
      in (case origin of
            Some (Call f (label # price # rest) s e) \<Rightarrow>
              if f = js ''tier'' then
                patchSource src (Call f (label # price # rest) s e)
                  [(label, patched_label src label (vt_label tier)),
                   (price, fixed_price_text src price (vt_fixedPrice tier))]
              else fresh
          | _ \<Rightarrow> fresh, issues))"

text \<open>A price: its term, the patch of its literal where it was read from one, and its issues.\<close>

definition write_price ::
  "jstr \<Rightarrow> jstr \<Rightarrow> VisualPrice \<Rightarrow> jstr \<times> patch list \<times> VisualBillingIssue list" where
  "write_price src i price =
     (let issues = (if parseNonNegativeNumber (vp_value price) = None
                    then [price_issue (i @ js '':'' @ vp_variable price)] else []);
          fresh = vp_variable price @ js '' * '' @ vp_value price
      in case vp_origin price of
           Some (Binary op l (Literal v k s1 e1) s e) \<Rightarrow>
             let p = (Literal v k s1 e1, patched_value src (Literal v k s1 e1) (vp_value price)) in
             (patchSource src (Binary op l (Literal v k s1 e1) s e) [p], [p], issues)
         | _ \<Rightarrow> (fresh, [], issues))"

definition write_token_tier ::
  "jstr \<Rightarrow> jstr \<Rightarrow> ExpressionNode option \<Rightarrow> visual_tier \<Rightarrow> jstr \<times> VisualBillingIssue list" where
  "write_token_tier src i origin tier =
     (let ws = map (write_price src i) (vt_prices tier);
          terms = join (js '' + '') (map fst ws);
          patches = concat (map (fst \<circ> snd) ws);
          issues = (if vt_prices tier = [] then [issue i ''Include at least one price variable.''] else [])
                   @ concat (map (snd \<circ> snd) ws);
          fresh = js ''tier('' @ json_stringify_string (vt_label tier) @ js '', '' @ terms @ js '')''
      in (case origin of
            Some (Call f (label # body # rest) s e) \<Rightarrow>
              if f = js ''tier'' then
                (let label_patch = (label, patched_label src label (vt_label tier)) in
                 if map vp_origin (vt_prices tier) = map Some (flattenBinary body (js ''+''))
                 then patchSource src (Call f (label # body # rest) s e) (label_patch # patches)
                 else patchSource src (Call f (label # body # rest) s e) [label_patch, (body, terms)])
              else fresh
          | _ \<Rightarrow> fresh, issues))"

fun writeVisualPricing ::
  "IntlProvider \<Rightarrow> jstr \<Rightarrow> VisualPricingNode \<Rightarrow> jstr \<times> VisualBillingIssue list" where
  "writeVisualPricing intl src (VBranch i origin condition yes no) =
     (let (c, ci) = writeVisualCondition intl src condition;
          (y, yi) = writeVisualPricing intl src yes;
          (n, ni) = writeVisualPricing intl src no
      in (case origin of
            Some (Conditional oc oy on s e) \<Rightarrow>
              patchSource src (Conditional oc oy on s e) [(oc, c), (oy, y), (on, n)]
          | _ \<Rightarrow> in_parens c @ js '' ? '' @ in_parens y @ js '' : '' @ in_parens n, ci @ yi @ ni))"
| "writeVisualPricing intl src (VTier i origin tier) =
     (if vt_billingUnit tier = RequestUnit then write_request_tier src i origin tier
      else write_token_tier src i origin tier)"

definition serializeVisualBillingDocument ::
  "IntlProvider \<Rightarrow> VisualBillingDocument \<Rightarrow> VisualBillingSerialization" where
  "serializeVisualBillingDocument intl document =
     (let src = vd_source document; (body, issues) = writeVisualPricing intl src (vd_root document) in
      if issues \<noteq> [] then Issues issues
      else case compile_source src of
          Failed f \<Rightarrow>
            Issues [issue (vnode_id (vd_root document))
              ''This expression cannot be edited visually without losing information.'']
        | Ready original \<Rightarrow>
            (let result = take (nstart (c_ast original)) src @ body @ drop (nend (c_ast original)) src in
             case compile_source result of
               Failed f \<Rightarrow> Issues [issue (vnode_id (vd_root document)) ''Enter a valid condition value.'']
             | Ready compiled \<Rightarrow> Serialized result))"

definition parseVisualBillingDocument :: "IntlProvider \<Rightarrow> jstr \<Rightarrow> VisualBillingDocument option" where
  "parseVisualBillingDocument intl src =
     (case compile_source src of
        Failed f \<Rightarrow> None
      | Ready compiled \<Rightarrow>
          (case readVisualPricing (c_ast compiled) of
             None \<Rightarrow> None
           | Some tree \<Rightarrow>
               (let document = \<lparr>vd_source = src, vd_root = tree\<rparr> in
                case serializeVisualBillingDocument intl document of
                  Serialized s \<Rightarrow> Some document
                | Issues is \<Rightarrow> None)))"

section \<open>An unedited document\<close>

text \<open>A number literal whose canonical text reads back as the same number.\<close>

definition reads_back :: "jsnum \<Rightarrow> bool" where
  "reads_back x \<longleftrightarrow> (\<forall>y. parseNonNegativeNumber (js_num_string x) = Some y \<longrightarrow> js_num_eq y x)"

text \<open>A node of an accepted expression of the source.\<close>

definition read_from :: "jstr \<Rightarrow> ExpressionNode \<Rightarrow> bool" where
  "read_from src n \<longleftrightarrow> well_spanned n \<and> nend n \<le> length src \<and> typable n
     \<and> (\<forall>x i s e. Literal (LNum x) i s e \<in> set (postorder n) \<longrightarrow> reads_back x)"

definition own_text :: "jstr \<Rightarrow> ExpressionNode \<Rightarrow> jstr" where
  "own_text src n = slice src (nstart n) (nend n)"

definition inside :: "ExpressionNode \<Rightarrow> ExpressionNode \<Rightarrow> bool" where
  "inside m n \<longleftrightarrow> nstart n \<le> nstart m \<and> nstart m \<le> nend m \<and> nend m \<le> nend n"

lemma read_from_subnode:
  assumes "read_from src n" "m \<in> set (postorder n)"
  shows "read_from src m" "inside m n"
proof -
  have m: "well_spanned m" "nstart n \<le> nstart m" "nend m \<le> nend n"
    using well_spanned_subnode [of n m] assms by (auto simp: read_from_def)
  moreover have "typable m"
    using assms has_type_subnode by (fastforce simp: read_from_def typable_def)
  moreover have "set (postorder m) \<subseteq> set (postorder n)"
    using assms(2) by (rule postorder_trans)
  ultimately show "read_from src m" "inside m n"
    using assms(1) well_spanned_bounds [of m]
    by (auto simp: read_from_def inside_def) blast
qed

lemma flattenBinary_subnode: "m \<in> set (flattenBinary n op) \<Longrightarrow> m \<in> set (postorder n)"
  by (induction n op rule: flattenBinary.induct)
     (auto simp: postorder.simps [of "Binary _ _ _ _ _"] postorder_self split: if_splits)

lemma slice_identity:
  assumes "a \<le> s" "s \<le> e" "e \<le> b"
  shows "take (s - a) (slice src a b) @ slice src s e @ drop (e - a) (slice src a b) = slice src a b"
proof -
  let ?w = "slice src a b"
  have "take (e - a) ?w = take (s - a) ?w @ take (e - s) (drop (s - a) ?w)"
    using take_add [of "s - a" "e - s" ?w] assms by simp
  moreover have "take (e - s) (drop (s - a) ?w) = slice src s e"
    using assms by (simp add: slice_def drop_take min_absorb1)
  ultimately show ?thesis by (metis append.assoc append_take_drop_id)
qed

text \<open>Patching every node with its own text changes nothing.\<close>

lemma patchSource_identity:
  assumes "\<forall>p \<in> set patches. inside (fst p) origin \<and> snd p = own_text src (fst p)"
  shows "patchSource src origin patches = own_text src origin"
proof -
  have "\<forall>p \<in> set ps. inside (fst p) origin \<and> snd p = own_text src (fst p) \<Longrightarrow>
      fold (apply_patch (nstart origin)) ps (own_text src origin) = own_text src origin" for ps
    by (induction ps) (auto simp: apply_patch_def own_text_def inside_def slice_identity)
  from this [of "sort_key (\<lambda>p. - int (nstart (fst p))) patches"] assms
  show ?thesis by (simp add: patchSource_def own_text_def)
qed

lemma patched_value_own:
  assumes "reads_back x" "parseNonNegativeNumber (js_num_string x) \<noteq> None"
  shows "patched_value src (Literal (LNum x) i s e) (js_num_string x)
           = own_text src (Literal (LNum x) i s e)"
  using assms by (auto simp: patched_value_def reads_back_def same_number_def own_text_def)

lemma patched_label_own: "patched_label src (Literal (LStr s0) i s e) s0 = own_text src (Literal (LStr s0) i s e)"
  by (simp add: patched_label_def own_text_def)

lemma comparison_probe_own:
  assumes "comparison_probe l = Some (probe, zone)"
  shows "patched_probe src l \<lparr>vc_probe = probe, vc_timezone = zone, vc_operator = op, vc_value = v\<rparr>
           = own_text src l"
  using assms
  by (auto simp: comparison_probe_def patched_probe_def own_text_def
      split: ExpressionNode.splits option.splits literal.splits if_splits)

text \<open>Every condition read from a node is written back as the node's own text.\<close>

lemma read_comparison_cases:
  assumes "read_comparison n = Some v"
  obtains op l x i s1 e1 s e probe zone where
    "n = Binary op l (Literal (LNum x) i s1 e1) s e" "comparison_probe l = Some (probe, zone)"
    "v = VComparison (span_id ''condition'' n) (Some n)
           \<lparr>vc_probe = probe, vc_timezone = zone, vc_operator = op, vc_value = js_num_string x\<rparr>"
  using assms by (cases n rule: read_comparison.cases) (auto simp: Let_def split: if_splits option.splits)

lemma issue_free_comparison:
  "snd (write_comparison intl src i origin c) = [] \<Longrightarrow> valid_value c"
  by (auto simp: write_comparison_def Let_def split: if_splits)

lemma write_comparison_own:
  assumes n: "n = Binary op l (Literal (LNum x) i s1 e1) s e" "read_from src n"
    and probe: "comparison_probe l = Some (probe, zone)"
    and c: "c = \<lparr>vc_probe = probe, vc_timezone = zone, vc_operator = op, vc_value = js_num_string x\<rparr>"
    and ok: "snd (write_comparison intl src k (Some n) c) = []"
  shows "fst (write_comparison intl src k (Some n) c) = own_text src n"
proof -
  let ?r = "Literal (LNum x) i s1 e1"
  have sub: "l \<in> set (postorder n)" "?r \<in> set (postorder n)"
    using n(1) child_in_postorder [of l n] child_in_postorder [of ?r n] by auto
  have "reads_back x" using n(2) sub(2) by (auto simp: read_from_def)
  moreover have "parseNonNegativeNumber (js_num_string x) \<noteq> None"
    using issue_free_comparison [OF ok] by (auto simp: valid_value_def c split: option.splits)
  ultimately have "patched_value src ?r (vc_value c) = own_text src ?r"
    by (simp add: c patched_value_own)
  moreover have "patched_probe src l c = own_text src l"
    unfolding c by (rule comparison_probe_own [OF probe])
  ultimately have "patchSource src n [(l, patched_probe src l c), (?r, patched_value src ?r (vc_value c))]
      = own_text src n"
    using read_from_subnode [OF n(2)] sub by (intro patchSource_identity) auto
  then show ?thesis by (simp add: write_comparison_def n(1) c)
qed

lemma readVisualCondition_origin: "readVisualCondition n = Some v \<Longrightarrow> vcond_origin v = Some n"
  by (subst (asm) readVisualCondition.simps)
     (auto split: ExpressionNode.splits if_splits elim: read_comparison_cases)

lemma all_some_map:
  "all_some (map f xs) = Some ys \<longleftrightarrow> list_all2 (\<lambda>x y. f x = Some y) xs ys"
  by (auto simp: all_some_Some_iff list_eq_iff_nth_eq list_all2_conv_all_nth)

lemma write_group_own:
  assumes n: "read_from src (Binary op l r s e)"
    and kids: "list_all2 (\<lambda>m v. vcond_origin v = Some m) (flattenBinary (Binary op l r s e) op) vs"
    and texts: "texts = map (own_text src) (flattenBinary (Binary op l r s e) op)"
  shows "write_group src op (Some (Binary op l r s e)) vs texts = own_text src (Binary op l r s e)"
proof -
  let ?n = "Binary op l r s e" let ?ms = "flattenBinary ?n op"
  have origins: "map vcond_origin vs = map Some ?ms"
    using kids by (induction rule: list_all2_induct) auto
  have "patchSource src ?n (zip ?ms texts) = own_text src ?n"
    using read_from_subnode [OF n] flattenBinary_subnode [of _ ?n op]
    by (intro patchSource_identity) (auto simp: texts zip_map2 zip_same_conv_map simp del: flattenBinary.simps)
  then show ?thesis by (simp add: write_group_def origins del: flattenBinary.simps)
qed

lemma readVisualCondition_logical:
  "op \<in> LOGICAL \<Longrightarrow> readVisualCondition (Binary op l r s e) =
     map_option
       ((if op = js ''&&'' then VAll else VAny) (span_id ''condition'' (Binary op l r s e))
         (Some (Binary op l r s e)))
       (all_some (map readVisualCondition (flattenBinary (Binary op l r s e) op)))"
  by (simp add: readVisualCondition.simps [of "Binary op l r s e"] del: flattenBinary.simps)

lemma writeVisualCondition_group_own:
  assumes n: "n = Binary op l r s e" "read_from src n" "op = js ''&&'' \<or> op = js ''||''"
    and read: "readVisualCondition n = Some v" and ok: "snd (writeVisualCondition intl src v) = []"
    and IH: "\<And>m w. m \<in> set (flattenBinary n op) \<Longrightarrow> read_from src m \<Longrightarrow> readVisualCondition m = Some w
      \<Longrightarrow> snd (writeVisualCondition intl src w) = [] \<Longrightarrow> fst (writeVisualCondition intl src w) = own_text src m"
  shows "fst (writeVisualCondition intl src v) = own_text src n"
proof -
  let ?w = "writeVisualCondition intl src"
  obtain vs where vs: "list_all2 (\<lambda>m v. readVisualCondition m = Some v) (flattenBinary n op) vs"
    and v: "v = (if op = js ''&&'' then VAll else VAny) (span_id ''condition'' n) (Some n) vs"
    using read readVisualCondition_logical [of op l r s e] n(1,3)
    by (auto simp: all_some_map LOGICAL_def simp del: flattenBinary.simps)
  have issues: "\<forall>w \<in> set vs. snd (?w w) = []"
    using ok n(3) by (auto simp: v split: if_splits)
  have "list_all2 (\<lambda>m v. fst (?w v) = own_text src m) (flattenBinary n op) vs"
    using vs
  proof (rule list.rel_mono_strong, goal_cases)
    case (1 m w)
    then show ?case
      using IH [of m w] issues read_from_subnode(1) [OF n(2) flattenBinary_subnode] by auto
  qed
  then have texts: "map (fst \<circ> ?w) vs = map (own_text src) (flattenBinary n op)"
    by (auto simp: list_eq_iff_nth_eq list_all2_conv_all_nth)
  have "list_all2 (\<lambda>m v. vcond_origin v = Some m) (flattenBinary n op) vs"
    using vs by (rule list_all2_mono) (rule readVisualCondition_origin)
  from write_group_own [OF n(2) [unfolded n(1)] this [unfolded n(1)] texts [unfolded n(1)]] n(3)
  show ?thesis by (auto simp: v n(1) Let_def comp_def simp del: flattenBinary.simps)
qed

lemma writeVisualCondition_own:
  assumes "read_from src n" "readVisualCondition n = Some v" "snd (writeVisualCondition intl src v) = []"
  shows "fst (writeVisualCondition intl src v) = own_text src n"
  using assms
proof (induction n arbitrary: v rule: readVisualCondition.induct)
  case (1 n)
  show ?case
  proof (cases n)
    case (Unary op x s e)
    then obtain child where c: "op = js ''!''" "readVisualCondition x = Some child"
      and v: "v = VNot (span_id ''condition'' n) (Some n) child"
      using 1(4) by (subst (asm) readVisualCondition.simps) (auto split: if_splits)
    have x: "x \<in> set (postorder n)" using child_in_postorder [of x n] Unary by simp
    have "fst (writeVisualCondition intl src child) = own_text src x"
      using 1(1) [OF Unary, of child] c 1(5) read_from_subnode(1) [OF 1(3) x]
      by (auto simp: v split: prod.splits)
    then have "patchSource src n [(x, fst (writeVisualCondition intl src child))] = own_text src n"
      using read_from_subnode(2) [OF 1(3) x] by (intro patchSource_identity) auto
    then show ?thesis
      using readVisualCondition_origin [OF c(2)] by (auto simp: v Unary split: prod.splits)
  next
    case (Binary op l r s e)
    show ?thesis
    proof (cases "op \<in> LOGICAL")
      case True
      then show ?thesis
        using 1(2) [OF Binary True] 1(3-5) Binary
        by (intro writeVisualCondition_group_own [OF Binary 1(3)]) (auto simp: LOGICAL_def)
    next
      case False
      then have "read_comparison n = Some v"
        using 1(4) Binary by (subst (asm) readVisualCondition.simps) simp
      then show ?thesis
        by (cases rule: read_comparison_cases) (use 1 in \<open>auto intro!: write_comparison_own\<close>)
    qed
  qed (use 1(4) in \<open>subst (asm) readVisualCondition.simps, simp\<close>)+
qed

text \<open>The same for prices and tiers.\<close>

lemma read_visual_price_cases:
  assumes "read_visual_price t = Some p"
  obtains op name s1 e1 x i s2 e2 s e where
    "t = Binary op (Variable name s1 e1) (Literal (LNum x) i s2 e2) s e"
    "p = \<lparr>vp_variable = name, vp_value = js_num_string x, vp_origin = Some t\<rparr>"
  using assms by (cases t rule: read_visual_price.cases) (auto split: if_splits)

lemma read_visual_prices_list:
  "read_visual_prices acc ts = Some ps \<Longrightarrow>
     \<exists>qs. ps = acc @ qs \<and> list_all2 (\<lambda>t p. read_visual_price t = Some p) ts qs"
  by (induction acc ts arbitrary: ps rule: read_visual_prices.induct)
     (fastforce split: option.splits if_splits simp: list_all2_Cons1)+

lemma write_price_own:
  assumes t: "read_from src t" and read: "read_visual_price t = Some p"
    and ok: "snd (snd (write_price src k p)) = []"
  shows "vp_origin p = Some t"
    and "\<forall>q \<in> set (fst (snd (write_price src k p))).
           fst q \<in> set (postorder t) \<and> snd q = own_text src (fst q)"
proof -
  from read obtain op name s1 e1 x i s2 e2 s e
    where t': "t = Binary op (Variable name s1 e1) (Literal (LNum x) i s2 e2) s e"
      and p: "p = \<lparr>vp_variable = name, vp_value = js_num_string x, vp_origin = Some t\<rparr>"
    by (rule read_visual_price_cases)
  let ?r = "Literal (LNum x) i s2 e2"
  have r: "?r \<in> set (postorder t)" using child_in_postorder [of ?r t] t' by simp
  have "reads_back x" using t r by (auto simp: read_from_def)
  moreover have "parseNonNegativeNumber (js_num_string x) \<noteq> None"
    using ok by (auto simp: write_price_def t' p Let_def split: if_splits)
  ultimately have "patched_value src ?r (js_num_string x) = own_text src ?r"
    by (rule patched_value_own)
  then show "vp_origin p = Some t"
    "\<forall>q \<in> set (fst (snd (write_price src k p))). fst q \<in> set (postorder t) \<and> snd q = own_text src (fst q)"
    using r by (simp_all add: write_price_def t' p Let_def)
qed

lemma fixed_price_own:
  assumes n: "read_from src n" and fixed: "fixed_text n = Some text"
    and ok: "parseNonNegativeNumber text \<noteq> None"
  shows "fixed_price_text src n text = own_text src n"
proof -
  obtain v i s1 e1 rest s e where n': "n = Call (js ''fixed'') (Literal v i s1 e1 # rest) s e"
    and amount: "text = literal_text v"
    using fixed by (cases n rule: fixed_text.cases) (auto split: if_splits)
  have "\<exists>u. has_type (Literal v i s1 e1) u \<and> accepts u ET_number"
    using n n' by (auto simp: read_from_def typable_def TIME_FUNCTIONS_def elim: has_type_CallE)
  then obtain x where x: "v = LNum x"
    by (cases v) (auto simp: accepts_def)
  let ?r = "Literal v i s1 e1"
  have r: "?r \<in> set (postorder n)" using child_in_postorder [of ?r n] n' by simp
  have "patched_value src ?r text = own_text src ?r"
    using n r ok patched_value_own [of x src i s1 e1] by (auto simp: x amount read_from_def)
  then have "patchSource src n [(?r, patched_value src ?r text)] = own_text src n"
    using read_from_subnode(2) [OF n r] by (intro patchSource_identity) auto
  then show ?thesis by (simp add: fixed_price_text_def n')
qed

lemma list_all2_right: "list_all2 P xs ys \<Longrightarrow> y \<in> set ys \<Longrightarrow> \<exists>x \<in> set xs. P x y"
  by (induction rule: list_all2_induct) auto

lemma read_visual_tier_cases:
  assumes "read_visual_tier n = Some v"
  obtains (request) label i s1 e1 body rest s e amount where
    "n = Call (js ''tier'') (Literal (LStr label) i s1 e1 # body # rest) s e" "fixed_text body = Some amount"
    "v = VTier (span_id ''pricing'' n) (Some n)
           \<lparr>vt_label = label, vt_prices = [], vt_billingUnit = RequestUnit, vt_fixedPrice = amount\<rparr>"
  | (token) label i s1 e1 body rest s e prices where
    "n = Call (js ''tier'') (Literal (LStr label) i s1 e1 # body # rest) s e"
    "list_all2 (\<lambda>t p. read_visual_price t = Some p) (flattenBinary body (js ''+'')) prices"
    "v = VTier (span_id ''pricing'' n) (Some n)
           \<lparr>vt_label = label, vt_prices = prices, vt_billingUnit = TokenUnit, vt_fixedPrice = []\<rparr>"
  using assms
  by (cases n rule: read_visual_tier.cases)
     (auto simp: Let_def split: if_splits option.splits dest!: read_visual_prices_list)

lemma writeVisualPricing_request_own:
  assumes n: "n = Call (js ''tier'') (Literal (LStr label) i s1 e1 # body # rest) s e" "read_from src n"
    and body: "fixed_text body = Some t"
    and tier: "vt_label tier = label" "vt_fixedPrice tier = t"
    and ok: "snd (write_request_tier src k (Some n) tier) = []"
  shows "fst (write_request_tier src k (Some n) tier) = own_text src n"
proof -
  let ?l = "Literal (LStr label) i s1 e1"
  have sub: "?l \<in> set (postorder n)" "body \<in> set (postorder n)"
    using n(1) child_in_postorder [of ?l n] child_in_postorder [of body n] by auto
  have "parseNonNegativeNumber t \<noteq> None"
    using ok by (auto simp: write_request_tier_def Let_def tier split: if_splits option.splits)
  then have "fixed_price_text src body t = own_text src body"
    using fixed_price_own [OF read_from_subnode(1) [OF n(2) sub(2)] body] by blast
  then have "patchSource src n [(?l, patched_label src ?l label), (body, fixed_price_text src body t)]
      = own_text src n"
    using read_from_subnode(2) [OF n(2)] sub
    by (intro patchSource_identity) (auto simp: patched_label_own)
  then show ?thesis by (simp add: write_request_tier_def Let_def n(1) tier)
qed

lemma writeVisualPricing_token_own:
  assumes n: "n = Call (js ''tier'') (Literal (LStr label) i s1 e1 # body # rest) s e" "read_from src n"
    and prices: "list_all2 (\<lambda>t p. read_visual_price t = Some p) (flattenBinary body (js ''+''))
      (vt_prices tier)"
    and tier: "vt_label tier = label"
    and ok: "snd (write_token_tier src k (Some n) tier) = []"
  shows "fst (write_token_tier src k (Some n) tier) = own_text src n"
proof -
  let ?l = "Literal (LStr label) i s1 e1" and ?ts = "flattenBinary body (js ''+'')"
  have l: "?l \<in> set (postorder n)" and body: "body \<in> set (postorder n)"
    using n(1) child_in_postorder [of ?l n] child_in_postorder [of body n] by auto
  have terms: "set (postorder t) \<subseteq> set (postorder n)" if "t \<in> set ?ts" for t
    using postorder_trans [OF flattenBinary_subnode [OF that]] postorder_trans [OF body] by blast
  have issues: "\<forall>p \<in> set (vt_prices tier). snd (snd (write_price src k p)) = []"
    using ok by (auto simp: write_token_tier_def Let_def)
  have own: "vp_origin p = Some t \<and> (\<forall>q \<in> set (fst (snd (write_price src k p))).
      fst q \<in> set (postorder n) \<and> snd q = own_text src (fst q))"
    if "t \<in> set ?ts" "p \<in> set (vt_prices tier)" "read_visual_price t = Some p" for t p
    using write_price_own [OF read_from_subnode(1) [OF n(2)] that(3), of k] issues that
      terms [OF that(1)] postorder_self [of t] by blast
  have each: "list_all2 (\<lambda>t p. vp_origin p = Some t \<and> (\<forall>q \<in> set (fst (snd (write_price src k p))).
      fst q \<in> set (postorder n) \<and> snd q = own_text src (fst q))) ?ts (vt_prices tier)"
    using prices by (rule list.rel_mono_strong) (rule own)
  then have origins: "map vp_origin (vt_prices tier) = map Some ?ts"
    by (auto simp: list_eq_iff_nth_eq list_all2_conv_all_nth)
  from each have "\<forall>p \<in> set (vt_prices tier). \<forall>q \<in> set (fst (snd (write_price src k p))).
      fst q \<in> set (postorder n) \<and> snd q = own_text src (fst q)"
    by (blast dest: list_all2_right)
  then have "patchSource src n ((?l, patched_label src ?l label)
      # concat (map (fst \<circ> snd) (map (write_price src k) (vt_prices tier)))) = own_text src n"
    using read_from_subnode(2) [OF n(2)] l
    by (intro patchSource_identity) (auto simp: patched_label_own)
  then show ?thesis by (simp add: write_token_tier_def Let_def n(1) tier origins)
qed

lemma writeVisualPricing_tier_own:
  assumes "read_from src n" "read_visual_tier n = Some v" "snd (writeVisualPricing intl src v) = []"
  shows "fst (writeVisualPricing intl src v) = own_text src n"
  using assms(2)
proof (cases rule: read_visual_tier_cases)
  case request
  then show ?thesis using assms(1,3) by (auto intro!: writeVisualPricing_request_own)
next
  case token
  then show ?thesis using assms(1,3) by (auto intro!: writeVisualPricing_token_own)
qed

lemma writeVisualPricing_own:
  "read_from src n \<Longrightarrow> readVisualPricing n = Some v \<Longrightarrow> snd (writeVisualPricing intl src v) = []
    \<Longrightarrow> fst (writeVisualPricing intl src v) = own_text src n"
proof (induction n arbitrary: v rule: readVisualPricing.induct)
  case (1 c y n s e)
  let ?n = "Conditional c y n s e"
  obtain vc vy vn where parts: "readVisualCondition c = Some vc" "readVisualPricing y = Some vy"
      "readVisualPricing n = Some vn"
    and v: "v = VBranch (span_id ''pricing'' ?n) (Some ?n) vc vy vn"
    using 1(4) by (auto split: option.splits)
  have sub: "c \<in> set (postorder ?n)" "y \<in> set (postorder ?n)" "n \<in> set (postorder ?n)"
    using child_in_postorder [of _ ?n] by auto
  have "fst (writeVisualCondition intl src vc) = own_text src c"
    using writeVisualCondition_own [OF read_from_subnode(1) [OF 1(3) sub(1)] parts(1), of intl] 1(5)
    by (auto simp: v split: prod.splits)
  moreover have "fst (writeVisualPricing intl src vy) = own_text src y"
    using 1(1) read_from_subnode(1) [OF 1(3) sub(2)] parts(2) 1(5) by (auto simp: v split: prod.splits)
  moreover have "fst (writeVisualPricing intl src vn) = own_text src n"
    using 1(2) read_from_subnode(1) [OF 1(3) sub(3)] parts(3) 1(5) by (auto simp: v split: prod.splits)
  ultimately have "patchSource src ?n [(c, fst (writeVisualCondition intl src vc)),
      (y, fst (writeVisualPricing intl src vy)), (n, fst (writeVisualPricing intl src vn))] = own_text src ?n"
    using read_from_subnode(2) [OF 1(3)] sub by (intro patchSource_identity) auto
  then show ?case by (auto simp: v split: prod.splits)
qed (simp_all add: writeVisualPricing_tier_own)

section \<open>The document\<close>

definition numbers_read_back :: "jstr \<Rightarrow> bool" where
  "numbers_read_back src \<longleftrightarrow>
     (\<forall>n x i s e. parse src = Inr n \<longrightarrow> Literal (LNum x) i s e \<in> set (postorder n) \<longrightarrow> reads_back x)"

lemma compiled_read_from:
  assumes "compile_source src = Ready compiled" "numbers_read_back src"
  shows "read_from src (c_ast compiled)"
proof -
  have p: "parse src = Inr (c_ast compiled)" and t: "typable (c_ast compiled)"
    using compile_ready_facts(2,4) assms(1) by (simp_all add: compile_source_Ready)
  with parse_node [OF p] assms(2) show ?thesis by (auto simp: read_from_def numbers_read_back_def)
qed

lemma slice_in_place:
  assumes "a \<le> b" "b \<le> length src"
  shows "take a src @ slice src a b @ drop b src = src"
  using assms by (metis append.assoc append_take_drop_id le_add_diff_inverse slice_def take_add)

lemma serialize_parsed:
  assumes "parseVisualBillingDocument intl src = Some doc" "numbers_read_back src"
  shows "vd_source doc = src \<and> serializeVisualBillingDocument intl doc = Serialized src"
proof -
  from assms(1) obtain compiled tree out where compiled: "compile_source src = Ready compiled"
    and tree: "readVisualPricing (c_ast compiled) = Some tree"
    and doc: "doc = \<lparr>vd_source = src, vd_root = tree\<rparr>"
    and out: "serializeVisualBillingDocument intl doc = Serialized out"
    by (auto simp: parseVisualBillingDocument_def Let_def
        split: CompilationResult.splits option.splits VisualBillingSerialization.splits)
  let ?n = "c_ast compiled"
  note n = compiled_read_from [OF compiled assms(2)]
  have ok: "snd (writeVisualPricing intl src tree) = []"
    using out by (auto simp: serializeVisualBillingDocument_def doc split: prod.splits if_splits)
  have own: "fst (writeVisualPricing intl src tree) = slice src (nstart ?n) (nend ?n)"
    using writeVisualPricing_own [OF n tree ok] by (simp add: own_text_def)
  have "out = take (nstart ?n) src @ slice src (nstart ?n) (nend ?n) @ drop (nend ?n) src"
    using out own by (auto simp: serializeVisualBillingDocument_def doc compiled Let_def
        split: prod.splits if_splits CompilationResult.splits)
  moreover have "nstart ?n \<le> nend ?n" "nend ?n \<le> length src"
    using n well_spanned_bounds [of ?n] by (auto simp: read_from_def)
  ultimately show ?thesis using slice_in_place [of "nstart ?n" "nend ?n" src] out doc by simp
qed

end
