(* ===== verification/DisplayProperties.thy ===== *)
theory DisplayProperties
  imports BillingVisual BillingProperties
begin

text \<open>
  The properties of the readers of accepted expressions: the pricing summaries agree with what the
  evaluator charges, and an unedited visual document serializes to its own source.
\<close>

section \<open>Token tiers\<close>

text \<open>
  C16: The summary and the charge agree. Where the token tiers of an accepted expression can be read and
  its evaluation succeeds, the first tier that applies to the token counts, by its conditions or, for the
  tiers of audio and of text-only requests, by its text, is the tier the evaluation reports, and its
  fixed price is the one that is billed.
\<close>

theorem summary_names_charged_tier:
  assumes "compile_source src = Ready compiled"
    and "readTokenTierChain (c_ast compiled) = Some tiers"
    and "evaluateCompilation intl clock (Ready compiled) context = EvalSuccess r"
  shows "\<exists>tier. matching_tier (ctx_tokens context) tiers = Some tier
    \<and> res_matchedTier r = tt_label tier \<and> res_fixedPrice r = tt_fixedPrice tier"
proof -
  from assms(3) have "evaluate_compiled intl clock compiled context = Inr r"
    by (simp add: evaluateCompilation_def split: sum.splits)
  then obtain st0 rv st where new: "new_runtime compiled context = Inr st0"
    and e: "eval (runtime_env compiled context clock intl) (c_ast compiled) st0 rv st"
    and r: "res_matchedTier r = rt_matchedTier st" "res_fixedPrice r = rt_fixedPrice st"
    by (rule evaluate_compiled_Inr)
  from readTokenTierChain_eval [OF assms(2) e] new_runtime_fields(2) [OF new] r show ?thesis
    by (auto simp: shows_tier_def runtime_env_def split: option.splits)
qed

definition tiered_source :: jstr where
  "tiered_source = js ''p <= 500 ? tier(\"small\", p * 1 + c * 2) : tier(\"large\", fixed(3))''"

definition audio_source :: jstr where
  "audio_source = js ''ai > 0 || ao > 0 ? tier(\"audio\", fixed(5)) : tier(\"text\", p * 1 + c * 2)''"

definition compiled_of :: "jstr \<Rightarrow> CompiledBillingExpression" where
  "compiled_of src = (case compile_source src of Ready c \<Rightarrow> c | Failed f \<Rightarrow> sample_compiled)"

definition audio_context :: BillingSimulationContext where
  "audio_context = sample_context\<lparr>ctx_tokens := Some [(js ''ai'', JNum (num 0)), (js ''ao'', JNum (num 7))]\<rparr>"

definition reads_tiers :: "jstr \<Rightarrow> BillingSimulationContext \<Rightarrow> jstr \<Rightarrow> bool" where
  "reads_tiers src context label =
     (case compile_source src of
        Ready c \<Rightarrow>
          (case (readTokenTierChain (c_ast c), evaluateCompilation sample_intl (num 0) (Ready c) context) of
             (Some tiers, EvalSuccess r) \<Rightarrow> length tiers = 2 \<and> res_matchedTier r = label
           | _ \<Rightarrow> False)
      | Failed f \<Rightarrow> False)"

lemma reads_tiersE:
  assumes "reads_tiers src context label"
  obtains tiers r where "compile_source src = Ready (compiled_of src)"
    "readTokenTierChain (c_ast (compiled_of src)) = Some tiers" "length tiers = 2"
    "evaluateCompilation sample_intl (num 0) (Ready (compiled_of src)) context = EvalSuccess r"
    "res_matchedTier r = label"
  using assms by (auto simp: reads_tiers_def compiled_of_def
      split: option.splits BillingEvaluationResult.splits CompilationResult.splits)

theorem summary_names_charged_tier_witness:
  "(\<exists>tiers tier. readTokenTierChain (c_ast (compiled_of tiered_source)) = Some tiers \<and> length tiers = 2
     \<and> matching_tier (ctx_tokens sample_context) tiers = Some tier \<and> tt_label tier = js ''large'')
   \<and> (\<exists>tiers tier. readTokenTierChain (c_ast (compiled_of audio_source)) = Some tiers \<and> length tiers = 2
     \<and> matching_tier (ctx_tokens audio_context) tiers = Some tier \<and> tt_label tier = js ''audio'')"
proof
  have "reads_tiers tiered_source sample_context (js ''large'')" by code_simp
  then show "\<exists>tiers tier. readTokenTierChain (c_ast (compiled_of tiered_source)) = Some tiers \<and> length tiers = 2
     \<and> matching_tier (ctx_tokens sample_context) tiers = Some tier \<and> tt_label tier = js ''large''"
    by (rule reads_tiersE) (use summary_names_charged_tier in fastforce)
  have "reads_tiers audio_source audio_context (js ''audio'')" by code_simp
  then show "\<exists>tiers tier. readTokenTierChain (c_ast (compiled_of audio_source)) = Some tiers \<and> length tiers = 2
     \<and> matching_tier (ctx_tokens audio_context) tiers = Some tier \<and> tt_label tier = js ''audio''"
    by (rule reads_tiersE) (use summary_names_charged_tier in fastforce)
qed

section \<open>Time-dependent tiers\<close>

text \<open>A time path whose decisions the instant takes.\<close>

definition taken :: "IntlProvider \<Rightarrow> CompiledBillingExpression \<Rightarrow> jsnum \<Rightarrow> time_path \<Rightarrow> bool" where
  "taken intl compiled t path \<longleftrightarrow>
     list_all (\<lambda>(condition, matches). evaluateBillingCondition intl compiled condition t = Some matches) path"

lemma timeTierBranches_ConditionalE:
  assumes "timeTierBranches src (Conditional c y n s e) path = Inr (Some tiers)"
  obtains (split) ys ns where "isTimeCondition c = Inr True"
      "timeTierBranches src y (path @ [(c, True)]) = Inr (Some ys)"
      "timeTierBranches src n (path @ [(c, False)]) = Inr (Some ns)" "tiers = ys @ ns"
    | (leaf) ts where "path \<noteq> []" "tiers = map (time_tier src path) ts"
  using assms by (auto split: if_splits option.splits)

lemma time_tier_path: "d \<in> set (map (time_tier src path) ts) \<Longrightarrow> tm_conditions d = path"
  by (auto simp: time_tier_def)

lemma timeTierBranches_extends:
  "timeTierBranches src n path = Inr (Some tiers) \<Longrightarrow> tier \<in> set tiers
    \<Longrightarrow> \<exists>more. tm_conditions tier = path @ more \<and> tm_conditions tier \<noteq> []"
proof (induction src n path arbitrary: tiers rule: timeTierBranches.induct)
  case (1 src c y n s e path)
  from "1.prems"(1) show ?case
  proof (cases rule: timeTierBranches_ConditionalE)
    case (split ys ns)
    with "1.prems"(2) consider "tier \<in> set ys" | "tier \<in> set ns" by auto
    then show ?thesis
      using "1.IH"(1) [OF split(1) _ split(2)] "1.IH"(2) [OF split(1) _ split(2,3)] by cases auto
  next
    case (leaf ts)
    with "1.prems"(2) show ?thesis by (simp add: time_tier_path)
  qed
qed (auto simp: time_tier_def split: if_splits option.splits)

lemma timeTierBranches_exclusive:
  "timeTierBranches src n path = Inr (Some tiers) \<Longrightarrow> a \<in> set tiers \<Longrightarrow> b \<in> set tiers
    \<Longrightarrow> taken intl compiled t (tm_conditions a) \<Longrightarrow> taken intl compiled t (tm_conditions b)
    \<Longrightarrow> tm_conditions a = tm_conditions b"
proof (induction src n path arbitrary: tiers rule: timeTierBranches.induct)
  case (1 src c y n s e path)
  from "1.prems"(1) show ?case
  proof (cases rule: timeTierBranches_ConditionalE)
    case (split ys ns)
    have decided: "evaluateBillingCondition intl compiled c t = Some (d \<in> set ys)"
      if "d \<in> set tiers" "taken intl compiled t (tm_conditions d)" for d
    proof (cases "d \<in> set ys")
      case True
      from timeTierBranches_extends [OF split(2) this] this that(2) show ?thesis by (auto simp: taken_def)
    next
      case False
      with that split(4) have "d \<in> set ns" by auto
      from timeTierBranches_extends [OF split(3) this] that(2) False show ?thesis by (auto simp: taken_def)
    qed
    from decided [OF "1.prems"(2,4)] decided [OF "1.prems"(3,5)] have "a \<in> set ys \<longleftrightarrow> b \<in> set ys" by simp
    then show ?thesis
      using "1.IH"(1) [OF split(1) _ split(2)] "1.IH"(2) [OF split(1) _ split(2,3)] "1.prems"(2-5) split(4)
      by auto
  next
    case (leaf ts)
    with "1.prems"(2,3) show ?thesis by (simp add: time_tier_path)
  qed
qed (auto simp: time_tier_def split: option.splits if_splits)

lemma timeTierBranches_total: "node_depth n \<le> 256 \<Longrightarrow> timeTierBranches src n path \<noteq> Inl err"
proof (induction src n path rule: timeTierBranches.induct)
  case (1 src c y n s e path)
  have "node_depth m \<le> 256" if "m \<in> {c, y, n}" for m
    using "1.prems" node_depth_subnode [of m "Conditional c y n s e"]
      child_in_postorder [of m "Conditional c y n s e"] that by auto
  then have d: "node_depth c \<le> 256" "node_depth y \<le> 256" "node_depth n \<le> 256" by simp_all
  from expressionDependencies_total [OF d(1)] obtain vs fs where "expressionDependencies c = Inr (vs, fs)" .
  then obtain b where b: "isTimeCondition c = Inr b" by (simp add: isTimeCondition_def)
  show ?case
  proof (cases b)
    case True
    with b d "1.IH"(1) [OF b True d(2)] "1.IH"(2) [OF b True _ d(3)] show ?thesis
      by (auto simp: andThen_Inl_iff)
  next
    case False
    with b show ?thesis by simp
  qed
qed simp_all

text \<open>
  Reading time-dependent pricing never throws, and the tiers it reports as active at an instant are
  exactly those whose every time condition has the value their branch requires; all of them lie on one
  and the same, non-empty, path of time conditions.
\<close>

theorem active_time_tiers:
  "(\<nexists>err. readTimeTokenPricing intl src now = Inl err)
   \<and> (\<forall>tiers active t compiled. compile_source src = Ready compiled
        \<longrightarrow> readTimeTokenPricing intl src (Some t) = Inr (Some (tiers, active))
        \<longrightarrow> active = filter (\<lambda>tier. taken intl compiled t (tm_conditions tier)) tiers
          \<and> (\<forall>a \<in> set active. \<forall>b \<in> set active.
                tm_conditions a = tm_conditions b \<and> tm_conditions a \<noteq> []))"
proof (intro conjI allI impI)
  have "node_depth (c_ast compiled) \<le> 256" if "compile_source src = Ready compiled" for compiled
    using that compile_ready_facts(3) by (simp add: compile_source_Ready)
  then show "\<nexists>err. readTimeTokenPricing intl src now = Inl err"
    by (auto simp: readTimeTokenPricing_def andThen_Inl_iff timeTierBranches_total split: CompilationResult.splits)
next
  fix tiers active t compiled
  assume compiled: "compile_source src = Ready compiled"
    and read: "readTimeTokenPricing intl src (Some t) = Inr (Some (tiers, active))"
  then have b: "timeTierBranches (c_source compiled) (c_ast compiled) [] = Inr (Some tiers)"
    by (auto simp: readTimeTokenPricing_def split: option.splits)
  from read compiled b show active: "active = filter (\<lambda>tier. taken intl compiled t (tm_conditions tier)) tiers"
    by (simp add: readTimeTokenPricing_def taken_def)
  show "\<forall>a \<in> set active. \<forall>b \<in> set active. tm_conditions a = tm_conditions b \<and> tm_conditions a \<noteq> []"
    using timeTierBranches_exclusive [OF b] timeTierBranches_extends [OF b] by (auto simp: active)
qed

definition timed_source :: jstr where
  "timed_source = js ''hour(\"UTC\") < 12 ? tier(\"am\", p * 1) : tier(\"pm\", p * 2)''"

theorem active_time_tiers_witness:
  "\<exists>compiled tiers active. compile_source timed_source = Ready compiled
     \<and> readTimeTokenPricing sample_intl timed_source (Some (num 0)) = Inr (Some (tiers, active))
     \<and> length tiers = 2 \<and> length active = 1
     \<and> active = filter (\<lambda>tier. taken sample_intl compiled (num 0) (tm_conditions tier)) tiers"
proof -
  have "(case (compile_source timed_source, readTimeTokenPricing sample_intl timed_source (Some (num 0))) of
      (Ready c, Inr (Some (tiers, active))) \<Rightarrow> length tiers = 2 \<and> length active = 1 | _ \<Rightarrow> False)"
    by code_simp
  then obtain compiled tiers active where r: "compile_source timed_source = Ready compiled"
    "readTimeTokenPricing sample_intl timed_source (Some (num 0)) = Inr (Some (tiers, active))"
    "length tiers = 2" "length active = 1"
    by (auto split: CompilationResult.splits sum.splits option.splits)
  with active_time_tiers [of sample_intl timed_source None] show ?thesis by blast
qed

section \<open>Task tiers\<close>

text \<open>
  C18: Every tier read from a task expression is grounded in the usage schema: its prices are
  non-negative, one for each of distinct number fields that have a unit; its constant is non-negative; its
  conditions are on fields of the schema, with declared values.
\<close>

theorem task_tiers_grounded:
  assumes "readTaskTierChain n schema includeBoolean = Some tiers"
  shows "\<forall>tier \<in> set tiers.
      distinct (map fst (kt_unitPrices tier)) \<and> kt_unitPrices tier \<noteq> []
    \<and> (\<forall>(field, x) \<in> set (kt_unitPrices tier). js_le (num 0) x
         \<and> (\<exists>d. map_of schema field = Some d \<and> is_number_field d \<and> field_unit d \<noteq> None))
    \<and> js_le (num 0) (kt_constant tier)
    \<and> (\<forall>c \<in> set (kt_conditions tier). declared_condition schema c)"
  using readTaskTierChain_grounded [OF assms]
  by (auto simp: list_all_iff grounded_tier_def grounded_prices_def schema_field_def)

definition task_schema :: BillingUsageSchema where
  "task_schema =
     [(js ''mode'', \<lparr>uf_type = Some (js ''string''), uf_unit = None,
        uf_enum = Some [js ''pro'', js ''std'']\<rparr>),
      (js ''seconds'', \<lparr>uf_type = Some (js ''number''), uf_unit = Some (js ''second''), uf_enum = None\<rparr>)]"

definition task_source :: jstr where
  "task_source = js ''u(\"mode\") == \"pro\" ? tier(\"pro\", u(\"seconds\") * 2 + 1) : tier(\"std\", u(\"seconds\") * 1)''"

theorem task_tiers_grounded_witness:
  "\<exists>compiled tiers. compile_source task_source = Ready compiled
     \<and> readTaskTierChain (c_ast compiled) task_schema False = Some tiers \<and> length tiers = 2
     \<and> (\<forall>tier \<in> set tiers. js_le (num 0) (kt_constant tier) \<and> kt_unitPrices tier \<noteq> [])"
proof -
  have "(case compile_source task_source of
      Ready c \<Rightarrow> (case readTaskTierChain (c_ast c) task_schema False of
        Some tiers \<Rightarrow> length tiers = 2 | None \<Rightarrow> False)
    | Failed f \<Rightarrow> False)" by code_simp
  then obtain compiled tiers where "compile_source task_source = Ready compiled"
    and t: "readTaskTierChain (c_ast compiled) task_schema False = Some tiers" "length tiers = 2"
    by (auto split: CompilationResult.splits option.splits)
  with task_tiers_grounded [OF t(1)] show ?thesis by blast
qed

section \<open>The visual document\<close>

text \<open>
  C19: Lossless editing. Where the number literals of an expression have canonical texts that read back,
  a visual document parsed from it keeps the source, and serializing the unedited document gives that
  source back, white space, labels and price order included.
\<close>

theorem visual_document_lossless:
  assumes "parseVisualBillingDocument intl src = Some doc"
    and "numbers_read_back src"
  shows "vd_source doc = src \<and> serializeVisualBillingDocument intl doc = Serialized src"
  using assms by (rule serialize_parsed)

lemma numbers_read_back_code:
  "numbers_read_back src \<longleftrightarrow>
     (case parse src of
        Inl err \<Rightarrow> True
      | Inr n \<Rightarrow> list_all (\<lambda>m. case m of
            Literal (LNum x) _ _ _ \<Rightarrow>
              (case parseNonNegativeNumber (js_num_string x) of None \<Rightarrow> True | Some y \<Rightarrow> js_num_eq y x)
          | _ \<Rightarrow> True) (postorder n))"
proof -
  have "(case m of Literal (LNum x) _ _ _ \<Rightarrow>
         (case parseNonNegativeNumber (js_num_string x) of None \<Rightarrow> True | Some y \<Rightarrow> js_num_eq y x)
       | _ \<Rightarrow> True) \<longleftrightarrow> (\<forall>x i s e. m = Literal (LNum x) i s e \<longrightarrow> reads_back x)" for m
    by (auto simp: reads_back_def split: ExpressionNode.split literal.split option.split)
  then show ?thesis by (simp add: numbers_read_back_def list_all_iff split: sum.split) blast
qed

definition visual_source :: jstr where
  "visual_source = js '' ( p<0.50 && !(hour( \"UTC\") >= 12) )  ? tier(\"small\",  p*1 + c * 2) : tier( \"big\" , fixed(0.50))''"

theorem visual_document_lossless_witness:
  "\<exists>doc. parseVisualBillingDocument sample_intl visual_source = Some doc
     \<and> serializeVisualBillingDocument sample_intl doc = Serialized visual_source"
proof -
  have "numbers_read_back visual_source" unfolding numbers_read_back_code by code_simp
  moreover have "(case parseVisualBillingDocument sample_intl visual_source of Some d \<Rightarrow> True | None \<Rightarrow> False)"
    by code_simp
  then obtain doc where "parseVisualBillingDocument sample_intl visual_source = Some doc"
    by (auto split: option.splits)
  ultimately show ?thesis using visual_document_lossless by blast
qed

end
