(* ===== verification/TaskDisplay.thy ===== *)
theory TaskDisplay
  imports BillingDisplay "HOL-Library.AList"
begin

text \<open>
  \<open>billing-expression/task-display.ts\<close>: the display rows of conditional task pricing. Categorical usage
  fields are resolved by trying every combination of their declared values, time conditions stay as
  text, and prices are kept as linear forms. The node budget of the source is passed as state.
\<close>

section \<open>Conditions\<close>

record PriceBranch =
  pb_label :: "jstr option"
  pb_constant :: jsnum
  pb_prices :: "(jstr \<times> jsnum) list"
  pb_times :: "(jstr \<times> bool) list"

type_synonym task_facts = "(jstr \<times> literal) list"

record TaskDisplayContext =
  td_source :: jstr
  td_schema :: BillingUsageSchema
  td_facts :: task_facts

definition MAX_DISPLAY_ROWS :: nat where
  "MAX_DISPLAY_ROWS = 128"

text \<open>A condition that is decided, or whose text stays in the row.\<close>

datatype display_value = Decided bool | Symbolic jstr

definition negate_display :: "display_value \<Rightarrow> display_value" where
  "negate_display v =
     (case v of Decided b \<Rightarrow> Decided (\<not> b) | Symbolic s \<Rightarrow> Symbolic (js ''!('' @ s @ js '')''))"

definition connect_display :: "jstr \<Rightarrow> display_value \<Rightarrow> display_value \<Rightarrow> display_value" where
  "connect_display op left right =
     (let shortCircuit = (op = js ''||'') in
      if left = Decided shortCircuit \<or> right = Decided shortCircuit then Decided shortCircuit
      else case (left, right) of
          (Decided _, _) \<Rightarrow> right
        | (_, Decided _) \<Rightarrow> left
        | (Symbolic s, Symbolic t) \<Rightarrow>
            Symbolic (js ''('' @ s @ js '') '' @ op @ js '' ('' @ t @ js '')''))"

text \<open>\<open>u("field")\<close> compared with a literal.\<close>

definition fact_probe :: "ExpressionNode \<Rightarrow> ExpressionNode \<Rightarrow> (jstr \<times> literal) option" where
  "fact_probe probe literal =
     (case (usage_field probe, literal) of (Some key, Literal v _ _ _) \<Rightarrow> Some (key, v) | _ \<Rightarrow> None)"

text \<open>A fact without a schema entry does not occur: the facts are built from the schema.\<close>

definition resolve_fact :: "TaskDisplayContext \<Rightarrow> jstr \<Rightarrow> jstr \<times> literal \<Rightarrow> display_value option" where
  "resolve_fact context op probe =
     (case probe of (key, v) \<Rightarrow>
        (case (map_of (td_facts context) key, map_of (td_schema context) key) of
           (Some known, Some d) \<Rightarrow>
             let equal = Decided (if op = js ''=='' then known = v else known \<noteq> v) in
             if is_boolean_field d then (case v of LBool _ \<Rightarrow> Some equal | _ \<Rightarrow> None)
             else (case v of
                 LStr s \<Rightarrow>
                   if (case uf_enum d of None \<Rightarrow> False | Some values \<Rightarrow> s \<in> set values) then Some equal
                   else Some (Decided (op = js ''!=''))
               | _ \<Rightarrow> None)
         | _ \<Rightarrow> None))"

definition is_call :: "ExpressionNode \<Rightarrow> bool" where
  "is_call node = (case node of Call _ _ _ _ \<Rightarrow> True | _ \<Rightarrow> False)"

fun is_time_part :: "ExpressionNode \<Rightarrow> bool" where
  "is_time_part (Literal (LNum x) _ _ _) = True"
| "is_time_part (Call f (Literal (LStr zone) _ _ _ # _) _ _) =
     (f \<in> set TIME_FUNCTIONS \<and> trim zone \<noteq> js ''Local'')"
| "is_time_part _ = False"

definition compare_display ::
  "TaskDisplayContext \<Rightarrow> jstr \<Rightarrow> ExpressionNode \<Rightarrow> ExpressionNode \<Rightarrow> nat \<Rightarrow> nat \<Rightarrow> display_value option" where
  "compare_display context op l r s e =
     (let probe = (if op \<noteq> js ''=='' \<and> op \<noteq> js ''!='' then None
                   else case fact_probe l r of Some p \<Rightarrow> Some p | None \<Rightarrow> fact_probe r l)
      in case probe of
           Some p \<Rightarrow> resolve_fact context op p
         | None \<Rightarrow>
             if op \<in> COMPARISON \<and> (is_call l \<or> is_call r) \<and> is_time_part l \<and> is_time_part r
             then Some (Symbolic (slice (td_source context) s e)) else None)"

function taskDisplayCondition ::
  "TaskDisplayContext \<Rightarrow> ExpressionNode \<Rightarrow> int \<Rightarrow> display_value option \<times> int" where
  "taskDisplayCondition context node budget =
     (let budget = budget - 1 in
      if budget < 0 then (None, budget)
      else case node of
          Literal (LBool b) _ _ _ \<Rightarrow> (Some (Decided b), budget)
        | Unary op x _ _ \<Rightarrow>
            if op \<noteq> js ''!'' then (None, budget)
            else (let (v, budget) = taskDisplayCondition context x budget
                  in (map_option negate_display v, budget))
        | Binary op l r s e \<Rightarrow>
            if op \<in> LOGICAL then
              (let (left, budget) = taskDisplayCondition context l budget;
                   (right, budget) = taskDisplayCondition context r budget
               in (case (left, right) of
                     (Some a, Some b) \<Rightarrow> Some (connect_display op a b)
                   | _ \<Rightarrow> None, budget))
            else (compare_display context op l r s e, budget)
        | _ \<Rightarrow> (None, budget))"
  by auto
termination by (relation "measure (\<lambda>(_, n, _). size n)") auto

declare taskDisplayCondition.simps [simp del]

section \<open>Price branches\<close>

text \<open>\<open>new Map([...a, ...b])\<close>: a key keeps its first place and takes its last value.\<close>

definition map_entries :: "('k \<times> 'v) list \<Rightarrow> ('k \<times> 'v) list \<Rightarrow> ('k \<times> 'v) list" where
  "map_entries a b = fold (\<lambda>(k, v). AList.update k v) b a"

definition price_or_zero :: "(jstr \<times> jsnum) list \<Rightarrow> jstr \<Rightarrow> jsnum" where
  "price_or_zero prices field = (case map_of prices field of None \<Rightarrow> num 0 | Some x \<Rightarrow> x)"

definition add_prices :: "(jstr \<times> jsnum) list \<Rightarrow> (jstr \<times> jsnum) list \<Rightarrow> (jstr \<times> jsnum) list" where
  "add_prices a b =
     map (\<lambda>field. (field, js_add (price_or_zero a field) (price_or_zero b field)))
       (fold set_add (map fst a @ map fst b) [])"

text \<open>The constant and the prices of a combination; \<open>None\<close> where the form is not linear.\<close>

definition combine_prices ::
  "jstr \<Rightarrow> PriceBranch \<Rightarrow> PriceBranch \<Rightarrow> (jsnum \<times> (jstr \<times> jsnum) list) option" where
  "combine_prices op a b =
     (let aQuantity = (pb_prices a \<noteq> []); bQuantity = (pb_prices b \<noteq> []) in
      if op = js ''+'' then
        Some (js_add (pb_constant a) (pb_constant b), add_prices (pb_prices a) (pb_prices b))
      else if (aQuantity \<and> bQuantity)
          \<or> (op = js ''/'' \<and> (bQuantity \<or> js_le (pb_constant b) (num 0))) then None
      else
        let quantity = (if aQuantity then a else b);
            factor = (if op = js ''/'' then js_div (num 1) (pb_constant b)
                      else if aQuantity then pb_constant b else pb_constant a);
            constant = (if op = js ''/'' then js_div (pb_constant a) (pb_constant b)
                        else js_mul (pb_constant a) (pb_constant b))
        in Some (constant, map (\<lambda>(field, price). (field, js_mul price factor)) (pb_prices quantity)))"

definition valid_amount :: "jsnum \<Rightarrow> bool" where
  "valid_amount x \<longleftrightarrow> isFinite x \<and> js_le (num 0) x"

definition times_conflict :: "(jstr \<times> bool) list \<Rightarrow> (jstr \<times> bool) list \<Rightarrow> bool" where
  "times_conflict a b = list_ex (\<lambda>(key, value). hasOwn b key \<and> map_of b key \<noteq> Some value) a"

text \<open>One pair of branches: rejected (\<open>Reject\<close>, a \<open>return null\<close>), skipped, or combined.\<close>

datatype pairing = Reject | Skip | Combined PriceBranch

definition combine_branches :: "jstr \<Rightarrow> PriceBranch \<Rightarrow> PriceBranch \<Rightarrow> pairing" where
  "combine_branches op a b =
     (if pb_label a \<noteq> None \<and> pb_label b \<noteq> None then Reject
      else if times_conflict (pb_times a) (pb_times b) then Skip
      else case combine_prices op a b of
          None \<Rightarrow> Reject
        | Some (constant, prices) \<Rightarrow>
            if list_all valid_amount (constant # map snd prices) then
              Combined \<lparr>pb_label = (case pb_label a of Some l \<Rightarrow> Some l | None \<Rightarrow> pb_label b),
                        pb_constant = constant, pb_prices = prices,
                        pb_times = map_entries (pb_times a) (pb_times b)\<rparr>
            else Reject)"

fun collect_pairings :: "pairing list \<Rightarrow> PriceBranch list option" where
  "collect_pairings [] = Some []"
| "collect_pairings (Reject # ps) = None"
| "collect_pairings (Skip # ps) = collect_pairings ps"
| "collect_pairings (Combined b # ps) = map_option (\<lambda>bs. b # bs) (collect_pairings ps)"

definition combine_all ::
  "jstr \<Rightarrow> PriceBranch list \<Rightarrow> PriceBranch list \<Rightarrow> PriceBranch list option" where
  "combine_all op left right =
     (if length left * length right > MAX_DISPLAY_ROWS then None
      else collect_pairings (concat (map (\<lambda>a. map (combine_branches op a) right) left)))"

text \<open>The branches of one side of a condition that stays as text.\<close>

definition decide_branches :: "jstr \<Rightarrow> bool \<Rightarrow> PriceBranch list \<Rightarrow> PriceBranch list" where
  "decide_branches condition matches kids =
     map (\<lambda>child. child\<lparr>pb_times := map_entries [(condition, matches)] (pb_times child)\<rparr>)
       (filter (\<lambda>child. \<not> (hasOwn (pb_times child) condition
                          \<and> map_of (pb_times child) condition \<noteq> Some matches)) kids)"

definition usage_branch :: "BillingUsageSchema \<Rightarrow> jstr \<Rightarrow> PriceBranch list option" where
  "usage_branch schema field =
     (case map_of schema field of
        None \<Rightarrow> None
      | Some d \<Rightarrow>
          if is_number_field d \<and> field_unit d \<noteq> None
          then Some [\<lparr>pb_label = None, pb_constant = num 0, pb_prices = [(field, num 1)], pb_times = []\<rparr>]
          else None)"

definition label_branches :: "jstr \<Rightarrow> PriceBranch list \<Rightarrow> PriceBranch list option" where
  "label_branches label branches =
     (if list_ex (\<lambda>b. pb_label b \<noteq> None) branches then None
      else Some (map (\<lambda>b. b\<lparr>pb_label := Some label\<rparr>) branches))"

function taskPriceBranches ::
  "TaskDisplayContext \<Rightarrow> ExpressionNode \<Rightarrow> int \<Rightarrow> PriceBranch list option \<times> int" where
  "taskPriceBranches context node budget =
     (let budget = budget - 1 in
      if budget < 0 then (None, budget)
      else case node of
          Literal (LNum x) _ _ _ \<Rightarrow>
            (if js_le (num 0) x
             then Some [\<lparr>pb_label = None, pb_constant = x, pb_prices = [], pb_times = []\<rparr>] else None, budget)
        | Call f args _ _ \<Rightarrow>
            (case usage_field node of
               Some field \<Rightarrow> (usage_branch (td_schema context) field, budget)
             | None \<Rightarrow>
                 (case args of
                    Literal (LStr label) _ _ _ # body # _ \<Rightarrow>
                      if f \<noteq> js ''tier'' then (None, budget)
                      else (let (branches, budget) = taskPriceBranches context body budget
                            in (case branches of None \<Rightarrow> None | Some bs \<Rightarrow> label_branches label bs, budget))
                  | _ \<Rightarrow> (None, budget)))
        | Conditional c y n _ _ \<Rightarrow>
            (let (condition, budget) = taskDisplayCondition context c budget in
             case condition of
               None \<Rightarrow> (None, budget)
             | Some (Decided b) \<Rightarrow> if b then taskPriceBranches context y budget else taskPriceBranches context n budget
             | Some (Symbolic t) \<Rightarrow>
                 (case taskPriceBranches context y budget of
                    (None, budget) \<Rightarrow> (None, budget)
                  | (Some ys, budget) \<Rightarrow>
                      (case taskPriceBranches context n budget of
                         (None, budget) \<Rightarrow> (None, budget)
                       | (Some ns, budget) \<Rightarrow>
                           let branches = decide_branches t True ys @ decide_branches t False ns in
                           (if length branches \<le> MAX_DISPLAY_ROWS then Some branches else None, budget))))
        | Binary op l r _ _ \<Rightarrow>
            if op \<notin> {js ''+'', js ''*'', js ''/''} then (None, budget)
            else (let (left, budget) = taskPriceBranches context l budget;
                      (right, budget) = taskPriceBranches context r budget
                  in (case (left, right) of
                        (Some ls, Some rs) \<Rightarrow> combine_all op ls rs
                      | _ \<Rightarrow> None, budget))
        | _ \<Rightarrow> (None, budget))"
  by auto
termination by (relation "measure (\<lambda>(_, n, _). size n)") auto

declare taskPriceBranches.simps [simp del]

section \<open>Rows\<close>

text \<open>The fields an expression reads, and whether each is a declared literal name.\<close>

definition task_field_visitor :: "BillingUsageSchema \<Rightarrow> (bool \<times> jstr list) visitor" where
  "task_field_visitor schema node s =
     (case s of (valid, keys) \<Rightarrow>
        Inr (case node of
               Call f args _ _ \<Rightarrow>
                 if f \<noteq> js ''u'' then (valid, keys)
                 else (case usage_field node of
                     None \<Rightarrow> (False, keys)
                   | Some key \<Rightarrow>
                       if hasOwn schema key then (valid, set_add key keys) else (False, keys))
             | _ \<Rightarrow> (valid, keys)))"

definition declared_values :: "BillingUsageField \<Rightarrow> literal list" where
  "declared_values d =
     (if is_boolean_field d then [LBool False, LBool True]
      else case uf_enum d of None \<Rightarrow> [] | Some values \<Rightarrow> map LStr values)"

fun task_combinations ::
  "BillingUsageSchema \<Rightarrow> task_facts list \<Rightarrow> jstr list \<Rightarrow> task_facts list option" where
  "task_combinations schema combinations [] = Some combinations"
| "task_combinations schema combinations (field # keys) =
     (case map_of schema field of
        None \<Rightarrow> None
      | Some d \<Rightarrow>
          if is_number_field d then task_combinations schema combinations keys
          else let values = declared_values d in
            if values = [] \<or> length combinations * length values > MAX_DISPLAY_ROWS then None
            else task_combinations schema
                   (concat (map (\<lambda>facts. map (\<lambda>v. facts @ [(field, v)]) values) combinations)) keys)"

definition row_unit_prices ::
  "BillingUsageSchema \<Rightarrow> jstr list \<Rightarrow> PriceBranch \<Rightarrow> (jstr \<times> jsnum) list" where
  "row_unit_prices schema keys branch =
     concat (map (\<lambda>field.
       case map_of schema field of
         None \<Rightarrow> []
       | Some d \<Rightarrow>
           if is_number_field d \<and> field_unit d \<noteq> None
           then [(field, js_mul (price_or_zero (pb_prices branch) field)
                   (if field_unit d = Some (js ''token'') then num 1000000 else num 1))]
           else []) keys)"

definition times_text :: "(jstr \<times> bool) list \<Rightarrow> jstr" where
  "times_text decisions =
     join (js '' && '') (map (\<lambda>(condition, matches).
       (if matches then js ''('' else js ''!('') @ condition @ js '')'') decisions)"

definition task_row ::
  "BillingUsageSchema \<Rightarrow> jstr list \<Rightarrow> task_facts \<Rightarrow> PriceBranch \<Rightarrow> TaskTier option" where
  "task_row schema keys facts branch =
     (case pb_label branch of
        None \<Rightarrow> None
      | Some label \<Rightarrow>
          let unitPrices = row_unit_prices schema keys branch; conditions = times_text (pb_times branch) in
          if unitPrices = [] \<or> \<not> list_all isFinite (map snd unitPrices) then None
          else Some \<lparr>kt_conditionText = (if conditions = [] then None else Some conditions),
                     kt_label = label, kt_conditions = map (\<lambda>(field, v). (field, literal_text v)) facts,
                     kt_constant = pb_constant branch, kt_unitPrices = unitPrices\<rparr>)"

fun task_rows ::
  "jstr \<Rightarrow> BillingUsageSchema \<Rightarrow> ExpressionNode \<Rightarrow> jstr list \<Rightarrow> task_facts list \<Rightarrow> int \<Rightarrow> TaskTier list
    \<Rightarrow> TaskTier list option" where
  "task_rows src schema ast keys [] budget tiers = Some tiers"
| "task_rows src schema ast keys (facts # rest) budget tiers =
     (case taskPriceBranches \<lparr>td_source = src, td_schema = schema, td_facts = facts\<rparr> ast budget of
        (None, budget) \<Rightarrow> None
      | (Some branches, budget) \<Rightarrow>
          if length tiers + length branches > MAX_DISPLAY_ROWS then None
          else (case all_some (map (task_row schema keys facts) branches) of
              None \<Rightarrow> None
            | Some rows \<Rightarrow> task_rows src schema ast keys rest budget (tiers @ rows)))"

definition readConditionalTaskPricing ::
  "jstr \<Rightarrow> BillingUsageSchema \<Rightarrow> thrown + TaskTier list option" where
  "readConditionalTaskPricing src schema =
     (case compile_source src of
        Failed f \<Rightarrow> Inr None
      | Ready compiled \<Rightarrow>
          andThen (visitExpression (c_ast compiled) (task_field_visitor schema) (True, [])) (\<lambda>(valid, keys).
            Inr (if \<not> valid then None
                 else case task_combinations schema [[]] keys of
                     None \<Rightarrow> None
                   | Some combinations \<Rightarrow> task_rows src schema (c_ast compiled) keys combinations 20000 [])))"

section \<open>What the readers accept\<close>

text \<open>
  The conditions and prices the two readers accept, as rules without the budget. The budget only makes a
  reader give up: what it returns is what the rules derive.
\<close>

inductive displays :: "TaskDisplayContext \<Rightarrow> ExpressionNode \<Rightarrow> display_value \<Rightarrow> bool" for cx where
  literal: "displays cx (Literal (LBool b) i s e) (Decided b)"
| not: "displays cx x v \<Longrightarrow> displays cx (Unary (js ''!'') x s e) (negate_display v)"
| connect: "op \<in> LOGICAL \<Longrightarrow> displays cx l v \<Longrightarrow> displays cx r w
    \<Longrightarrow> displays cx (Binary op l r s e) (connect_display op v w)"
| compare: "op \<notin> LOGICAL \<Longrightarrow> compare_display cx op l r s e = Some v \<Longrightarrow> displays cx (Binary op l r s e) v"

inductive prices :: "TaskDisplayContext \<Rightarrow> ExpressionNode \<Rightarrow> PriceBranch list \<Rightarrow> bool" for cx where
  amount: "js_le (num 0) x \<Longrightarrow> prices cx (Literal (LNum x) i s e)
     [\<lparr>pb_label = None, pb_constant = x, pb_prices = [], pb_times = []\<rparr>]"
| usage: "usage_field (Call f args s e) = Some field \<Longrightarrow> usage_branch (td_schema cx) field = Some bs
    \<Longrightarrow> prices cx (Call f args s e) bs"
| tier: "prices cx body bs \<Longrightarrow> label_branches label bs = Some bs'
    \<Longrightarrow> prices cx (Call (js ''tier'') (Literal (LStr label) i s1 e1 # body # rest) s e) bs'"
| decided: "displays cx c (Decided b) \<Longrightarrow> prices cx (if b then y else n) bs
    \<Longrightarrow> prices cx (Conditional c y n s e) bs"
| symbolic: "displays cx c (Symbolic t) \<Longrightarrow> prices cx y ys \<Longrightarrow> prices cx n ns
    \<Longrightarrow> bs = decide_branches t True ys @ decide_branches t False ns \<Longrightarrow> length bs \<le> MAX_DISPLAY_ROWS
    \<Longrightarrow> prices cx (Conditional c y n s e) bs"
| combine: "op \<in> {js ''+'', js ''*'', js ''/''} \<Longrightarrow> prices cx l ls \<Longrightarrow> prices cx r rs
    \<Longrightarrow> combine_all op ls rs = Some bs \<Longrightarrow> prices cx (Binary op l r s e) bs"

lemma taskDisplayCondition_displays:
  "taskDisplayCondition cx n k = (Some v, k') \<Longrightarrow> displays cx n v"
proof (induction n arbitrary: k v k')
  case (Literal x i s e)
  then show ?case
    by (cases x) (auto simp: taskDisplayCondition.simps [of cx "Literal _ _ _ _"] Let_def
        intro: displays.literal split: if_splits)
next
  case (Unary op x s e)
  from Unary.prems obtain w k1 where "op = js ''!''" "taskDisplayCondition cx x (k - 1) = (Some w, k1)"
    "v = negate_display w"
    by (auto simp: taskDisplayCondition.simps [of cx "Unary _ _ _ _"] Let_def split: if_splits prod.splits)
  with Unary.IH show ?case by (auto intro: displays.not)
next
  case (Binary op l r s e)
  show ?case
  proof (cases "op \<in> LOGICAL")
    case True
    with Binary.prems obtain a b k1 k2 where "taskDisplayCondition cx l (k - 1) = (Some a, k1)"
      "taskDisplayCondition cx r k1 = (Some b, k2)" "v = connect_display op a b"
      by (auto simp: taskDisplayCondition.simps [of cx "Binary _ _ _ _ _"] Let_def
          split: if_splits prod.splits option.splits)
    with Binary.IH True show ?thesis by (auto intro: displays.connect)
  next
    case False
    with Binary.prems show ?thesis
      by (auto simp: taskDisplayCondition.simps [of cx "Binary _ _ _ _ _"] Let_def
          intro: displays.compare split: if_splits)
  qed
qed (auto simp: taskDisplayCondition.simps [of cx "Variable _ _ _"] taskDisplayCondition.simps [of cx "Call _ _ _ _"]
    taskDisplayCondition.simps [of cx "Conditional _ _ _ _ _"] Let_def split: if_splits)

text \<open>With a budget of one unit per node, a condition the rules accept is read.\<close>

lemma displays_taskDisplayCondition:
  "displays cx n v \<Longrightarrow> int (length (postorder n)) \<le> k \<Longrightarrow>
     \<exists>k'. taskDisplayCondition cx n k = (Some v, k') \<and> k - int (length (postorder n)) \<le> k'"
proof (induction arbitrary: k rule: displays.induct)
  case (literal b i s e)
  then show ?case by (simp add: taskDisplayCondition.simps [of cx "Literal _ _ _ _"] postorder.simps)
next
  case (not x v s e)
  have len: "length (postorder (Unary (js ''!'') x s e)) = Suc (length (postorder x))"
    by (simp add: postorder.simps [of "Unary _ _ _ _"])
  with not.prems not.IH [of "k - 1"] obtain k' where "taskDisplayCondition cx x (k - 1) = (Some v, k')"
    "k - 1 - int (length (postorder x)) \<le> k'" by auto
  with len not.prems show ?case by (simp add: taskDisplayCondition.simps [of cx "Unary _ _ _ _"])
next
  case (connect op l v r w s e)
  have len: "length (postorder (Binary op l r s e)) = Suc (length (postorder l) + length (postorder r))"
    by (simp add: postorder.simps [of "Binary _ _ _ _ _"])
  with connect.prems connect.IH(1) [of "k - 1"] obtain k1 where
    1: "taskDisplayCondition cx l (k - 1) = (Some v, k1)" "k - 1 - int (length (postorder l)) \<le> k1" by auto
  with len connect.prems connect.IH(2) [of k1] obtain k2 where
    2: "taskDisplayCondition cx r k1 = (Some w, k2)" "k1 - int (length (postorder r)) \<le> k2" by auto
  with 1 len connect.prems connect.hyps(1) show ?case
    by (simp add: taskDisplayCondition.simps [of cx "Binary _ _ _ _ _"])
next
  case (compare op l r s e v)
  then show ?case
    by (simp add: taskDisplayCondition.simps [of cx "Binary _ _ _ _ _"] postorder.simps [of "Binary _ _ _ _ _"])
qed

lemma taskPriceBranches_prices:
  "taskPriceBranches cx n k = (Some bs, k') \<Longrightarrow> prices cx n bs"
proof (induction n arbitrary: k bs k')
  case (Literal x i s e)
  then show ?case
    by (cases x) (auto simp: taskPriceBranches.simps [of cx "Literal _ _ _ _"] Let_def
        intro: prices.amount split: if_splits)
next
  case (Call f args s e)
  note unfold = taskPriceBranches.simps [of cx "Call f args s e" k]
  show ?case
  proof (cases "usage_field (Call f args s e)")
    case (Some field)
    with Call.prems show ?thesis by (auto simp: unfold Let_def intro: prices.usage split: if_splits)
  next
    case None
    with Call.prems obtain label i s1 e1 body rest k1 bs1 where a: "args = Literal (LStr label) i s1 e1 # body # rest"
      and f: "f = js ''tier''" and b: "taskPriceBranches cx body (k - 1) = (Some bs1, k1)"
      and l: "label_branches label bs1 = Some bs"
      by (auto simp: unfold Let_def
          split: if_splits list.splits ExpressionNode.splits literal.splits prod.splits option.splits)
    from Call.IH [OF _ b] a f l show ?thesis by (auto intro: prices.tier)
  qed
next
  case (Binary op l r s e)
  from Binary.prems obtain ls rs k1 k2 where "op \<in> {js ''+'', js ''*'', js ''/''}"
    "taskPriceBranches cx l (k - 1) = (Some ls, k1)" "taskPriceBranches cx r k1 = (Some rs, k2)"
    "combine_all op ls rs = Some bs"
    by (auto simp: taskPriceBranches.simps [of cx "Binary _ _ _ _ _"] Let_def
        split: if_splits prod.splits option.splits)
  with Binary.IH show ?case by (blast intro: prices.combine)
next
  case (Conditional c y n s e)
  from Conditional.prems obtain v k1 where v: "taskDisplayCondition cx c (k - 1) = (Some v, k1)"
    by (auto simp: taskPriceBranches.simps [of cx "Conditional _ _ _ _ _"] Let_def
        split: if_splits prod.splits option.splits)
  note d = taskDisplayCondition_displays [OF v]
  show ?case
  proof (cases v)
    case (Decided b)
    with Conditional v d show ?thesis
      by (auto simp: taskPriceBranches.simps [of cx "Conditional _ _ _ _ _"] Let_def
          intro!: prices.decided [of cx c b] split: if_splits)
  next
    case (Symbolic t)
    with Conditional.prems v obtain ys ns k2 k3 where "taskPriceBranches cx y k1 = (Some ys, k2)"
      "taskPriceBranches cx n k2 = (Some ns, k3)"
      "bs = decide_branches t True ys @ decide_branches t False ns" "length bs \<le> MAX_DISPLAY_ROWS"
      by (auto simp: taskPriceBranches.simps [of cx "Conditional _ _ _ _ _"] Let_def
          split: if_splits prod.splits option.splits)
    with Conditional.IH d Symbolic show ?thesis by (blast intro: prices.symbolic)
  qed
qed (auto simp: taskPriceBranches.simps [of cx "Variable _ _ _"] taskPriceBranches.simps [of cx "Unary _ _ _ _"]
    Let_def split: if_splits)

section \<open>One branch applies\<close>

text \<open>
  A valuation of the time conditions picks a branch when it agrees with every decision the branch
  records. The branches of an expression are exhaustive and exclude one another.
\<close>

definition applies :: "(jstr \<Rightarrow> bool) \<Rightarrow> PriceBranch \<Rightarrow> bool" where
  "applies val b \<longleftrightarrow> list_all (\<lambda>(condition, matches). val condition = matches) (pb_times b)"

definition distinct_times :: "PriceBranch \<Rightarrow> bool" where
  "distinct_times b \<longleftrightarrow> distinct (map fst (pb_times b))"

lemma map_entries_distinct: "distinct (map fst a) \<Longrightarrow> distinct (map fst (map_entries a b))"
  unfolding map_entries_def by (induction b arbitrary: a) (auto simp: distinct_update)

lemma map_of_map_entries:
  assumes "distinct (map fst b)"
  shows "map_of (map_entries a b) k = (case map_of b k of Some v \<Rightarrow> Some v | None \<Rightarrow> map_of a k)"
proof -
  have "map_of (fold (\<lambda>(k, v). AList.update k v) b a) k
      = (case map_of (rev b) k of Some v \<Rightarrow> Some v | None \<Rightarrow> map_of a k)"
    by (induction b arbitrary: a) (auto simp: update_conv' map_add_def split: option.splits)
  moreover have "map_of (rev b) = map_of b"
    using assms by (simp add: map_of_inject_set rev_map [symmetric])
  ultimately show ?thesis by (simp add: map_entries_def)
qed

lemma applies_map_of:
  "distinct (map fst ts) \<Longrightarrow> list_all (\<lambda>(c, m). val c = m) ts \<longleftrightarrow> (\<forall>c. case map_of ts c of None \<Rightarrow> True | Some m \<Rightarrow> val c = m)"
  by (force simp: list_all_iff dest: map_of_SomeD split: option.splits)

lemma applies_map_entries:
  assumes "distinct (map fst a)" "distinct (map fst b)" "\<not> times_conflict a b"
  shows "list_all (\<lambda>(c, m). val c = m) (map_entries a b)
    \<longleftrightarrow> list_all (\<lambda>(c, m). val c = m) a \<and> list_all (\<lambda>(c, m). val c = m) b"
proof -
  have agree: "map_of a c = Some m \<Longrightarrow> map_of b c = Some m' \<Longrightarrow> m' = m" for c m m'
    using assms(3) by (force simp: times_conflict_def list_ex_iff hasOwn_def dest: map_of_SomeD)
  have "(case map_of (map_entries a b) c of None \<Rightarrow> True | Some m \<Rightarrow> val c = m)
    \<longleftrightarrow> (case map_of a c of None \<Rightarrow> True | Some m \<Rightarrow> val c = m)
      \<and> (case map_of b c of None \<Rightarrow> True | Some m \<Rightarrow> val c = m)" for c
    using agree [of c] by (auto simp: map_of_map_entries [OF assms(2)] split: option.splits)
  then show ?thesis
    by (simp add: applies_map_of assms(1,2) map_entries_distinct [OF assms(1)] all_conj_distrib)
qed

lemma conflicting_never_apply:
  assumes "times_conflict a b" "distinct (map fst b)"
  shows "\<not> (list_all (\<lambda>(c, m). val c = m) a \<and> list_all (\<lambda>(c, m). val c = m) b)"
  using assms by (force simp: times_conflict_def list_ex_iff list_all_iff hasOwn_def)

lemma combine_branches_applies:
  assumes "distinct_times a" "distinct_times b"
  shows "combine_branches op a b = Combined c \<Longrightarrow> distinct_times c \<and> (applies val c \<longleftrightarrow> applies val a \<and> applies val b)"
    and "combine_branches op a b = Skip \<Longrightarrow> \<not> (applies val a \<and> applies val b)"
  using assms applies_map_entries [of "pb_times a" "pb_times b" val]
    conflicting_never_apply [of "pb_times a" "pb_times b" val]
  by (auto simp: combine_branches_def distinct_times_def applies_def map_entries_distinct
      split: if_splits option.splits)

lemma collect_pairings_append:
  "collect_pairings (ps @ qs) = Some bs \<longleftrightarrow>
     (\<exists>xs ys. collect_pairings ps = Some xs \<and> collect_pairings qs = Some ys \<and> bs = xs @ ys)"
  by (induction ps arbitrary: bs rule: collect_pairings.induct) (auto; metis append_Cons)+

lemma collect_row:
  assumes "distinct_times a" "\<forall>b \<in> set bs. distinct_times b"
    and "collect_pairings (map (combine_branches op a) bs) = Some cs"
  shows "length (filter (applies val) cs) = (if applies val a then length (filter (applies val) bs) else 0)
    \<and> (\<forall>c \<in> set cs. distinct_times c)"
  using assms(2,3)
proof (induction bs arbitrary: cs)
  case (Cons b bs)
  note pair = combine_branches_applies [OF assms(1), of b op]
  show ?case
  proof (cases "combine_branches op a b")
    case Reject
    with Cons.prems show ?thesis by simp
  next
    case Skip
    with Cons pair(2) [of val] show ?thesis by auto
  next
    case (Combined c)
    with Cons.prems obtain ds where "collect_pairings (map (combine_branches op a) bs) = Some ds" "cs = c # ds"
      by auto
    with Cons Combined pair(1) [of c val] show ?thesis by auto
  qed
qed simp

lemma collect_product:
  assumes "\<forall>a \<in> set ls. distinct_times a" "\<forall>b \<in> set rs. distinct_times b"
    and "collect_pairings (concat (map (\<lambda>a. map (combine_branches op a) rs) ls)) = Some cs"
  shows "length (filter (applies val) cs) = length (filter (applies val) ls) * length (filter (applies val) rs)
    \<and> (\<forall>c \<in> set cs. distinct_times c)"
  using assms(1,3)
proof (induction ls arbitrary: cs)
  case (Cons a ls)
  then obtain xs ys where x: "collect_pairings (map (combine_branches op a) rs) = Some xs"
    and y: "collect_pairings (concat (map (\<lambda>a. map (combine_branches op a) rs) ls)) = Some ys"
    and cs: "cs = xs @ ys"
    by (auto simp: collect_pairings_append)
  from collect_row [OF _ assms(2) x, of val] Cons.IH [OF _ y] Cons.prems(1) cs show ?case by auto
qed simp

lemma decide_branches_applies:
  assumes "\<forall>b \<in> set bs. distinct_times b"
  shows "length (filter (applies val) (decide_branches t m bs))
      = (if val t = m then length (filter (applies val) bs) else 0)"
    and "\<forall>b \<in> set (decide_branches t m bs). distinct_times b"
proof -
  have entry: "\<not> (hasOwn ts t \<and> map_of ts t \<noteq> Some m) \<and> list_all (\<lambda>(c, m). val c = m) (map_entries [(t, m)] ts)
      \<longleftrightarrow> val t = m \<and> list_all (\<lambda>(c, m). val c = m) ts" if "distinct (map fst ts)" for ts
    using applies_map_entries [of "[(t, m)]" ts val] conflicting_never_apply [of "[(t, m)]" ts val] that
    by (auto simp: times_conflict_def)
  have pointwise: "filter (\<lambda>b. \<not> (hasOwn (pb_times b) t \<and> map_of (pb_times b) t \<noteq> Some m)
        \<and> list_all (\<lambda>(c, m). val c = m) (map_entries [(t, m)] (pb_times b))) bs
      = filter (\<lambda>b. val t = m \<and> applies val b) bs"
    using assms by (intro filter_cong [OF refl]) (simp only: distinct_times_def applies_def entry)
  have "length (filter (applies val) (decide_branches t m bs))
      = length (filter (\<lambda>b. val t = m \<and> applies val b) bs)"
    unfolding pointwise [symmetric]
    by (simp add: decide_branches_def filter_map comp_def applies_def conj_commute)
  then show "length (filter (applies val) (decide_branches t m bs))
      = (if val t = m then length (filter (applies val) bs) else 0)" by simp
  show "\<forall>b \<in> set (decide_branches t m bs). distinct_times b"
    using assms by (auto simp: decide_branches_def distinct_times_def map_entries_distinct)
qed

lemma prices_partition:
  "prices cx n bs \<Longrightarrow> length (filter (applies val) bs) = 1 \<and> (\<forall>b \<in> set bs. distinct_times b)"
proof (induction rule: prices.induct)
  case (usage f args s e field bs)
  then show ?case
    by (auto simp: usage_branch_def applies_def distinct_times_def split: option.splits if_splits)
next
  case (tier body bs label bs')
  then show ?case
    by (auto simp: label_branches_def applies_def distinct_times_def filter_map comp_def split: if_splits)
next
  case (symbolic c t y ys n ns bs)
  then show ?case by (auto simp: decide_branches_applies)
next
  case (combine op l ls r rs bs)
  then show ?case using collect_product [of ls rs op bs val] by (auto simp: combine_all_def split: if_splits)
qed (simp_all add: applies_def distinct_times_def)

section \<open>Rows are bounded and grounded\<close>

lemma round_half_even_nonneg: "0 \<le> x \<Longrightarrow> 0 \<le> round_half_even x"
  by (auto simp: round_half_even_def Let_def)

lemma pow2_pos: "0 < pow2 k"
  by (simp add: pow2_def)

lemma round_mag_nonneg: "0 \<le> r \<Longrightarrow> 0 \<le> round_mag r"
  using pow2_pos [of "ulp_exponent r"]
  by (simp add: round_mag_def round_half_even_nonneg)

lemma fl_nonneg: "0 \<le> r \<Longrightarrow> js_le (num 0) (fl neg r)"
  using round_mag_nonneg [of r] by (auto simp: fl_def js_le_def Let_def)

lemma valid_amount_rat: "valid_amount x \<Longrightarrow> \<exists>r \<ge> 0. rat_of x = Some r \<and> x \<noteq> NaN"
  by (cases x) (auto simp: valid_amount_def js_le_def)

lemma js_mul_nonneg: "valid_amount x \<Longrightarrow> valid_amount y \<Longrightarrow> js_le (num 0) (js_mul x y)"
  by (auto dest!: valid_amount_rat simp: js_mul_def Let_def fl_nonneg)

definition valid_branch :: "BillingUsageSchema \<Rightarrow> PriceBranch \<Rightarrow> bool" where
  "valid_branch schema b \<longleftrightarrow>
     list_all valid_amount (pb_constant b # map snd (pb_prices b))"

lemma collect_pairings_set:
  "collect_pairings ps = Some bs \<Longrightarrow> length bs \<le> length ps \<and> (\<forall>b \<in> set bs. Combined b \<in> set ps)"
  by (induction ps arbitrary: bs rule: collect_pairings.induct) fastforce+

lemma combine_all_bounds:
  assumes "combine_all op ls rs = Some bs"
  shows "length bs \<le> MAX_DISPLAY_ROWS"
    and "\<forall>c \<in> set bs. \<exists>a \<in> set ls. \<exists>b \<in> set rs. combine_branches op a b = Combined c"
proof -
  let ?ps = "concat (map (\<lambda>a. map (combine_branches op a) rs) ls)"
  have c: "collect_pairings ?ps = Some bs" and le: "length ls * length rs \<le> MAX_DISPLAY_ROWS"
    using assms by (auto simp: combine_all_def split: if_splits)
  have "length ?ps = length ls * length rs" by (induction ls) auto
  with collect_pairings_set [OF c] le show "length bs \<le> MAX_DISPLAY_ROWS" by simp
  from collect_pairings_set [OF c]
  show "\<forall>c \<in> set bs. \<exists>a \<in> set ls. \<exists>b \<in> set rs. combine_branches op a b = Combined c" by fastforce
qed

lemma prices_valid:
  "prices cx n bs \<Longrightarrow> well_formed n \<Longrightarrow>
     length bs \<le> MAX_DISPLAY_ROWS \<and> (\<forall>b \<in> set bs. valid_branch (td_schema cx) b)"
proof (induction rule: prices.induct)
  case (amount x i s e)
  then show ?case by (simp add: valid_branch_def valid_amount_def MAX_DISPLAY_ROWS_def)
next
  case (usage f args s e field bs)
  then show ?case
    by (auto simp: usage_branch_def valid_branch_def valid_amount_def js_le_def MAX_DISPLAY_ROWS_def
        split: option.splits if_splits)
next
  case (tier body bs label bs' i s1 e1 rest s e)
  then show ?case by (auto simp: label_branches_def valid_branch_def split: if_splits)
next
  case (symbolic c t y ys n ns bs)
  then show ?case by (auto simp: decide_branches_def valid_branch_def)
next
  case (combine op l ls r rs bs)
  have "valid_branch (td_schema cx) c" if "combine_branches op a b = Combined c" for a b c
    using that by (auto simp: combine_branches_def valid_branch_def split: if_splits option.splits)
  with combine_all_bounds [OF combine.hyps(4)] show ?case by blast
next
  case (decided c b y n bs)
  then show ?case by (cases b) auto
qed

text \<open>The fields of the expression, from the traversal.\<close>

definition fields_of :: "BillingUsageSchema \<Rightarrow> ExpressionNode list \<Rightarrow> bool \<times> jstr list \<Rightarrow> bool" where
  "fields_of schema ns s \<longleftrightarrow> distinct (snd s)
     \<and> set (snd s) = {key. \<exists>n \<in> set ns. usage_field n = Some key \<and> hasOwn schema key}
     \<and> (fst s \<longleftrightarrow> (\<forall>n \<in> set ns. js ''u'' \<in> node_function n \<longrightarrow>
           (\<exists>key. usage_field n = Some key \<and> hasOwn schema key)))"

lemma usage_field_call: "usage_field n = Some key \<Longrightarrow> js ''u'' \<in> node_function n"
  by (cases n rule: usage_field.cases) (auto split: if_splits)

interpretation task_fields: total_visitor "task_field_visitor schema" "fields_of schema" "\<lambda>n. True" "\<lambda>n. True"
  for schema
proof unfold_locales
  fix n ns s s'
  assume "fields_of schema ns s" "task_field_visitor schema n s = Inr s'"
  then show "fields_of schema (ns @ [n]) s'"
    by (cases n; cases s)
      (auto simp: fields_of_def task_field_visitor_def dest: usage_field_call split: if_splits option.splits)
qed (simp add: task_field_visitor_def split: prod.splits)

lemma task_combinations_facts:
  "task_combinations schema combos keys = Some result \<Longrightarrow> facts \<in> set result \<Longrightarrow>
     \<exists>base \<in> set combos. \<exists>more. facts = base @ more
       \<and> map fst more = filter (\<lambda>key. case map_of schema key of Some d \<Rightarrow> \<not> is_number_field d | None \<Rightarrow> True) keys
       \<and> (\<forall>(key, v) \<in> set more. \<exists>d. map_of schema key = Some d \<and> v \<in> set (declared_values d))"
proof (induction schema combos keys arbitrary: result rule: task_combinations.induct)
  case (2 schema combos key keys)
  from "2.prems"(1) obtain d where d: "map_of schema key = Some d" by (auto split: option.splits)
  show ?case
  proof (cases "is_number_field d")
    case True
    with "2.IH"(1) [OF d True] "2.prems" d show ?thesis by simp
  next
    case False
    with "2.prems" d have ok: "\<not> (declared_values d = [] \<or> length combos * length (declared_values d) > MAX_DISPLAY_ROWS)"
      and r: "task_combinations schema
        (concat (map (\<lambda>facts. map (\<lambda>v. facts @ [(key, v)]) (declared_values d)) combos)) keys = Some result"
      by (auto simp: Let_def split: if_splits)
    from "2.IH"(2) [OF d False refl ok r "2.prems"(2)] d False show ?thesis by fastforce
  qed
qed auto

lemma task_rows_rows:
  "task_rows src schema ast keys combos budget tiers = Some out \<Longrightarrow> length tiers \<le> MAX_DISPLAY_ROWS \<Longrightarrow>
     length out \<le> MAX_DISPLAY_ROWS
     \<and> (\<forall>t \<in> set out. t \<in> set tiers \<or> (\<exists>facts \<in> set combos. \<exists>bs.
          prices \<lparr>td_source = src, td_schema = schema, td_facts = facts\<rparr> ast bs
          \<and> (\<exists>b \<in> set bs. task_row schema keys facts b = Some t)))"
proof (induction src schema ast keys combos budget tiers arbitrary: out rule: task_rows.induct)
  case (2 src schema ast keys facts rest budget tiers)
  from "2.prems"(1) obtain bs k rows where
    b: "taskPriceBranches \<lparr>td_source = src, td_schema = schema, td_facts = facts\<rparr> ast budget = (Some bs, k)"
    and le: "\<not> length tiers + length bs > MAX_DISPLAY_ROWS"
    and rows: "all_some (map (task_row schema keys facts) bs) = Some rows"
    and r: "task_rows src schema ast keys rest k (tiers @ rows) = Some out"
    by (auto split: prod.splits option.splits if_splits)
  from rows have m: "map (task_row schema keys facts) bs = map Some rows" by (simp add: all_some_Some_iff)
  then have "length rows = length bs" by (metis length_map)
  moreover have "\<exists>b \<in> set bs. task_row schema keys facts b = Some t" if "t \<in> set rows" for t
  proof -
    from that have "Some t \<in> set (map Some rows)" by simp
    with m have "Some t \<in> set (map (task_row schema keys facts) bs)" by simp
    then show ?thesis by auto
  qed
  ultimately show ?case
    using "2.IH" [OF b [symmetric] refl le rows r] le taskPriceBranches_prices [OF b] by fastforce
qed simp

text \<open>What a row of the result is.\<close>

definition grounded_row :: "BillingUsageSchema \<Rightarrow> TaskTier \<Rightarrow> bool" where
  "grounded_row schema t \<longleftrightarrow>
     valid_amount (kt_constant t) \<and> kt_unitPrices t \<noteq> [] \<and> distinct (map fst (kt_unitPrices t))
     \<and> (\<forall>(field, x) \<in> set (kt_unitPrices t). schema_field schema field \<and> valid_amount x)
     \<and> distinct (map fst (kt_conditions t))
     \<and> (\<forall>(field, text) \<in> set (kt_conditions t). \<exists>d v. map_of schema field = Some d
          \<and> v \<in> set (declared_values d) \<and> text = literal_text v)"

lemma price_or_zero_valid: "list_all valid_amount (map snd ps) \<Longrightarrow> valid_amount (price_or_zero ps field)"
  by (auto simp: price_or_zero_def list_all_iff valid_amount_def js_le_def dest!: map_of_SomeD split: option.splits)

lemma row_unit_prices_grounded:
  assumes "valid_branch schema b" "distinct keys"
  shows "distinct (map fst (row_unit_prices schema keys b))"
    and "\<forall>(field, x) \<in> set (row_unit_prices schema keys b). schema_field schema field \<and> js_le (num 0) x"
proof -
  have v: "valid_amount (price_or_zero (pb_prices b) field)" for field
    using assms(1) by (intro price_or_zero_valid) (simp add: valid_branch_def)
  have fields: "set (map fst (row_unit_prices schema ks b)) \<subseteq> set ks" for ks
    by (induction ks) (auto simp: row_unit_prices_def split: option.splits if_splits)
  show "distinct (map fst (row_unit_prices schema keys b))"
    using assms(2)
  proof (induction keys)
    case (Cons k ks)
    with fields [of ks] show ?case
      by (auto simp: row_unit_prices_def split: option.splits if_splits)
  qed (simp add: row_unit_prices_def)
  have "valid_amount (num 1000000)" "valid_amount (num 1)" by (simp_all add: valid_amount_def js_le_def)
  then show "\<forall>(field, x) \<in> set (row_unit_prices schema keys b). schema_field schema field \<and> js_le (num 0) x"
    using js_mul_nonneg [OF v]
    by (auto simp: row_unit_prices_def schema_field_def split: option.splits if_splits) metis+
qed

lemma task_row_grounded:
  assumes "task_row schema keys facts b = Some t" "valid_branch schema b" "distinct keys"
    and "distinct (map fst facts)"
    and "\<forall>(key, v) \<in> set facts. \<exists>d. map_of schema key = Some d \<and> v \<in> set (declared_values d)"
  shows "grounded_row schema t"
proof -
  note unit_prices = row_unit_prices_grounded [OF assms(2,3)]
  from assms(1) have t: "kt_constant t = pb_constant b" "kt_unitPrices t = row_unit_prices schema keys b"
    "kt_unitPrices t \<noteq> []" "list_all isFinite (map snd (kt_unitPrices t))"
    "kt_conditions t = map (\<lambda>(field, v). (field, literal_text v)) facts"
    by (auto simp: task_row_def Let_def split: option.splits if_splits)
  have "distinct (map fst (kt_conditions t))" using assms(4) by (simp add: t(5) comp_def split_def)
  moreover have "\<forall>(field, x) \<in> set (kt_unitPrices t). schema_field schema field \<and> valid_amount x"
    using unit_prices(2) t(2,4) by (auto simp: valid_amount_def list_all_iff)
  moreover have "\<forall>(field, text) \<in> set (kt_conditions t). \<exists>d v. map_of schema field = Some d
          \<and> v \<in> set (declared_values d) \<and> text = literal_text v"
    using assms(5) unfolding t(5) by fastforce
  ultimately show ?thesis
    using unit_prices(1) assms(2,4) t by (simp add: grounded_row_def valid_branch_def)
qed

lemma readConditionalTaskPricing_rows:
  assumes "readConditionalTaskPricing src schema = Inr (Some out)"
  shows "length out \<le> MAX_DISPLAY_ROWS \<and> (\<forall>t \<in> set out. grounded_row schema t)"
proof -
  from assms obtain compiled keys combos where c: "compile_source src = Ready compiled"
    and v: "visitExpression (c_ast compiled) (task_field_visitor schema) (True, []) = Inr (True, keys)"
    and combos: "task_combinations schema [[]] keys = Some combos"
    and rows: "task_rows src schema (c_ast compiled) keys combos 20000 [] = Some out"
    by (auto simp: readConditionalTaskPricing_def split: CompilationResult.splits if_splits option.splits)
  have keys: "distinct keys"
    using task_fields.visit_keeps [OF _ _ v] by (simp add: list_all_iff fields_of_def)
  have wf: "well_formed (c_ast compiled)"
    using c compile_ready_facts(5) by (simp add: compile_source_Ready)
  note r = task_rows_rows [OF rows]
  have "grounded_row schema t" if "t \<in> set out" for t
  proof -
    from r that obtain facts bs b where f: "facts \<in> set combos" and b: "b \<in> set bs"
      and p: "prices \<lparr>td_source = src, td_schema = schema, td_facts = facts\<rparr> (c_ast compiled) bs"
      and t: "task_row schema keys facts b = Some t" by auto
    from task_combinations_facts [OF combos f] keys have "distinct (map fst facts)"
      "\<forall>(key, v) \<in> set facts. \<exists>d. map_of schema key = Some d \<and> v \<in> set (declared_values d)"
      by auto
    with task_row_grounded [OF t _ keys] prices_valid [OF p wf] b show ?thesis by simp
  qed
  with r show ?thesis by simp
qed

lemma readConditionalTaskPricing_total: "readConditionalTaskPricing src schema \<noteq> Inl err"
proof -
  have "\<exists>s. visitExpression (c_ast compiled) (task_field_visitor schema) (True, []) = Inr s"
    if "compile_source src = Ready compiled" for compiled
  proof -
    have "node_depth (c_ast compiled) \<le> 256"
      using that compile_ready_facts(3) by (simp add: compile_source_Ready)
    then obtain s where "visitExpression (c_ast compiled) (task_field_visitor schema) (True, []) = Inr s"
      by (rule task_fields.visit_total [of schema "(True, [])" "c_ast compiled", rotated])
        (simp_all add: fields_of_def list_all_iff)
    then show ?thesis by blast
  qed
  then show ?thesis
    by (fastforce simp: readConditionalTaskPricing_def andThen_Inl_iff split: CompilationResult.splits prod.splits)
qed

section \<open>The applicable branch is the one that is charged\<close>

text \<open>
  An evaluation context agrees with the facts when the usage has their values, which are declared, and
  with a valuation when the valuation gives every condition that stays as text the truth value it
  evaluates to. Evaluations start from states whose zone table is sound.
\<close>

definition agrees_with_facts :: "RuntimeEnv \<Rightarrow> TaskDisplayContext \<Rightarrow> bool" where
  "agrees_with_facts env cx \<longleftrightarrow>
     (\<exists>usage. ctx_usage (env_context env) = Some usage
        \<and> (\<forall>key v. map_of (td_facts cx) key = Some v \<longrightarrow> usage_get usage key = literal_value v
             \<and> (\<forall>d. map_of (td_schema cx) key = Some d \<longrightarrow> v \<in> set (declared_values d))))"

definition agrees_with_valuation ::
  "RuntimeEnv \<Rightarrow> TaskDisplayContext \<Rightarrow> (jstr \<Rightarrow> bool) \<Rightarrow> ExpressionNode \<Rightarrow> bool" where
  "agrees_with_valuation env cx val n \<longleftrightarrow>
     (\<forall>m t st rv st'. m \<in> set (postorder n) \<longrightarrow> displays cx m (Symbolic t)
        \<longrightarrow> timeValues.sound env (rt_timeValues st) \<longrightarrow> eval env m st rv st' \<longrightarrow> rv_value rv = JBool (val t))"

lemma agrees_subnode:
  "agrees_with_valuation env cx val n \<Longrightarrow> m \<in> set (postorder n) \<Longrightarrow> agrees_with_valuation env cx val m"
  unfolding agrees_with_valuation_def by (meson postorder_trans subsetD)

lemma agrees_child:
  "agrees_with_valuation env cx val n \<Longrightarrow> c \<in> set (children n) \<Longrightarrow> agrees_with_valuation env cx val c"
  using agrees_subnode postorder_child postorder_self by blast

lemma sound_eval:
  "eval env n st rv st' \<Longrightarrow> timeValues.sound env (rt_timeValues st) \<Longrightarrow> timeValues.sound env (rt_timeValues st')"
  using zones_sound.preserved(1) [of env n st rv st'] by auto

lemma eval_Not:
  assumes "eval env (Unary (js ''!'') x s e) st rv st'"
  obtains st0 w st1 b where "eval env x st0 w st1" "rv_value w = JBool b" "rv_value rv = JBool (\<not> b)"
    "rt_timeValues st0 = rt_timeValues st"
proof -
  from eval_enter [OF assms] obtain st3 where
    "eval_at env (Unary (js ''!'') x s e) (st\<lparr>rt_depth := rt_depth st + 1\<rparr>) rv st3" .
  then show ?thesis by (cases rule: eval_at.cases) (use that in \<open>auto simp: plain_def\<close>)
qed

lemma eval_connect:
  assumes "eval env (Binary op l r s e) st rv st'" "op \<in> LOGICAL"
  obtains (stops) st0 a st1 where "eval env l st0 a st1" "rv_value a = JBool (op = js ''||'')"
      "rv_value rv = JBool (op = js ''||'')" "rt_timeValues st0 = rt_timeValues st"
    | (goes_on) st0 a st1 b st2 c where "eval env l st0 a st1" "rv_value a = JBool (op \<noteq> js ''||'')"
      "eval env r st1 b st2" "rv_value b = JBool c" "rv_value rv = JBool c" "rt_timeValues st0 = rt_timeValues st"
proof -
  from eval_enter [OF assms(1)] obtain st3 where
    "eval_at env (Binary op l r s e) (st\<lparr>rt_depth := rt_depth st + 1\<rparr>) rv st3" .
  then show ?thesis
    by (cases rule: at_BinaryE) (use that assms(2) in \<open>auto simp: LOGICAL_def plain_def\<close>)
qed

lemma eval_operands:
  assumes "eval env (Binary op l r s e) st rv st'" "op \<notin> LOGICAL"
  obtains st0 a st1 b st2 where "eval env l st0 a st1" "eval env r st1 b st2" "apply_binary op s a b = Inr rv"
    "rt_timeValues st0 = rt_timeValues st" "rt_matchedTier st0 = rt_matchedTier st"
    "rt_matchedTier st' = rt_matchedTier st2"
proof -
  from eval_enter [OF assms(1)] obtain st3 where
    at: "eval_at env (Binary op l r s e) (st\<lparr>rt_depth := rt_depth st + 1\<rparr>) rv st3"
    and st': "st' = st3\<lparr>rt_depth := rt_depth st3 - 1\<rparr>" .
  from at show ?thesis
    by (cases rule: at_BinaryE) (use that st' assms(2) in \<open>auto simp: LOGICAL_def\<close>)
qed

lemma eval_usage:
  assumes "eval env n st rv st'" "usage_field n = Some key" "ctx_usage (env_context env) = Some usage"
  shows "rv_value rv = usage_get usage key"
proof -
  from assms(2) obtain i s1 e1 rest s e where n: "n = Call (js ''u'') (Literal (LStr key) i s1 e1 # rest) s e"
    by (cases n rule: usage_field.cases) (auto split: if_splits)
  from eval_enter [OF assms(1)] obtain st2 where
    "eval_at env n (st\<lparr>rt_depth := rt_depth st + 1\<rparr>) rv st2" .
  then obtain v st3 name where "eval env (Literal (LStr key) i s1 e1) (st\<lparr>rt_depth := rt_depth st + 1\<rparr>) v st3"
    "rv_value v = JStr name" "rv = plain (usage_get usage name)"
    unfolding n by (cases rule: at_CallE) (use assms(3) in \<open>auto simp: TIME_FUNCTIONS_def\<close>)
  then show ?thesis using eval_Literal by (auto simp: plain_def)
qed

lemma strict_eq_literals:
  "v \<noteq> LNull \<Longrightarrow> (\<forall>x. v \<noteq> LNum x) \<Longrightarrow> strict_eq (literal_value v) (literal_value w) \<longleftrightarrow> v = w"
  by (cases v; cases w) auto

lemma declared_values_kind: "v \<in> set (declared_values d) \<Longrightarrow> v \<noteq> LNull \<and> (\<forall>x. v \<noteq> LNum x)"
  by (auto simp: declared_values_def split: if_splits option.splits)

text \<open>A comparison of a usage field with a literal, on either side, is decided correctly.\<close>

lemma resolve_fact_eval:
  assumes "resolve_fact cx op (key, v) = Some w" "agrees_with_facts env cx" "op = js ''=='' \<or> op = js ''!=''"
    and "ctx_usage (env_context env) = Some usage"
  shows "w = Decided (if op = js ''=='' then strict_eq (usage_get usage key) (literal_value v)
                      else \<not> strict_eq (usage_get usage key) (literal_value v))"
proof -
  from assms(1) obtain known d where k: "map_of (td_facts cx) key = Some known" "map_of (td_schema cx) key = Some d"
    by (auto simp: resolve_fact_def split: option.splits)
  with assms(2,4) have u: "usage_get usage key = literal_value known" "known \<in> set (declared_values d)"
    by (auto simp: agrees_with_facts_def)
  note eq = strict_eq_literals [of known v] declared_values_kind [OF u(2)]
  show ?thesis
  proof (cases "is_boolean_field d")
    case True
    with assms(1,3) k eq u(1) show ?thesis by (auto simp: resolve_fact_def Let_def split: literal.splits)
  next
    case False
    with u(2) obtain vs k' where vs: "uf_enum d = Some vs" "known = LStr k'" "k' \<in> set vs"
      by (cases "uf_enum d") (auto simp: declared_values_def)
    with False assms(1,3) k eq u(1) show ?thesis
      by (auto simp: resolve_fact_def Let_def split: literal.splits if_splits)
  qed
qed

lemma compare_display_eval:
  assumes d: "compare_display cx op l r s e = Some (Decided b)" and op: "op \<notin> LOGICAL"
    and facts: "agrees_with_facts env cx" and ev: "eval env (Binary op l r s e) st rv st'"
  shows "rv_value rv = JBool b"
proof -
  from d obtain p where eq: "op = js ''=='' \<or> op = js ''!=''" and r: "resolve_fact cx op p = Some (Decided b)"
    and p: "fact_probe l r = Some p \<or> fact_probe r l = Some p"
    by (auto simp: compare_display_def Let_def split: if_splits option.splits)
  obtain key v where kv: "p = (key, v)" by (cases p)
  from facts obtain usage where usage: "ctx_usage (env_context env) = Some usage"
    by (auto simp: agrees_with_facts_def)
  note outcome = resolve_fact_eval [OF r [unfolded kv] facts eq usage]
  from ev op obtain st0 a st1 c st2 where e: "eval env l st0 a st1" "eval env r st1 c st2"
    and ap: "apply_binary op s a c = Inr rv" by (rule eval_operands)
  have operands: "(rv_value a = usage_get usage key \<and> rv_value c = literal_value v)
      \<or> (rv_value c = usage_get usage key \<and> rv_value a = literal_value v)"
    using p kv e eval_usage [OF e(1) _ usage] eval_usage [OF e(2) _ usage] eval_Literal(2)
    by (auto simp: fact_probe_def split: option.splits ExpressionNode.splits)
  from operands ap eq outcome show ?thesis
    by (auto simp: apply_binary_def Let_def plain_def strict_eq_sym [of "literal_value v"]
        strict_eq_sym [of JNull "usage_get usage key"] split: if_splits)
qed

lemma displays_eval:
  "displays cx n v \<Longrightarrow> v = Decided b \<Longrightarrow> agrees_with_facts env cx \<Longrightarrow> agrees_with_valuation env cx val n
    \<Longrightarrow> timeValues.sound env (rt_timeValues st) \<Longrightarrow> eval env n st rv st' \<Longrightarrow> rv_value rv = JBool b"
proof (induction arbitrary: b st rv st' rule: displays.induct)
  case (literal b' i s e)
  then show ?case using eval_Literal by fastforce
next
  case (not x v s e)
  from not.prems(1) have v: "v = Decided (\<not> b)" by (cases v) (auto simp: negate_display_def)
  from not.prems(5) obtain st0 w st1 c where w: "eval env x st0 w st1" "rv_value w = JBool c"
    "rv_value rv = JBool (\<not> c)" "rt_timeValues st0 = rt_timeValues st" by (rule eval_Not)
  have "timeValues.sound env (rt_timeValues st0)" using not.prems(4) w(4) by simp
  from not.IH [OF v not.prems(2) _ this w(1)] agrees_child [OF not.prems(3)] w show ?case by simp
next
  case (connect op l v r w s e)
  have l: "rv_value a = JBool c" if "v = Decided c" "eval env l st0 a st1" "rt_timeValues st0 = rt_timeValues st"
    for c st0 a st1
    using connect.IH(1) [OF that(1) connect.prems(2) agrees_child [OF connect.prems(3)] _ that(2)] that(3)
      connect.prems(4) by simp
  have r: "rv_value a = JBool c" if "w = Decided c" "eval env l st0 a0 st1" "rt_timeValues st0 = rt_timeValues st"
    "eval env r st1 a st2" for c st0 a0 st1 a st2
    using connect.IH(2) [OF that(1) connect.prems(2) agrees_child [OF connect.prems(3)] _ that(4)] that(3)
      sound_eval [OF that(2)] connect.prems(4) by simp
  have cases: "(v = Decided (op = js ''||'') \<or> w = Decided (op = js ''||'')) \<and> b = (op = js ''||'')
      \<or> v = Decided (op \<noteq> js ''||'') \<and> w = Decided b"
    using connect.prems(1)
    by (cases v; cases w) (auto simp: connect_display_def Let_def split: if_splits)
  from connect.prems(5) connect.hyps(1) show ?case
  proof (cases rule: eval_connect)
    case (stops st0 a st1)
    with cases l [OF _ stops(1,4)] show ?thesis by auto
  next
    case (goes_on st0 a st1 b' st2 c)
    with cases l [OF _ goes_on(1,6)] r [OF _ goes_on(1,6,3)] show ?thesis by auto
  qed
next
  case (compare op l r s e v)
  then show ?case using compare_display_eval by blast
qed

text \<open>The label of the applicable branch is the tier the evaluation matches.\<close>

lemma is_time_part_uses: "is_time_part m \<Longrightarrow> well_formed m \<Longrightarrow> js ''tier'' \<notin> uses m"
  by (cases m rule: is_time_part.cases) (auto simp: TIME_FUNCTIONS_def BILLING_FUNCTIONS_def)

lemma usage_field_uses: "usage_field m = Some key \<Longrightarrow> well_formed m \<Longrightarrow> js ''tier'' \<notin> uses m"
  by (cases m rule: usage_field.cases) (auto simp: BILLING_FUNCTIONS_def split: if_splits)

lemma fact_probe_uses:
  "fact_probe l m = Some p \<Longrightarrow> well_formed l \<Longrightarrow> js ''tier'' \<notin> uses l \<and> js ''tier'' \<notin> uses m"
  by (auto simp: fact_probe_def split: option.splits ExpressionNode.splits dest: usage_field_uses)

lemma displays_uses: "displays cx n v \<Longrightarrow> well_formed n \<Longrightarrow> js ''tier'' \<notin> uses n"
proof (induction rule: displays.induct)
  case (compare op l r s e v)
  then show ?case
    using fact_probe_uses [of l r] fact_probe_uses [of r l] is_time_part_uses [of l] is_time_part_uses [of r]
    by (auto simp: compare_display_def Let_def split: if_splits option.splits)
qed simp_all

definition row_tier :: "jstr \<Rightarrow> PriceBranch \<Rightarrow> jstr" where
  "row_tier before b = (case pb_label b of Some label \<Rightarrow> label | None \<Rightarrow> before)"

lemma untiered_eval: "eval env n st rv st' \<Longrightarrow> js ''tier'' \<notin> uses n \<Longrightarrow> rt_matchedTier st' = rt_matchedTier st"
  using tier_kept.preserved(1) [of env n st rv st'] by auto

lemma eval_conditional_step:
  assumes "eval env (Conditional c y n s e) st rv st'"
  obtains st0 w st1 b st2 st3 where "eval env c st0 w st1" "rv_value w = JBool b"
    "eval env (if b then y else n) st2 rv st3" "rt_matchedTier st' = rt_matchedTier st3"
    "rt_matchedTier st0 = rt_matchedTier st" "rt_matchedTier st2 = rt_matchedTier st1"
    "rt_timeValues st0 = rt_timeValues st" "rt_timeValues st2 = rt_timeValues st1"
proof -
  from eval_enter [OF assms] obtain st3 where
    at: "eval_at env (Conditional c y n s e) (st\<lparr>rt_depth := rt_depth st + 1\<rparr>) rv st3"
    and st': "st' = st3\<lparr>rt_depth := rt_depth st3 - 1\<rparr>" .
  from eval_evaluate(2) [OF at] obtain w st1 b where
    c: "eval env c (st\<lparr>rt_depth := rt_depth st + 1\<rparr>) w st1" "rv_value w = JBool b"
    and br: "eval env (if b then y else n) (if b then mark_rule env (Conditional c y n s e) st1 else st1) rv st3"
    by (auto simp: evaluateNode.simps expect_Inr evaluate_iff split: if_splits)
  have "rt_matchedTier (mark_rule env m t) = rt_matchedTier t" "rt_timeValues (mark_rule env m t) = rt_timeValues t"
    for m t by (simp_all add: mark_rule_def split: option.splits)
  with that [OF c br] st' show ?thesis by auto
qed

lemma eval_tier_step:
  assumes "eval env (Call (js ''tier'') (Literal (LStr label) i s1 e1 # body # rest) s e) st rv st'"
  obtains st0 w st1 where "eval env body st0 w st1" "rt_timeValues st0 = rt_timeValues st"
    "rt_matchedTier st' = label"
proof -
  from eval_enter [OF assms] obtain st2 where
    at: "eval_at env (Call (js ''tier'') (Literal (LStr label) i s1 e1 # body # rest) s e)
      (st\<lparr>rt_depth := rt_depth st + 1\<rparr>) rv st2"
    and st': "st' = st2\<lparr>rt_depth := rt_depth st2 - 1\<rparr>" .
  from at obtain v st3 w st4 t x where l: "eval env (Literal (LStr label) i s1 e1)
      (st\<lparr>rt_depth := rt_depth st + 1\<rparr>) v st3" "rv_value v = JStr t"
    and b: "eval env body st3 w st4" and st2: "st2 = st4\<lparr>rt_matchedTier := t\<rparr>"
    by (cases rule: at_CallE) (auto simp: TIME_FUNCTIONS_def)
  from eval_Literal [OF l(1)] l(2) have "rt_timeValues st3 = rt_timeValues st" "t = label" by auto
  with that [OF b] st' st2 show ?thesis by simp
qed

lemma combined_parts:
  assumes "combine_branches op a b = Combined c" "distinct_times a" "distinct_times b" "applies val c"
  shows "applies val a" "applies val b" "row_tier before c = row_tier (row_tier before a) b"
  using assms combine_branches_applies(1) [OF assms(2,3,1), of val]
  by (auto simp: combine_branches_def row_tier_def split: if_splits option.splits)

lemma decided_parts:
  assumes "b \<in> set (decide_branches t m bs)" "\<forall>b \<in> set bs. distinct_times b" "applies val b"
  obtains b0 where "b0 \<in> set bs" "applies val b0" "val t = m" "row_tier before b = row_tier before b0"
proof -
  from assms(1) obtain b0 where b0: "b0 \<in> set bs" "b = b0\<lparr>pb_times := map_entries [(t, m)] (pb_times b0)\<rparr>"
    and keep: "\<not> (hasOwn (pb_times b0) t \<and> map_of (pb_times b0) t \<noteq> Some m)"
    by (auto simp: decide_branches_def)
  have "\<not> times_conflict [(t, m)] (pb_times b0)" using keep by (simp add: times_conflict_def)
  with applies_map_entries [of "[(t, m)]" "pb_times b0" val] b0 assms(2,3)
  have "val t = m" "applies val b0" by (auto simp: applies_def distinct_times_def)
  with that [OF b0(1)] b0(2) show ?thesis by (simp add: row_tier_def)
qed

lemma prices_tier:
  "prices cx n bs \<Longrightarrow> b \<in> set bs \<Longrightarrow> applies val b \<Longrightarrow> well_formed n \<Longrightarrow> agrees_with_facts env cx
    \<Longrightarrow> agrees_with_valuation env cx val n \<Longrightarrow> timeValues.sound env (rt_timeValues st)
    \<Longrightarrow> eval env n st rv st' \<Longrightarrow> rt_matchedTier st' = row_tier (rt_matchedTier st) b"
proof (induction arbitrary: b st rv st' rule: prices.induct)
  case (amount x i s e)
  then show ?case using eval_Literal(1) by (fastforce simp: row_tier_def)
next
  case (usage f args s e field bs)
  then have "rt_matchedTier st' = rt_matchedTier st" using untiered_eval usage_field_uses by blast
  with usage show ?case by (auto simp: usage_branch_def row_tier_def split: option.splits if_splits)
next
  case (tier body bs label bs' i s1 e1 rest s e)
  from tier.prems(7) have "rt_matchedTier st' = label" by (rule eval_tier_step)
  with tier.hyps(2) tier.prems(1) show ?case by (auto simp: label_branches_def row_tier_def split: if_splits)
next
  case (decided c b' y n bs s e)
  from decided.prems(7) obtain st0 w st1 b1 st2 st3 where c: "eval env c st0 w st1" "rv_value w = JBool b1"
    and br: "eval env (if b1 then y else n) st2 rv st3" and m: "rt_matchedTier st' = rt_matchedTier st3"
      "rt_matchedTier st0 = rt_matchedTier st" "rt_matchedTier st2 = rt_matchedTier st1"
      "rt_timeValues st0 = rt_timeValues st" "rt_timeValues st2 = rt_timeValues st1"
    by (rule eval_conditional_step)
  have z: "timeValues.sound env (rt_timeValues st0)" "timeValues.sound env (rt_timeValues st2)"
    using decided.prems(6) m sound_eval [OF c(1)] by simp_all
  have "rv_value w = JBool b'"
    using displays_eval [OF decided.hyps(1) refl decided.prems(4) agrees_child [OF decided.prems(5)] z(1) c(1)] by simp
  with c have "b1 = b'" by simp
  moreover have "rt_matchedTier st1 = rt_matchedTier st0"
    using untiered_eval [OF c(1)] displays_uses [OF decided.hyps(1)] decided.prems(3) by simp
  moreover have "agrees_with_valuation env cx val (if b' then y else n)" "well_formed (if b' then y else n)"
    using agrees_child [OF decided.prems(5)] decided.prems(3) by auto
  ultimately show ?case
    using decided.IH [OF decided.prems(1,2) _ decided.prems(4) _ z(2)] br m by metis
next
  case (symbolic c t y ys n ns bs s e)
  from symbolic.prems(7) obtain st0 w st1 b1 st2 st3 where c: "eval env c st0 w st1" "rv_value w = JBool b1"
    and br: "eval env (if b1 then y else n) st2 rv st3" and m: "rt_matchedTier st' = rt_matchedTier st3"
      "rt_matchedTier st0 = rt_matchedTier st" "rt_matchedTier st2 = rt_matchedTier st1"
      "rt_timeValues st0 = rt_timeValues st" "rt_timeValues st2 = rt_timeValues st1"
    by (rule eval_conditional_step)
  have z: "timeValues.sound env (rt_timeValues st0)" "timeValues.sound env (rt_timeValues st2)"
    using symbolic.prems(6) m sound_eval [OF c(1)] by simp_all
  have "c \<in> set (postorder (Conditional c y n s e))" using child_in_postorder [of c "Conditional c y n s e"] by simp
  with symbolic.prems(5) symbolic.hyps(1) z(1) c have b1: "b1 = val t"
    by (fastforce simp: agrees_with_valuation_def)
  have "rt_matchedTier st1 = rt_matchedTier st0"
    using untiered_eval [OF c(1)] displays_uses [OF symbolic.hyps(1)] symbolic.prems(3) by simp
  then have st2: "rt_matchedTier st2 = rt_matchedTier st" using m by simp
  note wt = prices_partition [OF symbolic.hyps(2)] prices_partition [OF symbolic.hyps(3)]
  from symbolic.prems(1) symbolic.hyps(4) consider "b \<in> set (decide_branches t True ys)"
    | "b \<in> set (decide_branches t False ns)" by auto
  then show ?case
  proof cases
    case 1
    with wt symbolic.prems(2) obtain b0 where "b0 \<in> set ys" "applies val b0" "val t"
      "row_tier (rt_matchedTier st) b = row_tier (rt_matchedTier st) b0" by (metis decided_parts)
    with symbolic.IH(1) [OF _ _ _ symbolic.prems(4) _ z(2)] br b1 m(1) st2 symbolic.prems(3)
      agrees_child [OF symbolic.prems(5)] show ?thesis by simp
  next
    case 2
    with wt symbolic.prems(2) obtain b0 where "b0 \<in> set ns" "applies val b0" "\<not> val t"
      "row_tier (rt_matchedTier st) b = row_tier (rt_matchedTier st) b0" by (metis decided_parts)
    with symbolic.IH(2) [OF _ _ _ symbolic.prems(4) _ z(2)] br b1 m(1) st2 symbolic.prems(3)
      agrees_child [OF symbolic.prems(5)] show ?thesis by simp
  qed
next
  case (combine op l ls r rs bs s e)
  from combine.hyps(1) have "op \<notin> LOGICAL" by (auto simp: LOGICAL_def)
  with combine.prems(7) obtain st0 v st1 w st2 where ev: "eval env l st0 v st1" "eval env r st1 w st2"
    and m: "rt_timeValues st0 = rt_timeValues st" "rt_matchedTier st0 = rt_matchedTier st"
      "rt_matchedTier st' = rt_matchedTier st2" by (rule eval_operands)
  have z: "timeValues.sound env (rt_timeValues st0)" "timeValues.sound env (rt_timeValues st1)"
    using combine.prems(6) m sound_eval [OF ev(1)] by simp_all
  from combine_all_bounds(2) [OF combine.hyps(4)] combine.prems(1) obtain a1 a2 where
    a: "a1 \<in> set ls" "a2 \<in> set rs" and c: "combine_branches op a1 a2 = Combined b" by blast
  have d: "distinct_times a1" "distinct_times a2"
    using prices_partition [OF combine.hyps(2)] prices_partition [OF combine.hyps(3)] a by auto
  note parts = combined_parts [OF c d combine.prems(2)]
  have "rt_matchedTier st1 = row_tier (rt_matchedTier st) a1"
    using combine.IH(1) [OF a(1) parts(1) _ combine.prems(4) _ z(1) ev(1)] combine.prems(3) m
      agrees_child [OF combine.prems(5)] by simp
  moreover have "rt_matchedTier st2 = row_tier (rt_matchedTier st1) a2"
    using combine.IH(2) [OF a(2) parts(2) _ combine.prems(4) _ z(2) ev(2)] combine.prems(3)
      agrees_child [OF combine.prems(5)] by simp
  ultimately show ?case using parts(3) m(3) by simp
qed

end
