(* ===== verification/TaskProperties.thy ===== *)
theory TaskProperties
  imports TaskDisplay BillingProperties
begin

text \<open>
  The properties of the conditional task pricing rows: bounded and grounded in the usage schema, a
  partition of the time conditions, and in agreement with what the evaluator charges.
\<close>

section \<open>A sample\<close>

definition sample_schema :: BillingUsageSchema where
  "sample_schema =
     [(js ''m'', \<lparr>uf_type = Some (js ''string''), uf_unit = None, uf_enum = Some [js ''p'', js ''q'']\<rparr>),
      (js ''s'', \<lparr>uf_type = Some (js ''number''), uf_unit = Some (js ''second''), uf_enum = None\<rparr>)]"

definition timed_task :: jstr where
  "timed_task = js ''u(\"m\") == \"p\" ? tier(\"p\", u(\"s\") * 2) : (hour(\"UTC\") < 12 ? tier(\"a\", u(\"s\")) : tier(\"b\", u(\"s\") * 3 + 1))''"

text \<open>Its compilation, computed once.\<close>

definition timed_compiled :: CompiledBillingExpression where
  "timed_compiled =
     \<lparr>c_source = timed_task,
      c_ast = Conditional
        (Binary (js ''=='') (Call (js ''u'') [Literal (LStr (js ''m'')) None 2 5] 0 6) (Literal (LStr (js ''p'')) None 10 13) 0 13)
        (Call (js ''tier'') [Literal (LStr (js ''p'')) None 21 24,
           Binary (js ''*'') (Call (js ''u'') [Literal (LStr (js ''s'')) None 28 31] 26 32)
             (Literal (LNum (num 2)) (Some True) 35 36) 26 36] 16 37)
        (Conditional
          (Binary (js ''<'') (Call (js ''hour'') [Literal (LStr (js ''UTC'')) None 46 51] 41 52)
             (Literal (LNum (num 12)) (Some True) 55 57) 41 57)
          (Call (js ''tier'') [Literal (LStr (js ''a'')) None 65 68,
             Call (js ''u'') [Literal (LStr (js ''s'')) None 72 75] 70 76] 60 77)
          (Call (js ''tier'') [Literal (LStr (js ''b'')) None 85 88,
             Binary (js ''+'')
               (Binary (js ''*'') (Call (js ''u'') [Literal (LStr (js ''s'')) None 92 95] 90 96)
                  (Literal (LNum (num 3)) (Some True) 99 100) 90 100)
               (Literal (LNum (num 1)) (Some True) 103 104) 90 104] 80 105) 40 106) 0 106,
      c_variables = [], c_functions = [js ''u'', js ''tier'', js ''hour''], c_requestRules = []\<rparr>"

lemma timed_compiles: "compile_source timed_task = Ready timed_compiled"
  by code_simp

definition timed_display :: TaskDisplayContext where
  "timed_display =
     \<lparr>td_source = timed_task, td_schema = sample_schema, td_facts = [(js ''m'', LStr (js ''q''))]\<rparr>"

definition timed_context :: BillingSimulationContext where
  "timed_context = sample_context
     \<lparr>ctx_usage := Some [(js ''m'', JStr (js ''q'')), (js ''s'', JNum (num 4))]\<rparr>"

section \<open>Rows\<close>

text \<open>
  C20: Reading conditional task pricing never throws. Its result has at most 128 rows; every row has a
  finite, non-negative constant and finite, non-negative prices of distinct number fields of the schema,
  at least one, and conditions on distinct fields of the schema with values they declare.
\<close>

theorem task_rows_grounded:
  "(\<nexists>err. readConditionalTaskPricing src schema = Inl err)
   \<and> (\<forall>rows. readConditionalTaskPricing src schema = Inr (Some rows) \<longrightarrow>
        length rows \<le> 128 \<and> (\<forall>row \<in> set rows. grounded_row schema row))"
  using readConditionalTaskPricing_total readConditionalTaskPricing_rows
  by (auto simp: MAX_DISPLAY_ROWS_def)

theorem task_rows_grounded_witness:
  "\<exists>rows. readConditionalTaskPricing timed_task sample_schema = Inr (Some rows) \<and> length rows = 3
     \<and> (\<forall>row \<in> set rows. grounded_row sample_schema row)"
proof -
  have "(case readConditionalTaskPricing timed_task sample_schema of
      Inr (Some rows) \<Rightarrow> length rows = 3 | _ \<Rightarrow> False)" by code_simp
  then obtain rows where "readConditionalTaskPricing timed_task sample_schema = Inr (Some rows)" "length rows = 3"
    by (auto split: sum.splits option.splits)
  with task_rows_grounded [of timed_task sample_schema] show ?thesis by blast
qed

text \<open>
  The branches of an expression are exhaustive and exclude one another: whatever truth values the
  time conditions take, exactly one branch records just these.
\<close>

theorem task_branches_partition:
  assumes "taskPriceBranches cx n budget = (Some branches, budget')"
  shows "\<exists>b. filter (applies val) branches = [b]"
  using prices_partition [OF taskPriceBranches_prices [OF assms], of val]
  by (auto simp: length_Suc_conv)

theorem task_branches_partition_witness:
  "\<exists>branches k b. taskPriceBranches timed_display (c_ast timed_compiled) 20000 = (Some branches, k)
     \<and> length branches = 2 \<and> filter (applies (\<lambda>t. True)) branches = [b]"
proof -
  have "(case taskPriceBranches timed_display (c_ast timed_compiled) 20000 of
      (Some branches, k) \<Rightarrow> length branches = 2 | _ \<Rightarrow> False)" by code_simp
  then obtain branches k where "taskPriceBranches timed_display (c_ast timed_compiled) 20000 = (Some branches, k)"
    "length branches = 2"
    by (auto split: prod.splits option.splits)
  with task_branches_partition [of timed_display "c_ast timed_compiled" 20000 branches k "\<lambda>t. True"]
  show ?thesis by blast
qed

text \<open>
  C22: The rows agree with the charge. When the usage has the values of the facts and the valuation gives
  each time condition its value, the label of the one branch that applies is the tier a successful
  evaluation reports.
\<close>

theorem task_branch_names_charged_tier:
  assumes "compile_source src = Ready compiled"
    and "evaluateCompilation intl clock (Ready compiled) context = EvalSuccess r"
    and "taskPriceBranches cx (c_ast compiled) budget = (Some branches, budget')"
    and "agrees_with_facts (runtime_env compiled context clock intl) cx"
    and "agrees_with_valuation (runtime_env compiled context clock intl) cx val (c_ast compiled)"
  shows "\<exists>b. filter (applies val) branches = [b]
    \<and> res_matchedTier r = (case pb_label b of Some label \<Rightarrow> label | None \<Rightarrow> [])"
proof -
  let ?env = "runtime_env compiled context clock intl"
  from assms(2) have "evaluate_compiled intl clock compiled context = Inr r"
    by (simp add: evaluateCompilation_def split: sum.splits)
  then obtain st0 rv st where new: "new_runtime compiled context = Inr st0"
    and e: "eval ?env (c_ast compiled) st0 rv st" and r: "res_matchedTier r = rt_matchedTier st"
    by (rule evaluate_compiled_Inr)
  note p = taskPriceBranches_prices [OF assms(3)]
  from prices_partition [OF p, of val] obtain b where b: "filter (applies val) branches = [b]"
    by (auto simp: length_Suc_conv)
  then have "b \<in> set (filter (applies val) branches)" by simp
  then have "b \<in> set branches" "applies val b" by simp_all
  moreover have "well_formed (c_ast compiled)"
    using assms(1) compile_ready_facts(5) by (simp add: compile_source_Ready)
  moreover have "timeValues.sound ?env (rt_timeValues st0)"
    using new_runtime_fields(6) [OF new] by (simp add: timeValues.sound_def)
  ultimately have "rt_matchedTier st = row_tier (rt_matchedTier st0) b"
    using prices_tier [OF p] assms(4,5) e by blast
  with b r new_runtime_fields(3) [OF new] show ?thesis by (simp add: row_tier_def)
qed

lemma hour_comparison:
  assumes e: "eval env (Binary (js ''<'') (Call (js ''hour'') [Literal (LStr (js ''UTC'')) i1 s1 e1] s2 e2)
      (Literal (LNum x) i3 s3 e3) s e) st rv st'"
    and sound: "timeValues.sound env (rt_timeValues st)"
    and zone: "timeInBillingZone (env_intl env) (env_now env) (js ''UTC'') = Inr tv"
  shows "rv_value rv = JBool (js_lt (tv_hour tv) x)"
proof -
  have "js ''<'' \<notin> LOGICAL" by (simp add: LOGICAL_def)
  with e obtain st0 a st1 b st2 where
    l: "eval env (Call (js ''hour'') [Literal (LStr (js ''UTC'')) i1 s1 e1] s2 e2) st0 a st1"
    and r: "eval env (Literal (LNum x) i3 s3 e3) st1 b st2" and ap: "apply_binary (js ''<'') s a b = Inr rv"
    and t: "rt_timeValues st0 = rt_timeValues st" by (rule eval_operands)
  from eval_enter [OF l] obtain st3 where
    "eval_at env (Call (js ''hour'') [Literal (LStr (js ''UTC'')) i1 s1 e1] s2 e2)
       (st0\<lparr>rt_depth := rt_depth st0 + 1\<rparr>) a st3" .
  then obtain v st4 z tv' st5 where
    z: "eval env (Literal (LStr (js ''UTC'')) i1 s1 e1) (st0\<lparr>rt_depth := rt_depth st0 + 1\<rparr>) v st4"
      "rv_value v = JStr z" "zone_values env (trim z) st4 = Inr (tv', st5)"
    and a: "a = \<lparr>rv_value = JNum (time_value (js ''hour'') tv'), rv_integer = Some True\<rparr>"
    by (cases rule: at_CallE) auto
  from eval_Literal [OF z(1)] z(2) have st4: "rt_timeValues st4 = rt_timeValues st0" and "z = js ''UTC''" by auto
  moreover have "trim (js ''UTC'') = js ''UTC''" by code_simp
  ultimately have zv: "zone_values env (js ''UTC'') st4 = Inr (tv', st5)" using z(3) by simp
  have "timeValues.sound env (rt_timeValues st4)" using sound t st4 by simp
  from zv zone timeValues.sound_hit [OF this] have "tv' = tv"
    by (auto simp: zone_values_def split: option.splits)
  then have "rv_value a = JNum (tv_hour tv)" by (simp add: a time_value_def)
  moreover have "rv_value b = JNum x" using eval_Literal [OF r] by simp
  ultimately show ?thesis using ap by (auto simp: apply_binary_def Let_def compare_values_def plain_def)
qed

text \<open>The one condition of the sample that stays as text.\<close>

fun early_hour :: "ExpressionNode \<Rightarrow> bool" where
  "early_hour (Binary op (Call f [Literal (LStr zone) _ _ _] _ _) (Literal (LNum x) _ _ _) _ _) =
     (op = js ''<'' \<and> f = js ''hour'' \<and> zone = js ''UTC'' \<and> x = num 12)"
| "early_hour _ = False"

lemma early_hour_cases:
  assumes "early_hour m"
  obtains i1 s1 e1 s2 e2 i3 s3 e3 s e where
    "m = Binary (js ''<'') (Call (js ''hour'') [Literal (LStr (js ''UTC'')) i1 s1 e1] s2 e2)
       (Literal (LNum (num 12)) i3 s3 e3) s e"
  using assms by (cases m rule: early_hour.cases) auto

lemma timed_symbolic:
  assumes "m \<in> set (postorder (c_ast timed_compiled))" "displays timed_display m (Symbolic t)"
  shows "early_hour m"
proof -
  have "list_all (\<lambda>m. length (postorder m) \<le> 100 \<and>
      (case taskDisplayCondition timed_display m 100 of (Some (Symbolic t), k) \<Rightarrow> early_hour m | _ \<Rightarrow> True))
      (postorder (c_ast timed_compiled))" by code_simp
  with assms(1) have m: "length (postorder m) \<le> 100"
    "case taskDisplayCondition timed_display m 100 of (Some (Symbolic t), k) \<Rightarrow> early_hour m | _ \<Rightarrow> True"
    by (auto simp: list_all_iff)
  from displays_taskDisplayCondition [OF assms(2), of 100] m show ?thesis by auto
qed

theorem task_branch_names_charged_tier_witness:
  "\<exists>r branches k b. evaluateCompilation sample_intl (num 0) (Ready timed_compiled) timed_context = EvalSuccess r
     \<and> taskPriceBranches timed_display (c_ast timed_compiled) 20000 = (Some branches, k) \<and> length branches = 2
     \<and> filter (applies (\<lambda>t. True)) branches = [b]
     \<and> res_matchedTier r = (case pb_label b of Some label \<Rightarrow> label | None \<Rightarrow> [])"
proof -
  let ?env = "runtime_env timed_compiled timed_context (num 0) sample_intl"
  have "(case (taskPriceBranches timed_display (c_ast timed_compiled) 20000,
               evaluateCompilation sample_intl (num 0) (Ready timed_compiled) timed_context) of
      ((Some branches, k), EvalSuccess r) \<Rightarrow> length branches = 2 | _ \<Rightarrow> False)" by code_simp
  then obtain r branches k where
    b: "taskPriceBranches timed_display (c_ast timed_compiled) 20000 = (Some branches, k)" "length branches = 2"
    and r: "evaluateCompilation sample_intl (num 0) (Ready timed_compiled) timed_context = EvalSuccess r"
    by (auto split: prod.splits option.splits BillingEvaluationResult.splits)
  have facts: "agrees_with_facts ?env timed_display"
    by (auto simp: agrees_with_facts_def runtime_env_def timed_context_def timed_display_def usage_get_def
        sample_schema_def declared_values_def is_boolean_field_def)
  have zone: "timeInBillingZone (env_intl ?env) (env_now ?env) (js ''UTC'') = Inr (utc_values 0)"
  proof -
    have "timeInBillingZone sample_intl (num 0) (js ''UTC'') = Inr (utc_values 0)" by code_simp
    then show ?thesis by (simp add: runtime_env_def timed_context_def sample_context_def)
  qed
  have early: "js_lt (tv_hour (utc_values 0)) (num 12)" by code_simp
  have "agrees_with_valuation ?env timed_display (\<lambda>t. True) (c_ast timed_compiled)"
    unfolding agrees_with_valuation_def
  proof (intro allI impI)
    fix m t st rv st'
    assume "m \<in> set (postorder (c_ast timed_compiled))" "displays timed_display m (Symbolic t)"
      and s: "timeValues.sound ?env (rt_timeValues st)" and e: "eval ?env m st rv st'"
    then have "early_hour m" using timed_symbolic by blast
    then show "rv_value rv = JBool True"
      by (rule early_hour_cases) (use hour_comparison [OF _ s zone] e early in auto)
  qed
  from task_branch_names_charged_tier [OF timed_compiles r b(1) facts this] b r show ?thesis by blast
qed

end
