(* ===== verification/Structure.thy ===== *)
theory Structure
  imports Prelude
begin

text \<open>
  \<open>billing-expression/structure.ts\<close>: the lossless structural helpers, which cut an expression at an
  operator outside brackets and quotes and remove enclosing parentheses. The scanning loops keep the
  index, the bracket depth and the open quote.
\<close>

section \<open>Cutting at an operator\<close>

text \<open>Brackets open and close without regard to their kind.\<close>

definition bracket_depth :: "code_unit \<Rightarrow> int \<Rightarrow> int" where
  "bracket_depth c depth =
     (if c \<in> set (js ''([{'') then depth + 1 else if c \<in> set (js '')]}'') then depth - 1 else depth)"

definition is_quote :: "code_unit \<Rightarrow> bool" where
  "is_quote c \<longleftrightarrow> c = 34 \<or> c = 39"

text \<open>
  The loop does not end on an empty operator; \<open>None\<close> stands for that. The result is \<open>Inl\<close> at a top-level
  question mark, where the source is returned whole, and \<open>Inr\<close> with the uncut pieces otherwise.
\<close>

partial_function (option) split_loop ::
  "jstr \<Rightarrow> jstr \<Rightarrow> nat \<Rightarrow> nat \<Rightarrow> int \<Rightarrow> code_unit option \<Rightarrow> jstr list \<Rightarrow> (unit + jstr list) option" where
  "split_loop src operator i start depth quote pieces =
     (if i \<ge> length src then Some (Inr (pieces @ [drop start src]))
      else let c = src ! i in
        case quote of
          Some q \<Rightarrow>
            if c = 92 then split_loop src operator (i + 2) start depth quote pieces
            else split_loop src operator (i + 1) start depth (if c = q then None else quote) pieces
        | None \<Rightarrow>
            if is_quote c then split_loop src operator (i + 1) start depth (Some c) pieces
            else let depth = bracket_depth c depth in
              if depth \<noteq> 0 then split_loop src operator (i + 1) start depth None pieces
              else if c = 63 then Some (Inl ())
              else if startsWith (drop i src) operator then
                split_loop src operator (i + length operator) (i + length operator) depth None
                  (pieces @ [slice src start i])
              else split_loop src operator (i + 1) start depth None pieces)"

declare split_loop.simps [code]

definition splitExpressionAtTopLevel :: "jstr \<Rightarrow> jstr \<Rightarrow> jstr list option" where
  "splitExpressionAtTopLevel src operator =
     (case split_loop src operator 0 0 0 None [] of
        None \<Rightarrow> None
      | Some (Inl _) \<Rightarrow> Some [trim src]
      | Some (Inr pieces) \<Rightarrow> Some (filter (\<lambda>p. p \<noteq> []) (map trim pieces)))"

lemma join_snoc: "pieces \<noteq> [] \<Longrightarrow> join sep (pieces @ [p]) = join sep pieces @ sep @ p"
  by (induction sep pieces rule: join.induct) auto

lemma join_cut: "join sep (pieces @ [p @ sep @ q]) = join sep (pieces @ [p, q])"
  using join_snoc [of "pieces @ [p]" sep q]
  by (cases "pieces = []") (simp_all add: join_snoc [of pieces])

lemma slice_drop: "start \<le> i \<Longrightarrow> i \<le> length s \<Longrightarrow> slice s start i @ drop i s = drop start s"
  using slice_append_slice [of start i "length s" s] by (simp add: slice_def)

text \<open>For a non-empty operator the loop ends, and its pieces joined by the operator are the source.\<close>

lemma split_loop_lossless:
  assumes "operator \<noteq> []" "start \<le> i \<or> length src \<le> i" "join operator (pieces @ [drop start src]) = src"
  shows "\<exists>r. split_loop src operator i start depth quote pieces = Some r
    \<and> (\<forall>ps. r = Inr ps \<longrightarrow> join operator ps = src)"
  using assms(2,3)
proof (induction "length src - i" arbitrary: i start depth quote pieces rule: less_induct)
  case less
  note unfold = split_loop.simps [of src operator i start depth quote pieces]
  show ?case
  proof (cases "i \<ge> length src")
    case True
    with less.prems(2) show ?thesis by (simp add: unfold)
  next
    case False
    with less.prems(1) have start: "start \<le> i" by simp
    have go: "\<exists>r. split_loop src operator j start depth quote pieces = Some r
        \<and> (\<forall>ps. r = Inr ps \<longrightarrow> join operator ps = src)" if "j = Suc i \<or> j = Suc (Suc i)" for j depth quote
      using that False start less.prems(2) by (intro less.hyps) auto
    have cut: "\<exists>r. split_loop src operator (i + length operator) (i + length operator) depth None
          (pieces @ [slice src start i]) = Some r \<and> (\<forall>ps. r = Inr ps \<longrightarrow> join operator ps = src)"
      if "startsWith (drop i src) operator" for depth
    proof -
      from that obtain rest where rest: "drop i src = operator @ rest" by (auto simp: startsWith_iff)
      then have "drop (i + length operator) src = rest"
        by (metis add.commute append_eq_conv_conj drop_drop)
      with rest False start have "drop start src = slice src start i @ operator @ drop (i + length operator) src"
        using slice_drop [of start i src] by simp
      then have "join operator (pieces @ [slice src start i] @ [drop (i + length operator) src]) = src"
        using less.prems(2) join_cut [of operator pieces "slice src start i"] by simp
      then show ?thesis
        using assms(1) False by (intro less.hyps) (auto simp: diff_less_mono2)
    qed
    show ?thesis
      using False go [of "Suc i"] go [of "Suc (Suc i)"] cut
      by (auto simp: unfold Let_def split: option.split)
  qed
qed

section \<open>Enclosing parentheses\<close>

text \<open>Whether the parenthesis that opens the text is closed by its last code unit.\<close>

function closes_at_end :: "jstr \<Rightarrow> nat \<Rightarrow> int \<Rightarrow> code_unit option \<Rightarrow> bool" where
  "closes_at_end s i depth quote =
     (if i \<ge> length s then False
      else let c = s ! i in
        case quote of
          Some q \<Rightarrow>
            if c = 92 then closes_at_end s (i + 2) depth quote
            else closes_at_end s (i + 1) depth (if c = q then None else quote)
        | None \<Rightarrow>
            if is_quote c then closes_at_end s (i + 1) depth (Some c)
            else let depth = (if c = 40 then depth + 1 else if c = 41 then depth - 1 else depth) in
              if depth = 0 then i = length s - 1 else closes_at_end s (i + 1) depth None)"
  by auto
termination by (relation "measure (\<lambda>(s, i, _). length s - i)") auto

declare closes_at_end.simps [simp del]

definition enclosed :: "jstr \<Rightarrow> bool" where
  "enclosed s \<longleftrightarrow> s \<noteq> [] \<and> hd s = 40 \<and> last s = 41 \<and> closes_at_end s 0 0 None"

text \<open>\<open>slice(1, -1)\<close>.\<close>

definition inner :: "jstr \<Rightarrow> jstr" where
  "inner s = slice s 1 (length s - 1)"

lemma length_inner: "s \<noteq> [] \<Longrightarrow> length (trim (inner s)) < length s"
  using length_trim_le [of "inner s"] by (cases s) (auto simp: inner_def slice_def)

function unwrap_loop :: "jstr \<Rightarrow> jstr" where
  "unwrap_loop s = (if enclosed s then unwrap_loop (trim (inner s)) else s)"
  by auto
termination by (relation "measure length") (auto simp: enclosed_def length_inner)

declare unwrap_loop.simps [simp del]

definition unwrapExpressionParens :: "jstr \<Rightarrow> jstr" where
  "unwrapExpressionParens s = unwrap_loop (trim s)"

lemma unwrap_loop_stops: "\<not> enclosed (unwrap_loop s)"
  by (induction s rule: unwrap_loop.induct) (simp add: unwrap_loop.simps)

lemma unwrap_loop_trimmed: "trim s = s \<Longrightarrow> trim (unwrap_loop s) = unwrap_loop s"
  by (induction s rule: unwrap_loop.induct) (simp add: unwrap_loop.simps)

definition outer_left :: "jstr \<Rightarrow> bool" where
  "outer_left a \<longleftrightarrow> list_all (\<lambda>c. c = 40 \<or> is_space c) a"

definition outer_right :: "jstr \<Rightarrow> bool" where
  "outer_right b \<longleftrightarrow> list_all (\<lambda>c. c = 41 \<or> is_space c) b"

lemma trim_parts: "\<exists>a b. s = a @ trim s @ b \<and> list_all is_space a \<and> list_all is_space b"
proof -
  define u where "u = dropWhile is_space s"
  have t: "trim s = rev (dropWhile is_space (rev u))" by (simp add: trim_def u_def)
  have "s = takeWhile is_space s @ u" by (simp add: u_def)
  moreover have "u = trim s @ rev (takeWhile is_space (rev u))"
    unfolding t by (metis rev_append rev_rev_ident takeWhile_dropWhile_id)
  moreover have "list_all is_space (takeWhile is_space s)" "list_all is_space (rev (takeWhile is_space (rev u)))"
    by (auto simp: list_all_iff dest: set_takeWhileD)
  ultimately show ?thesis by metis
qed

lemma enclosed_parts: "enclosed s \<Longrightarrow> s = [40] @ inner s @ [41]"
proof -
  assume e: "enclosed s"
  then have "length s \<noteq> 1" by (cases s) (auto simp: enclosed_def)
  with e show ?thesis
    by (cases s; cases "tl s" rule: rev_cases) (auto simp: enclosed_def inner_def slice_def)
qed

lemma unwrap_loop_parts:
  "\<exists>a b. s = a @ unwrap_loop s @ b \<and> outer_left a \<and> outer_right b
     \<and> length (filter (\<lambda>c. c = 40) a) = length (filter (\<lambda>c. c = 41) b)"
proof (induction s rule: unwrap_loop.induct)
  case (1 s)
  show ?case
  proof (cases "enclosed s")
    case True
    obtain a b where ab: "trim (inner s) = a @ unwrap_loop (trim (inner s)) @ b" "outer_left a" "outer_right b"
      "length (filter (\<lambda>c. c = 40) a) = length (filter (\<lambda>c. c = 41) b)"
      using "1.IH" [OF True] by blast
    obtain x y where xy: "inner s = x @ trim (inner s) @ y" "list_all is_space x" "list_all is_space y"
      using trim_parts by blast
    have no: "filter (\<lambda>c. c = 40) x = []" "filter (\<lambda>c. c = 41) y = []"
      using xy(2,3) by (auto simp: list_all_iff filter_empty_conv is_space_def)
    have "inner s = x @ a @ unwrap_loop s @ b @ y"
      using xy(1) ab(1) True unwrap_loop.simps [of s] by (metis append.assoc)
    then have "s = ([40] @ x @ a) @ unwrap_loop s @ (b @ y @ [41])"
      using enclosed_parts [OF True] by simp
    moreover have "outer_left ([40] @ x @ a)" "outer_right (b @ y @ [41])"
      using ab(2,3) xy(2,3) by (auto simp: outer_left_def outer_right_def list_all_iff)
    moreover have "length (filter (\<lambda>c. c = 40) ([40] @ x @ a)) = length (filter (\<lambda>c. c = 41) (b @ y @ [41]))"
      using no ab(4) by simp
    ultimately show ?thesis by blast
  next
    case False
    then have "s = [] @ unwrap_loop s @ []" by (simp add: unwrap_loop.simps [of s])
    moreover have "outer_left []" "outer_right []" by (simp_all add: outer_left_def outer_right_def)
    ultimately show ?thesis by (metis filter.simps(1))
  qed
qed

section \<open>Properties\<close>

text \<open>
  C23: Cutting loses nothing. With a non-empty operator the function returns, either the whole trimmed
  source, or the non-empty trimmed pieces of a cut of the source: pieces that joined by the operator give
  the source back.
\<close>

theorem split_lossless:
  assumes "operator \<noteq> []"
  shows "\<exists>parts. splitExpressionAtTopLevel src operator = Some parts
    \<and> (parts = [trim src] \<or> (\<exists>pieces. join operator pieces = src \<and> parts = filter (\<lambda>p. p \<noteq> []) (map trim pieces)))"
proof -
  from split_loop_lossless [of operator 0 0 src "[]" 0 None] assms obtain r where
    r: "split_loop src operator 0 0 0 None [] = Some r" "\<forall>ps. r = Inr ps \<longrightarrow> join operator ps = src" by auto
  then show ?thesis by (cases r) (auto simp: splitExpressionAtTopLevel_def)
qed

theorem split_lossless_witness:
  "splitExpressionAtTopLevel (js ''a + (b + c) + \"+\"'') (js ''+'') = Some [js ''a'', js ''(b + c)'', js ''\"+\"'']
   \<and> (\<exists>pieces. join (js ''+'') pieces = js ''a + (b + c) + \"+\"''
        \<and> [js ''a'', js ''(b + c)'', js ''\"+\"''] = filter (\<lambda>p. p \<noteq> []) (map trim pieces))"
proof -
  have e: "splitExpressionAtTopLevel (js ''a + (b + c) + \"+\"'') (js ''+'')
      = Some [js ''a'', js ''(b + c)'', js ''\"+\"'']" by code_simp
  have "js ''+'' \<noteq> []" by simp
  from split_lossless [OF this, of "js ''a + (b + c) + \"+\"''"] e show ?thesis by auto
qed

text \<open>
  Unwrapping removes only white space and matched parentheses around the expression, as many on the
  left as on the right, leaves a trimmed expression that is not enclosed, and is idempotent.
\<close>

theorem unwrap_removes_parentheses:
  "unwrapExpressionParens (unwrapExpressionParens s) = unwrapExpressionParens s
   \<and> \<not> enclosed (unwrapExpressionParens s)
   \<and> trim (unwrapExpressionParens s) = unwrapExpressionParens s
   \<and> (\<exists>a b. s = a @ unwrapExpressionParens s @ b \<and> outer_left a \<and> outer_right b
        \<and> length (filter (\<lambda>c. c = 40) a) = length (filter (\<lambda>c. c = 41) b))"
proof -
  let ?u = "unwrap_loop (trim s)"
  have trimmed: "trim ?u = ?u" by (simp add: unwrap_loop_trimmed)
  have stops: "\<not> enclosed ?u" by (rule unwrap_loop_stops)
  obtain x y where xy: "s = x @ trim s @ y" "list_all is_space x" "list_all is_space y"
    using trim_parts by blast
  obtain a b where ab: "trim s = a @ ?u @ b" "outer_left a" "outer_right b"
    "length (filter (\<lambda>c. c = 40) a) = length (filter (\<lambda>c. c = 41) b)" using unwrap_loop_parts by blast
  have "filter (\<lambda>c. c = 40) x = []" "filter (\<lambda>c. c = 41) y = []"
    using xy(2,3) by (auto simp: list_all_iff filter_empty_conv is_space_def)
  moreover have "s = (x @ a) @ ?u @ (b @ y)" using xy(1) ab(1) by (metis append.assoc)
  moreover have "outer_left (x @ a)" "outer_right (b @ y)"
    using ab(2,3) xy(2,3) by (auto simp: outer_left_def outer_right_def list_all_iff)
  ultimately have "\<exists>a b. s = a @ ?u @ b \<and> outer_left a \<and> outer_right b
        \<and> length (filter (\<lambda>c. c = 40) a) = length (filter (\<lambda>c. c = 41) b)"
    using ab(4) by (intro exI [of _ "x @ a"] exI [of _ "b @ y"]) simp
  with trimmed stops show ?thesis
    by (simp add: unwrapExpressionParens_def unwrap_loop.simps [of ?u])
qed

end
