(* ===== verification/JsDecimal.thy ===== *)
theory JsDecimal
  imports JsNumber
begin

text \<open>
  Decimal texts and the numbers they stand for: the digits of integers, the texts of the forms
  \<open>Number::toString\<close> writes, and that reading such a text gives the number back. A number reads back where
  the search for its shortest digits ends with digits that round to it, which the standard guarantees for
  every double; for the integers up to \<open>2 ^ 53\<close> it is proved here.
\<close>

section \<open>Digits\<close>

lemma digits_value_snoc: "digits_value acc (s @ [c]) = 10 * digits_value acc s + (c - 48)"
  by (induction s arbitrary: acc) auto

lemma digits_value_append_digits: "digits_value acc (s @ t) = digits_value (digits_value acc s) t"
  by (induction s arbitrary: acc) auto

lemma digits_value_zeros: "digits_value acc (replicate n 48) = acc * 10 ^ n"
  by (induction n arbitrary: acc) auto

lemma digits_value_leading_zeros: "digits_value 0 (replicate n 48 @ s) = digits_value 0 s"
  by (induction n) auto

lemma int_text_value: "0 \<le> n \<Longrightarrow> list_all is_digit (int_text n) \<and> int_text n \<noteq> [] \<and> digits_value 0 (int_text n) = n"
proof (induction n rule: int_text.induct)
  case (1 n)
  show ?case
  proof (cases "n < 10")
    case True
    with "1.prems" show ?thesis by (simp add: int_text.simps [of n] is_digit_def)
  next
    case False
    with "1.IH" have "list_all is_digit (int_text (n div 10)) \<and> digits_value 0 (int_text (n div 10)) = n div 10"
      by simp
    moreover have "is_digit (48 + n mod 10)"
      using pos_mod_bound [of 10 n] by (simp add: is_digit_def)
    ultimately show ?thesis
      using False by (simp add: int_text.simps [of n] digits_value_snoc)
  qed
qed

lemma hd_int_text: "0 < n \<Longrightarrow> hd (int_text n) \<noteq> 48"
proof (induction n rule: int_text.induct)
  case (1 n)
  show ?case
  proof (cases "n < 10")
    case True
    with "1.prems" show ?thesis by (simp add: int_text.simps [of n])
  next
    case False
    then have "int_text (n div 10) \<noteq> []" using int_text_value [of "n div 10"] by simp
    with False "1.IH" show ?thesis by (simp add: int_text.simps [of n])
  qed
qed

lemma length_int_text: "0 < n \<Longrightarrow> 10 ^ (length (int_text n) - 1) \<le> n \<and> n < 10 ^ length (int_text n)"
proof (induction n rule: int_text.induct)
  case (1 n)
  show ?case
  proof (cases "n < 10")
    case True
    with "1.prems" show ?thesis by (simp add: int_text.simps [of n])
  next
    case False
    define l where "l = length (int_text (n div 10))"
    have "0 < l" using int_text_value [of "n div 10"] False by (simp add: l_def)
    have "10 ^ (l - 1) \<le> n div 10 \<and> n div 10 < 10 ^ l"
      using "1.IH" False by (simp add: l_def)
    then have "10 * 10 ^ (l - 1) \<le> n \<and> n < 10 * 10 ^ l" by auto
    with \<open>0 < l\<close> have "10 ^ l \<le> n \<and> n < 10 ^ Suc l" by (cases l) simp_all
    moreover have "length (int_text n) = Suc l"
      using False by (simp add: int_text.simps [of n] l_def)
    ultimately show ?thesis by simp
  qed
qed

lemma length_int_text_unique:
  assumes "10 ^ k \<le> n" "n < 10 ^ Suc k"
  shows "length (int_text n) = Suc k"
proof -
  have "0 < n" using assms(1) by (smt (verit) zero_less_power)
  from length_int_text [OF this] have l: "10 ^ (length (int_text n) - 1) \<le> n" "n < 10 ^ length (int_text n)" by auto
  have "length (int_text n) - 1 < Suc k"
    using l(1) assms(2) by (metis le_less_trans power_less_imp_less_exp one_less_numeral_iff semiring_norm(76))
  moreover have "k < length (int_text n)"
    using l(2) assms(1) by (metis le_less_trans power_less_imp_less_exp one_less_numeral_iff semiring_norm(76))
  ultimately show ?thesis by simp
qed

section \<open>Powers of ten\<close>

lemma pow10_add: "pow10 (a + b) = pow10 a * pow10 b"
proof -
  have pow: "pow10 k = 10 powi k" for k
    by (simp add: pow10_def power_int_def field_simps)
  show ?thesis by (simp add: pow power_int_add)
qed

lemma pow10_nat [simp]: "pow10 (int n) = 10 ^ n"
  by (simp add: pow10_def)

lemma pow10_pos: "0 < pow10 k"
  by (simp add: pow10_def)

section \<open>Matching decimal texts\<close>

definition ends_number :: "jstr \<Rightarrow> bool" where
  "ends_number rest \<longleftrightarrow> rest = [] \<or> \<not> is_digit (hd rest) \<and> hd rest \<notin> {46, 101, 69}"

lemma digits_prefix:
  "list_all is_digit ds \<Longrightarrow> rest = [] \<or> \<not> is_digit (hd rest) \<Longrightarrow>
   takeWhile is_digit (ds @ rest) = ds \<and> drop (length ds) (ds @ rest) = rest"
  by (induction ds) (auto simp: takeWhile_eq_Nil_iff)

lemma match_exponent_none: "ends_number rest \<Longrightarrow> match_exponent rest = None"
  by (cases rest) (auto simp: match_exponent_def ends_number_def)

lemma match_exponent_some:
  assumes "ends_number rest"
  shows "match_exponent (exponent_text e @ rest) = Some (e, length (exponent_text e))"
proof -
  have ds: "list_all is_digit (int_text \<bar>e\<bar>)" "int_text \<bar>e\<bar> \<noteq> []" "digits_value 0 (int_text \<bar>e\<bar>) = \<bar>e\<bar>"
    using int_text_value [of "\<bar>e\<bar>"] by simp_all
  have "rest = [] \<or> \<not> is_digit (hd rest)" using assms by (auto simp: ends_number_def)
  then have "takeWhile is_digit (int_text \<bar>e\<bar> @ rest) = int_text \<bar>e\<bar>"
    using digits_prefix ds(1) by blast
  moreover have "js ''e+'' = [101, 43]" "js ''e-'' = [101, 45]" by code_simp+
  ultimately show ?thesis
    using ds by (cases "0 \<le> e") (simp_all add: match_exponent_def exponent_text_def Let_def)
qed

text \<open>The parts of a decimal text, and how they are matched before a rest that cannot go on with them.\<close>

definition decimal_text :: "jstr \<Rightarrow> jstr option \<Rightarrow> int option \<Rightarrow> jstr" where
  "decimal_text ids fds e =
     ids @ (case fds of None \<Rightarrow> [] | Some ds \<Rightarrow> 46 # ds) @ (case e of None \<Rightarrow> [] | Some v \<Rightarrow> exponent_text v)"

lemma exponent_text_start: "\<exists>t. exponent_text e = 101 # t"
proof -
  have "js ''e+'' = [101, 43]" "js ''e-'' = [101, 45]" by code_simp+
  then show ?thesis by (simp add: exponent_text_def)
qed

lemma match_decimal_text:
  assumes ids: "list_all is_digit ids" "ids \<noteq> []"
    and fds: "\<forall>ds. fds = Some ds \<longrightarrow> list_all is_digit ds"
    and rest: "ends_number rest"
  shows "match_decimal (decimal_text ids fds e @ rest) = Some
    \<lparr>int_digits = ids, has_point = (fds \<noteq> None), frac_digits = (case fds of None \<Rightarrow> [] | Some ds \<Rightarrow> ds),
     has_exp = (e \<noteq> None), exp_value = (case e of None \<Rightarrow> 0 | Some v \<Rightarrow> v),
     match_length = length (decimal_text ids fds e)\<rparr>"
proof -
  let ?e = "(case e of None \<Rightarrow> [] | Some v \<Rightarrow> exponent_text v) @ rest"
  have stop: "?e = [] \<or> \<not> is_digit (hd ?e) \<and> hd ?e \<noteq> 46"
  proof (cases e)
    case None
    with rest show ?thesis by (auto simp: ends_number_def)
  next
    case (Some v)
    obtain t where "exponent_text v = 101 # t" using exponent_text_start by blast
    with Some show ?thesis by (simp add: is_digit_def)
  qed
  have exp: "match_exponent ?e = (case e of None \<Rightarrow> None | Some v \<Rightarrow> Some (v, length (exponent_text v)))"
    using rest by (cases e) (simp_all add: match_exponent_none match_exponent_some)
  show ?thesis
  proof (cases fds)
    case None
    have "takeWhile is_digit (ids @ ?e) = ids \<and> drop (length ids) (ids @ ?e) = ?e"
      using digits_prefix [OF ids(1), of ?e] stop by blast
    with None ids stop exp show ?thesis
      by (cases e) (auto simp: match_decimal_def decimal_text_def Let_def)
  next
    case (Some ds)
    have "takeWhile is_digit (ids @ 46 # ds @ ?e) = ids \<and> drop (length ids) (ids @ 46 # ds @ ?e) = 46 # ds @ ?e"
      using digits_prefix [OF ids(1), of "46 # ds @ ?e"] by (simp add: is_digit_def)
    moreover have "takeWhile is_digit (ds @ ?e) = ds \<and> drop (length ds) (ds @ ?e) = ?e"
      using digits_prefix [of ds ?e] fds Some stop by blast
    ultimately show ?thesis
      using Some ids exp by (cases e) (auto simp: match_decimal_def decimal_text_def Let_def)
  qed
qed

section \<open>The forms of \<open>Number::toString\<close>\<close>

text \<open>The digits of \<open>s * 10 ^ (n - k)\<close>, where \<open>s\<close> has \<open>k\<close> digits, as \<open>pos_to_string\<close> lays them out.\<close>

definition layout :: "int \<Rightarrow> int \<Rightarrow> nat \<Rightarrow> jstr \<times> jstr option \<times> int option" where
  "layout s n k =
     (let ds = int_text s in
      if int k \<le> n \<and> n \<le> 21 then (ds @ replicate (nat n - k) 48, None, None)
      else if 0 < n \<and> n \<le> 21 then (take (nat n) ds, Some (drop (nat n) ds), None)
      else if - 6 < n \<and> n \<le> 0 then ([48], Some (replicate (nat (- n)) 48 @ ds), None)
      else if length ds = 1 then (ds, None, Some (n - 1))
      else (take 1 ds, Some (drop 1 ds), Some (n - 1)))"

lemma pos_to_string_layout:
  "shortest_digits r 1 16 = (s, n, k) \<Longrightarrow>
   pos_to_string r = (case layout s n k of (ids, fds, e) \<Rightarrow> decimal_text ids fds e)"
proof -
  have "js ''0.'' = [48, 46]" "js ''.'' = [46]" by code_simp+
  then show "shortest_digits r 1 16 = (s, n, k) \<Longrightarrow> ?thesis"
    by (simp add: pos_to_string_def layout_def decimal_text_def mantissa_text_def Let_def)
qed

lemma layout_value:
  assumes "0 < s" "length (int_text s) = k" "layout s n k = (ids, fds, e)"
  shows "list_all is_digit ids \<and> ids \<noteq> [] \<and> (\<forall>ds. fds = Some ds \<longrightarrow> list_all is_digit ds \<and> ds \<noteq> [])
    \<and> (hd ids = 48 \<longrightarrow> length ids = 1)
    \<and> of_int (digits_value 0 (ids @ (case fds of None \<Rightarrow> [] | Some ds \<Rightarrow> ds)))
        * pow10 ((case e of None \<Rightarrow> 0 | Some v \<Rightarrow> v) - int (length (case fds of None \<Rightarrow> [] | Some ds \<Rightarrow> ds)))
      = of_int s * pow10 (n - int k)"
proof -
  define ds where "ds = int_text s"
  have ds: "list_all is_digit ds" "ds \<noteq> []" "digits_value 0 ds = s" "hd ds \<noteq> 48" "length ds = k"
    using int_text_value [of s] hd_int_text [of s] assms(1,2) by (simp_all add: ds_def)
  consider (whole) "int k \<le> n" "n \<le> 21" | (split) "\<not> int k \<le> n" "0 < n" "n \<le> 21"
    | (small) "\<not> int k \<le> n" "- 6 < n" "n \<le> 0" | (single) "n \<le> -6 \<or> 21 < n" "k = 1" | (mantissa) "n \<le> -6 \<or> 21 < n" "k \<noteq> 1"
    by linarith
  then show ?thesis
  proof cases
    case whole
    define z where "z = nat n - k"
    have n: "n - int k = int z" using whole by (simp add: z_def)
    have parts: "ids = ds @ replicate z 48" "fds = None" "e = None"
      using assms(3) whole by (simp_all add: layout_def Let_def ds_def z_def)
    have "digits_value 0 ids = s * 10 ^ z"
      by (simp add: parts digits_value_append_digits digits_value_zeros ds)
    moreover have "pow10 0 = 1" by (simp add: pow10_def)
    ultimately show ?thesis
      using ds unfolding n by (auto simp: parts list_all_iff is_digit_def hd_append)
  next
    case split
    then have parts: "ids = take (nat n) ds" "fds = Some (drop (nat n) ds)" "e = None"
      using assms(3) by (auto simp: layout_def Let_def ds_def)
    have "nat n < length ds" "0 < nat n" using split ds by auto
    moreover have "0 - int (length (drop (nat n) ds)) = n - int k" using split ds by auto
    ultimately show ?thesis
      using ds unfolding parts
      by (auto simp: list_all_iff dest: in_set_takeD in_set_dropD)
  next
    case small
    then have "ids = [48]" "fds = Some (replicate (nat (- n)) 48 @ ds)" "e = None"
      using assms(3) ds by (auto simp: layout_def Let_def ds_def)
    moreover have "0 - int (length (replicate (nat (- n)) (48::int) @ ds)) = n - int k" using small ds by simp
    ultimately show ?thesis
      using ds digits_value_leading_zeros [of "Suc (nat (- n))" ds] by (auto simp: list_all_iff is_digit_def)
  next
    case single
    then have "ids = ds" "fds = None" "e = Some (n - 1)"
      using assms(3) ds by (auto simp: layout_def Let_def ds_def)
    with single ds show ?thesis by simp
  next
    case mantissa
    then have parts: "ids = take 1 ds" "fds = Some (drop 1 ds)" "e = Some (n - 1)"
      using assms(3) ds by (auto simp: layout_def Let_def ds_def)
    moreover have "2 \<le> length ds" using mantissa ds by (cases ds) (auto simp: Suc_le_eq)
    moreover from this have "n - 1 - int (length (drop 1 ds)) = n - int k" using ds by auto
    ultimately show ?thesis
      using ds unfolding parts
      by (auto simp: list_all_iff dest: in_set_takeD in_set_dropD)
  qed
qed

section \<open>Numbers that read back\<close>

text \<open>The search ends with digits that round to the value.\<close>

definition shortest_exact :: "rat \<Rightarrow> bool" where
  "shortest_exact r \<longleftrightarrow>
     (case shortest_digits r 1 16 of (s, n, k) \<Rightarrow>
        0 < s \<and> length (int_text s) = k \<and> fl False (of_int s * pow10 (n - int k)) = Fin r)"

fun readable_number :: "jsnum \<Rightarrow> bool" where
  "readable_number (Fin r) = (r = 0 \<or> shortest_exact \<bar>r\<bar>)"
| "readable_number _ = False"

text \<open>The value of a text that is laid out.\<close>

lemma layout_decimal:
  assumes "0 < s" "length (int_text s) = k" "layout s n k = (ids, fds, e)" "ends_number rest"
  shows "\<exists>d. match_decimal (decimal_text ids fds e @ rest) = Some d
    \<and> match_length d = length (decimal_text ids fds e)
    \<and> int_digits d \<noteq> [] \<and> \<not> (hd (int_digits d) = 48 \<and> 1 < length (int_digits d))
    \<and> \<not> (has_point d \<and> frac_digits d = [])
    \<and> decimal_value d = fl False (of_int s * pow10 (n - int k))"
proof -
  note laid = layout_value [OF assms(1-3)]
  then have "match_decimal (decimal_text ids fds e @ rest) = Some
    \<lparr>int_digits = ids, has_point = (fds \<noteq> None), frac_digits = (case fds of None \<Rightarrow> [] | Some ds \<Rightarrow> ds),
     has_exp = (e \<noteq> None), exp_value = (case e of None \<Rightarrow> 0 | Some v \<Rightarrow> v),
     match_length = length (decimal_text ids fds e)\<rparr>"
    using match_decimal_text assms(4) by blast
  with laid show ?thesis
    by (auto simp: decimal_value_def decimal_rat_def)
qed

lemma pos_to_string_decimal:
  assumes "shortest_exact r" "ends_number rest"
  shows "\<exists>d. match_decimal (pos_to_string r @ rest) = Some d
    \<and> match_length d = length (pos_to_string r)
    \<and> int_digits d \<noteq> [] \<and> \<not> (hd (int_digits d) = 48 \<and> 1 < length (int_digits d))
    \<and> \<not> (has_point d \<and> frac_digits d = [])
    \<and> decimal_value d = Fin r"
proof -
  obtain s n k where sd: "shortest_digits r 1 16 = (s, n, k)" by (cases "shortest_digits r 1 16")
  obtain ids fds e where l: "layout s n k = (ids, fds, e)" by (cases "layout s n k")
  from layout_decimal [OF _ _ l assms(2)] assms(1) sd pos_to_string_layout [OF sd] l show ?thesis
    by (auto simp: shortest_exact_def)
qed

lemma pos_to_string_start:
  assumes "shortest_exact r"
  shows "\<exists>c t. pos_to_string r = c # t \<and> is_digit c"
proof -
  from pos_to_string_decimal [OF assms, of "[]"] obtain d where
    d: "match_decimal (pos_to_string r) = Some d" "int_digits d \<noteq> []" by (auto simp: ends_number_def)
  then have "takeWhile is_digit (pos_to_string r) \<noteq> []"
    by (auto simp: match_decimal_def Let_def split: if_splits option.splits prod.splits)
  then show ?thesis by (cases "pos_to_string r") (auto split: if_splits)
qed

section \<open>Integers\<close>

lemma flog2_bound: "0 < n \<Longrightarrow> 2 ^ nat (flog2 n) \<le> n \<and> 0 \<le> flog2 n"
proof (induction n rule: flog2.induct)
  case (1 n)
  show ?case
  proof (cases "n < 2")
    case True
    with "1.prems" show ?thesis by (simp add: flog2.simps [of n])
  next
    case False
    with "1.IH" have IH: "2 ^ nat (flog2 (n div 2)) \<le> n div 2" "0 \<le> flog2 (n div 2)" by auto
    then have "nat (flog2 n) = Suc (nat (flog2 (n div 2)))"
      using False by (simp add: flog2.simps [of n])
    moreover have "2 * (n div 2) \<le> n" "flog2 n = 1 + flog2 (n div 2)"
      using False by (simp_all add: flog2.simps [of n])
    ultimately show ?thesis using IH by (simp only: power_Suc) linarith
  qed
qed

lemma fl_int:
  assumes "0 < n" "n < 2 ^ 53"
  shows "fl False (of_int n) = Fin (of_int n)"
proof -
  have "flog2 n \<le> 52"
  proof (rule ccontr)
    assume "\<not> flog2 n \<le> 52"
    then have "(2::int) ^ 53 \<le> 2 ^ nat (flog2 n)" by (intro power_increasing) auto
    with flog2_bound [OF assms(1)] assms(2) show False by linarith
  qed
  define u where "u = nat (52 - flog2 n)"
  have flog: "flog2 n = 52 - int u" "u \<le> 52"
    using \<open>flog2 n \<le> 52\<close> flog2_bound [OF assms(1)] by (auto simp: u_def)
  have e: "ulp_exponent (of_int n) = - int u"
    using assms(1) flog by (simp add: ulp_exponent_def exponent_def)
  have p: "pow2 (- int u) = 1 / of_int (2 ^ u)"
    by (cases u) (simp_all add: pow2_def nat_add_distrib)
  have "round_half_even (of_int n * of_int (2 ^ u)) = n * 2 ^ u"
  proof -
    have "of_int n * of_int (2 ^ u) = (of_int (n * 2 ^ u) :: rat)" by simp
    then show ?thesis unfolding round_half_even_def Let_def by (simp only: floor_of_int) simp
  qed
  then have "round_mag (of_int n) = of_int n"
    by (simp add: round_mag_def e p)
  moreover have "of_int n < max_bound"
  proof -
    have "n < 2 ^ 1024" using assms(2) by (rule less_le_trans) simp
    then show ?thesis by (simp only: max_bound_def of_int_less_iff)
  qed
  ultimately show ?thesis using assms(1) by (simp add: fl_def Let_def)
qed

text \<open>A candidate has as many digits as were asked for, and rounds to the value.\<close>

lemma int_digits_bounds:
  fixes r :: int
  assumes "0 < r"
  defines "n \<equiv> exponent10 (of_int r) + 1"
  shows "n = int (length (int_text r))" "pow10 (n - 1) \<le> of_int r" "of_int r < pow10 n"
proof -
  have "0 < length (int_text r)" using int_text_value [of r] assms by simp
  then obtain l where l: "length (int_text r) = Suc l" by (cases "length (int_text r)") auto
  show n: "n = int (length (int_text r))"
    using assms by (simp add: exponent10_def)
  have "10 ^ l \<le> r \<and> r < 10 ^ Suc l" using length_int_text [OF assms(1)] l by simp
  then have "of_int (10 ^ l) \<le> (of_int r :: rat)" "(of_int r :: rat) < of_int (10 ^ Suc l)"
    by (simp_all only: of_int_le_iff of_int_less_iff)
  moreover have "n - 1 = int l" "n = int (Suc l)" using n l by simp_all
  ultimately show "pow10 (n - 1) \<le> of_int r" "of_int r < pow10 n"
    by (simp_all only: pow10_nat of_int_power of_int_numeral)
qed

lemma digit_candidates_found:
  fixes r :: int
  assumes found: "(s, m) \<in> set (digit_candidates (of_int r) k)" and r: "0 < r" and k: "0 < k"
  shows "0 < s \<and> length (int_text s) = k \<and> fl False (of_int s * pow10 (m - int k)) = Fin (of_int r)"
proof -
  define n where "n = exponent10 (of_int r) + 1"
  define q where "q = of_int r / pow10 (n - int k)"
  note bounds = int_digits_bounds [OF r, folded n_def]
  have split: "pow10 (n - 1) = pow10 (int (k - 1)) * pow10 (n - int k)" "pow10 n = pow10 (int k) * pow10 (n - int k)"
    using k pow10_add [of "int (k - 1)" "n - int k"] pow10_add [of "int k" "n - int k"]
    by (simp_all only: of_nat_diff) (simp_all add: algebra_simps)
  have "pow10 (int (k - 1)) \<le> q" "q < pow10 (int k)"
    using bounds(2,3) pow10_pos [of "n - int k"] unfolding split q_def
    by (simp_all add: pos_le_divide_eq pos_divide_less_eq)
  then have "(of_int (10 ^ (k - 1)) :: rat) \<le> q" "q < of_int (10 ^ k)"
    by simp_all
  then have lo: "10 ^ (k - 1) \<le> \<lfloor>q\<rfloor>" "\<lfloor>q\<rfloor> < 10 ^ k"
    by (simp_all only: le_floor_iff floor_less_iff)
  let ?pair = "\<lambda>s. if s = 10 ^ k then (10 ^ (k - 1), n + 1) else (s, n)"
  have digits: "0 < fst (?pair t) \<and> length (int_text (fst (?pair t))) = k" if "10 ^ (k - 1) \<le> t" "t \<le> 10 ^ k" for t :: int
  proof -
    obtain j where j: "k = Suc j" using k by (cases k) auto
    have "(0::int) < 10 ^ j" by simp
    show ?thesis
      using that length_int_text_unique [of j t] length_int_text_unique [of j "10 ^ j"] \<open>(0::int) < 10 ^ j\<close>
      unfolding j by (auto simp del: power_Suc) (simp_all add: order_less_le)
  qed
  from found have rounds: "fl False (of_int s * pow10 (m - int k)) = Fin (of_int r)"
    and "(s, m) = ?pair \<lfloor>q\<rfloor> \<or> (s, m) = ?pair (\<lfloor>q\<rfloor> + 1)"
    by (auto simp: digit_candidates_def Let_def q_def n_def split: if_splits)
  then obtain t where t: "t = \<lfloor>q\<rfloor> \<or> t = \<lfloor>q\<rfloor> + 1" "(s, m) = ?pair t" by blast
  have "s = fst (?pair t)" unfolding t(2) [symmetric] by simp
  moreover have "10 ^ (k - 1) \<le> t" "t \<le> 10 ^ k" using t(1) lo by auto
  ultimately show ?thesis using digits rounds by simp
qed

lemma digit_candidates_exist:
  fixes r :: int
  assumes "0 < r" "r < 2 ^ 53" "k = length (int_text r)"
  shows "digit_candidates (of_int r) k \<noteq> []"
proof -
  have n: "exponent10 (of_int r) + 1 = int k"
    using int_digits_bounds(1) [OF assms(1)] assms(3) by simp
  have "r \<noteq> 10 ^ k" using length_int_text [OF assms(1)] assms(3) by auto
  moreover have "pow10 0 = 1" by (simp add: pow10_def)
  ultimately show ?thesis
    using fl_int [OF assms(1,2)] by (simp add: digit_candidates_def n Let_def)
qed

lemma shortest_digits_found:
  fixes r :: int
  assumes r: "0 < r" "r < 2 ^ 53"
  shows "0 < k \<Longrightarrow> k \<le> length (int_text r) \<Longrightarrow> length (int_text r) < k + j \<Longrightarrow>
    case shortest_digits (of_int r) k j of (s, n, i) \<Rightarrow>
      0 < s \<and> length (int_text s) = i \<and> fl False (of_int s * pow10 (n - int i)) = Fin (of_int r)"
proof (induction j arbitrary: k)
  case (Suc j)
  show ?case
  proof (cases "digit_candidates (of_int r) k")
    case Nil
    with digit_candidates_exist [OF r] have "k \<noteq> length (int_text r)" by auto
    with Suc.IH [of "Suc k"] Suc.prems Nil show ?thesis by simp
  next
    case (Cons c cs)
    then show ?thesis
      using digit_candidates_found [of "fst c" "snd c" r k] r Suc.prems(1) by (cases c) simp
  qed
qed simp

lemma int_readable:
  assumes "\<bar>n\<bar> < 2 ^ 53"
  shows "readable_number (Fin (of_int n))"
proof (cases "n = 0")
  case False
  define r where "r = \<bar>n\<bar>"
  have r: "0 < r" "r < 2 ^ 53" using False assms by (auto simp: r_def)
  have "length (int_text r) < 17"
  proof (rule ccontr)
    assume "\<not> length (int_text r) < 17"
    then have "(10::int) ^ 16 \<le> 10 ^ (length (int_text r) - 1)" by (intro power_increasing) auto
    with length_int_text [OF r(1)] r(2) show False by simp
  qed
  moreover have "1 \<le> length (int_text r)" using int_text_value [of r] r by (simp add: Suc_le_eq)
  ultimately have "shortest_exact (of_int r)"
    using shortest_digits_found [OF r, of 1 16] by (simp add: shortest_exact_def)
  then show ?thesis by (simp add: r_def)
qed simp

end
