(* ===== verification/StatusCodes.thy ===== *)
theory StatusCodes
  imports JsDecimal "HOL-Library.Product_Lexorder"
begin

text \<open>
  \<open>lib/http-status-code-rules.ts\<close>: the comma-separated list of HTTP status codes and ranges. The
  parser normalizes a list to its canonical form: sorted, with overlapping and adjacent ranges merged.
  \<open>Number.parseInt\<close> on digits is the integer itself: a double holds every integer up to \<open>2 ^ 53\<close>
  exactly, and larger ones stay above the bound 599, so the range test has the same outcome.
\<close>

section \<open>Parsing\<close>

record StatusCodeRange =
  range_start :: int
  range_end :: int

record ParsedHttpStatusCodeRules =
  rules_ok :: bool
  rules_ranges :: "StatusCodeRange list"
  rules_tokens :: "jstr list"
  rules_normalized :: jstr
  rules_invalidTokens :: "jstr list"

text \<open>\<open>/^\d+$/\<close>.\<close>

definition isNumber :: "jstr \<Rightarrow> bool" where
  "isNumber s \<longleftrightarrow> s \<noteq> [] \<and> list_all is_digit s"

definition isValidCode :: "int \<Rightarrow> bool" where
  "isValidCode code \<longleftrightarrow> 100 \<le> code \<and> code \<le> 599"

definition parseToken :: "jstr \<Rightarrow> StatusCodeRange option" where
  "parseToken token =
     (let cleaned = filter (\<lambda>c. \<not> is_space c) (trim token) in
      if cleaned = [] then None
      else if 45 \<in> set cleaned then
        (case split_at 45 cleaned of
           a # b # _ \<Rightarrow>
             if \<not> isNumber a \<or> \<not> isNumber b then None
             else let first = digits_value 0 a; final = digits_value 0 b in
               if \<not> isValidCode first \<or> \<not> isValidCode final \<or> first > final then None
               else Some \<lparr>range_start = first, range_end = final\<rparr>
         | _ \<Rightarrow> None)
      else if \<not> isNumber cleaned then None
      else let code = digits_value 0 cleaned in
        if \<not> isValidCode code then None else Some \<lparr>range_start = code, range_end = code\<rparr>)"

section \<open>Merging\<close>

definition merge_step :: "StatusCodeRange list \<Rightarrow> StatusCodeRange \<Rightarrow> StatusCodeRange list" where
  "merge_step merged current =
     (if merged = [] \<or> range_start current > range_end (last merged) + 1 then merged @ [current]
      else butlast merged
        @ [(last merged)\<lparr>range_end := max (range_end (last merged)) (range_end current)\<rparr>])"

definition mergeRanges :: "StatusCodeRange list \<Rightarrow> StatusCodeRange list" where
  "mergeRanges ranges =
     foldl merge_step [] (sort_key (\<lambda>r. (range_start r, range_end r)) ranges)"

definition range_token :: "StatusCodeRange \<Rightarrow> jstr" where
  "range_token r =
     (if range_start r = range_end r then int_text (range_start r)
      else int_text (range_start r) @ js ''-'' @ int_text (range_end r))"

text \<open>The full-width comma U+FF0C counts as a comma.\<close>

definition rule_segments :: "jstr \<Rightarrow> jstr list" where
  "rule_segments raw =
     filter (\<lambda>s. s \<noteq> []) (map trim (split_at 44 (map (\<lambda>c. if c = 65292 then 44 else c) raw)))"

text \<open>The argument is the text of the input; \<open>null\<close> and \<open>undefined\<close> are the empty text.\<close>

definition parseHttpStatusCodeRules :: "jstr \<Rightarrow> ParsedHttpStatusCodeRules" where
  "parseHttpStatusCodeRules input =
     (let raw = trim input in
      if raw = [] then
        \<lparr>rules_ok = True, rules_ranges = [], rules_tokens = [], rules_normalized = [], rules_invalidTokens = []\<rparr>
      else
        let segments = rule_segments raw;
            invalidTokens = filter (\<lambda>s. parseToken s = None) segments in
        if invalidTokens \<noteq> [] then
          \<lparr>rules_ok = False, rules_ranges = [], rules_tokens = [], rules_normalized = raw,
           rules_invalidTokens = invalidTokens\<rparr>
        else
          let merged = mergeRanges (List.map_filter parseToken segments); tokens = map range_token merged in
          \<lparr>rules_ok = True, rules_ranges = merged, rules_tokens = tokens,
           rules_normalized = join (js '','') tokens, rules_invalidTokens = []\<rparr>)"

section \<open>The canonical form\<close>

definition codes :: "StatusCodeRange list \<Rightarrow> int set" where
  "codes ranges = {c. \<exists>r \<in> set ranges. range_start r \<le> c \<and> c \<le> range_end r}"

definition valid_range :: "StatusCodeRange \<Rightarrow> bool" where
  "valid_range r \<longleftrightarrow> 100 \<le> range_start r \<and> range_start r \<le> range_end r \<and> range_end r \<le> 599"

text \<open>Neighbours are separated by at least one code.\<close>

fun canonical :: "StatusCodeRange list \<Rightarrow> bool" where
  "canonical [] = True"
| "canonical [r] = (range_start r \<le> range_end r)"
| "canonical (r # q # rs) =
     (range_start r \<le> range_end r \<and> range_end r + 1 < range_start q \<and> canonical (q # rs))"

lemma codes_simps [simp]:
  "codes [] = {}" "codes (r # rs) = {range_start r..range_end r} \<union> codes rs"
  "codes (rs @ qs) = codes rs \<union> codes qs"
  by (auto simp: codes_def)

lemma canonical_ranges: "canonical rs \<Longrightarrow> r \<in> set rs \<Longrightarrow> range_start r \<le> range_end r"
  by (induction rs rule: canonical.induct) auto

lemma canonical_snoc:
  "canonical (rs @ [r, q]) \<longleftrightarrow> canonical (rs @ [r]) \<and> range_end r + 1 < range_start q \<and> range_start q \<le> range_end q"
  by (induction rs rule: canonical.induct) auto

text \<open>One step keeps the form and adds the codes of the range, where ranges arrive by their starts.\<close>

lemma merge_step_invariant:
  assumes "canonical merged" "range_start current \<le> range_end current"
    and "\<forall>r \<in> set merged. range_start r \<le> range_start current"
  shows "canonical (merge_step merged current)"
    and "codes (merge_step merged current) = codes merged \<union> {range_start current..range_end current}"
    and "\<forall>r \<in> set (merge_step merged current). range_start r \<le> range_start current"
proof -
  show "canonical (merge_step merged current)"
  proof (cases merged rule: rev_cases)
    case Nil
    with assms(2) show ?thesis by (simp add: merge_step_def)
  next
    case (snoc rs r)
    show ?thesis
    proof (cases "range_start current > range_end r + 1")
      case True
      with snoc assms show ?thesis by (simp add: merge_step_def canonical_snoc)
    next
      case False
      have "canonical (rs @ [r\<lparr>range_end := max (range_end r) (range_end current)\<rparr>])"
        using assms(1) snoc by (cases rs rule: rev_cases) (auto simp: canonical_snoc)
      with False snoc show ?thesis by (simp add: merge_step_def)
    qed
  qed
  show "codes (merge_step merged current) = codes merged \<union> {range_start current..range_end current}"
    using assms canonical_ranges [OF assms(1)]
    by (cases merged rule: rev_cases) (auto simp: merge_step_def)
  show "\<forall>r \<in> set (merge_step merged current). range_start r \<le> range_start current"
    using assms(3) by (cases merged rule: rev_cases) (auto simp: merge_step_def)
qed

lemma merge_fold:
  assumes "sorted (map range_start rs)" "\<forall>r \<in> set rs. range_start r \<le> range_end r" "canonical merged"
    and "\<forall>q \<in> set merged. \<forall>r \<in> set rs. range_start q \<le> range_start r"
  shows "canonical (foldl merge_step merged rs) \<and> codes (foldl merge_step merged rs) = codes merged \<union> codes rs"
  using assms
proof (induction rs arbitrary: merged)
  case (Cons r rs)
  have m: "canonical merged" "range_start r \<le> range_end r" "\<forall>q \<in> set merged. range_start q \<le> range_start r"
    using Cons.prems by auto
  note step = merge_step_invariant [OF m]
  have "\<forall>q \<in> set (merge_step merged r). \<forall>p \<in> set rs. range_start q \<le> range_start p"
    using step(3) Cons.prems(1) by fastforce
  with Cons.IH [of "merge_step merged r"] step Cons.prems(1,2) show ?case by auto
qed simp

lemma sorted_starts: "sorted (map range_start (sort_key (\<lambda>r. (range_start r, range_end r)) rs))"
proof -
  have "sorted (map (\<lambda>r. (range_start r, range_end r)) (sort_key (\<lambda>r. (range_start r, range_end r)) rs))"
    by (rule sorted_sort_key)
  then have "sorted_wrt (\<lambda>p q. fst p \<le> fst q) (map (\<lambda>r. (range_start r, range_end r))
      (sort_key (\<lambda>r. (range_start r, range_end r)) rs))"
    by (rule sorted_wrt_mono_rel [rotated]) (auto simp: less_eq_prod_def)
  then show ?thesis by (simp add: sorted_wrt_map)
qed

lemma mergeRanges_canonical:
  assumes "\<forall>r \<in> set ranges. range_start r \<le> range_end r"
  shows "canonical (mergeRanges ranges)" "codes (mergeRanges ranges) = codes ranges"
  using merge_fold [OF sorted_starts [of ranges], of "[]"] assms
  by (auto simp: mergeRanges_def codes_def)

lemma canonical_later: "canonical (r # rs) \<Longrightarrow> c \<in> codes rs \<Longrightarrow> range_end r + 1 < c"
proof (induction rs arbitrary: r)
  case (Cons q rs)
  then show ?case using Cons.IH [of q] by (fastforce dest: canonical_ranges)
qed simp

lemma canonical_tail: "canonical (r # rs) \<Longrightarrow> canonical rs \<and> range_start r \<le> range_end r"
  by (cases rs) auto

text \<open>A set of codes has one canonical list.\<close>

lemma canonical_unique: "canonical rs \<Longrightarrow> canonical qs \<Longrightarrow> codes rs = codes qs \<Longrightarrow> rs = (qs :: StatusCodeRange list)"
proof (induction rs arbitrary: qs)
  case Nil
  then show ?case by (cases qs) (auto dest: canonical_tail)
next
  case (Cons r rs)
  note r = canonical_tail [OF Cons.prems(1)]
  then have "range_start r \<in> codes (r # rs)" by simp
  with Cons.prems(3) obtain q qs' where qs: "qs = q # qs'" by (cases qs) auto
  note q = canonical_tail [OF Cons.prems(2) [unfolded qs]]
  note later = canonical_later [OF Cons.prems(1)] canonical_later [OF Cons.prems(2) [unfolded qs]]
  have eq: "c \<in> {range_start r..range_end r} \<union> codes rs \<longleftrightarrow> c \<in> {range_start q..range_end q} \<union> codes qs'" for c
    using Cons.prems(3) by (simp add: qs)
  have "range_start r = range_start q"
    using eq [of "range_start r"] eq [of "range_start q"] later r q by fastforce
  moreover have "range_end r = range_end q"
    using eq [of "range_end r + 1"] eq [of "range_end q + 1"] later calculation r q by fastforce
  moreover have "c \<in> codes rs \<longleftrightarrow> c \<in> codes qs'" for c
    using eq [of c] later [of c] calculation by auto
  then have "codes rs = codes qs'" by blast
  ultimately show ?case using Cons.IH [of qs'] r q qs by simp
qed

section \<open>Tokens\<close>

lemma int_text_digits: "0 \<le> n \<Longrightarrow> isNumber (int_text n) \<and> digits_value 0 (int_text n) = n"
  by (simp add: isNumber_def int_text_value)

lemma digits_plain: "list_all is_digit s \<Longrightarrow> filter (\<lambda>c. \<not> is_space c) s = s \<and> 45 \<notin> set s \<and> 44 \<notin> set s"
  by (auto simp: list_all_iff is_digit_def is_space_def intro!: filter_True)

lemma trim_plain: "list_all (\<lambda>c. \<not> is_space c) s \<Longrightarrow> trim s = s"
proof -
  assume plain: "list_all (\<lambda>c. \<not> is_space c) s"
  then have "dropWhile is_space s = s" "dropWhile is_space (rev s) = rev s"
    by (auto simp: list_all_iff dropWhile_eq_self_iff hd_rev)
  then show ?thesis by (simp add: trim_def)
qed

lemma separators: "js ''-'' = [45]" "js '','' = [44]"
  by code_simp+

text \<open>The characters of a token.\<close>

definition token_char :: "code_unit \<Rightarrow> bool" where
  "token_char c \<longleftrightarrow> is_digit c \<or> c = 45"

lemma range_token_chars: "valid_range r \<Longrightarrow> list_all token_char (range_token r) \<and> range_token r \<noteq> []"
  using int_text_digits [of "range_start r"] int_text_digits [of "range_end r"]
  by (auto simp: range_token_def valid_range_def isNumber_def token_char_def list_all_iff separators)

lemma token_char_plain: "token_char c \<Longrightarrow> \<not> is_space c \<and> c \<noteq> 44 \<and> c \<noteq> 65292"
  by (auto simp: token_char_def is_digit_def is_space_def)

lemma parse_range_token:
  assumes "valid_range r"
  shows "parseToken (range_token r) = Some r"
proof -
  let ?a = "int_text (range_start r)" and ?b = "int_text (range_end r)"
  have a: "isNumber ?a" "digits_value 0 ?a = range_start r" and b: "isNumber ?b" "digits_value 0 ?b = range_end r"
    using int_text_digits [of "range_start r"] int_text_digits [of "range_end r"] assms by (auto simp: valid_range_def)
  have plain: "filter (\<lambda>c. \<not> is_space c) (trim (range_token r)) = range_token r" "range_token r \<noteq> []"
    using range_token_chars [OF assms] token_char_plain
    by (auto simp: trim_plain list_all_iff filter_True)
  have no: "45 \<notin> set ?a" "45 \<notin> set ?b" using a(1) b(1) digits_plain by (auto simp: isNumber_def)
  show ?thesis
  proof (cases "range_start r = range_end r")
    case True
    then have "range_token r = ?a" by (simp add: range_token_def)
    with plain no a True assms show ?thesis
      by (simp add: parseToken_def Let_def isValidCode_def valid_range_def)
  next
    case False
    then have t: "range_token r = ?a @ 45 # ?b" by (simp add: range_token_def separators)
    have "split_at 45 (range_token r) = [?a, ?b]" by (simp add: t split_at_append no split_at_plain)
    with plain t a b assms show ?thesis
      by (simp add: parseToken_def Let_def isValidCode_def valid_range_def)
  qed
qed

lemma parseToken_valid: "parseToken t = Some r \<Longrightarrow> valid_range r"
  by (auto simp: parseToken_def Let_def isValidCode_def valid_range_def split: if_splits list.splits)

section \<open>The parser\<close>

lemma rule_segments_nonblank: "p \<in> set (rule_segments raw) \<Longrightarrow> trim p = p \<and> p \<noteq> []"
  by (auto simp: rule_segments_def)

text \<open>The ranges of a list all of whose segments parse.\<close>

definition segment_ranges :: "jstr \<Rightarrow> StatusCodeRange list" where
  "segment_ranges raw = List.map_filter parseToken (rule_segments raw)"

lemma segment_ranges_valid: "r \<in> set (segment_ranges raw) \<Longrightarrow> valid_range r"
  by (auto simp: segment_ranges_def List.map_filter_def dest: parseToken_valid)

lemma merged_valid:
  assumes "canonical rs" "codes rs \<subseteq> {100..599}" "r \<in> set rs"
  shows "valid_range r"
proof -
  have le: "range_start r \<le> range_end r" using canonical_ranges assms(1,3) by blast
  then have "range_start r \<in> codes rs" "range_end r \<in> codes rs" using assms(3) by (auto simp: codes_def)
  with le assms(2) show ?thesis by (auto simp: valid_range_def)
qed

lemma mergeRanges_valid:
  assumes "\<forall>r \<in> set ranges. valid_range r"
  shows "canonical (mergeRanges ranges)" "codes (mergeRanges ranges) = codes ranges"
    "\<forall>r \<in> set (mergeRanges ranges). valid_range r"
proof -
  have le: "\<forall>r \<in> set ranges. range_start r \<le> range_end r" using assms by (simp add: valid_range_def)
  note m = mergeRanges_canonical [OF le]
  show "canonical (mergeRanges ranges)" "codes (mergeRanges ranges) = codes ranges" by fact+
  have "codes (mergeRanges ranges) \<subseteq> {100..599}"
    unfolding m(2) using assms by (auto simp: codes_def valid_range_def)
  with m(1) show "\<forall>r \<in> set (mergeRanges ranges). valid_range r" using merged_valid by blast
qed

lemma mergeRanges_fixpoint: "canonical rs \<Longrightarrow> mergeRanges rs = rs"
  using mergeRanges_canonical [of rs] canonical_ranges [of rs] canonical_unique [of "mergeRanges rs" rs] by blast

lemma join_chars:
  "\<forall>p \<in> set ps. list_all P p \<Longrightarrow> list_all P sep \<Longrightarrow> list_all P (join sep ps)"
  by (induction sep ps rule: join.induct) auto

lemma join_tokens_nonblank: "ps \<noteq> [] \<Longrightarrow> \<forall>p \<in> set ps. p \<noteq> [] \<Longrightarrow> join sep ps \<noteq> []"
  by (cases ps rule: join.cases [of "(sep, ps)" for ps]) auto

lemma rule_segments_join:
  assumes "ps \<noteq> []" "\<forall>p \<in> set ps. list_all token_char p \<and> p \<noteq> []"
  shows "rule_segments (join (js '','') ps) = ps" "trim (join (js '','') ps) = join (js '','') ps"
proof -
  let ?s = "join (js '','') ps"
  have chars: "list_all (\<lambda>c. token_char c \<or> c = 44) ?s"
    using assms(2) by (intro join_chars) (auto simp: list_all_iff separators)
  have plain: "list_all (\<lambda>c. \<not> is_space c) ?s"
    using chars token_char_plain by (fastforce simp: list_all_iff is_space_def)
  then show "trim ?s = ?s" by (rule trim_plain)
  have "map (\<lambda>c. if c = 65292 then 44 else c) ?s = ?s"
    using chars token_char_plain by (intro map_idI) (fastforce simp: list_all_iff)
  moreover have "split_at 44 ?s = ps"
    unfolding separators using assms token_char_plain
    by (intro split_at_join) (auto simp: list_all_iff)
  moreover have "map trim ps = ps"
    using assms(2) token_char_plain by (intro map_idI trim_plain) (auto simp: list_all_iff)
  ultimately show "rule_segments ?s = ps" using assms(2) by (simp add: rule_segments_def filter_True)
qed

lemma map_filter_range_tokens:
  "\<forall>r \<in> set rs. valid_range r \<Longrightarrow> List.map_filter parseToken (map range_token rs) = rs"
  by (induction rs) (simp_all add: parse_range_token map_filter_simps)

text \<open>A list in canonical form parses to itself.\<close>

lemma parse_canonical:
  assumes "canonical rs" "\<forall>r \<in> set rs. valid_range r"
  shows "parseHttpStatusCodeRules (join (js '','') (map range_token rs)) =
    \<lparr>rules_ok = True, rules_ranges = rs, rules_tokens = map range_token rs,
     rules_normalized = join (js '','') (map range_token rs), rules_invalidTokens = []\<rparr>"
proof (cases "rs = []")
  case True
  then show ?thesis by (simp add: parseHttpStatusCodeRules_def)
next
  case False
  let ?ps = "map range_token rs" let ?s = "join (js '','') ?ps"
  have p: "?ps \<noteq> []" "\<forall>p \<in> set ?ps. list_all token_char p \<and> p \<noteq> []"
    using False assms(2) range_token_chars by auto
  note s = rule_segments_join [OF p]
  have "?s \<noteq> []" using p by (intro join_tokens_nonblank) auto
  moreover have "filter (\<lambda>t. parseToken t = None) ?ps = []"
    using assms(2) by (auto simp: filter_empty_conv parse_range_token)
  moreover have "mergeRanges (List.map_filter parseToken ?ps) = rs"
    using assms by (simp add: map_filter_range_tokens mergeRanges_fixpoint)
  ultimately show ?thesis by (simp add: parseHttpStatusCodeRules_def Let_def s)
qed

lemma parse_ok:
  assumes "rules_ok (parseHttpStatusCodeRules input)"
  shows "parseHttpStatusCodeRules input =
    (let merged = mergeRanges (segment_ranges (trim input)) in
     \<lparr>rules_ok = True, rules_ranges = merged, rules_tokens = map range_token merged,
      rules_normalized = join (js '','') (map range_token merged), rules_invalidTokens = []\<rparr>)"
proof (cases "trim input = []")
  case True
  then have "segment_ranges (trim input) = []" by (simp add: segment_ranges_def rule_segments_def map_filter_simps)
  with True show ?thesis by (simp add: parseHttpStatusCodeRules_def mergeRanges_def)
next
  case False
  with assms show ?thesis
    by (auto simp: parseHttpStatusCodeRules_def Let_def segment_ranges_def split: if_splits)
qed

section \<open>Properties\<close>

text \<open>
  C25: Normalization. An accepted list covers exactly the codes its segments name; its ranges are in
  canonical form (sorted, disjoint, not adjacent) and inside 100 to 599; and parsing the normalized text
  gives the same result again.
\<close>

theorem status_rules_normalize:
  assumes "rules_ok (parseHttpStatusCodeRules input)"
  shows "codes (rules_ranges (parseHttpStatusCodeRules input)) = codes (segment_ranges (trim input))
    \<and> canonical (rules_ranges (parseHttpStatusCodeRules input))
    \<and> (\<forall>r \<in> set (rules_ranges (parseHttpStatusCodeRules input)). valid_range r)
    \<and> parseHttpStatusCodeRules (rules_normalized (parseHttpStatusCodeRules input))
        = parseHttpStatusCodeRules input"
proof -
  have v: "\<forall>r \<in> set (segment_ranges (trim input)). valid_range r" using segment_ranges_valid by blast
  note m = mergeRanges_valid [OF v]
  show ?thesis
    using m parse_canonical [OF m(1,3)] by (simp add: parse_ok [OF assms] Let_def)
qed

definition sample_rules :: jstr where
  "sample_rules = js '' 500-599, 429,401 -403 ,404,510''"

theorem status_rules_normalize_witness:
  "rules_normalized (parseHttpStatusCodeRules sample_rules) = js ''401-404,429,500-599''
   \<and> parseHttpStatusCodeRules (js ''401-404,429,500-599'') = parseHttpStatusCodeRules sample_rules"
proof -
  have n: "rules_normalized (parseHttpStatusCodeRules sample_rules) = js ''401-404,429,500-599''"
    and ok: "rules_ok (parseHttpStatusCodeRules sample_rules)" by code_simp+
  from status_rules_normalize [OF ok] show ?thesis by (simp add: n)
qed

text \<open>
  C26: The result is canonical: two accepted lists are parsed to the same result exactly when
  they cover the same codes.
\<close>

theorem status_rules_canonical:
  assumes "rules_ok (parseHttpStatusCodeRules a)" and "rules_ok (parseHttpStatusCodeRules b)"
  shows "parseHttpStatusCodeRules a = parseHttpStatusCodeRules b
    \<longleftrightarrow> codes (segment_ranges (trim a)) = codes (segment_ranges (trim b))"
proof
  assume same: "codes (segment_ranges (trim a)) = codes (segment_ranges (trim b))"
  have "mergeRanges (segment_ranges (trim a)) = mergeRanges (segment_ranges (trim b))"
    using mergeRanges_valid [of "segment_ranges (trim a)"] mergeRanges_valid [of "segment_ranges (trim b)"]
      segment_ranges_valid same canonical_unique by metis
  then show "parseHttpStatusCodeRules a = parseHttpStatusCodeRules b"
    by (simp add: parse_ok [OF assms(1)] parse_ok [OF assms(2)])
next
  assume "parseHttpStatusCodeRules a = parseHttpStatusCodeRules b"
  then have "mergeRanges (segment_ranges (trim a)) = mergeRanges (segment_ranges (trim b))"
    by (simp add: parse_ok [OF assms(1)] parse_ok [OF assms(2)] Let_def)
  then show "codes (segment_ranges (trim a)) = codes (segment_ranges (trim b))"
    using mergeRanges_valid segment_ranges_valid by metis
qed

theorem status_rules_canonical_witness:
  "parseHttpStatusCodeRules (js ''400-402'') = parseHttpStatusCodeRules (js ''402,400,401'')"
proof -
  have ok: "rules_ok (parseHttpStatusCodeRules (js ''400-402''))"
    "rules_ok (parseHttpStatusCodeRules (js ''402,400,401''))" by code_simp+
  have "segment_ranges (trim (js ''400-402'')) = [\<lparr>range_start = 400, range_end = 402\<rparr>]"
    "segment_ranges (trim (js ''402,400,401'')) =
       [\<lparr>range_start = 402, range_end = 402\<rparr>, \<lparr>range_start = 400, range_end = 400\<rparr>,
        \<lparr>range_start = 401, range_end = 401\<rparr>]" by code_simp+
  then have "codes (segment_ranges (trim (js ''400-402''))) = codes (segment_ranges (trim (js ''402,400,401'')))"
    by auto
  with status_rules_canonical [OF ok] show ?thesis by blast
qed

text \<open>
  Rejection. The invalid tokens of a result are the segments that do not parse, in order. The list is
  accepted exactly when there is none; otherwise nothing of it is used and its trimmed text is kept.
\<close>

theorem status_rules_rejected:
  "let result = parseHttpStatusCodeRules input;
       invalid = filter (\<lambda>token. parseToken token = None) (rule_segments (trim input)) in
     rules_invalidTokens result = invalid \<and> (rules_ok result \<longleftrightarrow> invalid = [])
     \<and> (if invalid = [] then rules_normalized result = join (js '','') (rules_tokens result)
        else rules_ranges result = [] \<and> rules_tokens result = [] \<and> rules_normalized result = trim input)"
proof (cases "trim input = []")
  case True
  then have "rule_segments (trim input) = []" by (simp add: rule_segments_def)
  with True show ?thesis by (simp add: parseHttpStatusCodeRules_def)
next
  case False
  then show ?thesis by (simp add: parseHttpStatusCodeRules_def Let_def)
qed

lemma filter_trim: "filter (\<lambda>c. \<not> is_space c) (trim s) = filter (\<lambda>c. \<not> is_space c) s"
proof -
  have "filter (\<lambda>c. \<not> is_space c) (dropWhile is_space t) = filter (\<lambda>c. \<not> is_space c) t" for t
    by (induction t) auto
  then show ?thesis by (simp add: trim_def rev_filter [symmetric])
qed

text \<open>
  A token with more than one dash is read by its first two fields alone: whatever follows the second
  dash has no effect and is not reported.
\<close>

lemma range_suffix_ignored:
  assumes "list_all is_digit a" and "list_all is_digit b"
  shows "parseToken (a @ js ''-'' @ b @ js ''-'' @ rest) = parseToken (a @ js ''-'' @ b)"
proof -
  have no: "45 \<notin> set a" "45 \<notin> set b" and plain: "filter (\<lambda>c. \<not> is_space c) a = a" "filter (\<lambda>c. \<not> is_space c) b = b"
    using assms digits_plain by auto
  have dash: "\<not> is_space 45" by (simp add: is_space_def)
  show ?thesis
    by (simp add: parseToken_def filter_trim separators plain no dash split_at_append split_at_plain Let_def)
qed

lemma range_suffix_ignored_sample:
  "parseToken (js ''400-499-x'') = Some \<lparr>range_start = 400, range_end = 499\<rparr>"
proof -
  have "list_all is_digit (js ''400'')" "list_all is_digit (js ''499'')" by code_simp+
  note suffix = range_suffix_ignored [OF this, of "js ''x''"]
  have "js ''400-499-x'' = js ''400'' @ js ''-'' @ js ''499'' @ js ''-'' @ js ''x''" by code_simp
  with suffix
  have "parseToken (js ''400-499-x'') = parseToken (js ''400'' @ js ''-'' @ js ''499'')" by argo
  moreover have "parseToken (js ''400'' @ js ''-'' @ js ''499'') = Some \<lparr>range_start = 400, range_end = 499\<rparr>" by code_simp
  ultimately show ?thesis by simp
qed

end
