(* ===== verification/AuthStore.thy ===== *)
theory AuthStore
  imports JsValue
begin

text \<open>
  \<open>stores/auth-store.ts\<close>, \<open>lib/auth-session-sync.ts\<close> and \<open>lib/session-hint.ts\<close>: the authentication store
  and its setters, the events tabs exchange about sessions, and the session hint cookie.
\<close>

section \<open>The store\<close>

record LoginSession =
  ls_sid :: jstr
  ls_current :: bool
  ls_login_method :: jstr
  ls_ip :: jstr
  ls_user_agent :: jstr
  ls_created_at :: jsnum
  ls_last_active_at :: jsnum
  ls_expires_at :: jsnum

text \<open>The optional fields of a user are carried along as they arrive.\<close>

record AuthUser =
  user_id :: jsnum
  user_username :: jstr
  user_role :: jsnum
  user_fields :: "(jstr \<times> jsvalue) list"

record AuthBundle =
  ab_access_token :: jstr
  ab_token_type :: jstr
  ab_access_expires_at :: jsnum
  ab_user :: AuthUser
  ab_session :: LoginSession

datatype AuthBootstrapState = BS_idle | BS_checking | BS_complete

record PendingLoginVerification =
  pv_challenge :: jsvalue
  pv_redirectTo :: "jstr option"

record AuthState =
  auth_user :: "AuthUser option"
  auth_accessToken :: "jstr option"
  auth_accessExpiresAt :: "jsnum option"
  auth_session :: "LoginSession option"
  auth_pending :: "PendingLoginVerification option"
  auth_bootstrapState :: AuthBootstrapState

definition initial_auth :: AuthState where
  "initial_auth =
     \<lparr>auth_user = None, auth_accessToken = None, auth_accessExpiresAt = None, auth_session = None,
      auth_pending = None, auth_bootstrapState = BS_idle\<rparr>"

definition setBundle :: "AuthBundle \<Rightarrow> AuthState \<Rightarrow> AuthState" where
  "setBundle bundle auth =
     auth\<lparr>auth_user := Some (ab_user bundle), auth_accessToken := Some (ab_access_token bundle),
          auth_accessExpiresAt := Some (ab_access_expires_at bundle), auth_session := Some (ab_session bundle),
          auth_pending := None, auth_bootstrapState := BS_complete\<rparr>"

text \<open>\<open>state.auth.user?.id === user?.id\<close>.\<close>

definition same_user :: "AuthUser option \<Rightarrow> AuthUser option \<Rightarrow> bool" where
  "same_user a b =
     (case (a, b) of
        (None, None) \<Rightarrow> True
      | (Some u, Some v) \<Rightarrow> js_num_eq (user_id u) (user_id v)
      | _ \<Rightarrow> False)"

definition setUser :: "AuthUser option \<Rightarrow> AuthState \<Rightarrow> AuthState" where
  "setUser user auth =
     auth\<lparr>auth_user := user,
          auth_pending := (if same_user (auth_user auth) user then auth_pending auth else None)\<rparr>"

definition setPendingLoginVerification :: "PendingLoginVerification option \<Rightarrow> AuthState \<Rightarrow> AuthState" where
  "setPendingLoginVerification pending auth = auth\<lparr>auth_pending := pending\<rparr>"

definition setBootstrapState :: "AuthBootstrapState \<Rightarrow> AuthState \<Rightarrow> AuthState" where
  "setBootstrapState b auth = auth\<lparr>auth_bootstrapState := b\<rparr>"

definition reset_auth :: "AuthBootstrapState \<Rightarrow> AuthState \<Rightarrow> AuthState" where
  "reset_auth b auth =
     auth\<lparr>auth_user := None, auth_accessToken := None, auth_accessExpiresAt := None, auth_session := None,
          auth_pending := None, auth_bootstrapState := b\<rparr>"

lemmas store_defs = setBundle_def setUser_def setPendingLoginVerification_def setBootstrapState_def
  reset_auth_def

section \<open>Responses of the server\<close>

text \<open>\<open>Boolean(value) && typeof value === 'object'\<close>.\<close>

definition isRecord :: "jsvalue \<Rightarrow> bool" where
  "isRecord v \<longleftrightarrow> truthy v \<and> js_typeof v = T_object"

definition is_number :: "jsvalue \<Rightarrow> bool" where
  "is_number v \<longleftrightarrow> js_typeof v = T_number"

definition is_string :: "jsvalue \<Rightarrow> bool" where
  "is_string v \<longleftrightarrow> js_typeof v = T_string"

definition is_boolean :: "jsvalue \<Rightarrow> bool" where
  "is_boolean v \<longleftrightarrow> js_typeof v = T_boolean"

definition is_nonempty_string :: "jsvalue \<Rightarrow> bool" where
  "is_nonempty_string v \<longleftrightarrow> (case v of JStr s \<Rightarrow> s \<noteq> [] | _ \<Rightarrow> False)"

definition isAuthUser :: "jsvalue \<Rightarrow> bool" where
  "isAuthUser v \<longleftrightarrow> isRecord v
     \<and> (case get_prop v (js ''id'') of JNum x \<Rightarrow> isInteger x \<and> js_lt (num 0) x | _ \<Rightarrow> False)
     \<and> is_string (get_prop v (js ''username'')) \<and> is_number (get_prop v (js ''role''))"

definition isLoginSession :: "jsvalue \<Rightarrow> bool" where
  "isLoginSession v \<longleftrightarrow> isRecord v
     \<and> is_nonempty_string (get_prop v (js ''sid'')) \<and> is_boolean (get_prop v (js ''current''))
     \<and> is_string (get_prop v (js ''login_method'')) \<and> is_string (get_prop v (js ''ip''))
     \<and> is_string (get_prop v (js ''user_agent'')) \<and> is_number (get_prop v (js ''created_at''))
     \<and> is_number (get_prop v (js ''last_active_at'')) \<and> is_number (get_prop v (js ''expires_at''))"

definition hasValidTokenFields :: "jsvalue \<Rightarrow> bool" where
  "hasValidTokenFields v \<longleftrightarrow> is_nonempty_string (get_prop v (js ''access_token''))
     \<and> is_nonempty_string (get_prop v (js ''token_type''))
     \<and> (case get_prop v (js ''access_expires_at'') of
          JNum x \<Rightarrow> isFinite x \<and> js_lt (num 0) x | _ \<Rightarrow> False)"

definition isAuthBundle :: "jsvalue \<Rightarrow> bool" where
  "isAuthBundle v \<longleftrightarrow> isRecord v \<and> hasValidTokenFields v
     \<and> isAuthUser (get_prop v (js ''user'')) \<and> isLoginSession (get_prop v (js ''session''))"

definition isAuthTokenRotation :: "jsvalue \<Rightarrow> bool" where
  "isAuthTokenRotation v \<longleftrightarrow> isRecord v \<and> hasValidTokenFields v
     \<and> get_prop v (js ''token_type'') = JStr (js ''Bearer'')
     \<and> isLoginSession (get_prop v (js ''session''))
     \<and> get_prop (get_prop v (js ''session'')) (js ''current'') = JBool True"

text \<open>The typed views of values that pass the guards.\<close>

definition text_of :: "jsvalue \<Rightarrow> jstr" where
  "text_of v = (case v of JStr s \<Rightarrow> s | _ \<Rightarrow> [])"

definition number_of :: "jsvalue \<Rightarrow> jsnum" where
  "number_of v = (case v of JNum x \<Rightarrow> x | _ \<Rightarrow> NaN)"

definition entries_of :: "jsvalue \<Rightarrow> (jstr \<times> jsvalue) list" where
  "entries_of v = (case v of JObj ps \<Rightarrow> ps | _ \<Rightarrow> [])"

definition session_of :: "jsvalue \<Rightarrow> LoginSession" where
  "session_of v =
     \<lparr>ls_sid = text_of (get_prop v (js ''sid'')), ls_current = (get_prop v (js ''current'') = JBool True),
      ls_login_method = text_of (get_prop v (js ''login_method'')), ls_ip = text_of (get_prop v (js ''ip'')),
      ls_user_agent = text_of (get_prop v (js ''user_agent'')),
      ls_created_at = number_of (get_prop v (js ''created_at'')),
      ls_last_active_at = number_of (get_prop v (js ''last_active_at'')),
      ls_expires_at = number_of (get_prop v (js ''expires_at''))\<rparr>"

definition user_of :: "jsvalue \<Rightarrow> AuthUser" where
  "user_of v =
     \<lparr>user_id = number_of (get_prop v (js ''id'')), user_username = text_of (get_prop v (js ''username'')),
      user_role = number_of (get_prop v (js ''role'')), user_fields = entries_of v\<rparr>"

definition bundle_of :: "jsvalue \<Rightarrow> AuthBundle" where
  "bundle_of v =
     \<lparr>ab_access_token = text_of (get_prop v (js ''access_token'')),
      ab_token_type = text_of (get_prop v (js ''token_type'')),
      ab_access_expires_at = number_of (get_prop v (js ''access_expires_at'')),
      ab_user = user_of (get_prop v (js ''user'')), ab_session = session_of (get_prop v (js ''session''))\<rparr>"

definition parse_bundle :: "jsvalue \<Rightarrow> AuthBundle option" where
  "parse_bundle v = (if isAuthBundle v then Some (bundle_of v) else None)"

text \<open>What the guards guarantee of a bundle.\<close>

definition valid_token :: "jstr \<Rightarrow> jsnum \<Rightarrow> LoginSession \<Rightarrow> bool" where
  "valid_token access_token expires session \<longleftrightarrow>
     access_token \<noteq> [] \<and> isFinite expires \<and> js_lt (num 0) expires \<and> ls_sid session \<noteq> []"

definition valid_bundle :: "AuthBundle \<Rightarrow> bool" where
  "valid_bundle b \<longleftrightarrow> valid_token (ab_access_token b) (ab_access_expires_at b) (ab_session b)"

lemma isAuthBundle_valid: "isAuthBundle v \<Longrightarrow> valid_bundle (bundle_of v)"
  by (auto simp: isAuthBundle_def hasValidTokenFields_def isLoginSession_def is_nonempty_string_def
      valid_bundle_def valid_token_def bundle_of_def session_of_def text_of_def number_of_def
      split: jsvalue.splits)

lemma parse_bundle_valid: "parse_bundle v = Some b \<Longrightarrow> valid_bundle b"
  by (auto simp: parse_bundle_def isAuthBundle_valid split: if_splits)

section \<open>Session events between tabs\<close>

datatype session_event_kind = SE_authenticated | SE_signed_out

record AuthSessionSyncEvent =
  se_kind :: session_event_kind
  se_sid :: jstr
  se_source :: jstr
  se_nonce :: jstr
  se_timestamp :: jsnum

definition kind_text :: "session_event_kind \<Rightarrow> jstr" where
  "kind_text k = (case k of SE_authenticated \<Rightarrow> js ''authenticated'' | SE_signed_out \<Rightarrow> js ''signed_out'')"

definition isAuthSessionSyncEvent :: "jsvalue \<Rightarrow> bool" where
  "isAuthSessionSyncEvent v \<longleftrightarrow> isRecord v
     \<and> get_prop v (js ''kind'') \<in> {JStr (js ''authenticated''), JStr (js ''signed_out'')}
     \<and> is_nonempty_string (get_prop v (js ''sid'')) \<and> is_string (get_prop v (js ''source''))
     \<and> is_string (get_prop v (js ''nonce'')) \<and> is_number (get_prop v (js ''timestamp''))"

text \<open>
  The message of an event: what \<open>publishAuthSessionEvent\<close> sends, or \<open>None\<close> where the identifier is
  empty. The source of the tab, the nonce and the time are arguments.
\<close>

definition publishAuthSessionEvent ::
  "jstr \<Rightarrow> jstr \<Rightarrow> jsnum \<Rightarrow> session_event_kind \<Rightarrow> jstr \<Rightarrow> jsvalue option" where
  "publishAuthSessionEvent source nonce now kind sid =
     (if sid = [] then None
      else Some (JObj [(js ''kind'', JStr (kind_text kind)), (js ''sid'', JStr sid),
                       (js ''source'', JStr source), (js ''nonce'', JStr nonce), (js ''timestamp'', JNum now)]))"

definition event_of :: "jsvalue \<Rightarrow> AuthSessionSyncEvent" where
  "event_of v =
     \<lparr>se_kind = (if get_prop v (js ''kind'') = JStr (js ''authenticated'') then SE_authenticated else SE_signed_out),
      se_sid = text_of (get_prop v (js ''sid'')), se_source = text_of (get_prop v (js ''source'')),
      se_nonce = text_of (get_prop v (js ''nonce'')), se_timestamp = number_of (get_prop v (js ''timestamp''))\<rparr>"

text \<open>\<open>deliver\<close>: the event the listener of a tab is called with.\<close>

definition deliver :: "jstr \<Rightarrow> jsnum \<Rightarrow> jsvalue \<Rightarrow> AuthSessionSyncEvent option" where
  "deliver source now v =
     (if isAuthSessionSyncEvent v \<and> get_prop v (js ''source'') \<noteq> JStr source
         \<and> js_lt (js_abs (js_sub now (number_of (get_prop v (js ''timestamp''))))) (num 60000)
      then Some (event_of v) else None)"

section \<open>The session hint\<close>

text \<open>\<open>part.slice(0, separator)\<close> and \<open>part.slice(separator + 1)\<close> at the first \<open>=\<close>.\<close>

definition cookie_pair :: "jstr \<Rightarrow> (jstr \<times> jstr) option" where
  "cookie_pair part =
     (if 61 \<in> set part
      then Some (trim (takeWhile (\<lambda>c. c \<noteq> 61) part), trim (drop 1 (dropWhile (\<lambda>c. c \<noteq> 61) part)))
      else None)"

fun read_cookie_parts :: "jstr list \<Rightarrow> jstr \<Rightarrow> jstr option" where
  "read_cookie_parts [] name = None"
| "read_cookie_parts (part # parts) name =
     (case cookie_pair part of
        None \<Rightarrow> read_cookie_parts parts name
      | Some (key, value) \<Rightarrow> if key \<noteq> name then read_cookie_parts parts name else Some value)"

definition readCookie :: "jstr \<Rightarrow> jstr \<Rightarrow> jstr option" where
  "readCookie cookieHeader name = read_cookie_parts (split_at 59 cookieHeader) name"

text \<open>\<open>None\<close> is a context without \<open>document\<close>.\<close>

definition hasSessionHint :: "jstr option \<Rightarrow> bool" where
  "hasSessionHint cookies =
     (case cookies of None \<Rightarrow> True | Some c \<Rightarrow> readCookie c (js ''new_api_has_session'') \<noteq> None)"

end
