(* ===== verification/AuthSession.thy ===== *)
theory AuthSession
  imports AuthStore
begin

text \<open>
  \<open>lib/auth-session.ts\<close>: the authentication module. Its state is the store, the epoch that every change
  of session advances, and the log of the events it published. A refresh is a task that alternates with
  everything else: between its steps the store may change, and the epoch tells it whether it did.
\<close>

section \<open>The module\<close>

record AuthModule =
  am_auth :: AuthState
  am_epoch :: nat
  am_published :: "(session_event_kind \<times> jstr) list"

definition current_sid :: "AuthModule \<Rightarrow> jstr option" where
  "current_sid m = map_option ls_sid (auth_session (am_auth m))"

definition publish :: "session_event_kind \<Rightarrow> jstr \<Rightarrow> AuthModule \<Rightarrow> AuthModule" where
  "publish kind sid m = m\<lparr>am_published := am_published m @ [(kind, sid)]\<rparr>"

definition applyAuthBundle :: "AuthBundle \<Rightarrow> bool \<Rightarrow> AuthModule \<Rightarrow> AuthModule" where
  "applyAuthBundle bundle synchronizeTabs m =
     (let previousSID = current_sid m; sid = ls_sid (ab_session bundle);
          m' = m\<lparr>am_epoch := am_epoch m + 1, am_auth := setBundle bundle (am_auth m)\<rparr>
      in if synchronizeTabs \<and> previousSID \<noteq> Some sid then publish SE_authenticated sid m' else m')"

text \<open>The bundle of a rotation: its token and session, for the user who is signed in.\<close>

definition rotated_bundle :: "jsvalue \<Rightarrow> AuthUser \<Rightarrow> AuthBundle" where
  "rotated_bundle v user =
     \<lparr>ab_access_token = text_of (get_prop v (js ''access_token'')),
      ab_token_type = text_of (get_prop v (js ''token_type'')),
      ab_access_expires_at = number_of (get_prop v (js ''access_expires_at'')),
      ab_user = user, ab_session = session_of (get_prop v (js ''session''))\<rparr>"

text \<open>A rejected rotation throws an \<open>AuthRotationError\<close> with its message.\<close>

definition applyAuthRotation :: "jsvalue \<Rightarrow> AuthModule \<Rightarrow> jstr + AuthModule" where
  "applyAuthRotation v m =
     (if \<not> isAuthTokenRotation v then Inl (js ''Invalid authentication rotation response'')
      else case (auth_user (am_auth m), auth_session (am_auth m)) of
          (Some user, Some session) \<Rightarrow>
            if get_prop (get_prop v (js ''session'')) (js ''sid'') \<noteq> JStr (ls_sid session)
            then Inl (js ''Authentication rotation session mismatch'')
            else Inr (applyAuthBundle (rotated_bundle v user) False m)
        | _ \<Rightarrow> Inl (js ''Authentication rotation has no active session''))"

definition clearAuthentication :: "bool \<Rightarrow> AuthBootstrapState \<Rightarrow> AuthModule \<Rightarrow> AuthModule" where
  "clearAuthentication synchronizeTabs b m =
     (let m' = m\<lparr>am_epoch := am_epoch m + 1, am_auth := reset_auth b (am_auth m)\<rparr> in
      case current_sid m of
        Some sid \<Rightarrow> if synchronizeTabs \<and> sid \<noteq> [] then publish SE_signed_out sid m' else m'
      | None \<Rightarrow> m')"

text \<open>The query cache is a state of its own, with its \<open>clear\<close>.\<close>

definition clearAuthenticatedClientState ::
  "('q \<Rightarrow> 'q) \<Rightarrow> bool \<Rightarrow> 'q \<times> AuthModule \<Rightarrow> 'q \<times> AuthModule" where
  "clearAuthenticatedClientState clear_cache synchronizeTabs s =
     (clear_cache (fst s), clearAuthentication synchronizeTabs BS_complete (snd s))"

section \<open>A refresh\<close>

text \<open>Where \<open>data\<close> or \<open>error\<close> is absent it is \<open>JUndefined\<close>; a failed request has status 0.\<close>

record AuthRefreshHTTPResponse =
  hr_status :: int
  hr_data :: jsvalue
  hr_error :: jsvalue

datatype refresh_error = Superseded | Failure jsvalue

datatype RefreshOutcome =
    Authenticated AuthBundle
  | Anonymous
  | TransientError refresh_error
  | OutOfSync jstr

text \<open>The synchronous part of \<open>AuthRefreshRuntime\<close>, on a state \<open>'s\<close>.\<close>

record 's AuthRefreshRuntime =
  getExpectedSID :: "'s \<Rightarrow> jstr option"
  parseBundle :: "jsvalue \<Rightarrow> AuthBundle option"
  acceptBundle :: "AuthBundle \<Rightarrow> 's \<Rightarrow> 's"
  clearState :: "bool \<Rightarrow> AuthBootstrapState option \<Rightarrow> 's \<Rightarrow> 's"
  markTransient :: "'s \<Rightarrow> 's"
  isCurrent :: "('s \<Rightarrow> bool) option"

definition is_current :: "'s AuthRefreshRuntime \<Rightarrow> 's \<Rightarrow> bool" where
  "is_current rt s = (case isCurrent rt of None \<Rightarrow> True | Some c \<Rightarrow> c s)"

definition refreshRaceDelays :: "int list" where
  "refreshRaceDelays = [80, 200, 500]"

text \<open>
  Where a run stands: before it holds the browser lock, at its request, in a delay before the attempt
  with the given number, or settled.
\<close>

datatype refresh_phase =
    Queued
  | Awaiting nat bool
  | Delaying nat bool
  | Settled RefreshOutcome

text \<open>
  \<open>run(raceAttempt, allowMismatchRetry)\<close> up to its request: the next phase, and the session identifier
  the request is sent with, if it is sent.
\<close>

definition run_begin ::
  "'s AuthRefreshRuntime \<Rightarrow> nat \<Rightarrow> bool \<Rightarrow> 's \<Rightarrow> refresh_phase \<times> jstr option list" where
  "run_begin rt raceAttempt allowMismatchRetry s =
     (if \<not> is_current rt s then (Settled (TransientError Superseded), [])
      else (Awaiting raceAttempt allowMismatchRetry, [getExpectedSID rt s]))"

definition response_code :: "jsvalue \<Rightarrow> jstr option" where
  "response_code responseData = (case get_prop responseData (js ''code'') of JStr c \<Rightarrow> Some c | _ \<Rightarrow> None)"

text \<open>\<open>run\<close> from its response on.\<close>

definition run_response ::
  "'s AuthRefreshRuntime \<Rightarrow> nat \<Rightarrow> bool \<Rightarrow> AuthRefreshHTTPResponse \<Rightarrow> 's
    \<Rightarrow> refresh_phase \<times> 's \<times> jstr option list" where
  "run_response rt raceAttempt allowMismatchRetry response s =
     (if \<not> is_current rt s then (Settled (TransientError Superseded), s, [])
      else
        let responseData = (if isRecord (hr_data response) then hr_data response else JUndefined);
            code = response_code responseData;
            bundle = parseBundle rt (get_prop responseData (js ''data''));
            status = hr_status response
        in case (get_prop responseData (js ''success'') = JBool True, bundle) of
            (True, Some b) \<Rightarrow> (Settled (Authenticated b), acceptBundle rt b s, [])
          | _ \<Rightarrow>
              if status = 409 \<and> code = Some (js ''AUTH_REFRESH_RACE'') then
                (case nth_opt refreshRaceDelays raceAttempt of
                   Some delay \<Rightarrow> (Delaying (raceAttempt + 1) allowMismatchRetry, s, [])
                 | None \<Rightarrow> (Settled (OutOfSync (js ''AUTH_REFRESH_RACE'')), clearState rt False None s, []))
              else if status = 409 \<and> code = Some (js ''AUTH_SESSION_MISMATCH'') then
                (if allowMismatchRetry then
                   (let s = clearState rt False (Some BS_idle) s; (phase, requests) = run_begin rt 0 False s
                    in (phase, s, requests))
                 else (Settled (OutOfSync (js ''AUTH_SESSION_MISMATCH'')), clearState rt False None s, []))
              else if status = 401 then (Settled Anonymous, clearState rt True None s, [])
              else if status = 0 \<or> status \<ge> 500 \<or> status = 429 then
                (Settled (TransientError (Failure
                   (if is_nullish (hr_error response) then hr_data response else hr_error response))),
                 markTransient rt s, [])
              else (Settled (OutOfSync (case code of Some c \<Rightarrow> c | None \<Rightarrow> js ''AUTH_INVALID_REFRESH_RESPONSE'')),
                    clearState rt False None s, []))"

text \<open>\<open>runRefresh(refreshEpoch)\<close>: the runtime on the module.\<close>

definition module_runtime :: "nat \<Rightarrow> AuthModule AuthRefreshRuntime" where
  "module_runtime refreshEpoch =
     \<lparr>getExpectedSID = current_sid,
      parseBundle = parse_bundle,
      acceptBundle = (\<lambda>b. applyAuthBundle b False),
      clearState = (\<lambda>synchronizeTabs b m.
        if \<not> synchronizeTabs \<and> b = Some BS_idle then m\<lparr>am_auth := reset_auth BS_idle (am_auth m)\<rparr>
        else clearAuthentication synchronizeTabs (case b of None \<Rightarrow> BS_complete | Some b \<Rightarrow> b) m),
      markTransient = (\<lambda>m. m\<lparr>am_auth := setBootstrapState BS_idle (am_auth m)\<rparr>),
      isCurrent = Some (\<lambda>m. am_epoch m = refreshEpoch)\<rparr>"

section \<open>Resolving authentication\<close>

definition seconds :: "jsnum \<Rightarrow> jsnum" where
  "seconds now = js_floor (js_div now (num 1000))"

definition truthy_number :: "jsnum option \<Rightarrow> bool" where
  "truthy_number x = (case x of None \<Rightarrow> False | Some v \<Rightarrow> truthy (JNum v))"

definition truthy_text :: "jstr option \<Rightarrow> bool" where
  "truthy_text x = (case x of None \<Rightarrow> False | Some s \<Rightarrow> s \<noteq> [])"

definition currentValidAuthBundle :: "jsnum \<Rightarrow> AuthState \<Rightarrow> AuthBundle option" where
  "currentValidAuthBundle now auth =
     (case (auth_user auth, auth_accessToken auth, auth_accessExpiresAt auth, auth_session auth) of
        (Some user, Some access_token, Some expires, Some session) \<Rightarrow>
          if access_token = [] \<or> \<not> truthy (JNum expires) \<or> js_le expires (seconds now) then None
          else Some \<lparr>ab_access_token = access_token, ab_token_type = js ''Bearer'',
                     ab_access_expires_at = expires, ab_user = user, ab_session = session\<rparr>
      | _ \<Rightarrow> None)"

text \<open>An answer from memory, or the need of a refresh.\<close>

datatype resolution = Known RefreshOutcome | NeedsRefresh

definition resolveAuthentication :: "jsnum \<Rightarrow> AuthModule \<Rightarrow> resolution \<times> AuthModule" where
  "resolveAuthentication now m =
     (let auth = am_auth m in
      case currentValidAuthBundle now auth of
        Some b \<Rightarrow> (Known (Authenticated b), m\<lparr>am_auth := setBootstrapState BS_complete auth\<rparr>)
      | None \<Rightarrow>
          let hasStaleSession = (auth_user auth \<noteq> None \<and> auth_session auth \<noteq> None) in
          if auth_bootstrapState auth = BS_complete \<and> \<not> hasStaleSession then (Known Anonymous, m)
          else (NeedsRefresh, m\<lparr>am_auth := setBootstrapState BS_checking auth\<rparr>))"

definition bootstrapAuthentication :: "jsnum \<Rightarrow> jstr option \<Rightarrow> AuthModule \<Rightarrow> resolution \<times> AuthModule" where
  "bootstrapAuthentication now cookies m =
     (if currentValidAuthBundle now (am_auth m) = None \<and> \<not> hasSessionHint cookies
         \<and> auth_user (am_auth m) = None \<and> auth_session (am_auth m) = None
      then (Known Anonymous, m)
      else resolveAuthentication now m)"

section \<open>Request headers\<close>

definition getCommonHeaders :: "AuthState \<Rightarrow> (jstr \<times> jstr) list" where
  "getCommonHeaders auth =
     (js ''Content-Type'', js ''application/json'')
       # (case auth_accessToken auth of
            Some t \<Rightarrow> if t \<noteq> [] then [(js ''Authorization'', js ''Bearer '' @ t)] else []
          | None \<Rightarrow> [])"

definition expires_after :: "jsnum \<Rightarrow> AuthState \<Rightarrow> bool" where
  "expires_after limit auth \<longleftrightarrow> truthy_text (auth_accessToken auth) \<and> truthy_number (auth_accessExpiresAt auth)
     \<and> (case auth_accessExpiresAt auth of Some e \<Rightarrow> js_lt limit e | None \<Rightarrow> False)"

text \<open>\<open>getFreshAuthHeaders\<close> before its refresh; \<open>None\<close> where it refreshes.\<close>

definition fresh_headers_begin :: "jsnum \<Rightarrow> AuthState \<Rightarrow> (jstr \<times> jstr) list option" where
  "fresh_headers_begin now auth =
     (if expires_after (js_add (seconds now) (num 60)) auth then Some (getCommonHeaders auth) else None)"

text \<open>And after it; \<open>t\<close> is the translation of messages.\<close>

definition fresh_headers_finish ::
  "(jstr \<Rightarrow> jstr) \<Rightarrow> RefreshOutcome \<Rightarrow> jsnum \<Rightarrow> AuthState \<Rightarrow> jstr + (jstr \<times> jstr) list" where
  "fresh_headers_finish t outcome now auth =
     (case outcome of
        Authenticated b \<Rightarrow> Inr (getCommonHeaders auth)
      | _ \<Rightarrow>
          if expires_after (seconds now) auth then Inr (getCommonHeaders auth)
          else (case outcome of
              TransientError e \<Rightarrow> Inl (t (js ''Request failed''))
            | _ \<Rightarrow> Inl (t (js ''Session expired!''))))"

end
