(* ===== verification/AuthSystem.thy ===== *)
theory AuthSystem
  imports AuthSession
begin

text \<open>
  The authentication module in its tab: \<open>refreshAuthentication\<close> and its single task, the calls of the rest
  of the program (logins, rotations, sign-outs, setters, session events of other tabs), their
  interleavings, and the states they reach.
\<close>

section \<open>The contract of a refresh with its runtime\<close>

locale refresh_runtime =
  fixes rt :: "'s AuthRefreshRuntime"
    and ok :: "'s \<Rightarrow> bool"
  assumes accept_ok: "ok s \<Longrightarrow> parseBundle rt v = Some b \<Longrightarrow> ok (acceptBundle rt b s)"
    and clear_ok: "ok s \<Longrightarrow> ok (clearState rt sync bs s)"
    and mark_ok: "ok s \<Longrightarrow> ok (markTransient rt s)"
    and clear_sid: "getExpectedSID rt (clearState rt sync bs s) = None"
    and idle_current: "is_current rt s \<Longrightarrow> is_current rt (clearState rt False (Some BS_idle) s)"
begin

lemma response_ok: "ok s \<Longrightarrow> run_response rt n allow response s = (phase, s', requests) \<Longrightarrow> ok s'"
  by (auto simp: run_response_def run_begin_def Let_def split: if_splits option.splits bool.splits
      intro: accept_ok clear_ok mark_ok)

lemma stale_response:
  "\<not> is_current rt s \<Longrightarrow>
   run_response rt n allow response s = (Settled (TransientError Superseded), s, [])"
  by (simp add: run_response_def)

text \<open>Only the retry after a mismatch sends a request at once, and it names no session.\<close>

lemma response_requests:
  "run_response rt n allow response s = (phase, s', requests) \<Longrightarrow>
   requests = [] \<or> requests = [None] \<and> allow \<and> phase = Awaiting 0 False"
  by (auto simp: run_response_def run_begin_def Let_def clear_sid split: if_splits option.splits bool.splits)

lemma response_phase:
  "run_response rt n allow response s = (phase, s', requests) \<Longrightarrow>
   (\<exists>out. phase = Settled out) \<or> phase = Delaying (n + 1) allow \<and> n < 3
     \<or> phase = Awaiting 0 False \<and> allow \<and> requests = [None]"
  by (auto simp: run_response_def run_begin_def Let_def clear_sid idle_current refreshRaceDelays_def
      nth_opt_def split: if_splits option.splits bool.splits)

end

text \<open>The access token, its expiry and the session come and go together.\<close>

definition coherent_auth :: "AuthState \<Rightarrow> bool" where
  "coherent_auth auth \<longleftrightarrow>
     (case (auth_accessToken auth, auth_accessExpiresAt auth, auth_session auth) of
        (None, None, None) \<Rightarrow> True
      | (Some t, Some e, Some l) \<Rightarrow> valid_token t e l
      | _ \<Rightarrow> False)"

lemma coherent_setBundle [simp]: "coherent_auth (setBundle b auth) = valid_bundle b"
  by (simp add: coherent_auth_def setBundle_def valid_bundle_def)

lemma coherent_reset [simp]: "coherent_auth (reset_auth b auth)"
  by (simp add: coherent_auth_def reset_auth_def)

lemma coherent_setters [simp]:
  "coherent_auth (setUser u auth) = coherent_auth auth"
  "coherent_auth (setPendingLoginVerification p auth) = coherent_auth auth"
  "coherent_auth (setBootstrapState b auth) = coherent_auth auth"
  by (simp_all add: coherent_auth_def store_defs)

lemma applyAuthBundle_auth [simp]: "am_auth (applyAuthBundle b sync m) = setBundle b (am_auth m)"
  "am_epoch (applyAuthBundle b sync m) = Suc (am_epoch m)"
  by (simp_all add: applyAuthBundle_def publish_def Let_def)

lemma clearAuthentication_auth [simp]: "am_auth (clearAuthentication sync b m) = reset_auth b (am_auth m)"
  "am_epoch (clearAuthentication sync b m) = Suc (am_epoch m)"
  by (simp_all add: clearAuthentication_def publish_def Let_def split: option.splits)

lemma reset_auth_sel [simp]:
  "auth_user (reset_auth b auth) = None" "auth_session (reset_auth b auth) = None"
  "auth_accessToken (reset_auth b auth) = None" "auth_accessExpiresAt (reset_auth b auth) = None"
  "auth_pending (reset_auth b auth) = None" "auth_bootstrapState (reset_auth b auth) = b"
  by (simp_all add: reset_auth_def)

interpretation module_refresh: refresh_runtime "module_runtime epoch" "\<lambda>m. coherent_auth (am_auth m)"
  by unfold_locales
    (auto simp: module_runtime_def is_current_def current_sid_def parse_bundle_valid split: if_splits)

lemma module_runtime_current [simp]: "is_current (module_runtime epoch) m \<longleftrightarrow> am_epoch m = epoch"
  by (simp add: is_current_def module_runtime_def)

section \<open>The system\<close>

text \<open>The task behind \<open>refreshPromise\<close>, with the session identifiers of the requests it sent.\<close>

record RefreshTask =
  task_epoch :: nat
  task_phase :: refresh_phase
  task_requests :: "jstr option list"

record AuthSystem =
  sys_module :: AuthModule
  sys_task :: "RefreshTask option"

definition initial_system :: AuthSystem where
  "initial_system =
     \<lparr>sys_module = \<lparr>am_auth = initial_auth, am_epoch = 0, am_published = []\<rparr>, sys_task = None\<rparr>"

text \<open>
  \<open>navigator.locks\<close>: absent, or its \<open>request\<close> throws at once, or it returns a promise that grants the
  lock or rejects later.
\<close>

datatype lock_manager = No_locks | Lock_throws jsvalue | Lock_promised

definition performRefreshWithBrowserLock ::
  "lock_manager \<Rightarrow> nat \<Rightarrow> AuthModule \<Rightarrow> RefreshTask \<times> AuthModule" where
  "performRefreshWithBrowserLock locks refreshEpoch m =
     (case locks of
        No_locks \<Rightarrow>
          (let (phase, requests) = run_begin (module_runtime refreshEpoch) 0 True m
           in (\<lparr>task_epoch = refreshEpoch, task_phase = phase, task_requests = requests\<rparr>, m))
      | Lock_promised \<Rightarrow> (\<lparr>task_epoch = refreshEpoch, task_phase = Queued, task_requests = []\<rparr>, m)
      | Lock_throws e \<Rightarrow>
          (\<lparr>task_epoch = refreshEpoch, task_phase = Settled (TransientError (Failure e)), task_requests = []\<rparr>,
           m\<lparr>am_auth := setBootstrapState BS_idle (am_auth m)\<rparr>))"

definition refreshAuthentication :: "lock_manager \<Rightarrow> AuthSystem \<Rightarrow> AuthSystem" where
  "refreshAuthentication locks s =
     (case sys_task s of
        Some task \<Rightarrow> s
      | None \<Rightarrow>
          let (task, m) = performRefreshWithBrowserLock locks (am_epoch (sys_module s)) (sys_module s)
          in s\<lparr>sys_module := m, sys_task := Some task\<rparr>)"

text \<open>\<open>resolveAuthentication\<close> and \<open>bootstrapAuthentication\<close>, going on to the refresh they need.\<close>

definition continue_resolution ::
  "lock_manager \<Rightarrow> resolution \<times> AuthModule \<Rightarrow> AuthSystem \<Rightarrow> AuthSystem" where
  "continue_resolution locks r s =
     (case r of
        (Known out, m) \<Rightarrow> s\<lparr>sys_module := m\<rparr>
      | (NeedsRefresh, m) \<Rightarrow> refreshAuthentication locks (s\<lparr>sys_module := m\<rparr>))"

text \<open>The listener \<open>__root.tsx\<close> subscribes to the session events of other tabs, with what it asks of the page.\<close>

datatype page_effect = Stay | Reload | Sign_in

definition on_session_event :: "AuthSessionSyncEvent \<Rightarrow> AuthModule \<Rightarrow> AuthModule \<times> page_effect" where
  "on_session_event e m =
     (let currentSID = current_sid m in
      case se_kind e of
        SE_authenticated \<Rightarrow>
          if Some (se_sid e) = currentSID then (m, Stay)
          else if truthy_text currentSID then (clearAuthentication False BS_complete m, Reload)
          else (m, Reload)
      | SE_signed_out \<Rightarrow>
          if truthy_text currentSID \<and> currentSID = Some (se_sid e)
          then (clearAuthentication False BS_complete m, Sign_in)
          else (m, Stay))"

text \<open>What happens in a tab, with the inputs of each event.\<close>

datatype auth_event =
    Refresh_called lock_manager
  | Resolve_called jsnum lock_manager
  | Bootstrap_called jsnum "jstr option" lock_manager
  | Lock_granted
  | Lock_rejected
  | Responded AuthRefreshHTTPResponse
  | Delay_over
  | Refresh_finished
  | Logged_in jsvalue bool
  | Rotated jsvalue
  | Cleared bool AuthBootstrapState
  | User_set "AuthUser option"
  | Pending_set "PendingLoginVerification option"
  | Session_event AuthSessionSyncEvent
  | Page_loaded

definition update_module :: "(AuthModule \<Rightarrow> AuthModule) \<Rightarrow> AuthSystem \<Rightarrow> AuthSystem" where
  "update_module f s = s\<lparr>sys_module := f (sys_module s)\<rparr>"

definition update_auth :: "(AuthState \<Rightarrow> AuthState) \<Rightarrow> AuthModule \<Rightarrow> AuthModule" where
  "update_auth f m = m\<lparr>am_auth := f (am_auth m)\<rparr>"

text \<open>The task goes on to its next request, or settles because its epoch has passed.\<close>

definition begin_request :: "RefreshTask \<Rightarrow> nat \<Rightarrow> bool \<Rightarrow> AuthSystem \<Rightarrow> AuthSystem" where
  "begin_request task raceAttempt allow s =
     (let (phase, requests) = run_begin (module_runtime (task_epoch task)) raceAttempt allow (sys_module s)
      in s\<lparr>sys_task := Some (task\<lparr>task_phase := phase, task_requests := task_requests task @ requests\<rparr>)\<rparr>)"

definition receive_response ::
  "RefreshTask \<Rightarrow> nat \<Rightarrow> bool \<Rightarrow> AuthRefreshHTTPResponse \<Rightarrow> AuthSystem \<Rightarrow> AuthSystem" where
  "receive_response task raceAttempt allow response s =
     (let (phase, m, requests) =
            run_response (module_runtime (task_epoch task)) raceAttempt allow response (sys_module s)
      in s\<lparr>sys_module := m,
           sys_task := Some (task\<lparr>task_phase := phase, task_requests := task_requests task @ requests\<rparr>)\<rparr>)"

inductive auth_step :: "AuthSystem \<Rightarrow> auth_event \<Rightarrow> AuthSystem \<Rightarrow> bool" where
  refresh: "auth_step s (Refresh_called locks) (refreshAuthentication locks s)"
| resolve: "auth_step s (Resolve_called now locks)
     (continue_resolution locks (resolveAuthentication now (sys_module s)) s)"
| bootstrap: "auth_step s (Bootstrap_called now cookies locks)
     (continue_resolution locks (bootstrapAuthentication now cookies (sys_module s)) s)"
| granted: "sys_task s = Some task \<Longrightarrow> task_phase task = Queued \<Longrightarrow>
     auth_step s Lock_granted (begin_request task 0 True s)"
| rejected: "sys_task s = Some task \<Longrightarrow> task_phase task = Queued \<Longrightarrow>
     auth_step s Lock_rejected (s\<lparr>sys_task := None\<rparr>)"
| response: "sys_task s = Some task \<Longrightarrow> task_phase task = Awaiting n allow \<Longrightarrow>
     auth_step s (Responded r) (receive_response task n allow r s)"
| delay: "sys_task s = Some task \<Longrightarrow> task_phase task = Delaying n allow \<Longrightarrow>
     auth_step s Delay_over (begin_request task n allow s)"
| finished: "sys_task s = Some task \<Longrightarrow> task_phase task = Settled out \<Longrightarrow>
     auth_step s Refresh_finished (s\<lparr>sys_task := None\<rparr>)"
| login: "parse_bundle v = Some b \<Longrightarrow> auth_step s (Logged_in v sync) (update_module (applyAuthBundle b sync) s)"
| rotation: "applyAuthRotation v (sys_module s) = Inr m \<Longrightarrow> auth_step s (Rotated v) (s\<lparr>sys_module := m\<rparr>)"
| rotation_error: "applyAuthRotation v (sys_module s) = Inl e \<Longrightarrow> auth_step s (Rotated v) s"
| clear: "auth_step s (Cleared sync b) (update_module (clearAuthentication sync b) s)"
| user: "auth_step s (User_set u) (update_module (update_auth (setUser u)) s)"
| pending: "auth_step s (Pending_set p) (update_module (update_auth (setPendingLoginVerification p)) s)"
| event: "auth_step s (Session_event e) (update_module (fst \<circ> on_session_event e) s)"
| reload: "auth_step s Page_loaded initial_system"

inductive_cases auth_step_cases: "auth_step s e s'"

inductive auth_run :: "AuthSystem \<Rightarrow> auth_event list \<Rightarrow> AuthSystem \<Rightarrow> bool" where
  stop: "auth_run s [] s"
| step: "auth_step s e s' \<Longrightarrow> auth_run s' es s'' \<Longrightarrow> auth_run s (e # es) s''"

inductive_cases auth_run_nil: "auth_run s [] s'"
inductive_cases auth_run_cons: "auth_run s (e # es) s'"

inductive_simps auth_run_simps: "auth_run s [] s'" "auth_run s (e # es) s'"

lemma auth_run_single: "auth_step s e s' \<Longrightarrow> auth_run s [e] s'"
  by (simp add: auth_run_simps)

section \<open>The store stays coherent\<close>

lemma coherent_initial [simp]: "coherent_auth (am_auth (sys_module initial_system))"
  by (simp add: initial_system_def initial_auth_def coherent_auth_def)

lemma coherent_begin: "sys_module (begin_request task n allow s) = sys_module s"
  by (simp add: begin_request_def split: prod.split)

lemma coherent_receive:
  "coherent_auth (am_auth (sys_module s)) \<Longrightarrow>
   coherent_auth (am_auth (sys_module (receive_response task n allow r s)))"
  by (auto simp: receive_response_def split: prod.splits dest: module_refresh.response_ok)

lemma coherent_refresh:
  "coherent_auth (am_auth (sys_module s)) \<Longrightarrow>
   coherent_auth (am_auth (sys_module (refreshAuthentication locks s)))"
  by (auto simp: refreshAuthentication_def performRefreshWithBrowserLock_def split: option.splits prod.splits
      lock_manager.splits)

lemma resolve_auth:
  "resolveAuthentication now m = (r, m') \<Longrightarrow> m' = m \<or> (\<exists>b. m' = update_auth (setBootstrapState b) m)"
  by (auto simp: resolveAuthentication_def update_auth_def Let_def split: option.splits if_splits)

lemma bootstrap_auth:
  "bootstrapAuthentication now cookies m = (r, m') \<Longrightarrow>
   m' = m \<or> (\<exists>b. m' = update_auth (setBootstrapState b) m)"
  by (auto simp: bootstrapAuthentication_def split: if_splits dest: resolve_auth)

lemma am_auth_update [simp]: "am_auth (update_auth f m) = f (am_auth m)" "am_epoch (update_auth f m) = am_epoch m"
  by (simp_all add: update_auth_def)

lemma coherent_continue:
  assumes "coherent_auth (am_auth m)"
  shows "coherent_auth (am_auth (sys_module (continue_resolution locks (r, m) s)))"
  using assms by (cases r) (simp_all add: continue_resolution_def coherent_refresh)

lemma rotation_valid: "isAuthTokenRotation v \<Longrightarrow> valid_bundle (rotated_bundle v u)"
  unfolding isAuthTokenRotation_def hasValidTokenFields_def isLoginSession_def is_nonempty_string_def
    valid_bundle_def valid_token_def session_of_def rotated_bundle_def
  by (clarsimp simp: text_of_def number_of_def split: jsvalue.splits)

text \<open>A rotation that is accepted keeps the user and the session.\<close>

lemma applyAuthRotation_cases:
  assumes "applyAuthRotation v m = Inr m'"
  obtains user where "m' = applyAuthBundle (rotated_bundle v user) False m" "isAuthTokenRotation v"
    "auth_user (am_auth m) = Some user"
  using assms by (auto simp: applyAuthRotation_def split: if_splits option.splits)

lemma coherent_rotation:
  "applyAuthRotation v m = Inr m' \<Longrightarrow> coherent_auth (am_auth m')"
  by (elim applyAuthRotation_cases) (simp add: rotation_valid)

lemma coherent_event:
  "coherent_auth (am_auth m) \<Longrightarrow> coherent_auth (am_auth (fst (on_session_event e m)))"
  by (simp add: on_session_event_def Let_def split: session_event_kind.split)

lemma auth_step_coherent:
  "auth_step s e s' \<Longrightarrow> coherent_auth (am_auth (sys_module s)) \<Longrightarrow> coherent_auth (am_auth (sys_module s'))"
proof (induction rule: auth_step.induct)
  case (resolve s now locks)
  then show ?case
    by (cases "resolveAuthentication now (sys_module s)") (auto dest!: resolve_auth intro!: coherent_continue)
next
  case (bootstrap s now cookies locks)
  then show ?case
    by (cases "bootstrapAuthentication now cookies (sys_module s)")
      (auto dest!: bootstrap_auth intro!: coherent_continue)
qed (simp_all add: coherent_refresh coherent_begin coherent_receive coherent_rotation coherent_event
    update_module_def parse_bundle_valid)

lemma auth_run_coherent:
  "auth_run s es s' \<Longrightarrow> coherent_auth (am_auth (sys_module s)) \<Longrightarrow> coherent_auth (am_auth (sys_module s'))"
  by (induction rule: auth_run.induct) (auto dest: auth_step_coherent)

section \<open>The epoch of the task\<close>

text \<open>A session appears only together with a new epoch.\<close>

definition later :: "AuthModule \<Rightarrow> AuthModule \<Rightarrow> bool" where
  "later m m' \<longleftrightarrow> am_epoch m < am_epoch m' \<or> am_epoch m = am_epoch m' \<and> current_sid m' \<in> {current_sid m, None}"

lemma later_refl [simp]: "later m m"
  by (simp add: later_def)

lemma later_update [simp]:
  "auth_session (f (am_auth m)) = auth_session (am_auth m) \<or> auth_session (f (am_auth m)) = None \<Longrightarrow>
   later m (update_auth f m)"
  by (auto simp: later_def update_auth_def current_sid_def)

lemma later_apply [simp]: "later m (applyAuthBundle b sync m)"
  by (simp add: later_def)

lemma later_clear [simp]: "later m (clearAuthentication sync b m)"
  by (simp add: later_def)

lemma session_setters [simp]:
  "auth_session (setUser u auth) = auth_session auth"
  "auth_session (setPendingLoginVerification p auth) = auth_session auth"
  "auth_session (setBootstrapState b auth) = auth_session auth"
  by (simp_all add: store_defs)

lemma later_rotation: "applyAuthRotation v m = Inr m' \<Longrightarrow> later m m'"
  by (elim applyAuthRotation_cases) simp

lemma later_event [simp]: "later m (fst (on_session_event e m))"
  by (simp add: on_session_event_def Let_def split: session_event_kind.split)

end
