(* ===== verification/AuthRefresh.thy ===== *)
theory AuthRefresh
  imports AuthSystem
begin

text \<open>
  The refresh task across all interleavings: what it has sent, that it ends, that a task whose epoch has
  passed changes nothing, and what its outcome says of the store.
\<close>

section \<open>The requests of a task\<close>

text \<open>
  Up to four attempts with the session of the store, and after a mismatch up to four without a session.
  While a task that retries is current there is no session, so no attempt names a stale one.
\<close>

definition sent :: "nat \<Rightarrow> bool \<Rightarrow> jstr option list \<Rightarrow> bool" where
  "sent n allow requests \<longleftrightarrow>
     n \<le> 4 \<and> (if allow then length requests = n
              else \<exists>before. length before \<le> 4 \<and> requests = before @ replicate n None)"

definition task_ok :: "AuthModule \<Rightarrow> RefreshTask \<Rightarrow> bool" where
  "task_ok m task \<longleftrightarrow> task_epoch task \<le> am_epoch m \<and>
     (case task_phase task of
        Queued \<Rightarrow> task_requests task = []
      | Awaiting n allow \<Rightarrow> n \<le> 3 \<and> sent (Suc n) allow (task_requests task)
          \<and> (allow \<or> am_epoch m \<noteq> task_epoch task \<or> current_sid m = None)
      | Delaying n allow \<Rightarrow> 1 \<le> n \<and> n \<le> 3 \<and> sent n allow (task_requests task)
          \<and> (allow \<or> am_epoch m \<noteq> task_epoch task \<or> current_sid m = None)
      | Settled out \<Rightarrow> \<exists>n allow. sent n allow (task_requests task))"

definition system_ok :: "AuthSystem \<Rightarrow> bool" where
  "system_ok s \<longleftrightarrow> (case sys_task s of None \<Rightarrow> True | Some task \<Rightarrow> task_ok (sys_module s) task)"

lemma sent_bound:
  assumes "sent n allow requests"
  shows "length requests \<le> 8" "set (drop 4 requests) \<subseteq> {None}"
proof -
  show "length requests \<le> 8"
    using assms by (auto simp: sent_def split: if_splits)
  show "set (drop 4 requests) \<subseteq> {None}"
  proof (cases allow)
    case True
    with assms show ?thesis by (simp add: sent_def)
  next
    case False
    with assms obtain before where "length before \<le> 4" "requests = before @ replicate n None"
      by (auto simp: sent_def)
    then show ?thesis by (auto dest: in_set_dropD)
  qed
qed

lemma sent_settled: "sent n allow requests \<Longrightarrow> \<exists>n allow. sent n allow requests"
  by blast

lemma sent_retry: "sent n True requests \<Longrightarrow> n \<le> 4 \<Longrightarrow> sent 1 False (requests @ [None])"
  by (auto simp: sent_def)

lemma sent_next: "sent n allow requests \<Longrightarrow> n \<le> 3 \<Longrightarrow> allow \<or> sid = None \<Longrightarrow> sent (Suc n) allow (requests @ [sid])"
  by (auto simp: sent_def replicate_append_same [symmetric])

lemma task_ok_later: "task_ok m task \<Longrightarrow> later m m' \<Longrightarrow> task_ok m' task"
  by (auto simp: task_ok_def later_def split: refresh_phase.splits)

lemma system_ok_later:
  "system_ok s \<Longrightarrow> later (sys_module s) m \<Longrightarrow> system_ok (s\<lparr>sys_module := m\<rparr>)"
  by (auto simp: system_ok_def task_ok_later split: option.splits)

lemma system_ok_update:
  "system_ok s \<Longrightarrow> later (sys_module s) (f (sys_module s)) \<Longrightarrow> system_ok (update_module f s)"
  by (simp add: update_module_def system_ok_later)

text \<open>The runtime of the module: a settled or waiting run keeps the epoch, or advances it.\<close>

lemma run_response_later:
  "run_response (module_runtime epoch) n allow r m = (phase, m', requests) \<Longrightarrow> later m m'"
  by (auto simp: run_response_def run_begin_def module_runtime_def is_current_def later_def current_sid_def
      Let_def split: if_splits option.splits bool.splits)

lemma run_response_sid:
  "run_response (module_runtime epoch) n allow r m = (phase, m', requests) \<Longrightarrow>
   phase = Awaiting k allow' \<Longrightarrow> am_epoch m' = epoch \<and> current_sid m' = None"
  by (auto simp: run_response_def run_begin_def module_runtime_def is_current_def current_sid_def
      Let_def split: if_splits option.splits bool.splits)

section \<open>Every step keeps the invariant\<close>

lemma idle_system_ok [simp]: "system_ok (s\<lparr>sys_task := None\<rparr>)"
  by (simp add: system_ok_def)

lemma initial_system_ok [simp]: "system_ok initial_system"
  by (simp add: system_ok_def initial_system_def)

lemma begin_request_ok:
  assumes "system_ok s" "sys_task s = Some task" "task_phase task = Queued \<and> n = 0 \<and> allow \<or> task_phase task = Delaying n allow"
  shows "system_ok (begin_request task n allow s)"
proof -
  from assms have ok: "task_ok (sys_module s) task" by (simp add: system_ok_def)
  from assms(3) ok have sent: "sent n allow (task_requests task)" "n \<le> 3"
    and sid: "allow \<or> am_epoch (sys_module s) \<noteq> task_epoch task \<or> current_sid (sys_module s) = None"
    by (auto simp: task_ok_def sent_def)
  show ?thesis
  proof (cases "am_epoch (sys_module s) = task_epoch task")
    case True
    with sent sid ok show ?thesis
      by (auto simp: begin_request_def run_begin_def system_ok_def task_ok_def module_runtime_def is_current_def
          intro: sent_next)
  next
    case False
    with sent ok show ?thesis
      by (auto simp: begin_request_def run_begin_def system_ok_def task_ok_def intro: sent_settled)
  qed
qed

lemma receive_response_ok:
  assumes "system_ok s" "sys_task s = Some task" "task_phase task = Awaiting n allow"
  shows "system_ok (receive_response task n allow r s)"
proof -
  from assms have ok: "task_ok (sys_module s) task" by (simp add: system_ok_def)
  obtain phase m requests where run:
    "run_response (module_runtime (task_epoch task)) n allow r (sys_module s) = (phase, m, requests)"
    by (cases "run_response (module_runtime (task_epoch task)) n allow r (sys_module s)") auto
  let ?task = "task\<lparr>task_phase := phase, task_requests := task_requests task @ requests\<rparr>"
  from ok assms(3) have sent: "sent (Suc n) allow (task_requests task)" "n \<le> 3"
    by (auto simp: task_ok_def)
  have later: "task_ok m task" by (rule task_ok_later [OF ok run_response_later [OF run]])
  have epoch: "task_epoch task \<le> am_epoch m" using later by (simp add: task_ok_def)
  have retry: "task_ok m ?task" if retry: "phase = Awaiting 0 False" "allow" "requests = [None]"
  proof -
    from run_response_sid [OF run retry(1)] have "current_sid m = None" by simp
    with retry sent epoch sent_retry [of "Suc n" "task_requests task"] show ?thesis
      by (simp add: task_ok_def)
  qed
  have "task_ok m ?task"
    using module_refresh.response_phase [OF run] module_refresh.response_requests [OF run]
  proof (elim disjE conjE exE)
    fix out assume settled: "phase = Settled out" and "requests = []"
    with sent epoch show ?thesis by (auto simp: task_ok_def intro: sent_settled)
  next
    assume "phase = Delaying (n + 1) allow" "n < 3" "requests = []"
    with sent later assms(3) show ?thesis by (simp add: task_ok_def)
  qed (insert retry, simp_all)
  with run show ?thesis by (simp add: receive_response_def system_ok_def)
qed

lemma refreshAuthentication_ok:
  assumes "system_ok s"
  shows "system_ok (refreshAuthentication locks s)"
proof (cases "sys_task s")
  case None
  then show ?thesis
    by (cases locks) (auto simp: refreshAuthentication_def performRefreshWithBrowserLock_def run_begin_def
        system_ok_def task_ok_def sent_def intro: exI [of _ True])
next
  case (Some task)
  with assms show ?thesis by (simp add: refreshAuthentication_def)
qed

lemma continue_resolution_ok:
  assumes "system_ok s" "m = sys_module s \<or> (\<exists>b. m = update_auth (setBootstrapState b) (sys_module s))"
  shows "system_ok (continue_resolution locks (r, m) s)"
proof -
  have "system_ok (s\<lparr>sys_module := m\<rparr>)"
    using assms by (intro system_ok_later) auto
  then show ?thesis
    by (cases r) (simp_all add: continue_resolution_def refreshAuthentication_ok)
qed

lemma auth_step_ok: "auth_step s e s' \<Longrightarrow> system_ok s \<Longrightarrow> system_ok s'"
proof (induction rule: auth_step.induct)
  case (resolve s now locks)
  then show ?case
    by (cases "resolveAuthentication now (sys_module s)") (auto dest!: resolve_auth intro!: continue_resolution_ok)
next
  case (bootstrap s now cookies locks)
  then show ?case
    by (cases "bootstrapAuthentication now cookies (sys_module s)")
      (auto dest!: bootstrap_auth intro!: continue_resolution_ok)
next
  case (rotation v s m)
  then show ?case by (intro system_ok_later) (auto dest: later_rotation)
qed (simp_all add: begin_request_ok receive_response_ok refreshAuthentication_ok system_ok_update)

lemma auth_run_ok: "auth_run s es s' \<Longrightarrow> system_ok s \<Longrightarrow> system_ok s'"
  by (induction rule: auth_run.induct) (auto dest: auth_step_ok)


section \<open>A task ends\<close>

text \<open>The events of the task itself; \<open>Refresh_finished\<close> and \<open>Lock_rejected\<close> remove it.\<close>

fun progress_event :: "auth_event \<Rightarrow> bool" where
  "progress_event Lock_granted = True"
| "progress_event (Responded r) = True"
| "progress_event Delay_over = True"
| "progress_event _ = False"

fun task_event :: "auth_event \<Rightarrow> bool" where
  "task_event Lock_rejected = True"
| "task_event Refresh_finished = True"
| "task_event e = progress_event e"

fun phase_rank :: "refresh_phase \<Rightarrow> nat" where
  "phase_rank Queued = 15"
| "phase_rank (Awaiting n allow) = (if allow then 7 else 0) + 2 * (3 - n) + 1"
| "phase_rank (Delaying n allow) = (if allow then 7 else 0) + 2 * (3 - n) + 2"
| "phase_rank (Settled out) = 0"

lemma run_begin_rank:
  "run_begin rt n allow s = (phase, requests) \<Longrightarrow> phase_rank phase \<le> (if allow then 7 else 0) + 2 * (3 - n) + 1"
  by (auto simp: run_begin_def split: if_splits)

lemma run_response_rank:
  assumes "run_response (module_runtime epoch) n allow r m = (phase, m', requests)"
  shows "phase_rank phase < phase_rank (Awaiting n allow)"
  using module_refresh.response_phase [OF assms] by (elim disjE conjE exE) auto

lemma progress_rank:
  assumes "auth_step s e s'" "progress_event e" "sys_task s = Some task"
  obtains task' where "sys_task s' = Some task'" "phase_rank (task_phase task') < phase_rank (task_phase task)"
  using assms
proof cases
  case granted
  with assms that show thesis
    by (auto simp: begin_request_def split: prod.splits dest!: run_begin_rank)
next
  case (delay task n allow)
  with assms that show thesis
    by (auto simp: begin_request_def split: prod.splits dest!: run_begin_rank)
next
  case (response task n allow r)
  with assms that show thesis
    by (auto simp: receive_response_def split: prod.splits dest!: run_response_rank)
qed auto

lemma progress_run:
  "auth_run s es s' \<Longrightarrow> list_all progress_event es \<Longrightarrow> sys_task s = Some task \<Longrightarrow>
   \<exists>task'. sys_task s' = Some task' \<and> length es + phase_rank (task_phase task') \<le> phase_rank (task_phase task)"
proof (induction arbitrary: task rule: auth_run.induct)
  case (step s e s1 es s2)
  from step.hyps(1) step.prems obtain task1 where "sys_task s1 = Some task1"
      "phase_rank (task_phase task1) < phase_rank (task_phase task)"
    by (auto elim: progress_rank)
  with step.IH [of task1] step.prems show ?case by auto
qed simp

lemma phase_rank_bound: "task_ok m task \<Longrightarrow> phase_rank (task_phase task) \<le> 15"
  by (cases "task_phase task") auto

text \<open>A task that has not settled waits for the lock, a response or the end of a delay.\<close>

lemma task_enabled:
  assumes "sys_task s = Some task"
  shows "(\<exists>out. task_phase task = Settled out) \<or> (\<exists>s'. auth_step s Lock_granted s')
    \<or> (\<forall>r. \<exists>s'. auth_step s (Responded r) s') \<or> (\<exists>s'. auth_step s Delay_over s')"
  using assms by (cases "task_phase task") (blast intro: auth_step.intros)+

section \<open>A superseded task changes nothing\<close>

definition superseded :: "AuthSystem \<Rightarrow> bool" where
  "superseded s \<longleftrightarrow> (\<forall>task. sys_task s = Some task \<longrightarrow> task_epoch task < am_epoch (sys_module s))"

lemma superseded_step:
  assumes "auth_step s e s'" "task_event e" "superseded s"
  shows "sys_module s' = sys_module s \<and> superseded s'"
  using assms
  by cases (auto simp: superseded_def begin_request_def receive_response_def run_begin_def run_response_def)

lemma superseded_run:
  "auth_run s es s' \<Longrightarrow> list_all task_event es \<Longrightarrow> superseded s \<Longrightarrow> sys_module s' = sys_module s"
  by (induction rule: auth_run.induct) (auto dest: superseded_step)

text \<open>A login and a sign-out supersede the task that is under way.\<close>

lemma change_supersedes:
  assumes "system_ok s" "auth_step s e s'" "e = Logged_in v sync \<or> e = Cleared sync b"
  shows "superseded s'"
  using assms(2,1,3)
  by cases (auto simp: superseded_def system_ok_def task_ok_def update_module_def)

section \<open>What an outcome says of the store\<close>

definition outcome_fits :: "RefreshOutcome \<Rightarrow> AuthRefreshHTTPResponse \<Rightarrow> AuthState \<Rightarrow> AuthState \<Rightarrow> bool" where
  "outcome_fits out r auth auth' \<longleftrightarrow>
     (case out of
        Authenticated b \<Rightarrow> get_prop (hr_data r) (js ''success'') = JBool True
          \<and> parse_bundle (get_prop (hr_data r) (js ''data'')) = Some b \<and> auth' = setBundle b auth
      | Anonymous \<Rightarrow> hr_status r = 401 \<and> auth' = reset_auth BS_complete auth
      | TransientError Superseded \<Rightarrow> auth' = auth
      | TransientError (Failure e) \<Rightarrow> (hr_status r = 0 \<or> hr_status r = 429 \<or> hr_status r \<ge> 500)
          \<and> auth' = setBootstrapState BS_idle auth
      | OutOfSync code \<Rightarrow> auth' = reset_auth BS_complete auth)"

lemma run_response_outcome:
  assumes "run_response (module_runtime epoch) n allow r m = (Settled out, m', requests)"
  shows "outcome_fits out r (am_auth m) (am_auth m')"
  using assms unfolding run_response_def Let_def
  by (auto simp: outcome_fits_def module_runtime_def is_current_def run_begin_def
      split: if_splits option.splits bool.splits)

end
