(* ===== verification/AuthProperties.thy ===== *)
theory AuthProperties
  imports AuthRefresh
begin

text \<open>
  The properties of authentication, each with a witness on a concrete run of a tab: a login, a refresh,
  and a sign-out while the refresh waits for its response.
\<close>

section \<open>A sample run\<close>

definition sample_session :: jsvalue where
  "sample_session =
     JObj [(js ''sid'', JStr (js ''s1'')), (js ''current'', JBool True), (js ''login_method'', JStr (js ''password'')),
           (js ''ip'', JStr (js ''::1'')), (js ''user_agent'', JStr (js ''ua'')), (js ''created_at'', JNum (num 1)),
           (js ''last_active_at'', JNum (num 2)), (js ''expires_at'', JNum (num 5000))]"

definition sample_bundle :: jsvalue where
  "sample_bundle =
     JObj [(js ''access_token'', JStr (js ''t1'')), (js ''token_type'', JStr (js ''Bearer'')),
           (js ''access_expires_at'', JNum (num 900)),
           (js ''user'', JObj [(js ''id'', JNum (num 7)), (js ''username'', JStr (js ''ann'')), (js ''role'', JNum (num 1))]),
           (js ''session'', sample_session)]"

definition refreshed :: AuthRefreshHTTPResponse where
  "refreshed =
     \<lparr>hr_status = 200, hr_data = JObj [(js ''success'', JBool True), (js ''data'', sample_bundle)],
      hr_error = JUndefined\<rparr>"

definition mismatch :: AuthRefreshHTTPResponse where
  "mismatch =
     \<lparr>hr_status = 409, hr_data = JObj [(js ''code'', JStr (js ''AUTH_SESSION_MISMATCH''))],
      hr_error = JUndefined\<rparr>"

definition signed_in :: AuthSystem where
  "signed_in = update_module (applyAuthBundle (bundle_of sample_bundle) True) initial_system"

definition refreshing :: AuthSystem where
  "refreshing = refreshAuthentication No_locks signed_in"

definition sample_task :: RefreshTask where
  "sample_task = \<lparr>task_epoch = 1, task_phase = Awaiting 0 True, task_requests = [Some (js ''s1'')]\<rparr>"

definition signed_out :: AuthSystem where
  "signed_out = update_module (clearAuthentication True BS_complete) refreshing"

lemma sample_parses: "parse_bundle sample_bundle = Some (bundle_of sample_bundle)"
proof -
  have "isAuthBundle sample_bundle" by code_simp
  then show ?thesis by (simp add: parse_bundle_def)
qed

lemma sample_tasks: "sys_task refreshing = Some sample_task" "sys_task signed_out = Some sample_task"
proof -
  show "sys_task refreshing = Some sample_task" by code_simp
  then show "sys_task signed_out = Some sample_task" by (simp add: signed_out_def update_module_def)
qed

lemma sample_phase: "task_phase sample_task = Awaiting 0 True"
  by (simp add: sample_task_def)

lemma sample_login: "auth_step initial_system (Logged_in sample_bundle True) signed_in"
  unfolding signed_in_def by (rule auth_step.login [OF sample_parses])

lemma sample_refresh: "auth_step signed_in (Refresh_called No_locks) refreshing"
  unfolding refreshing_def by (rule auth_step.refresh)

lemma sample_run: "auth_run initial_system [Logged_in sample_bundle True, Refresh_called No_locks] refreshing"
  by (rule auth_run.step [OF sample_login auth_run_single [OF sample_refresh]])

lemmas sample_responses = sample_tasks [THEN auth_step.response, OF sample_phase]

lemma sample_sign_out: "auth_step refreshing (Cleared True BS_complete) signed_out"
  unfolding signed_out_def by (rule auth_step.clear)

section \<open>The store and its refreshes\<close>

text \<open>
  C29: In every state a tab reaches, the access token, its expiry and the session are either all absent,
  or all present with a non-empty token, a positive finite expiry and a non-empty session identifier.
\<close>

theorem auth_store_coherent:
  assumes "auth_run initial_system es s"
  shows "coherent_auth (am_auth (sys_module s))"
  using auth_run_coherent [OF assms] by simp

theorem auth_store_coherent_witness: "coherent_auth (am_auth (sys_module refreshing))"
  by (rule auth_store_coherent [OF sample_run])

text \<open>
  C30: A refresh that is under way when the user signs in or out is superseded: whatever its lock, its
  responses and its delays do afterwards, they leave the authentication module as the sign-in or
  sign-out left it. A late response cannot undo a sign-out.
\<close>

theorem late_refresh_harmless:
  assumes "auth_run initial_system es s" "auth_step s e s1" "e = Logged_in v sync \<or> e = Cleared sync b"
    and "auth_run s1 es' s2" "list_all task_event es'"
  shows "sys_module s2 = sys_module s1"
  using auth_run_ok [OF assms(1)] change_supersedes assms(2-5) by (auto intro: superseded_run)

theorem late_refresh_harmless_witness:
  "sys_module (receive_response sample_task 0 True refreshed signed_out) = sys_module signed_out"
proof (rule late_refresh_harmless [OF sample_run sample_sign_out])
  show "Cleared True BS_complete = Logged_in v True \<or> Cleared True BS_complete = Cleared True BS_complete" for v
    by simp
  show "auth_run signed_out [Responded refreshed] (receive_response sample_task 0 True refreshed signed_out)"
    by (rule auth_run_single [OF sample_responses(2)])
  show "list_all task_event [Responded refreshed]" by simp
qed

text \<open>
  C31: A refresh sends at most eight requests, and from the fifth on none names a session: only the
  attempts before a session mismatch carry the session of the store.
\<close>

theorem refresh_requests_bounded:
  assumes "auth_run initial_system es s" "sys_task s = Some task"
  shows "length (task_requests task) \<le> 8 \<and> set (drop 4 (task_requests task)) \<subseteq> {None}"
proof -
  have "system_ok s" by (rule auth_run_ok [OF assms(1)]) simp
  with assms(2) have "task_ok (sys_module s) task" by (simp add: system_ok_def)
  then obtain n allow where "sent n allow (task_requests task)"
    by (cases "task_phase task") (auto simp: task_ok_def intro: that [of 0 True] simp: sent_def [of 0 True])
  then show ?thesis by (simp add: sent_bound)
qed

theorem refresh_requests_bounded_witness:
  "length (task_requests sample_task) \<le> 8 \<and> set (drop 4 (task_requests sample_task)) \<subseteq> {None}"
  by (rule refresh_requests_bounded [OF sample_run sample_tasks(1)])

text \<open>
  C32: A refresh settles: of its own events (the lock is granted, a response arrives, a delay ends) at most
  fifteen can follow one another, and after any of them the task is settled or one of these events can
  happen, a response being able to be any response at all.
\<close>

theorem refresh_settles:
  assumes "auth_run initial_system es s" "sys_task s = Some task"
    and "auth_run s es' s'" "list_all progress_event es'"
  shows "length es' \<le> 15 \<and>
    (\<exists>task'. sys_task s' = Some task' \<and>
      ((\<exists>out. task_phase task' = Settled out) \<or> (\<exists>s''. auth_step s' Lock_granted s'')
        \<or> (\<forall>r. \<exists>s''. auth_step s' (Responded r) s'') \<or> (\<exists>s''. auth_step s' Delay_over s'')))"
proof -
  have "system_ok s" by (rule auth_run_ok [OF assms(1)]) simp
  with assms(2) have "task_ok (sys_module s) task" by (simp add: system_ok_def)
  then have "phase_rank (task_phase task) \<le> 15" by (rule phase_rank_bound)
  with progress_run [OF assms(3,4,2)] task_enabled show ?thesis by fastforce
qed

theorem refresh_settles_witness:
  "length [Responded mismatch] \<le> 15 \<and>
    (\<exists>task'. sys_task (receive_response sample_task 0 True mismatch refreshing) = Some task' \<and>
      ((\<exists>out. task_phase task' = Settled out)
        \<or> (\<exists>s''. auth_step (receive_response sample_task 0 True mismatch refreshing) Lock_granted s'')
        \<or> (\<forall>r. \<exists>s''. auth_step (receive_response sample_task 0 True mismatch refreshing) (Responded r) s'')
        \<or> (\<exists>s''. auth_step (receive_response sample_task 0 True mismatch refreshing) Delay_over s'')))"
  by (rule refresh_settles [OF sample_run sample_tasks(1) auth_run_single [OF sample_responses(1)]]) simp

text \<open>
  The outcome of a refresh describes the response and the store: \<open>Authenticated\<close> comes from a
  successful body with a valid bundle, which is now the store's; \<open>Anonymous\<close> from status 401, with the
  store signed out; a transient failure from no status, 429 or 5xx, with credentials untouched;
  \<open>OutOfSync\<close> with the store signed out; a superseded refresh with the store untouched.
\<close>

theorem refresh_outcome_describes_store:
  assumes "auth_step s (Responded r) s'" "sys_task s' = Some task" "task_phase task = Settled out"
  shows "outcome_fits out r (am_auth (sys_module s)) (am_auth (sys_module s'))"
  using assms
  by cases (auto simp: receive_response_def split: prod.splits dest: run_response_outcome)

definition settled_task :: RefreshTask where
  "settled_task = sample_task\<lparr>task_phase := Settled (Authenticated (bundle_of sample_bundle))\<rparr>"

theorem refresh_outcome_describes_store_witness:
  "outcome_fits (Authenticated (bundle_of sample_bundle)) refreshed (am_auth (sys_module refreshing))
     (am_auth (sys_module (receive_response sample_task 0 True refreshed refreshing)))"
proof (rule refresh_outcome_describes_store)
  show "auth_step refreshing (Responded refreshed) (receive_response sample_task 0 True refreshed refreshing)"
    by (rule sample_responses(1))
  show "sys_task (receive_response sample_task 0 True refreshed refreshing) = Some settled_task" by code_simp
  show "task_phase settled_task = Settled (Authenticated (bundle_of sample_bundle))"
    by (simp add: settled_task_def)
qed

section \<open>Booting, other tabs and cookies\<close>

text \<open>
  Skipping the boot refresh for want of a session hint records nothing: the module is as before, and
  as no check had been completed the next resolution, at any time, still asks the server.
\<close>

theorem bootstrap_skip_recoverable:
  assumes "bootstrapAuthentication now cookies m = (Known Anonymous, m')"
    and "auth_bootstrapState (am_auth m) \<noteq> BS_complete"
  shows "m' = m \<and> \<not> hasSessionHint cookies \<and> fst (resolveAuthentication at_time m') = NeedsRefresh"
  using assms
  by (auto simp: bootstrapAuthentication_def resolveAuthentication_def currentValidAuthBundle_def Let_def
      split: if_splits option.splits)

theorem bootstrap_skip_recoverable_witness:
  "fst (resolveAuthentication (num 5000) (sys_module initial_system)) = NeedsRefresh"
proof -
  have "bootstrapAuthentication (num 0) (Some (js ''theme=dark'')) (sys_module initial_system)
      = (Known Anonymous, sys_module initial_system)"
    by code_simp
  moreover have "auth_bootstrapState (am_auth (sys_module initial_system)) \<noteq> BS_complete" by code_simp
  ultimately show ?thesis using bootstrap_skip_recoverable by blast
qed

lemma published_event:
  "sid \<noteq> [] \<Longrightarrow> publishAuthSessionEvent source nonce now kind sid = Some v \<Longrightarrow>
   isAuthSessionSyncEvent v \<and>
   event_of v = \<lparr>se_kind = kind, se_sid = sid, se_source = source, se_nonce = nonce, se_timestamp = now\<rparr>
   \<and> get_prop v (js ''source'') = JStr source \<and> get_prop v (js ''timestamp'') = JNum now"
  by (cases kind)
    (auto simp: publishAuthSessionEvent_def isAuthSessionSyncEvent_def event_of_def kind_text_def isRecord_def
      is_nonempty_string_def is_string_def is_number_def text_of_def number_of_def js_eq_iff)

text \<open>
  C35: A sign-out reaches the other tabs and only those concerned. The tab that signs out publishes its
  session; a tab with another source that receives the message within a minute hears of exactly that
  session, and the sender ignores its own message. A tab in the same session is then signed out, goes to
  the sign-in page and publishes nothing itself; a tab in any other session stays as it is.
\<close>

theorem sign_out_reaches_tabs:
  assumes "auth_run initial_system es s" "current_sid (sys_module s) = Some sid"
    and "other \<noteq> source" "js_lt (js_abs (js_sub at_time now)) (num 60000)"
  shows "am_published (clearAuthentication True b (sys_module s)) = am_published (sys_module s) @ [(SE_signed_out, sid)]
    \<and> (\<exists>v e. publishAuthSessionEvent source nonce now SE_signed_out sid = Some v
        \<and> deliver source at_time v = None \<and> deliver other at_time v = Some e
        \<and> (\<forall>m. on_session_event e m =
              (if current_sid m = Some sid then (clearAuthentication False BS_complete m, Sign_in) else (m, Stay))
            \<and> am_published (fst (on_session_event e m)) = am_published m))"
proof -
  have "coherent_auth (am_auth (sys_module s))" by (rule auth_run_coherent [OF assms(1)]) simp
  with assms(2) have sid: "sid \<noteq> []"
    by (auto simp: coherent_auth_def current_sid_def valid_token_def split: option.splits)
  then obtain v where v: "publishAuthSessionEvent source nonce now SE_signed_out sid = Some v"
    by (simp add: publishAuthSessionEvent_def)
  note event = published_event [OF sid v]
  have "deliver source at_time v = None" "deliver other at_time v = Some (event_of v)"
    using event assms(3,4) by (auto simp: deliver_def number_of_def)
  moreover have "on_session_event (event_of v) m =
      (if current_sid m = Some sid then (clearAuthentication False BS_complete m, Sign_in) else (m, Stay))
      \<and> am_published (fst (on_session_event (event_of v) m)) = am_published m" for m
    using event sid
    by (auto simp: on_session_event_def truthy_text_def clearAuthentication_def Let_def split: option.splits)
  ultimately show ?thesis
    using v sid assms(2) by (auto simp: clearAuthentication_def publish_def Let_def)
qed

theorem sign_out_reaches_tabs_witness:
  "am_published (clearAuthentication True BS_complete (sys_module refreshing))
     = am_published (sys_module refreshing) @ [(SE_signed_out, js ''s1'')]"
proof -
  have "current_sid (sys_module refreshing) = Some (js ''s1'')" "js ''b'' \<noteq> js ''a''"
    "js_lt (js_abs (js_sub (num 70) (num 40))) (num 60000)" by code_simp+
  from sign_out_reaches_tabs [OF sample_run this] show ?thesis by blast
qed

definition plain_cookie :: "jstr \<times> jstr \<Rightarrow> bool" where
  "plain_cookie c \<longleftrightarrow> (case c of (k, v) \<Rightarrow>
     trim k = k \<and> trim v = v \<and> 61 \<notin> set k \<and> 59 \<notin> set k \<and> 59 \<notin> set v)"

definition cookie_text :: "jstr \<times> jstr \<Rightarrow> jstr" where
  "cookie_text c = fst c @ [61] @ snd c"

lemma cookie_pair_text:
  assumes "plain_cookie c"
  shows "cookie_pair (cookie_text c) = Some c" "cookie_pair (32 # cookie_text c) = Some c"
proof -
  have space: "is_space 32" by (simp add: is_space_def)
  from assms have "takeWhile (\<lambda>x. x \<noteq> 61) (cookie_text c) = fst c" "dropWhile (\<lambda>x. x \<noteq> 61) (cookie_text c) = 61 # snd c"
    "trim (fst c) = fst c" "trim (snd c) = snd c"
    by (auto simp: plain_cookie_def cookie_text_def takeWhile_append dropWhile_append)
  then show "cookie_pair (cookie_text c) = Some c" "cookie_pair (32 # cookie_text c) = Some c"
    by (auto simp: cookie_pair_def cookie_text_def trim_Cons_space [OF space])
qed

lemma split_cookies:
  "list_all plain_cookie (c # cs) \<Longrightarrow>
   split_at 59 (join [59, 32] (map cookie_text (c # cs))) = cookie_text c # map (\<lambda>d. 32 # cookie_text d) cs"
proof (induction cs arbitrary: c)
  case Nil
  then show ?case by (auto simp: plain_cookie_def cookie_text_def intro!: split_at_plain)
next
  case (Cons d cs)
  have "59 \<notin> set (cookie_text c)" using Cons.prems by (auto simp: plain_cookie_def cookie_text_def)
  from split_at_append [OF this] have "split_at 59 (join [59, 32] (map cookie_text (c # d # cs)))
      = cookie_text c # split_at 59 (32 # join [59, 32] (map cookie_text (d # cs)))"
    by simp
  with Cons.IH [of d] Cons.prems show ?case by simp
qed

lemma read_cookie_parts_map:
  "list_all (\<lambda>p. cookie_pair (fst p) = Some (snd p)) ps \<Longrightarrow>
   read_cookie_parts (map fst ps) name = map_of (map snd ps) name"
  by (induction ps) (auto split: prod.splits)

text \<open>
  Reading a cookie of a \<open>document.cookie\<close> text \<open>k=v; k=v; ...\<close> returns the value of the first pair with
  that name, and nothing where there is none.
\<close>

theorem readCookie_lookup:
  assumes "list_all plain_cookie cookies"
  shows "readCookie (join (js ''; '') (map cookie_text cookies)) name = map_of cookies name"
proof (cases cookies)
  case Nil
  then show ?thesis by (simp add: readCookie_def cookie_pair_def)
next
  case (Cons c cs)
  have "js ''; '' = [59, 32]" by code_simp
  then have "readCookie (join (js ''; '') (map cookie_text cookies)) name
      = read_cookie_parts (map fst ((cookie_text c, c) # map (\<lambda>d. (32 # cookie_text d, d)) cs)) name"
    using split_cookies [of c cs] assms Cons by (simp add: readCookie_def comp_def)
  also have "\<dots> = map_of (map snd ((cookie_text c, c) # map (\<lambda>d. (32 # cookie_text d, d)) cs)) name"
    using assms Cons by (intro read_cookie_parts_map) (auto simp: list_all_iff cookie_pair_text)
  also have "\<dots> = map_of cookies name" using Cons by (simp add: comp_def)
  finally show ?thesis .
qed

theorem readCookie_lookup_witness:
  "readCookie (join (js ''; '') (map cookie_text [(js ''theme'', js ''dark''), (js ''lang'', js ''en'')])) (js ''lang'')
     = Some (js ''en'')"
proof -
  have "list_all plain_cookie [(js ''theme'', js ''dark''), (js ''lang'', js ''en'')]" by code_simp
  moreover have "map_of [(js ''theme'', js ''dark''), (js ''lang'', js ''en'')] (js ''lang'') = Some (js ''en'')" by code_simp
  ultimately show ?thesis using readCookie_lookup by metis
qed

end
