(* ===== verification/JsText.thy ===== *)
theory JsText
  imports JsValue
begin

text \<open>
  More of the standard library on texts: \<open>indexOf\<close> with the facts about the first occurrence of a tag,
  \<open>endsWith\<close>, and \<open>JSON.parse\<close>, whose \<open>SyntaxError\<close> is \<open>None\<close>.
\<close>

section \<open>Searching\<close>

fun first_index :: "jstr \<Rightarrow> jstr \<Rightarrow> nat option" where
  "first_index [] t = (if t = [] then Some 0 else None)"
| "first_index (c # s) t = (if startsWith (c # s) t then Some 0 else map_option Suc (first_index s t))"

text \<open>\<open>s.indexOf(t, from)\<close>, with \<open>None\<close> for \<open>-1\<close>.\<close>

definition indexOf :: "jstr \<Rightarrow> jstr \<Rightarrow> nat \<Rightarrow> nat option" where
  "indexOf s t from_pos = map_option (\<lambda>k. from_pos + k) (first_index (drop from_pos s) t)"

definition ends_with :: "jstr \<Rightarrow> jstr \<Rightarrow> bool" where
  "ends_with s t \<longleftrightarrow> length t \<le> length s \<and> drop (length s - length t) s = t"

lemma first_index_None: "first_index s t = None \<longleftrightarrow> \<not> str_includes s t"
  by (induction s) auto

lemma first_index_start: "startsWith s t \<Longrightarrow> first_index s t = Some 0"
  by (cases s; cases t) auto

lemma first_index_SomeD:
  "first_index s t = Some k \<Longrightarrow> k + length t \<le> length s \<and> s = take k s @ t @ drop (k + length t) s"
proof (induction s arbitrary: k)
  case (Cons c s)
  show ?case
  proof (cases "startsWith (c # s) t")
    case True
    then obtain w where "c # s = t @ w" by (auto simp: startsWith_iff)
    with True Cons.prems show ?thesis by (metis add_0 append_eq_conv_conj append_Nil first_index.simps(2)
      le_add1 length_append option.inject take0)
  next
    case False
    with Cons.prems obtain j where "k = Suc j" "first_index s t = Some j" by auto
    with Cons.IH [of j] show ?thesis by simp
  qed
qed (simp split: if_splits)

lemma indexOf_SomeD:
  assumes "indexOf s t p = Some k"
  shows "p \<le> k" "p \<le> length s \<Longrightarrow> k + length t \<le> length s"
  using assms first_index_SomeD [of "drop p s" t] by (auto simp: indexOf_def)

text \<open>
  A tag begins with a code unit it does not contain again, so an occurrence never overlaps the tag; its
  first occurrence after a text without it is right behind that text.
\<close>

definition is_tag :: "jstr \<Rightarrow> bool" where
  "is_tag t \<longleftrightarrow> t \<noteq> [] \<and> hd t \<notin> set (tl t)"

lemma startsWith_append_tag:
  assumes tag: "is_tag t" and nonempty: "s \<noteq> []" and starts: "startsWith (s @ t @ u) t"
  shows "startsWith s t"
proof -
  obtain c r where t: "t = c # r" "c \<notin> set r" using tag by (cases t) (auto simp: is_tag_def)
  from starts obtain w where w: "s @ t @ u = t @ w" by (auto simp: startsWith_iff)
  have "\<not> length s < length t"
  proof
    assume "length s < length t"
    with nonempty have pos: "0 < length s" "length s < length t" by simp_all
    have "(s @ t @ u) ! length s = c" using t by (simp add: nth_append)
    then have "t ! length s = c" using pos w by (metis nth_append)
    then have "c = r ! (length s - 1)" using pos t by (auto simp: nth_Cons')
    moreover have "length s - 1 < length r" using pos t(1) by (cases s) auto
    ultimately show False using t by (metis nth_mem)
  qed
  then have "take (length t) s = t" using w by (metis append_eq_append_conv_if append_take_drop_id linorder_not_less)
  then show ?thesis by (metis append_take_drop_id startsWith_iff)
qed

lemma first_index_tag:
  assumes "is_tag t" "\<not> str_includes s t"
  shows "first_index (s @ t @ u) t = Some (length s)"
  using assms(2)
proof (induction s)
  case Nil
  have "startsWith (t @ u) t" by (auto simp: startsWith_iff)
  moreover have "t \<noteq> []" using assms(1) by (simp add: is_tag_def)
  ultimately show ?case by (cases t) auto
next
  case (Cons c s)
  then have "\<not> startsWith (c # s) t" "\<not> str_includes s t" by auto
  with Cons.IH startsWith_append_tag [OF assms(1), of "c # s" u] show ?case by auto
qed

section \<open>\<open>JSON.parse\<close>\<close>

definition json_ws :: "code_unit \<Rightarrow> bool" where
  "json_ws c \<longleftrightarrow> c = 32 \<or> c = 9 \<or> c = 10 \<or> c = 13"

definition json_skip :: "jstr \<Rightarrow> jstr" where
  "json_skip s = dropWhile json_ws s"

definition json_unescape :: "code_unit \<Rightarrow> code_unit option" where
  "json_unescape c =
     (if c = 34 \<or> c = 92 \<or> c = 47 then Some c
      else if c = 98 then Some 8 else if c = 102 then Some 12 else if c = 110 then Some 10
      else if c = 114 then Some 13 else if c = 116 then Some 9 else None)"

text \<open>The rest of a string after its opening quote.\<close>

fun json_string :: "jstr \<Rightarrow> (jstr \<times> jstr) option" where
  "json_string [] = None"
| "json_string (c # s) =
     (if c = 34 then Some ([], s)
      else if c < 32 then None
      else if c = 92 then
        (case s of
           [] \<Rightarrow> None
         | e # s1 \<Rightarrow>
             if e = 117 then
               (case s1 of
                  h1 # h2 # h3 # h4 # s2 \<Rightarrow>
                    if is_hex h1 \<and> is_hex h2 \<and> is_hex h3 \<and> is_hex h4
                    then map_option (apfst (Cons (hex_digits_value 0 [h1, h2, h3, h4]))) (json_string s2)
                    else None
                | _ \<Rightarrow> None)
             else (case json_unescape e of
                     None \<Rightarrow> None
                   | Some d \<Rightarrow> map_option (apfst (Cons d)) (json_string s1)))
      else map_option (apfst (Cons c)) (json_string s))"

text \<open>A number: \<open>-?(0|[1-9]\d*)(\.\d+)?([eE][+-]?\d+)?\<close>.\<close>

definition json_number :: "jstr \<Rightarrow> (jsnum \<times> jstr) option" where
  "json_number s =
     (let neg = (s \<noteq> [] \<and> hd s = 45); body = (if neg then tl s else s) in
      case match_decimal body of
        None \<Rightarrow> None
      | Some d \<Rightarrow>
          if int_digits d = [] \<or> hd (int_digits d) = 48 \<and> 1 < length (int_digits d)
             \<or> has_point d \<and> frac_digits d = [] then None
          else Some (if neg then js_neg (decimal_value d) else decimal_value d,
                     drop (match_length d) body))"

text \<open>A member of an object; a later one of the same name replaces the value of the earlier one.\<close>

fun put_member :: "jstr \<Rightarrow> jsvalue \<Rightarrow> (jstr \<times> jsvalue) list \<Rightarrow> (jstr \<times> jsvalue) list" where
  "put_member k v [] = [(k, v)]"
| "put_member k v ((k', v') # ps) = (if k' = k then (k, v) # ps else (k', v') # put_member k v ps)"

text \<open>
  The parser proper, on fuel: a value inside another has a shorter text and is two calls away, so twice the
  length of the text and one more suffice (\<open>json_value_fuel\<close>).
\<close>

fun json_value :: "nat \<Rightarrow> jstr \<Rightarrow> (jsvalue \<times> jstr) option"
and json_elements :: "nat \<Rightarrow> jsvalue list \<Rightarrow> jstr \<Rightarrow> (jsvalue \<times> jstr) option"
and json_members :: "nat \<Rightarrow> (jstr \<times> jsvalue) list \<Rightarrow> jstr \<Rightarrow> (jsvalue \<times> jstr) option" where
  "json_value 0 s = None"
| "json_value (Suc n) s0 =
     (let s = json_skip s0 in
      case s of
        [] \<Rightarrow> None
      | c # s1 \<Rightarrow>
          if c = 34 then map_option (apfst JStr) (json_string s1)
          else if c = 91 then
            (case json_skip s1 of
               d # s2 \<Rightarrow> if d = 93 then Some (JArr [], s2) else json_elements n [] s1
             | [] \<Rightarrow> None)
          else if c = 123 then
            (case json_skip s1 of
               d # s2 \<Rightarrow> if d = 125 then Some (JObj [], s2) else json_members n [] s1
             | [] \<Rightarrow> None)
          else if startsWith s (js ''true'') then Some (JBool True, drop 4 s)
          else if startsWith s (js ''false'') then Some (JBool False, drop 5 s)
          else if startsWith s (js ''null'') then Some (JNull, drop 4 s)
          else map_option (apfst JNum) (json_number s))"
| "json_elements 0 acc s = None"
| "json_elements (Suc n) acc s =
     (case json_value n s of
        None \<Rightarrow> None
      | Some (v, s1) \<Rightarrow>
          (case json_skip s1 of
             [] \<Rightarrow> None
           | c # s2 \<Rightarrow> if c = 44 then json_elements n (acc @ [v]) s2
                       else if c = 93 then Some (JArr (acc @ [v]), s2) else None))"
| "json_members 0 acc s = None"
| "json_members (Suc n) acc s =
     (case json_skip s of
        [] \<Rightarrow> None
      | q # s1 \<Rightarrow>
          if q \<noteq> 34 then None
          else
            (case json_string s1 of
               None \<Rightarrow> None
             | Some (k, s2) \<Rightarrow>
                 (case json_skip s2 of
                    [] \<Rightarrow> None
                  | e # s3 \<Rightarrow>
                      if e \<noteq> 58 then None
                      else
                        (case json_value n s3 of
                           None \<Rightarrow> None
                         | Some (v, s4) \<Rightarrow>
                             (case json_skip s4 of
                                [] \<Rightarrow> None
                              | c # s5 \<Rightarrow>
                                  if c = 44 then json_members n (put_member k v acc) s5
                                  else if c = 125 then Some (JObj (put_member k v acc), s5)
                                  else None)))))"

lemma length_json_skip [simp]: "length (json_skip s) \<le> length s"
  by (simp add: json_skip_def length_dropWhile_le)

lemma json_string_shorter: "json_string s = Some (v, r) \<Longrightarrow> length r < length s"
  by (induction s arbitrary: v rule: json_string.induct)
    (fastforce split: if_splits list.splits option.splits)+

lemma json_number_shorter: "json_number s = Some (v, r) \<Longrightarrow> length r \<le> length s"
  by (auto simp: json_number_def Let_def split: option.splits if_splits)

lemma json_skip_tail: "json_skip s = c # t \<Longrightarrow> length t < length s"
  using length_json_skip [of s] by simp

lemma json_shorter:
  "json_value n s = Some (v, r) \<Longrightarrow> length r \<le> length s"
  "json_elements n vs s = Some (v, r) \<Longrightarrow> length r \<le> length s"
  "json_members n ps s = Some (v, r) \<Longrightarrow> length r \<le> length s"
proof (induction n s and n vs s and n ps s arbitrary: v r and v r and v r
    rule: json_value_json_elements_json_members.induct)
  case (2 n s0)
  note skip = length_json_skip [of s0]
  show ?case
    using 2 skip
    by (auto simp: Let_def split: list.splits if_splits
        dest!: json_string_shorter json_number_shorter json_skip_tail) fastforce+
next
  case (4 n acc s)
  then show ?case
    by (auto split: option.splits list.splits if_splits dest!: json_skip_tail) fastforce+
next
  case (6 n acc s)
  then show ?case
    by (auto split: option.splits list.splits if_splits dest!: json_skip_tail json_string_shorter) fastforce+
qed simp_all

text \<open>More fuel than twice the length of the text changes nothing.\<close>

lemma json_fuel:
  "2 * length s < n \<Longrightarrow> n \<le> m \<Longrightarrow> json_value m s = json_value n s"
  "2 * length s + 1 < n \<Longrightarrow> n \<le> m \<Longrightarrow> json_elements m vs s = json_elements n vs s"
  "2 * length s + 1 < n \<Longrightarrow> n \<le> m \<Longrightarrow> json_members m ps s = json_members n ps s"
proof (induction n arbitrary: m s vs ps)
  case (Suc n)
  {
    case 1
    then obtain k where m: "m = Suc k" "n \<le> k" by (cases m) auto
    have tail: "2 * length t + 1 < n" if "json_skip s = c # t" for c t
      using json_skip_tail [OF that] 1 by simp
    show ?case unfolding m
      by (auto simp: Let_def Suc.IH(2) [OF tail m(2)] Suc.IH(3) [OF tail m(2)] split: list.splits)
  next
    case 2
    then obtain k where m: "m = Suc k" "n \<le> k" by (cases m) auto
    have rest: "2 * length u + 1 < n" if "json_value n s = Some (v, t)" "json_skip t = c # u" for v c t u
      using json_skip_tail [OF that(2)] json_shorter(1) [OF that(1)] 2 by simp
    have val: "json_value k s = json_value n s" using 2 m by (intro Suc.IH(1)) auto
    show ?case unfolding m
      by (auto simp: val Suc.IH(2) [OF rest m(2)] split: list.splits option.splits)
  next
    case 3
    then obtain k where m: "m = Suc k" "n \<le> k" by (cases m) auto
    have sub: "2 * length u < n"
      if "json_skip s = 34 # a" "json_string a = Some (key, b)" "json_skip b = 58 # u" for a key b u
      using json_skip_tail [OF that(1)] json_string_shorter [OF that(2)] json_skip_tail [OF that(3)] 3 by simp
    have rest: "2 * length w + 1 < n"
      if "json_skip s = 34 # a" "json_string a = Some (key, b)" "json_skip b = 58 # u"
        "json_value n u = Some (v, t)" "json_skip t = c # w" for a key b u v c t w
      using json_skip_tail [OF that(1)] json_string_shorter [OF that(2)] json_skip_tail [OF that(3)]
        json_shorter(1) [OF that(4)] json_skip_tail [OF that(5)] 3 by simp
    show ?case unfolding m
      by (auto simp: Suc.IH(1) [OF sub m(2)] Suc.IH(3) [OF rest m(2)] split: list.splits option.splits)
  }
qed simp_all

definition JSON_parse :: "jstr \<Rightarrow> jsvalue option" where
  "JSON_parse s =
     (case json_value (Suc (2 * length s)) s of
        None \<Rightarrow> None
      | Some (v, rest) \<Rightarrow> if json_skip rest = [] then Some v else None)"

lemma json_value_fuel: "Suc (2 * length s) \<le> n \<Longrightarrow> json_value n s = json_value (Suc (2 * length s)) s"
  by (rule json_fuel(1)) simp_all

section \<open>\<open>JSON.stringify\<close>\<close>

text \<open>Without white space; members that are \<open>undefined\<close> are left out, numbers that are not finite are null.\<close>

fun json_text :: "jsvalue \<Rightarrow> jstr" where
  "json_text JUndefined = js ''null''"
| "json_text JNull = js ''null''"
| "json_text (JBool b) = (if b then js ''true'' else js ''false'')"
| "json_text (JNum x) = (if isFinite x then js_num_string x else js ''null'')"
| "json_text (JStr s) = json_stringify_string s"
| "json_text (JArr vs) = js ''['' @ join (js '','') (map json_text vs) @ js '']''"
| "json_text (JObj ps) =
     js ''{'' @ join (js '','')
       (map (\<lambda>(k, v). json_stringify_string k @ js '':'' @ json_text v)
         (filter (\<lambda>(k, v). v \<noteq> JUndefined) ps)) @ js ''}''"

end
