(* ===== verification/JsonRoundTrip.thy ===== *)
theory JsonRoundTrip
  imports JsText JsDecimal
begin

text \<open>
  \<open>JSON.parse\<close> reads back what \<open>JSON.stringify\<close> writes: strings of any code units, numbers that read back,
  arrays and objects without repeated names, where members that are \<open>undefined\<close> are gone.
\<close>

section \<open>Strings\<close>

definition code_units :: "jstr \<Rightarrow> bool" where
  "code_units s \<longleftrightarrow> list_all (\<lambda>c. 0 \<le> c \<and> c < 65536) s"

lemma code_units_js [simp]: "code_units (js s)"
proof -
  have bound: "(of_char c :: int) < 256 \<and> 0 \<le> (of_char c :: int)" for c
    using pos_mod_bound [of "256 :: int" "of_char c"] pos_mod_sign [of "256 :: int" "of_char c"] by simp
  have "0 \<le> (of_char c :: int) \<and> (of_char c :: int) < 65536" for c
    using bound [of c] by simp
  then show ?thesis by (simp add: code_units_def js_def list_all_iff)
qed

lemma hex_digit_value: "0 \<le> d \<Longrightarrow> d < 16 \<Longrightarrow> is_hex (hex_digit d) \<and> hex_value (hex_digit d) = d"
  by (auto simp: hex_digit_def is_hex_def hex_value_def is_digit_def)

lemma hex4_value:
  assumes "0 \<le> c" "c < 65536"
  shows "hex_digits_value 0 (hex4 c) = c \<and> list_all is_hex (hex4 c)"
proof -
  define a b d e where "a = c div 4096 mod 16" and "b = c div 256 mod 16" and "d = c div 16 mod 16" and "e = c mod 16"
  have "c div 4096 mod 16 = c div 4096"
    using assms by (intro mod_pos_pos_trivial) (simp_all add: pos_imp_zdiv_nonneg_iff div_less_iff_less_mult)
  moreover have "c div 16 div 16 = c div 256" "c div 256 div 16 = c div 4096"
    by (simp_all add: zdiv_zmult2_eq [symmetric])
  moreover have "16 * (c div 16) + c mod 16 = c" "16 * (c div 16 div 16) + c div 16 mod 16 = c div 16"
    "16 * (c div 256 div 16) + c div 256 mod 16 = c div 256"
    by (rule mult_div_mod_eq)+
  ultimately have c: "16 * (16 * (16 * a + b) + d) + e = c"
    by (simp only: a_def b_def d_def e_def)
  have "hex4 c = [hex_digit a, hex_digit b, hex_digit d, hex_digit e]"
    by (simp add: hex4_def a_def b_def d_def e_def)
  moreover have "0 \<le> a" "a < 16" "0 \<le> b" "b < 16" "0 \<le> d" "d < 16" "0 \<le> e" "e < 16"
    by (simp_all add: a_def b_def d_def e_def)
  ultimately show ?thesis using c by (simp add: hex_digit_value)
qed

lemma json_string_unicode:
  assumes "0 \<le> c" "c < 65536"
  shows "json_string (92 # 117 # hex4 c @ t) = map_option (apfst (Cons c)) (json_string t)"
proof -
  obtain h1 h2 h3 h4 where "hex4 c = [h1, h2, h3, h4]" by (simp add: hex4_def)
  with hex4_value [OF assms] show ?thesis by simp
qed

lemma json_string_unit:
  "0 \<le> c \<Longrightarrow> c < 65536 \<Longrightarrow>
   json_string (json_escape_unit c @ t) = map_option (apfst (Cons c)) (json_string t)"
  by (simp add: json_escape_unit_def json_string_unicode json_unescape_def del: json_string.simps)
    (simp add: json_unescape_def)

lemma json_string_escape:
  "code_units s \<Longrightarrow> json_string (json_escape s @ 34 # rest) = Some (s, rest)"
proof (induction s rule: json_escape.induct)
  case 1
  then show ?case by simp
next
  case (2 c)
  then show ?case
    by (simp add: code_units_def json_string_unicode json_string_unit del: json_string.simps) simp
next
  case (3 c d s)
  consider "is_high c \<and> is_low d" | "\<not> (is_high c \<and> is_low d)" "is_high c \<or> is_low c"
    | "\<not> (is_high c \<and> is_low d)" "\<not> (is_high c \<or> is_low c)" by blast
  then show ?case
  proof cases
    case 1
    with "3.IH"(1) "3.prems" show ?thesis by (simp add: code_units_def is_high_def is_low_def)
  next
    case 2
    with "3.IH"(2) [OF 2] "3.prems" show ?thesis
      by (auto simp: code_units_def json_string_unicode simp del: json_string.simps)
  next
    case 3
    with "3.IH"(3) [OF 3] "3.prems" show ?thesis
      by (auto simp: code_units_def json_string_unit simp del: json_string.simps)
  qed
qed

section \<open>Numbers\<close>

lemma json_number_text:
  assumes "readable_number x" "ends_number rest"
  shows "json_number (js_num_string x @ rest) = Some (x, rest)"
proof -
  obtain r where x: "x = Fin r" using assms(1) by (cases x) auto
  have minus: "js ''-'' = [45]" and digit_zero: "js ''0'' = [48]" by code_simp+
  consider (zero) "r = 0" | (pos) "0 < r" | (neg) "r < 0" by linarith
  then show ?thesis
  proof cases
    case zero
    have written: "js_num_string x = decimal_text [48] None None"
      using zero x by (simp add: js_num_string_def decimal_text_def digit_zero)
    have m: "match_decimal (decimal_text [48] None None @ rest) = Some
      \<lparr>int_digits = [48], has_point = False, frac_digits = [], has_exp = False, exp_value = 0, match_length = 1\<rparr>"
      using match_decimal_text [of "[48]" None rest None] assms(2) by (simp add: is_digit_def decimal_text_def)
    have "fl False 0 = Fin 0" by (simp add: fl_def)
    then have "decimal_value \<lparr>int_digits = [48], has_point = False, frac_digits = [], has_exp = False,
        exp_value = 0, match_length = 1\<rparr> = Fin 0"
      by (simp add: decimal_value_def decimal_rat_def)
    with m show ?thesis
      unfolding written using zero x by (simp add: json_number_def decimal_text_def Let_def)
  next
    case pos
    then have exact: "shortest_exact r" using assms(1) x by simp
    obtain c t where start: "pos_to_string r = c # t" "is_digit c" using pos_to_string_start [OF exact] by blast
    obtain d where "match_decimal (pos_to_string r @ rest) = Some d" "match_length d = length (pos_to_string r)"
      "int_digits d \<noteq> []" "\<not> (hd (int_digits d) = 48 \<and> 1 < length (int_digits d))"
      "\<not> (has_point d \<and> frac_digits d = [])" "decimal_value d = Fin r"
      using pos_to_string_decimal [OF exact assms(2)] by blast
    moreover have "js_num_string x = pos_to_string r" using pos x by (simp add: js_num_string_def)
    moreover have "hd (pos_to_string r @ rest) \<noteq> 45" using start by (auto simp: is_digit_def)
    ultimately show ?thesis
      unfolding x by (simp add: json_number_def Let_def)
  next
    case neg
    then have exact: "shortest_exact (- r)" using assms(1) x by simp
    obtain d where "match_decimal (pos_to_string (- r) @ rest) = Some d" "match_length d = length (pos_to_string (- r))"
      "int_digits d \<noteq> []" "\<not> (hd (int_digits d) = 48 \<and> 1 < length (int_digits d))"
      "\<not> (has_point d \<and> frac_digits d = [])" "decimal_value d = Fin (- r)"
      using pos_to_string_decimal [OF exact assms(2)] by blast
    moreover have "js_num_string x = 45 # pos_to_string (- r)" using neg x minus by (simp add: js_num_string_def)
    moreover have "js_neg (Fin (- r)) = Fin r" using neg by simp
    ultimately show ?thesis
      unfolding x by (simp add: json_number_def Let_def)
  qed
qed

section \<open>Values\<close>

text \<open>What is read back: the members that are not \<open>undefined\<close>.\<close>

fun drop_undefined :: "jsvalue \<Rightarrow> jsvalue" where
  "drop_undefined (JArr vs) = JArr (map drop_undefined vs)"
| "drop_undefined (JObj ps) =
     JObj (map (\<lambda>(k, v). (k, drop_undefined v)) (filter (\<lambda>(k, v). v \<noteq> JUndefined) ps))"
| "drop_undefined v = v"

text \<open>The values that are written without loss.\<close>

fun json_readable :: "jsvalue \<Rightarrow> bool" where
  "json_readable JUndefined = False"
| "json_readable JNull = True"
| "json_readable (JBool b) = True"
| "json_readable (JNum x) = readable_number x"
| "json_readable (JStr s) = code_units s"
| "json_readable (JArr vs) = list_all json_readable vs"
| "json_readable (JObj ps) =
     (distinct (map fst ps) \<and> list_all (\<lambda>(k, v). code_units k \<and> (v = JUndefined \<or> json_readable v)) ps)"

lemma json_literals:
  "js ''true'' = [116, 114, 117, 101]" "js ''false'' = [102, 97, 108, 115, 101]"
  "js ''null'' = [110, 117, 108, 108]"
  "js ''['' = [91]" "js '']'' = [93]" "js ''{'' = [123]" "js ''}'' = [125]" "js '':'' = [58]" "js '','' = [44]"
  "js ''-'' = [45]" "js ''0'' = [48]"
  by code_simp+

lemma join_Cons: "join sep (s # ss) = s @ concat (map (\<lambda>t. sep @ t) ss)"
  by (induction sep ss arbitrary: s rule: join.induct) auto

lemma readable_number_start:
  "readable_number x \<Longrightarrow> \<exists>c t. js_num_string x = c # t \<and> (is_digit c \<or> c = 45)"
proof -
  assume readable: "readable_number x"
  then obtain r where x: "x = Fin r" by (cases x) auto
  show ?thesis
  proof (cases "r = 0")
    case True
    then show ?thesis by (simp add: x js_num_string_def json_literals is_digit_def)
  next
    case False
    with readable x pos_to_string_start [of "\<bar>r\<bar>"] show ?thesis
      by (auto simp: js_num_string_def json_literals)
  qed
qed

lemma readable_finite: "readable_number x \<Longrightarrow> isFinite x"
  by (cases x) auto

text \<open>A text that is written starts with no white space and ends no list.\<close>

lemma json_text_start: "json_readable v \<Longrightarrow> \<exists>c t. json_text v = c # t \<and> \<not> json_ws c \<and> c \<noteq> 93 \<and> c \<noteq> 125"
proof (cases v)
  case (JNum x)
  assume "json_readable v"
  with JNum readable_number_start [of x] readable_finite [of x] show ?thesis
    by (auto simp: json_ws_def is_digit_def)
qed (auto simp: json_literals json_stringify_string_def json_ws_def)

lemma json_skip_start: "\<not> json_ws c \<Longrightarrow> json_skip (c # t) = c # t"
  by (simp add: json_skip_def)

lemma put_member_new: "k \<notin> set (map fst ps) \<Longrightarrow> put_member k v ps = ps @ [(k, v)]"
  by (induction ps) auto

text \<open>The members of an object that are written, and their text.\<close>

definition member_text :: "jstr \<times> jsvalue \<Rightarrow> jstr" where
  "member_text e = json_stringify_string (fst e) @ 58 # json_text (snd e)"

definition defined_members :: "(jstr \<times> jsvalue) list \<Rightarrow> (jstr \<times> jsvalue) list" where
  "defined_members ps = filter (\<lambda>e. snd e \<noteq> JUndefined) ps"

lemma json_text_members:
  "json_text (JObj ps) = 123 # join [44] (map member_text (defined_members ps)) @ [125]"
  by (simp add: json_literals defined_members_def member_text_def case_prod_beta' cong: map_cong)

lemma drop_undefined_members:
  "drop_undefined (JObj ps) = JObj (map (\<lambda>e. (fst e, drop_undefined (snd e))) (defined_members ps))"
  by (simp add: defined_members_def case_prod_beta')

text \<open>What a value is to satisfy for every fuel above twice the length of the text.\<close>

definition reads_back :: "jsvalue \<Rightarrow> bool" where
  "reads_back v \<longleftrightarrow>
     (\<forall>rest n. ends_number rest \<longrightarrow> 2 * length (json_text v @ rest) < n \<longrightarrow>
        json_value n (json_text v @ rest) = Some (drop_undefined v, rest))"

lemma elements_read_back:
  assumes "\<forall>w \<in> set (v # vs). reads_back w"
    and "2 * length (join [44] (map json_text (v # vs)) @ 93 # rest) + 1 < n"
  shows "json_elements n acc (join [44] (map json_text (v # vs)) @ 93 # rest)
    = Some (JArr (acc @ map drop_undefined (v # vs)), rest)"
  using assms
proof (induction vs arbitrary: v acc n)
  case Nil
  then obtain m where n: "n = Suc m" by (cases n) auto
  have "ends_number (93 # rest)" by (simp add: ends_number_def is_digit_def)
  with Nil n have "json_value m (json_text v @ 93 # rest) = Some (drop_undefined v, 93 # rest)"
    by (simp add: reads_back_def)
  then show ?case by (simp add: n json_skip_def json_ws_def)
next
  case (Cons w vs)
  then obtain m where n: "n = Suc m" by (cases n) auto
  let ?more = "join [44] (map json_text (w # vs)) @ 93 # rest"
  have body: "join [44] (map json_text (v # w # vs)) @ 93 # rest = json_text v @ 44 # ?more" by simp
  have "ends_number (44 # ?more)" by (simp add: ends_number_def is_digit_def)
  moreover have "2 * length (json_text v @ 44 # ?more) < m" using Cons.prems(2) n unfolding body by simp
  ultimately have v: "json_value m (json_text v @ 44 # ?more) = Some (drop_undefined v, 44 # ?more)"
    using Cons.prems(1) by (simp add: reads_back_def del: join.simps list.map)
  have "2 * length ?more + 1 < m" using Cons.prems(2) n unfolding body by simp
  with Cons.IH [of w m "acc @ [drop_undefined v]"] Cons.prems(1)
  have more: "json_elements m (acc @ [drop_undefined v]) ?more = Some (JArr ((acc @ [drop_undefined v]) @ map drop_undefined (w # vs)), rest)"
    by (simp del: join.simps list.map)
  show ?case
    unfolding body n by (simp add: v json_skip_def json_ws_def more del: join.simps list.map) simp
qed

lemma members_read_back:
  assumes "\<forall>e \<in> set (p # ps). code_units (fst e) \<and> reads_back (snd e)"
    and "distinct (map fst (acc @ p # ps))"
    and "2 * length (join [44] (map member_text (p # ps)) @ 125 # rest) + 1 < n"
  shows "json_members n acc (join [44] (map member_text (p # ps)) @ 125 # rest)
    = Some (JObj (acc @ map (\<lambda>e. (fst e, drop_undefined (snd e))) (p # ps)), rest)"
  using assms
proof (induction ps arbitrary: p acc n)
  case Nil
  then obtain m where n: "n = Suc m" by (cases n) auto
  have "ends_number (125 # rest)" by (simp add: ends_number_def is_digit_def)
  with Nil n have v: "json_value m (json_text (snd p) @ 125 # rest) = Some (drop_undefined (snd p), 125 # rest)"
    by (simp add: reads_back_def member_text_def)
  have k: "json_string (json_escape (fst p) @ 34 # t) = Some (fst p, t)" for t
    using Nil.prems(1) by (simp add: json_string_escape)
  have "put_member (fst p) w acc = acc @ [(fst p, w)]" for w
    using Nil.prems(2) by (intro put_member_new) auto
  then show ?case
    by (simp add: n member_text_def json_stringify_string_def json_skip_def json_ws_def k v)
next
  case (Cons q ps)
  then obtain m where n: "n = Suc m" by (cases n) auto
  let ?more = "join [44] (map member_text (q # ps)) @ 125 # rest"
  let ?acc = "acc @ [(fst p, drop_undefined (snd p))]"
  have body: "join [44] (map member_text (p # q # ps)) @ 125 # rest =
      34 # json_escape (fst p) @ 34 # 58 # json_text (snd p) @ 44 # ?more"
    by (simp add: member_text_def [of p] json_stringify_string_def)
  have "ends_number (44 # ?more)" by (simp add: ends_number_def is_digit_def)
  moreover have "2 * length (json_text (snd p) @ 44 # ?more) < m" using Cons.prems(3) n unfolding body by simp
  ultimately have v: "json_value m (json_text (snd p) @ 44 # ?more) = Some (drop_undefined (snd p), 44 # ?more)"
    using Cons.prems(1) by (simp add: reads_back_def del: join.simps list.map)
  have k: "json_string (json_escape (fst p) @ 34 # t) = Some (fst p, t)" for t
    using Cons.prems(1) by (simp add: json_string_escape)
  have put: "put_member (fst p) w acc = acc @ [(fst p, w)]" for w
    using Cons.prems(2) by (intro put_member_new) auto
  have "2 * length ?more + 1 < m" using Cons.prems(3) n unfolding body by simp
  moreover have "distinct (map fst (?acc @ q # ps))" using Cons.prems(2) by auto
  moreover have "\<forall>e \<in> set (q # ps). code_units (fst e) \<and> reads_back (snd e)" using Cons.prems(1) by simp
  ultimately have more: "json_members m ?acc ?more = Some (JObj (?acc @ map (\<lambda>e. (fst e, drop_undefined (snd e))) (q # ps)), rest)"
    using Cons.IH [of q ?acc m] by blast
  show ?case
    unfolding body n
    by (simp add: json_skip_def json_ws_def k v put more del: join.simps list.map) simp
qed

lemma reads_backI:
  "(\<And>rest m. ends_number rest \<Longrightarrow> 2 * length (json_text v @ rest) \<le> m \<Longrightarrow>
      json_value (Suc m) (json_text v @ rest) = Some (drop_undefined v, rest)) \<Longrightarrow> reads_back v"
  unfolding reads_back_def by (metis Suc_le_eq Suc_le_D le_SucE less_Suc_eq_le)

lemma readable_reads_back: "json_readable v \<Longrightarrow> reads_back v"
proof (induction v rule: json_readable.induct)
  case (3 b)
  show ?case
    by (rule reads_backI) (cases b; simp add: json_literals json_skip_start json_ws_def)
next
  case 2
  show ?case
    by (rule reads_backI) (simp add: json_literals json_skip_start json_ws_def)
next
  case (5 s)
  then show ?case
    by (intro reads_backI)
      (simp add: json_literals json_skip_start json_ws_def json_stringify_string_def json_string_escape)
next
  case (4 x)
  show ?case
  proof (rule reads_backI)
    fix rest m
    assume rest: "ends_number rest"
    have x: "readable_number x" using 4 by simp
    obtain c t where start: "js_num_string x = c # t" "is_digit c \<or> c = 45" using readable_number_start [OF x] by blast
    then have "\<not> json_ws c" "c \<notin> {34, 91, 123, 116, 102, 110}" by (auto simp: json_ws_def is_digit_def)
    with start json_number_text [OF x rest] readable_finite [OF x]
    show "json_value (Suc m) (json_text (JNum x) @ rest) = Some (drop_undefined (JNum x), rest)"
      by (simp add: json_skip_start json_literals)
  qed
next
  case (6 vs)
  show ?case
  proof (rule reads_backI)
    fix rest m
    assume m: "2 * length (json_text (JArr vs) @ rest) \<le> m"
    show "json_value (Suc m) (json_text (JArr vs) @ rest) = Some (drop_undefined (JArr vs), rest)"
    proof (cases vs)
      case Nil
      then show ?thesis by (simp add: json_literals json_skip_def json_ws_def)
    next
      case (Cons w ws)
      have all: "\<forall>w \<in> set vs. reads_back w" using 6 by (auto simp: list_all_iff)
      let ?body = "join [44] (map json_text vs) @ 93 # rest"
      obtain c t where "json_text w = c # t" "\<not> json_ws c" "c \<noteq> 93"
        using json_text_start [of w] 6 Cons by auto
      then have "\<exists>u. ?body = c # u \<and> json_skip ?body = c # u" "c \<noteq> 93"
        using Cons by (simp_all add: join_Cons json_skip_start)
      moreover have "json_elements m [] ?body = Some (JArr (map drop_undefined vs), rest)"
        using elements_read_back [of w ws rest m "[]"] all Cons m by (simp add: json_literals)
      ultimately show ?thesis by (auto simp: json_literals json_skip_start json_ws_def)
    qed
  qed
next
  case (7 ps)
  show ?case
  proof (rule reads_backI)
    fix rest m
    assume m: "2 * length (json_text (JObj ps) @ rest) \<le> m"
    show "json_value (Suc m) (json_text (JObj ps) @ rest) = Some (drop_undefined (JObj ps), rest)"
    proof (cases "defined_members ps")
      case Nil
      then show ?thesis unfolding json_text_members drop_undefined_members
        by (simp add: json_skip_def json_ws_def)
    next
      case (Cons p qs)
      have all: "\<forall>e \<in> set (defined_members ps). code_units (fst e) \<and> reads_back (snd e)"
        using 7 by (fastforce simp: list_all_iff defined_members_def)
      have "distinct (map fst (defined_members ps))"
        using 7(2) by (simp add: defined_members_def distinct_map_filter)
      then have "json_members m [] (join [44] (map member_text (defined_members ps)) @ 125 # rest)
          = Some (JObj (map (\<lambda>e. (fst e, drop_undefined (snd e))) (defined_members ps)), rest)"
        using members_read_back [of p qs "[]" rest m] all Cons m unfolding json_text_members by simp
      moreover have "\<exists>u. join [44] (map member_text (defined_members ps)) @ 125 # rest = 34 # u"
        using Cons by (simp add: join_Cons member_text_def json_stringify_string_def)
      ultimately show ?thesis
        unfolding json_text_members drop_undefined_members
        by (auto simp: json_skip_start json_ws_def)
    qed
  qed
qed simp

text \<open>The round trip.\<close>

lemma JSON_round_trip: "json_readable v \<Longrightarrow> JSON_parse (json_text v) = Some (drop_undefined v)"
proof -
  assume "json_readable v"
  then have "reads_back v" by (rule readable_reads_back)
  moreover have "ends_number []" by (simp add: ends_number_def)
  moreover have "2 * length (json_text v @ []) < Suc (2 * length (json_text v))" by simp
  ultimately have "json_value (Suc (2 * length (json_text v))) (json_text v @ []) = Some (drop_undefined v, [])"
    unfolding reads_back_def by blast
  then show ?thesis
    by (simp only: JSON_parse_def append_Nil2) (simp add: json_skip_def)
qed

lemma drop_undefined_iff [simp]: "drop_undefined v = JUndefined \<longleftrightarrow> v = JUndefined"
  by (cases v) simp_all

lemma get_prop_drop:
  "distinct (map fst ps) \<Longrightarrow> get_prop (drop_undefined (JObj ps)) k = drop_undefined (get_prop (JObj ps) k)"
proof (induction ps)
  case (Cons e ps)
  then have IH: "get_prop (drop_undefined (JObj ps)) k = drop_undefined (get_prop (JObj ps) k)" by simp
  show ?case
  proof (cases "k = fst e")
    case True
    with Cons.prems have "map_of ps k = None" by (simp add: map_of_eq_None_iff)
    then have "get_prop (JObj ps) k = JUndefined" by simp
    with IH True show ?thesis by (cases e) simp
  next
    case False
    with IH show ?thesis by (cases e) simp
  qed
qed simp

end
