(* ===== verification/SessionTransport.thy ===== *)
theory SessionTransport
  imports AuthStore JsonRoundTrip
begin

text \<open>
  The two ways \<open>lib/auth-session-sync.ts\<close> carries events between tabs: a broadcast channel where the browser
  has one, and otherwise storage events, with the event as JSON text.
\<close>

section \<open>Sending and receiving\<close>

definition AUTH_SYNC_STORAGE_KEY :: jstr where
  "AUTH_SYNC_STORAGE_KEY = js ''new-api:auth-session:event''"

text \<open>A message on the channel; or a storage event with its key and new value.\<close>

datatype sync_message = Channel_message jsvalue | Storage_message jstr "jstr option"

text \<open>
  What the other tabs see of a message that is published; without a channel, storage may refuse the write,
  which is caught before the removal.
\<close>

definition send_event :: "bool \<Rightarrow> bool \<Rightarrow> jsvalue \<Rightarrow> sync_message list" where
  "send_event channel accepted event =
     (if channel then [Channel_message event]
      else if accepted
      then [Storage_message AUTH_SYNC_STORAGE_KEY (Some (json_text event)), Storage_message AUTH_SYNC_STORAGE_KEY None]
      else [])"

definition publish_over ::
  "bool \<Rightarrow> bool \<Rightarrow> jstr \<Rightarrow> jstr \<Rightarrow> jsnum \<Rightarrow> session_event_kind \<Rightarrow> jstr \<Rightarrow> sync_message list" where
  "publish_over channel accepted source nonce now kind sid =
     (case publishAuthSessionEvent source nonce now kind sid of
        None \<Rightarrow> []
      | Some event \<Rightarrow> send_event channel accepted event)"

text \<open>A subscriber listens to one of the two.\<close>

definition receive_message :: "bool \<Rightarrow> jstr \<Rightarrow> jsnum \<Rightarrow> sync_message \<Rightarrow> AuthSessionSyncEvent option" where
  "receive_message channel source now message =
     (case message of
        Channel_message v \<Rightarrow> if channel then deliver source now v else None
      | Storage_message k newValue \<Rightarrow>
          if channel \<or> k \<noteq> AUTH_SYNC_STORAGE_KEY then None
          else (case newValue of
              None \<Rightarrow> None
            | Some body \<Rightarrow>
                if body = [] then None
                else (case JSON_parse body of None \<Rightarrow> None | Some v \<Rightarrow> deliver source now v)))"

definition received :: "bool \<Rightarrow> jstr \<Rightarrow> jsnum \<Rightarrow> sync_message list \<Rightarrow> AuthSessionSyncEvent list" where
  "received channel source now messages = List.map_filter (receive_message channel source now) messages"

text \<open>What a tab is subscribed to: nothing once it unsubscribed.\<close>

definition received_by ::
  "bool \<Rightarrow> bool \<Rightarrow> jstr \<Rightarrow> jsnum \<Rightarrow> sync_message list \<Rightarrow> AuthSessionSyncEvent list" where
  "received_by subscribed channel source now messages =
     (if subscribed then received channel source now messages else [])"

lemma event_read_back:
  assumes "code_units source" "code_units nonce" "code_units sid" "readable_number now"
    and "publishAuthSessionEvent source nonce now kind sid = Some v"
  shows "JSON_parse (json_text v) = Some v"
proof -
  have v: "v = JObj [(js ''kind'', JStr (kind_text kind)), (js ''sid'', JStr sid),
      (js ''source'', JStr source), (js ''nonce'', JStr nonce), (js ''timestamp'', JNum now)]"
    using assms(5) by (simp add: publishAuthSessionEvent_def split: if_splits)
  have "code_units (kind_text kind)" by (cases kind) (simp_all add: kind_text_def)
  with assms(1-4) have "json_readable v" by (simp add: v)
  moreover have "drop_undefined v = v" by (simp add: v)
  ultimately show ?thesis using JSON_round_trip by metis
qed

section \<open>Properties\<close>

text \<open>
  Both transports carry an event alike: whatever identifiers and time it holds, a subscribed tab is
  called with it once or not at all, and which of the two does not depend on the transport; a write that
  storage refuses delivers nothing.
\<close>

theorem transports_agree:
  assumes "code_units source" "code_units nonce" "code_units sid" "readable_number now"
  shows "received channel tab later (publish_over channel True source nonce now kind sid) =
      (case publishAuthSessionEvent source nonce now kind sid of
         None \<Rightarrow> []
       | Some v \<Rightarrow> (case deliver tab later v of None \<Rightarrow> [] | Some e \<Rightarrow> [e]))
    \<and> received False tab later (publish_over False False source nonce now kind sid) = []"
proof (cases "publishAuthSessionEvent source nonce now kind sid")
  case None
  then show ?thesis by (simp add: publish_over_def received_def List.map_filter_simps)
next
  case (Some v)
  from event_read_back [OF assms Some] have parsed: "JSON_parse (json_text v) = Some v" .
  then have "json_text v \<noteq> []" by (auto simp: JSON_parse_def json_skip_def)
  with parsed Some show ?thesis
    by (cases channel)
      (simp_all add: publish_over_def send_event_def received_def receive_message_def List.map_filter_simps
        split: option.split)
qed

theorem transports_agree_witness:
  "received False (js ''b'') (num 5) (publish_over False True (js ''a'') (js ''n'') (num 5) SE_signed_out (js ''s''))
   = received True (js ''b'') (num 5) (publish_over True True (js ''a'') (js ''n'') (num 5) SE_signed_out (js ''s''))"
proof -
  have "readable_number (num 5)" using int_readable [of 5] by simp
  then show ?thesis
    using transports_agree [of "js ''a''" "js ''n''" "js ''s''" "num 5"] by simp
qed

end
