(* ===== verification/HttpClient.thy ===== *)
theory HttpClient
  imports AuthSession
begin

text \<open>
  \<open>lib/http-client.ts\<close>: the interceptors of the API client. A request that is answered 401 is repeated
  after a refresh, once; a request that spends a single-use authorization refreshes before it is sent.
\<close>

section \<open>Requests\<close>

record ApiRequestConfig =
  rq_skipErrorHandler :: bool
  rq_skipAuthRefresh :: bool
  rq_authRetry :: bool
  rq_acceptAuthRotation :: bool
  rq_singleUseAuthorization :: bool
  rq_headers :: "(jstr \<times> jstr) list"

text \<open>Header names are compared without regard to case.\<close>

definition header_name :: "jstr \<Rightarrow> jstr" where
  "header_name s = map (\<lambda>c. if is_upper c then c + 32 else c) s"

definition has_header :: "(jstr \<times> jstr) list \<Rightarrow> jstr \<Rightarrow> bool" where
  "has_header headers name \<longleftrightarrow> list_ex (\<lambda>h. header_name (fst h) = header_name name) headers"

definition set_header :: "jstr \<times> jstr \<Rightarrow> (jstr \<times> jstr) list \<Rightarrow> (jstr \<times> jstr) list" where
  "set_header h headers = filter (\<lambda>g. header_name (fst g) \<noteq> header_name (fst h)) headers @ [h]"

definition bearer :: "jstr \<Rightarrow> jstr \<times> jstr" where
  "bearer token = (js ''Authorization'', js ''Bearer '' @ token)"

definition spends_authorization :: "ApiRequestConfig \<Rightarrow> bool" where
  "spends_authorization config \<longleftrightarrow>
     rq_singleUseAuthorization config \<or> has_header (rq_headers config) (js ''X-Security-Proof'')"

text \<open>
  The request interceptor, with the result of \<open>getFreshAuthHeaders\<close> where it is called, and the access
  token of the store.
\<close>

definition request_interceptor ::
  "jstr + (jstr \<times> jstr) list \<Rightarrow> jstr option \<Rightarrow> ApiRequestConfig \<Rightarrow> jstr + ApiRequestConfig" where
  "request_interceptor fresh accessToken config =
     (if spends_authorization config then
        (case fresh of
           Inl e \<Rightarrow> Inl e
         | Inr headers \<Rightarrow>
             Inr (config\<lparr>rq_skipAuthRefresh := True, rq_headers := fold set_header headers (rq_headers config)\<rparr>))
      else
        (case accessToken of
           Some token \<Rightarrow>
             if token \<noteq> [] then Inr (config\<lparr>rq_headers := set_header (bearer token) (rq_headers config)\<rparr>)
             else Inr config
         | None \<Rightarrow> Inr config))"

section \<open>Responses\<close>

definition response_interceptor :: "ApiRequestConfig \<Rightarrow> jsvalue \<Rightarrow> AuthModule \<Rightarrow> jstr + AuthModule" where
  "response_interceptor config data m =
     (if rq_acceptAuthRotation config \<and> get_prop data (js ''success'') = JBool True
      then applyAuthRotation (get_prop data (js ''data'')) m else Inr m)"

text \<open>What an error leads to besides its rejection.\<close>

datatype error_effect = Report_expired | Redirect_sign_in | Clear_authentication

datatype error_decision =
    Refresh_first ApiRequestConfig
  | Retry ApiRequestConfig
  | Reject "error_effect list"

definition report_expired :: "ApiRequestConfig \<Rightarrow> error_effect list" where
  "report_expired config = (if rq_skipErrorHandler config then [] else [Report_expired])"

text \<open>The error interceptor up to its refresh; an error without a response has no status.\<close>

definition on_error :: "int option \<Rightarrow> ApiRequestConfig \<Rightarrow> error_decision" where
  "on_error status config =
     (if status = Some 401 then
        (if \<not> rq_skipAuthRefresh config \<and> \<not> rq_authRetry config then Refresh_first (config\<lparr>rq_authRetry := True\<rparr>)
         else if rq_authRetry config then Reject (Clear_authentication # report_expired config @ [Redirect_sign_in])
         else Reject (report_expired config))
      else Reject [])"

definition after_refresh :: "RefreshOutcome \<Rightarrow> jstr option \<Rightarrow> ApiRequestConfig \<Rightarrow> error_decision" where
  "after_refresh outcome token config =
     (case outcome of
        Authenticated b \<Rightarrow>
          Retry (case token of
              Some t \<Rightarrow> if t \<noteq> [] then config\<lparr>rq_headers := set_header (bearer t) (rq_headers config)\<rparr> else config
            | None \<Rightarrow> config)
      | TransientError e \<Rightarrow> Reject []
      | _ \<Rightarrow> Reject (report_expired config @ [Redirect_sign_in]))"

section \<open>An exchange\<close>

text \<open>What one attempt meets: the fresh headers, the store, the answer, and the refresh after an error.\<close>

record request_attempt =
  at_fresh :: "jstr + (jstr \<times> jstr) list"
  at_token :: "jstr option"
  at_answer :: "int option + jsvalue"
  at_module :: AuthModule
  at_outcome :: RefreshOutcome
  at_refreshed :: "jstr option"

datatype exchange_result =
    Unanswered
  | Delivered jsvalue AuthModule
  | Rejected "error_effect list"

text \<open>\<open>api.request(config)\<close>: the requests that are sent, and the result.\<close>

fun exchange :: "ApiRequestConfig \<Rightarrow> request_attempt list \<Rightarrow> ApiRequestConfig list \<times> exchange_result" where
  "exchange config [] = ([], Unanswered)"
| "exchange config (a # as) =
     (case request_interceptor (at_fresh a) (at_token a) config of
        Inl e \<Rightarrow> ([], Rejected [])
      | Inr sent \<Rightarrow>
          (case at_answer a of
             Inr data \<Rightarrow>
               ([sent], case response_interceptor sent data (at_module a) of
                   Inl e \<Rightarrow> Rejected [] | Inr m \<Rightarrow> Delivered data m)
           | Inl status \<Rightarrow>
               (case on_error status sent of
                  Reject effects \<Rightarrow> ([sent], Rejected effects)
                | Retry config' \<Rightarrow> ([sent], Unanswered)
                | Refresh_first config' \<Rightarrow>
                    (case after_refresh (at_outcome a) (at_refreshed a) config' of
                       Retry config'' \<Rightarrow> (let (more, r) = exchange config'' as in (sent # more, r))
                     | Reject effects \<Rightarrow> ([sent], Rejected effects)
                     | Refresh_first config'' \<Rightarrow> ([sent], Unanswered)))))"

lemma request_interceptor_flags:
  "request_interceptor fresh token config = Inr sent \<Longrightarrow>
   rq_authRetry sent = rq_authRetry config
   \<and> (rq_skipAuthRefresh sent \<longleftrightarrow> rq_skipAuthRefresh config \<or> spends_authorization config)"
  by (auto simp: request_interceptor_def split: if_splits sum.splits option.splits)

lemma on_error_cases:
  "on_error status config = Refresh_first config' \<Longrightarrow>
   status = Some 401 \<and> \<not> rq_skipAuthRefresh config \<and> \<not> rq_authRetry config \<and> config' = config\<lparr>rq_authRetry := True\<rparr>"
  by (auto simp: on_error_def split: if_splits)

lemma after_refresh_retry:
  "after_refresh outcome token config = Retry config' \<Longrightarrow>
   rq_authRetry config' = rq_authRetry config \<and> (\<exists>b. outcome = Authenticated b)"
  by (auto simp: after_refresh_def split: RefreshOutcome.splits option.splits if_splits)

text \<open>A request that is not to be refreshed is sent at most once.\<close>

lemma exchange_once:
  "rq_authRetry config \<or> rq_skipAuthRefresh config \<or> spends_authorization config \<Longrightarrow>
   length (fst (exchange config as)) \<le> 1"
  by (cases as)
    (auto split: sum.splits error_decision.splits dest: request_interceptor_flags on_error_cases)

lemma exchange_repeats:
  "exchange config (a # as) = (requests, r) \<Longrightarrow>
   length requests \<le> 1 \<or> at_answer a = Inl (Some 401) \<and> (\<exists>b. at_outcome a = Authenticated b)
     \<and> (\<exists>sent config'. rq_authRetry config' \<and> requests = sent # fst (exchange config' as))"
  by (auto split: sum.splits error_decision.splits prod.splits
      dest!: request_interceptor_flags on_error_cases after_refresh_retry) (metis fst_conv)+

text \<open>
  C37: A request is sent at most twice. It is sent twice only where its first answer is 401 and the
  refresh that follows authenticates; a request that spends a single-use authorization, and one that
  opts out of the refresh, is never sent again.
\<close>

theorem request_repeated_once:
  "length (fst (exchange config as)) \<le> (if spends_authorization config \<or> rq_skipAuthRefresh config then 1 else 2)
    \<and> (length (fst (exchange config as)) = 2 \<longrightarrow>
        at_answer (hd as) = Inl (Some 401) \<and> (\<exists>b. at_outcome (hd as) = Authenticated b))"
proof (cases "length (fst (exchange config as)) > 1")
  case True
  then have no: "\<not> (spends_authorization config \<or> rq_skipAuthRefresh config)"
    using exchange_once [of config as] by auto
  from True obtain a as' where as: "as = a # as'" by (cases as) auto
  obtain requests r where "exchange config (a # as') = (requests, r)" by (cases "exchange config (a # as')")
  with exchange_repeats [OF this] True as obtain sent config' where "at_answer a = Inl (Some 401)"
    "\<exists>b. at_outcome a = Authenticated b" "rq_authRetry config'"
    "fst (exchange config as) = sent # fst (exchange config' as')"
    by (metis fst_conv linorder_not_le)
  with exchange_once [of config' as'] no as show ?thesis by simp
next
  case False
  then have "length (fst (exchange config as)) \<le> 1" "length (fst (exchange config as)) \<noteq> 2" by auto
  then show ?thesis by simp
qed

definition sample_request :: ApiRequestConfig where
  "sample_request =
     \<lparr>rq_skipErrorHandler = False, rq_skipAuthRefresh = False, rq_authRetry = False,
      rq_acceptAuthRotation = False, rq_singleUseAuthorization = True, rq_headers = []\<rparr>"

definition expired_attempt :: request_attempt where
  "expired_attempt =
     \<lparr>at_fresh = Inr [bearer (js ''t1'')], at_token = Some (js ''t1''), at_answer = Inl (Some 401),
      at_module = \<lparr>am_auth = initial_auth, am_epoch = 0, am_published = []\<rparr>, at_outcome = Anonymous, at_refreshed = None\<rparr>"

theorem request_repeated_once_witness:
  "length (fst (exchange sample_request [expired_attempt, expired_attempt])) \<le> 1"
proof -
  have spends: "spends_authorization sample_request" by code_simp
  show ?thesis
    using request_repeated_once [of sample_request "[expired_attempt, expired_attempt]"] spends by simp
qed

end
