(* ===== verification/ServerErrors.thy ===== *)
theory ServerErrors
  imports JsValue
begin

text \<open>
  \<open>lib/server-error-message.ts\<close> and \<open>lib/handle-server-error.ts\<close>: the origins of an error, the message it is
  presented with, and the record of the errors that were presented. Errors are objects with an identity
  that refer to each other, so they live in a heap; the tests of the libraries for cancelled requests and
  the translation are parameters.
\<close>

section \<open>Objects\<close>

text \<open>A value of type \<open>unknown\<close>: a primitive, or a reference to an object.\<close>

datatype err_value = EUndefined | ENull | EBool bool | ENum jsnum | EStr jstr | ERef nat

text \<open>
  What reading a property of an object gives, inherited properties included; the property of the symbol
  \<open>safeServerErrorMessage\<close>; and \<open>instanceof Error\<close>.
\<close>

record err_object =
  eo_props :: "(jstr \<times> err_value) list"
  eo_safe :: err_value
  eo_error :: bool

type_synonym err_heap = "(nat \<times> err_object) list"

definition empty_object :: err_object where
  "empty_object = \<lparr>eo_props = [], eo_safe = EUndefined, eo_error = False\<rparr>"

definition object_at :: "err_heap \<Rightarrow> nat \<Rightarrow> err_object" where
  "object_at h r = (case map_of h r of None \<Rightarrow> empty_object | Some ob \<Rightarrow> ob)"

definition prop_of :: "err_heap \<Rightarrow> nat \<Rightarrow> jstr \<Rightarrow> err_value" where
  "prop_of h r name = (case map_of (eo_props (object_at h r)) name of None \<Rightarrow> EUndefined | Some v \<Rightarrow> v)"

fun err_truthy :: "err_value \<Rightarrow> bool" where
  "err_truthy (EBool b) = b"
| "err_truthy (ENum x) = (x \<noteq> NaN \<and> \<not> js_num_eq x (Fin 0))"
| "err_truthy (EStr s) = (s \<noteq> [])"
| "err_truthy (ERef _) = True"
| "err_truthy _ = False"

text \<open>\<open>isRecord\<close>, with the object it is.\<close>

fun as_record :: "err_value \<Rightarrow> nat option" where
  "as_record (ERef r) = Some r"
| "as_record _ = None"

definition refs :: "err_value list \<Rightarrow> nat set" where
  "refs vs = {r. ERef r \<in> set vs}"

lemma refs_code [code]: "refs vs = set (List.map_filter as_record vs)"
proof -
  have "as_record v = Some r \<longleftrightarrow> v = ERef r" for v r by (cases v) auto
  then have "r \<in> set (List.map_filter as_record vs) \<longleftrightarrow> ERef r \<in> set vs" for r
    by (induction vs) (auto simp: List.map_filter_simps split: option.split)
  then show ?thesis by (auto simp: refs_def)
qed

lemma refs_simps [simp]:
  "refs [] = {}" "refs (vs @ ws) = refs vs \<union> refs ws"
  "refs (ERef r # vs) = insert r (refs vs)" "as_record v = None \<Longrightarrow> refs (v # vs) = refs vs"
  by (auto simp: refs_def)

lemma refs_mono: "refs vs \<subseteq> refs (v # vs)"
  by (auto simp: refs_def)

lemma finite_refs [simp]: "finite (refs vs)"
proof -
  have "refs vs \<subseteq> (\<lambda>v. the (as_record v)) ` set vs" by (force simp: refs_def)
  then show ?thesis by (rule finite_subset) simp
qed

section \<open>The origins of an error\<close>

text \<open>What the walk goes on with from an object: the data of its response, its cause and its error.\<close>

definition origins :: "err_heap \<Rightarrow> nat \<Rightarrow> err_value list" where
  "origins h r =
     (case as_record (prop_of h r (js ''response'')) of
        None \<Rightarrow> [] | Some response \<Rightarrow> [prop_of h response (js ''data'')])
     @ [prop_of h r (js ''cause''), prop_of h r (js ''error'')]"

definition heap_refs :: "err_heap \<Rightarrow> nat set" where
  "heap_refs h = (\<Union>(r, ob) \<in> set h. refs (map snd (eo_props ob)))"

lemma finite_heap_refs [simp]: "finite (heap_refs h)"
  by (auto simp: heap_refs_def)

lemma prop_of_heap: "prop_of h r name = ERef s \<Longrightarrow> s \<in> heap_refs h"
proof -
  assume p: "prop_of h r name = ERef s"
  then have "(name, ERef s) \<in> set (eo_props (object_at h r))"
    by (auto simp: prop_of_def split: option.splits dest: map_of_SomeD)
  moreover from this have "(r, object_at h r) \<in> set h"
    by (auto simp: object_at_def empty_object_def split: option.splits dest: map_of_SomeD)
  ultimately show ?thesis by (force simp: heap_refs_def refs_def)
qed

lemma origins_heap: "refs (origins h r) \<subseteq> heap_refs h"
  by (auto simp: refs_def origins_def split: option.splits dest: prop_of_heap dest!: prop_of_heap [OF sym])

text \<open>The loop of \<open>getServerErrorSources\<close>: what is pending, and the sources so far, which are the seen ones.\<close>

function error_walk :: "err_heap \<Rightarrow> err_value list \<Rightarrow> nat list \<Rightarrow> nat list" where
  "error_walk h [] found = found"
| "error_walk h (v # pending) found =
     (case as_record v of
        None \<Rightarrow> error_walk h pending found
      | Some r \<Rightarrow>
          if r \<in> set found then error_walk h pending found
          else error_walk h (pending @ origins h r) (found @ [r]))"
  by pat_completeness auto

termination
proof (relation "measures [\<lambda>(h, pending, found). card (heap_refs h \<union> refs pending - set found),
    \<lambda>(h, pending, found). length pending]", goal_cases)
  case 1
  then show ?case by simp
next
  case (2 h v pending found)
  then show ?case by simp
next
  case (3 h v pending found r)
  have "heap_refs h \<union> refs pending - set found \<subseteq> heap_refs h \<union> refs (v # pending) - set found"
    using refs_mono by blast
  then have "card (heap_refs h \<union> refs pending - set found) \<le> card (heap_refs h \<union> refs (v # pending) - set found)"
    by (intro card_mono) auto
  then show ?case by auto
next
  case (4 h v pending found r)
  then have v: "v = ERef r" by (cases v) auto
  have "heap_refs h \<union> refs (pending @ origins h r) - set (found @ [r])
      \<subset> heap_refs h \<union> refs (v # pending) - set found"
    using 4 v origins_heap [of h r] by auto
  then have "card (heap_refs h \<union> refs (pending @ origins h r) - set (found @ [r]))
      < card (heap_refs h \<union> refs (v # pending) - set found)"
    by (intro psubset_card_mono) auto
  then show ?case by simp
qed

definition getServerErrorSources :: "err_heap \<Rightarrow> err_value \<Rightarrow> nat list" where
  "getServerErrorSources h v = error_walk h [v] []"

text \<open>The objects an error originates in.\<close>

definition origin_edges :: "err_heap \<Rightarrow> (nat \<times> nat) set" where
  "origin_edges h = {(r, s). s \<in> refs (origins h r)}"

lemma walk_distinct: "distinct found \<Longrightarrow> distinct (error_walk h pending found)"
  by (induction h pending found rule: error_walk.induct) (auto split: option.splits)

lemma walk_sound:
  "set (error_walk h pending found) \<subseteq> set found \<union> (origin_edges h)\<^sup>* `` refs pending"
proof (induction h pending found rule: error_walk.induct)
  case (1 h found)
  then show ?case by simp
next
  case (2 h v pending found)
  show ?case
  proof (cases "as_record v")
    case None
    with 2 show ?thesis by simp
  next
    case (Some r)
    then have v: "v = ERef r" by (cases v) auto
    show ?thesis
    proof (cases "r \<in> set found")
      case True
      with 2 v show ?thesis by auto
    next
      case False
      have "(origin_edges h)\<^sup>* `` refs (origins h r) \<subseteq> (origin_edges h)\<^sup>* `` {r}"
        by (auto simp: origin_edges_def intro: converse_rtrancl_into_rtrancl)
      with 2(3) [OF Some False] Some False v show ?thesis by auto
    qed
  qed
qed

lemma walk_complete:
  "\<forall>r \<in> set found. refs (origins h r) \<subseteq> set found \<union> refs pending \<Longrightarrow>
   set found \<union> refs pending \<subseteq> set (error_walk h pending found)
   \<and> (\<forall>r \<in> set (error_walk h pending found). refs (origins h r) \<subseteq> set (error_walk h pending found))"
proof (induction h pending found rule: error_walk.induct)
  case (1 h found)
  then show ?case by simp
next
  case (2 h v pending found)
  show ?case
  proof (cases "as_record v")
    case None
    with 2 show ?thesis by simp
  next
    case (Some r)
    then have v: "v = ERef r" by (cases v) auto
    show ?thesis
    proof (cases "r \<in> set found")
      case True
      with 2(2) [OF Some True] 2(4) v show ?thesis by auto
    next
      case False
      with 2(3) [OF Some False] 2(4) v show ?thesis by (auto simp: subset_iff)
    qed
  qed
qed

lemma sources_reachable:
  "set (getServerErrorSources h v) = (origin_edges h)\<^sup>* `` refs [v]"
proof
  show "set (getServerErrorSources h v) \<subseteq> (origin_edges h)\<^sup>* `` refs [v]"
    using walk_sound [of h "[v]" "[]"] by (simp add: getServerErrorSources_def)
  let ?W = "set (getServerErrorSources h v)"
  have start: "refs [v] \<subseteq> ?W" and closed: "\<forall>r \<in> ?W. refs (origins h r) \<subseteq> ?W"
    using walk_complete [of "[]" h "[v]"] by (auto simp: getServerErrorSources_def)
  have "s \<in> ?W" if "(r, s) \<in> (origin_edges h)\<^sup>*" "r \<in> ?W" for r s
    using that by (induction rule: rtrancl_induct) (use closed in \<open>auto simp: origin_edges_def\<close>)
  with start show "(origin_edges h)\<^sup>* `` refs [v] \<subseteq> ?W" by blast
qed

section \<open>The messages of known codes\<close>

definition serverErrorMessageKeys :: "(jstr \<times> jstr) list" where
  "serverErrorMessageKeys =
    [(js ''TELEGRAM_OAUTH_NOT_CONFIGURED'',
      js ''Telegram OAuth is not configured or enabled. Please contact your administrator.''),
     (js ''TELEGRAM_OAUTH_CONFLICT'',
      js ''The telegram OAuth provider name is reserved. Ask your administrator to rename the conflicting custom provider.''),
     (js ''TELEGRAM_OAUTH_FAILED'',
      js ''Telegram authorization failed. Please try again.''),
     (js ''TELEGRAM_ACCOUNT_NOT_BOUND'',
      js ''This Telegram account is not linked. Sign in using another method and link it first.''),
     (js ''TELEGRAM_LEGACY_AUTH_REMOVED'',
      js ''Telegram login has changed. Reload the page and start Telegram OAuth again.''),
     (js ''AUTH_INTERNAL_ERROR'',
      js ''Please try again later.''),
     (js ''SECURITY_VERIFICATION_FAILED'',
      js ''Verification failed. Please try again.''),
     (js ''PASSKEY_RP_ID_UNAVAILABLE'',
      js ''This Passkey domain is not available on this website. Use its original website or another verification method.''),
     (js ''PASSKEY_RP_ID_INVALID'',
      js ''Invalid Passkey domain. Enter a domain without a scheme, port, path or wildcard.''),
     (js ''SECURITY_VERIFICATION_FLOW_REQUIRED'',
      js ''This verification method requires its dedicated verification flow.''),
     (js ''SECURITY_VERIFICATION_LOCKED'',
      js ''Two-factor authentication is temporarily locked.''),
     (js ''OAUTH_ACCOUNT_MISMATCH'',
      js ''The OAuth account does not match the account linked to your profile.''),
     (js ''TWOFA_CODE_INVALID'',
      js ''The authenticator code is incorrect.''),
     (js ''TWOFA_ALREADY_ENABLED'',
      js ''Two-factor authentication is already enabled.''),
     (js ''TWOFA_NOT_ENABLED'',
      js ''Two-factor authentication is not enabled.''),
     (js ''PASSKEY_NOT_FOUND'',
      js ''No Passkey is registered.''),
     (js ''AUTH_FLOW_INVALID'',
      js ''Verification flow expired''),
     (js ''SECURITY_PROOF_REQUIRED'',
      js ''Additional verification required''),
     (js ''SECURITY_PROOF_EXPIRED'',
      js ''Security verification has expired. Please verify again.''),
     (js ''SECURITY_PROOF_INVALID'',
      js ''Security verification is no longer valid. Please verify again.''),
     (js ''SECURITY_PROOF_SCOPE_MISMATCH'',
      js ''Verification does not match this action.''),
     (js ''SECURITY_PROOF_CONSUMED'',
      js ''This verification has already been used. Please verify again.''),
     (js ''SECURITY_PROOF_CONTEXT_MISMATCH'',
      js ''Verification does not match this action's details. Please verify again.''),
     (js ''SECURITY_CONTEXT_INVALID'',
      js ''The action details are invalid.''),
     (js ''SECURITY_ACTION_FORBIDDEN'',
      js ''You do not have permission to perform this action.''),
     (js ''SECURITY_PROOF_METHOD_MISMATCH'',
      js ''This verification method is not allowed for this action.''),
     (js ''SECURITY_METHOD_UNAVAILABLE'',
      js ''This verification method is currently unavailable.''),
     (js ''TWOFA_SETUP_INVALID'',
      js ''The two-factor setup has expired or changed. Start setup again.''),
     (js ''AUTH_SESSION_LIMIT'',
      js ''Too many active login sessions. On a device where you are already signed in, open Login sessions and use '' @ [8220] @ js ''Sign out other sessions'' @ [8221] @ js '' to revoke them. If you cannot access a signed-in device, reset your password to sign out all sessions.''),
     (js ''AUTH_SESSION_ISSUANCE_LIMIT'',
      js ''Too many login sessions were created recently. Please wait for the rolling window to pass, then try again.''),
     (js ''TELEGRAM_BIND_DISABLED'',
      js ''Telegram binding is disabled.''),
     (js ''TELEGRAM_BIND_INVALID_REQUEST'',
      js ''The Telegram authorization request is invalid or expired.''),
     (js ''TELEGRAM_BIND_FLOW_INVALID'',
      js ''This Telegram binding request has expired or has already been used.''),
     (js ''TELEGRAM_BIND_SESSION_INVALID'',
      js ''The login session that started this Telegram binding is no longer valid.''),
     (js ''TELEGRAM_BIND_ALREADY_BOUND'',
      js ''This Telegram account is already bound.''),
     (js ''TELEGRAM_BIND_USER_DELETED'',
      js ''This user account no longer exists.''),
     (js ''TELEGRAM_BIND_USER_DISABLED'',
      js ''This user account is disabled.''),
     (js ''TELEGRAM_BIND_INTERNAL_ERROR'',
      js ''Telegram binding failed. Please try again.'')]"

text \<open>
  The table is an object literal, so a name that is not among its entries may still be an inherited
  property of \<open>Object.prototype\<close>, which is no text. \<open>i18next.t\<close> is a parameter over both.
\<close>

datatype message_key = Key jstr | Inherited jstr

definition object_prototype :: "jstr list" where
  "object_prototype = map js
     [''constructor'', ''__proto__'', ''hasOwnProperty'', ''isPrototypeOf'', ''propertyIsEnumerable'',
      ''toString'', ''toLocaleString'', ''valueOf'', ''__defineGetter__'', ''__defineSetter__'',
      ''__lookupGetter__'', ''__lookupSetter__'']"

definition key_of_code :: "jstr \<Rightarrow> message_key option" where
  "key_of_code code =
     (case map_of serverErrorMessageKeys code of
        Some text \<Rightarrow> if text \<noteq> [] then Some (Key text) else None
      | None \<Rightarrow> if code \<in> set object_prototype then Some (Inherited code) else None)"

section \<open>What is read from an error\<close>

fun err_text :: "err_value \<Rightarrow> jstr option" where
  "err_text (EStr s) = Some s"
| "err_text _ = None"

fun err_number :: "err_value \<Rightarrow> jsnum option" where
  "err_number (ENum x) = Some x"
| "err_number _ = None"

definition is_safe :: "err_heap \<Rightarrow> nat \<Rightarrow> bool" where
  "is_safe h r \<longleftrightarrow> err_truthy (eo_safe (object_at h r))"

definition source_key :: "err_heap \<Rightarrow> nat \<Rightarrow> message_key option" where
  "source_key h r = Option.bind (err_text (prop_of h r (js ''code''))) key_of_code"

text \<open>The loop of \<open>getServerErrorMessageKey\<close>; it stops at a safe source.\<close>

fun key_loop :: "err_heap \<Rightarrow> nat list \<Rightarrow> message_key option" where
  "key_loop h [] = None"
| "key_loop h (r # rs) =
     (case source_key h r of
        Some k \<Rightarrow> Some k
      | None \<Rightarrow> if is_safe h r then None else key_loop h rs)"

definition getServerErrorMessageKey :: "err_heap \<Rightarrow> err_value \<Rightarrow> message_key option" where
  "getServerErrorMessageKey h v = key_loop h (getServerErrorSources h v)"

definition source_status :: "err_heap \<Rightarrow> nat \<Rightarrow> jsnum option" where
  "source_status h r = err_number
     (case as_record (prop_of h r (js ''response'')) of
        Some response \<Rightarrow> prop_of h response (js ''status'')
      | None \<Rightarrow> prop_of h r (js ''status''))"

text \<open>The first result among the sources.\<close>

fun first_of :: "(nat \<Rightarrow> 'a option) \<Rightarrow> nat list \<Rightarrow> 'a option" where
  "first_of f [] = None"
| "first_of f (r # rs) = (case f r of Some x \<Rightarrow> Some x | None \<Rightarrow> first_of f rs)"

definition getServerErrorStatus :: "err_heap \<Rightarrow> err_value \<Rightarrow> jsnum option" where
  "getServerErrorStatus h v = first_of (source_status h) (getServerErrorSources h v)"

text \<open>\<open>isCancel\<close> and \<open>isCancelledError\<close> of the libraries are the argument \<open>cancels\<close>.\<close>

definition source_cancelled :: "(err_object \<Rightarrow> bool) \<Rightarrow> err_heap \<Rightarrow> nat \<Rightarrow> bool" where
  "source_cancelled cancels h r \<longleftrightarrow>
     cancels (object_at h r) \<or> prop_of h r (js ''name'') = EStr (js ''AbortError'')"

definition isServerErrorCancelled :: "(err_object \<Rightarrow> bool) \<Rightarrow> err_heap \<Rightarrow> err_value \<Rightarrow> bool" where
  "isServerErrorCancelled cancels h v \<longleftrightarrow> list_ex (source_cancelled cancels h) (getServerErrorSources h v)"

text \<open>\<open>/^\s*(?:<!doctype|<html[\s>])/i\<close>.\<close>

definition html_document :: "jstr \<Rightarrow> bool" where
  "html_document s \<longleftrightarrow>
     (let u = toLowerCase (dropWhile is_space s) in
      startsWith u (js ''<!doctype'')
      \<or> startsWith u (js ''<html'') \<and> (case drop 5 u of [] \<Rightarrow> False | c # _ \<Rightarrow> is_space c \<or> c = 62))"

definition messageText :: "err_value \<Rightarrow> jstr option" where
  "messageText v =
     (case err_text v of
        None \<Rightarrow> None
      | Some s \<Rightarrow> if trim s = [] \<or> trim s = js ''success'' \<or> html_document s then None else Some s)"

definition or_else :: "'a option \<Rightarrow> 'a option \<Rightarrow> 'a option" where
  "or_else a b = (case a of None \<Rightarrow> b | Some x \<Rightarrow> Some x)"

text \<open>The message of a source that is a payload, which errors and responses are not.\<close>

definition payload_message :: "err_heap \<Rightarrow> nat \<Rightarrow> jstr option" where
  "payload_message h r =
     (if eo_error (object_at h r) \<or> err_truthy (prop_of h r (js ''isAxiosError''))
         \<or> as_record (prop_of h r (js ''response'')) \<noteq> None
      then None
      else or_else (messageText (prop_of h r (js ''message'')))
             (or_else
               (case as_record (prop_of h r (js ''error'')) of
                  Some e \<Rightarrow> messageText (prop_of h e (js ''message''))
                | None \<Rightarrow> messageText (prop_of h r (js ''error'')))
               (messageText (prop_of h r (js ''title'')))))"

definition safe_text :: "(message_key \<Rightarrow> jstr) \<Rightarrow> err_heap \<Rightarrow> nat \<Rightarrow> jstr option \<Rightarrow> jstr" where
  "safe_text t h r fallback =
     t (case getServerErrorMessageKey h (ERef r) of
          Some k \<Rightarrow> k
        | None \<Rightarrow>
            (case messageText (prop_of h r (js ''message'')) of
               Some m \<Rightarrow> Key m
             | None \<Rightarrow>
                 (case fallback of
                    Some f \<Rightarrow> if f \<noteq> [] then Key f else Key (js ''Something went wrong!'')
                  | None \<Rightarrow> Key (js ''Something went wrong!''))))"

text \<open>What is left when no source is safe and none has a known code.\<close>

definition plain_message :: "(message_key \<Rightarrow> jstr) \<Rightarrow> err_heap \<Rightarrow> err_value \<Rightarrow> jstr option \<Rightarrow> jstr" where
  "plain_message t h v fallback =
     (let found = getServerErrorSources h v in
      case first_of (payload_message h) found of
        Some m \<Rightarrow> m
      | None \<Rightarrow>
          if getServerErrorStatus h v = Some (num 304) then t (Key (js ''Content not modified!''))
          else if getServerErrorStatus h v = Some (num 204) then t (Key (js ''Content not found.''))
          else (case or_else (first_of (\<lambda>r. messageText (prop_of h r (js ''message''))) found) (messageText v) of
              Some m \<Rightarrow> m
            | None \<Rightarrow> (case fallback of Some f \<Rightarrow> f | None \<Rightarrow> t (Key (js ''Something went wrong!'')))))"

definition getServerErrorMessage ::
  "(message_key \<Rightarrow> jstr) \<Rightarrow> err_heap \<Rightarrow> err_value \<Rightarrow> jstr option \<Rightarrow> jstr" where
  "getServerErrorMessage t h v fallback =
     (case find (is_safe h) (getServerErrorSources h v) of
        Some r \<Rightarrow> safe_text t h r fallback
      | None \<Rightarrow>
          (case getServerErrorMessageKey h v of
             Some k \<Rightarrow> t k
           | None \<Rightarrow> plain_message t h v fallback))"

text \<open>\<open>new Error(message, { cause: value })\<close> at an address that is free.\<close>

definition fresh_address :: "err_heap \<Rightarrow> err_value \<Rightarrow> nat" where
  "fresh_address h v =
     Suc (Max (insert 0 (set (map fst h) \<union> heap_refs h \<union> refs [v])))"

definition error_object :: "jstr \<Rightarrow> err_value \<Rightarrow> err_object" where
  "error_object message cause =
     \<lparr>eo_props = [(js ''name'', EStr (js ''Error'')), (js ''message'', EStr message), (js ''cause'', cause)],
      eo_safe = EUndefined, eo_error = True\<rparr>"

definition createServerError ::
  "(message_key \<Rightarrow> jstr) \<Rightarrow> err_heap \<Rightarrow> err_value \<Rightarrow> jstr option \<Rightarrow> nat \<times> err_heap" where
  "createServerError t h v fallback =
     (let r = fresh_address h v;
          message = getServerErrorMessage t h v (Some (case fallback of None \<Rightarrow> [] | Some f \<Rightarrow> f))
      in (r, (r, error_object message v) # h))"

text \<open>The error that is thrown with the heap it is in, or the response itself.\<close>

definition requireServerSuccess ::
  "(message_key \<Rightarrow> jstr) \<Rightarrow> err_heap \<Rightarrow> err_value \<Rightarrow> nat \<times> err_heap + err_value" where
  "requireServerSuccess t h response =
     (case as_record response of
        Some r \<Rightarrow>
          if prop_of h r (js ''success'') = EBool False then Inl (createServerError t h response None)
          else Inr response
      | None \<Rightarrow> Inr response)"

section \<open>Presentation\<close>

text \<open>The objects that were reported, and the toasts that were shown, with their descriptions.\<close>

record error_presenter =
  er_reported :: "nat list"
  er_toasts :: "(jstr \<times> jstr option) list"

definition markServerErrorHandled :: "err_heap \<Rightarrow> err_value \<Rightarrow> error_presenter \<Rightarrow> error_presenter" where
  "markServerErrorHandled h v p = p\<lparr>er_reported := er_reported p @ getServerErrorSources h v\<rparr>"

record error_call =
  ec_heap :: err_heap
  ec_error :: err_value
  ec_fallback :: "jstr option"
  ec_presentation :: "(jstr \<times> jstr option) option"

definition toast_text :: "(message_key \<Rightarrow> jstr) \<Rightarrow> error_call \<Rightarrow> jstr" where
  "toast_text t c =
     (case ec_presentation c of
        Some (title, _) \<Rightarrow>
          if title \<noteq> [] then title else getServerErrorMessage t (ec_heap c) (ec_error c) (ec_fallback c)
      | None \<Rightarrow> getServerErrorMessage t (ec_heap c) (ec_error c) (ec_fallback c))"

definition toast_description :: "error_call \<Rightarrow> jstr option" where
  "toast_description c =
     (case ec_presentation c of
        Some (_, Some d) \<Rightarrow> if d \<noteq> [] then Some d else None
      | _ \<Rightarrow> None)"

definition call_sources :: "error_call \<Rightarrow> nat list" where
  "call_sources c = getServerErrorSources (ec_heap c) (ec_error c)"

definition call_cancelled :: "(err_object \<Rightarrow> bool) \<Rightarrow> error_call \<Rightarrow> bool" where
  "call_cancelled cancels c \<longleftrightarrow> isServerErrorCancelled cancels (ec_heap c) (ec_error c)"

definition handleServerError ::
  "(err_object \<Rightarrow> bool) \<Rightarrow> (message_key \<Rightarrow> jstr) \<Rightarrow> error_call \<Rightarrow> error_presenter \<Rightarrow> error_presenter" where
  "handleServerError cancels t c p =
     (if call_cancelled cancels c then p
      else let p' = markServerErrorHandled (ec_heap c) (ec_error c) p in
        if list_ex (\<lambda>r. r \<in> set (er_reported p)) (call_sources c) then p'
        else p'\<lparr>er_toasts := er_toasts p' @ [(toast_text t c, toast_description c)]\<rparr>)"

section \<open>The query client\<close>

text \<open>\<open>lib/query-client.ts\<close>: whether a failed query is tried again, outside development builds.\<close>

definition retry_query :: "bool \<Rightarrow> nat \<Rightarrow> err_heap \<Rightarrow> err_value \<Rightarrow> bool" where
  "retry_query dev failureCount h v \<longleftrightarrow>
     (if dev \<or> failureCount > 3 then False
      else (case getServerErrorStatus h v of
          None \<Rightarrow> True
        | Some s \<Rightarrow> \<not> (s = num 401 \<or> s = num 403)))"

text \<open>\<open>errorToast\<close> of the meta data, where there is one, and whether the mutation has an own callback.\<close>

definition mutation_failed ::
  "(err_object \<Rightarrow> bool) \<Rightarrow> (message_key \<Rightarrow> jstr) \<Rightarrow> bool option \<Rightarrow> bool \<Rightarrow> err_heap \<Rightarrow> err_value
    \<Rightarrow> error_presenter \<Rightarrow> error_presenter" where
  "mutation_failed cancels t errorToast ownCallback h v p =
     (if errorToast \<noteq> Some False \<and> \<not> ownCallback
      then handleServerError cancels t \<lparr>ec_heap = h, ec_error = v, ec_fallback = None, ec_presentation = None\<rparr> p
      else p)"

text \<open>The presenter, and whether \<open>onInternalServerError\<close> is called.\<close>

definition query_failed ::
  "(err_object \<Rightarrow> bool) \<Rightarrow> (message_key \<Rightarrow> jstr) \<Rightarrow> bool option \<Rightarrow> err_heap \<Rightarrow> err_value
    \<Rightarrow> error_presenter \<Rightarrow> error_presenter \<times> bool" where
  "query_failed cancels t errorToast h v p =
     ((if errorToast \<noteq> Some False
       then handleServerError cancels t \<lparr>ec_heap = h, ec_error = v, ec_fallback = None, ec_presentation = None\<rparr> p
       else p),
      getServerErrorStatus h v = Some (num 500))"

section \<open>Sources\<close>

lemma sources_distinct: "distinct (getServerErrorSources h v)"
  unfolding getServerErrorSources_def by (rule walk_distinct) simp

lemma walk_extends: "\<exists>more. error_walk h pending found = found @ more"
proof (induction h pending found rule: error_walk.induct)
  case (2 h v pending found)
  then show ?case by (cases "as_record v") (auto split: if_splits)
qed simp

lemma sources_head: "\<exists>more. getServerErrorSources h (ERef r) = r # more"
  using walk_extends [of h "origins h r" "[r]"] by (auto simp: getServerErrorSources_def)

text \<open>What a walk meets is given by the objects it can reach; a new object elsewhere does not matter.\<close>

lemma object_at_other: "r \<noteq> s \<Longrightarrow> object_at ((s, ob) # h) r = object_at h r"
  by (simp add: object_at_def)

lemma prop_of_other: "r \<noteq> s \<Longrightarrow> prop_of ((s, ob) # h) r name = prop_of h r name"
  by (simp add: prop_of_def object_at_other)

lemma response_other:
  "r \<noteq> s \<Longrightarrow> s \<notin> heap_refs h \<Longrightarrow>
   (case as_record (prop_of ((s, ob) # h) r a) of None \<Rightarrow> x | Some e \<Rightarrow> f (prop_of ((s, ob) # h) e b))
   = (case as_record (prop_of h r a) of None \<Rightarrow> x | Some e \<Rightarrow> f (prop_of h e b))"
  using prop_of_heap [of h r a] prop_of_other [of _ s ob h]
  by (cases "prop_of h r a") (auto, metis)

lemma origins_other: "r \<noteq> s \<Longrightarrow> s \<notin> heap_refs h \<Longrightarrow> origins ((s, ob) # h) r = origins h r"
  using response_other [where a = "js ''response''" and x = "[]" and f = "\<lambda>v. [v]" and b = "js ''data''"]
  by (simp add: origins_def prop_of_other)

lemma walk_other:
  "s \<notin> heap_refs h \<Longrightarrow> s \<notin> refs pending \<Longrightarrow> s \<notin> set found \<Longrightarrow>
   error_walk ((s, ob) # h) pending (s # found) = s # error_walk h pending found"
proof (induction h pending found rule: error_walk.induct)
  case (2 h v pending found)
  show ?case
  proof (cases "as_record v")
    case (Some r)
    then have v: "v = ERef r" by (cases v) auto
    with 2(2) [OF Some] 2(3) [OF Some] 2(4-) origins_heap [of h r] show ?thesis
      by (auto simp: origins_other)
  qed (use 2 in simp)
qed simp

lemma fresh_address:
  "fresh_address h v \<notin> heap_refs h" "fresh_address h v \<notin> refs [v]" "fresh_address h v \<notin> set (map fst h)"
proof -
  let ?A = "insert 0 (set (map fst h) \<union> heap_refs h \<union> refs [v])"
  have "finite ?A" by simp
  from Max_ge [OF this, of "Suc (Max ?A)"] have "Suc (Max ?A) \<notin> ?A" by (metis Suc_n_not_le_n)
  then have "fresh_address h v \<notin> ?A" by (simp only: fresh_address_def not_False_eq_True)
  then show "fresh_address h v \<notin> heap_refs h" "fresh_address h v \<notin> refs [v]" "fresh_address h v \<notin> set (map fst h)"
    by auto
qed

lemma error_object_props:
  "prop_of ((s, error_object m v) # h) s (js ''name'') = EStr (js ''Error'')"
  "prop_of ((s, error_object m v) # h) s (js ''message'') = EStr m"
  "prop_of ((s, error_object m v) # h) s (js ''cause'') = v"
  "prop_of ((s, error_object m v) # h) s (js ''error'') = EUndefined"
  "prop_of ((s, error_object m v) # h) s (js ''code'') = EUndefined"
  "prop_of ((s, error_object m v) # h) s (js ''status'') = EUndefined"
  "prop_of ((s, error_object m v) # h) s (js ''response'') = EUndefined"
  "is_safe ((s, error_object m v) # h) s = False"
  by (simp_all add: prop_of_def object_at_def error_object_def is_safe_def)

lemma wrapped_sources:
  assumes "s \<notin> heap_refs h" "s \<notin> refs [v]" "origins ((s, ob) # h) s = [v, EUndefined]"
  shows "getServerErrorSources ((s, ob) # h) (ERef s) = s # getServerErrorSources h v"
proof -
  let ?h = "(s, ob) # h"
  have "error_walk ?h [v] [s] = s # error_walk h [v] []"
    using walk_other [of s h "[v]" "[]"] assms by simp
  moreover have "error_walk ?h [v, EUndefined] [s] = error_walk ?h [v] [s]"
    by (cases v) auto
  ultimately show ?thesis
    by (simp add: getServerErrorSources_def assms(3))
qed

lemma sources_avoid: "s \<notin> heap_refs h \<Longrightarrow> s \<notin> refs [v] \<Longrightarrow> s \<notin> set (getServerErrorSources h v)"
proof
  assume *: "s \<notin> heap_refs h" "s \<notin> refs [v]" "s \<in> set (getServerErrorSources h v)"
  then obtain r where "(r, s) \<in> (origin_edges h)\<^sup>*" "r \<in> refs [v]" by (auto simp: sources_reachable)
  then show False
    using * origins_heap by (induction rule: rtranclE) (auto simp: origin_edges_def)
qed

text \<open>Readings of the sources that agree on every source.\<close>

lemma key_loop_cong:
  "(\<And>r. r \<in> set rs \<Longrightarrow> source_key h r = source_key h' r \<and> is_safe h r = is_safe h' r) \<Longrightarrow>
   key_loop h rs = key_loop h' rs"
  by (induction rs) (auto split: option.splits)

lemma first_of_cong: "(\<And>r. r \<in> set rs \<Longrightarrow> f r = g r) \<Longrightarrow> first_of f rs = first_of g rs"
  by (induction rs) (auto split: option.splits)

section \<open>The run of a presenter\<close>

text \<open>Whether a call shows a toast, and the calls of a run that do.\<close>

definition shows_toast :: "(err_object \<Rightarrow> bool) \<Rightarrow> error_call \<Rightarrow> error_presenter \<Rightarrow> bool" where
  "shows_toast cancels c p \<longleftrightarrow>
     \<not> call_cancelled cancels c \<and> \<not> list_ex (\<lambda>r. r \<in> set (er_reported p)) (call_sources c)"

fun handle_all ::
  "(err_object \<Rightarrow> bool) \<Rightarrow> (message_key \<Rightarrow> jstr) \<Rightarrow> error_call list \<Rightarrow> error_presenter \<Rightarrow> error_presenter" where
  "handle_all cancels t [] p = p"
| "handle_all cancels t (c # cs) p = handle_all cancels t cs (handleServerError cancels t c p)"

fun shown_calls ::
  "(err_object \<Rightarrow> bool) \<Rightarrow> (message_key \<Rightarrow> jstr) \<Rightarrow> error_call list \<Rightarrow> error_presenter \<Rightarrow> error_call list" where
  "shown_calls cancels t [] p = []"
| "shown_calls cancels t (c # cs) p =
     (if shows_toast cancels c p then [c] else []) @ shown_calls cancels t cs (handleServerError cancels t c p)"

lemma handle_toasts:
  "er_toasts (handleServerError cancels t c p) =
     er_toasts p @ (if shows_toast cancels c p then [(toast_text t c, toast_description c)] else [])"
  by (simp add: handleServerError_def shows_toast_def markServerErrorHandled_def Let_def)

lemma handle_reported:
  "er_reported (handleServerError cancels t c p) =
     er_reported p @ (if call_cancelled cancels c then [] else call_sources c)"
  by (simp add: handleServerError_def markServerErrorHandled_def call_sources_def Let_def)

lemma run_toasts:
  "er_toasts (handle_all cancels t cs p) =
     er_toasts p @ map (\<lambda>c. (toast_text t c, toast_description c)) (shown_calls cancels t cs p)"
  by (induction cs arbitrary: p) (simp_all add: handle_toasts)

lemma run_reported:
  "er_reported (handle_all cancels t cs p) =
     er_reported p @ concat (map call_sources (filter (\<lambda>c. \<not> call_cancelled cancels c) cs))"
  by (induction cs arbitrary: p) (simp_all add: handle_reported)

lemma run_append:
  "handle_all cancels t (cs @ ds) p = handle_all cancels t ds (handle_all cancels t cs p)"
  "shown_calls cancels t (cs @ ds) p =
     shown_calls cancels t cs p @ shown_calls cancels t ds (handle_all cancels t cs p)"
  by (induction cs arbitrary: p) simp_all

lemma call_sources_distinct: "distinct (call_sources c)"
  by (simp add: call_sources_def sources_distinct)

lemma shown_fresh:
  "distinct (concat (map call_sources (shown_calls cancels t cs p)))
   \<and> set (concat (map call_sources (shown_calls cancels t cs p))) \<inter> set (er_reported p) = {}"
proof (induction cs arbitrary: p)
  case (Cons c cs)
  have "set (er_reported (handleServerError cancels t c p)) =
      set (er_reported p) \<union> (if call_cancelled cancels c then {} else set (call_sources c))"
    by (simp add: handle_reported)
  with Cons [of "handleServerError cancels t c p"] show ?case
    by (cases "shows_toast cancels c p")
      (auto simp: shows_toast_def list_ex_iff call_sources_distinct)
qed simp

section \<open>Properties\<close>

text \<open>
  C27: The walk over the origins of an error always ends, also where causes refer back to each other, and
  meets every object that can be reached from the error over response data, causes and errors, exactly
  once and no other.
\<close>

theorem error_origins_collected:
  "distinct (getServerErrorSources h v)
   \<and> set (getServerErrorSources h v) = (origin_edges h)\<^sup>* `` {r. v = ERef r}"
proof -
  have "{r. v = ERef r} = refs [v]" by (auto simp: refs_def)
  then show ?thesis
    by (simp add: sources_reachable sources_distinct)
qed

text \<open>
  C24: What is presented of a failure with a safe error among its origins depends on that error object
  alone: two failures whose first safe origins read alike get the same message, whatever their causes,
  their wrappers, the response and everything else in memory hold.
\<close>

theorem safe_error_hides_origins:
  assumes "find (is_safe h) (getServerErrorSources h v) = Some r"
    and "find (is_safe h') (getServerErrorSources h' v') = Some r'"
    and "object_at h r = object_at h' r'"
  shows "getServerErrorMessage t h v fallback = getServerErrorMessage t h' v' fallback"
proof -
  have own: "prop_of h r = prop_of h' r'"
    using assms(3) by (intro ext) (simp add: prop_of_def)
  have safe: "is_safe h r" "is_safe h' r'"
    using assms(1,2) by (auto simp: find_Some_iff)
  obtain more more' where "getServerErrorSources h (ERef r) = r # more"
    "getServerErrorSources h' (ERef r') = r' # more'"
    using sources_head by metis
  with own safe have "getServerErrorMessageKey h (ERef r) = getServerErrorMessageKey h' (ERef r')"
    by (auto simp: getServerErrorMessageKey_def source_key_def split: option.splits)
  then have "safe_text t h r fallback = safe_text t h' r' fallback"
    by (simp only: safe_text_def own)
  with assms(1,2) show ?thesis
    by (simp add: getServerErrorMessage_def)
qed

definition safe_object :: "jstr \<Rightarrow> err_value \<Rightarrow> err_object" where
  "safe_object message cause =
     \<lparr>eo_props = [(js ''message'', EStr message), (js ''cause'', cause)], eo_safe = EBool True, eo_error = False\<rparr>"

definition text_object :: "jstr \<Rightarrow> err_object" where
  "text_object message = \<lparr>eo_props = [(js ''message'', EStr message)], eo_safe = EUndefined, eo_error = False\<rparr>"

definition text_of_key :: "message_key \<Rightarrow> jstr" where
  "text_of_key k = (case k of Key s \<Rightarrow> s | Inherited s \<Rightarrow> [])"

theorem safe_error_hides_origins_witness:
  "getServerErrorMessage text_of_key
       [(0, safe_object (js ''Try again'') (ERef 1)), (1, text_object (js ''password is wrong''))] (ERef 0) None
   = getServerErrorMessage text_of_key
       [(0, safe_object (js ''Try again'') (ERef 1)), (1, text_object (js ''no such user''))] (ERef 0) None"
proof -
  let ?h = "\<lambda>m. [(0, safe_object (js ''Try again'') (ERef 1)), (1, text_object m)]"
  have "find (is_safe (?h (js ''password is wrong''))) (getServerErrorSources (?h (js ''password is wrong'')) (ERef 0)) = Some 0"
    "find (is_safe (?h (js ''no such user''))) (getServerErrorSources (?h (js ''no such user'')) (ERef 0)) = Some 0"
    by code_simp+
  moreover have "object_at (?h (js ''password is wrong'')) 0 = object_at (?h (js ''no such user'')) 0"
    by (simp add: object_at_def)
  ultimately show ?thesis by (rule safe_error_hides_origins)
qed

text \<open>
  An error made of another one is recognised as the same failure at every layer: it has the same
  origins behind itself, the same known code, the same status and the same verdict on cancellation, and
  an error that was reported is not reported again through the one made of it.
\<close>

theorem wrapped_error_recognized:
  assumes plain: "\<And>m. \<not> cancels (error_object m v)"
  shows "case createServerError t h v fallback of (r, h') \<Rightarrow>
    getServerErrorSources h' (ERef r) = r # getServerErrorSources h v
    \<and> getServerErrorMessageKey h' (ERef r) = getServerErrorMessageKey h v
    \<and> getServerErrorStatus h' (ERef r) = getServerErrorStatus h v
    \<and> isServerErrorCancelled cancels h' (ERef r) = isServerErrorCancelled cancels h v"
proof -
  define s where "s = fresh_address h v"
  obtain m where made: "createServerError t h v fallback = (s, (s, error_object m v) # h)"
    by (auto simp: createServerError_def s_def Let_def)
  let ?h = "(s, error_object m v) # h"
  note free = fresh_address [of h v, folded s_def]
  have all: "getServerErrorSources ?h (ERef s) = s # getServerErrorSources h v"
    by (rule wrapped_sources) (simp_all add: free origins_def error_object_props)
  have other: "r \<noteq> s" if "r \<in> set (getServerErrorSources h v)" for r
    using that sources_avoid [OF free(1,2)] by auto
  have "getServerErrorMessageKey ?h (ERef s) = key_loop ?h (getServerErrorSources h v)"
    by (simp add: getServerErrorMessageKey_def all source_key_def error_object_props)
  also have "\<dots> = getServerErrorMessageKey h v"
    unfolding getServerErrorMessageKey_def
    by (rule key_loop_cong) (simp add: other source_key_def prop_of_other is_safe_def object_at_other)
  finally have key: "getServerErrorMessageKey ?h (ERef s) = getServerErrorMessageKey h v" .
  have "source_status ?h r = source_status h r" if "r \<in> set (getServerErrorSources h v)" for r
    using response_other [OF other [OF that] free(1), where a = "js ''response''" and f = "\<lambda>x. x" and b = "js ''status''"]
      other [OF that]
    by (cases "as_record (prop_of h r (js ''response''))") (simp_all add: source_status_def prop_of_other)
  moreover have "source_status ?h s = None"
    by (simp add: source_status_def error_object_props)
  ultimately have status: "getServerErrorStatus ?h (ERef s) = getServerErrorStatus h v"
    by (auto simp: getServerErrorStatus_def all intro: first_of_cong)
  have "source_cancelled cancels ?h s = False"
    using plain by (simp add: source_cancelled_def error_object_props) (simp add: object_at_def)
  moreover have "source_cancelled cancels ?h r = source_cancelled cancels h r" if "r \<in> set (getServerErrorSources h v)" for r
    by (simp add: other [OF that] source_cancelled_def prop_of_other object_at_other)
  ultimately have "isServerErrorCancelled cancels ?h (ERef s) = isServerErrorCancelled cancels h v"
    by (auto simp: isServerErrorCancelled_def all list_ex_iff)
  with all key status made show ?thesis by simp
qed

theorem wrapped_error_recognized_witness:
  "case createServerError text_of_key [(0, text_object (js ''Quota exhausted''))] (ERef 0) None of (r, h') \<Rightarrow>
     getServerErrorSources h' (ERef r) = [r, 0]"
proof -
  have cancels: "\<not> eo_safe (error_object m (ERef 0)) = EBool True" for m
    by (simp add: error_object_def)
  have "getServerErrorSources [(0, text_object (js ''Quota exhausted''))] (ERef 0) = [0]"
    by code_simp
  with wrapped_error_recognized [where cancels = "\<lambda>ob. eo_safe ob = EBool True" and v = "ERef 0" and t = text_of_key
      and h = "[(0, text_object (js ''Quota exhausted''))]" and fallback = None, OF cancels]
  show ?thesis by (simp split: prod.splits)
qed

text \<open>
  C21: Over any run of failures, whatever happens to memory in between, the toasts that are shown stand for
  failures with pairwise disjoint origins, none of which was reported before the run; and every failure
  that is not cancelled is shown unless it shares an origin with a failure reported before it, so none
  is dropped that nobody was told of.
\<close>

theorem errors_reported_once:
  "distinct (concat (map call_sources (shown_calls cancels t cs p)))
   \<and> er_toasts (handle_all cancels t cs p) =
       er_toasts p @ map (\<lambda>c. (toast_text t c, toast_description c)) (shown_calls cancels t cs p)
   \<and> (\<forall>before c after. cs = before @ c # after \<and> \<not> call_cancelled cancels c \<longrightarrow>
        c \<in> set (shown_calls cancels t cs p)
        \<or> (\<exists>r \<in> set (call_sources c). r \<in> set (er_reported p)
             \<or> (\<exists>d \<in> set before. \<not> call_cancelled cancels d \<and> r \<in> set (call_sources d))))"
proof (intro conjI allI impI)
  fix before c after
  assume "cs = before @ c # after \<and> \<not> call_cancelled cancels c"
  then show "c \<in> set (shown_calls cancels t cs p)
        \<or> (\<exists>r \<in> set (call_sources c). r \<in> set (er_reported p)
             \<or> (\<exists>d \<in> set before. \<not> call_cancelled cancels d \<and> r \<in> set (call_sources d)))"
    by (auto simp: run_append shows_toast_def run_reported list_ex_iff)
qed (simp_all add: shown_fresh run_toasts)

theorem errors_reported_once_witness:
  "(let c = \<lparr>ec_heap = [(0, text_object (js ''Quota exhausted''))], ec_error = ERef 0, ec_fallback = None,
             ec_presentation = None\<rparr> in
    c \<in> set (shown_calls (\<lambda>ob. False) text_of_key [c, c] \<lparr>er_reported = [], er_toasts = []\<rparr>))"
proof -
  let ?c = "\<lparr>ec_heap = [(0, text_object (js ''Quota exhausted''))], ec_error = ERef 0, ec_fallback = None,
             ec_presentation = None\<rparr>"
  let ?p = "\<lparr>er_reported = [], er_toasts = []\<rparr>"
  have "\<not> call_cancelled (\<lambda>ob. False) ?c" by code_simp
  moreover have "[?c, ?c] = [] @ ?c # [?c]" by simp
  ultimately have "?c \<in> set (shown_calls (\<lambda>ob. False) text_of_key [?c, ?c] ?p)
      \<or> (\<exists>r \<in> set (call_sources ?c). r \<in> set (er_reported ?p)
           \<or> (\<exists>d \<in> set []. \<not> call_cancelled (\<lambda>ob. False) d \<and> r \<in> set (call_sources d)))"
    using errors_reported_once [where cs = "[?c, ?c]" and cancels = "\<lambda>ob. False" and t = text_of_key and p = ?p]
    by blast
  then show ?thesis by (simp add: Let_def)
qed

text \<open>A code that names an inherited property of objects is taken for a known one.\<close>

theorem inherited_code_is_known:
  "getServerErrorMessageKey [(0, \<lparr>eo_props = [(js ''code'', EStr (js ''constructor''))], eo_safe = EUndefined, eo_error = False\<rparr>)]
     (ERef 0) = Some (Inherited (js ''constructor''))"
  by code_simp

end
