(* ===== verification/ApiClient.thy ===== *)
theory ApiClient
  imports HttpClient ServerErrors JsText
begin

text \<open>
  The rest of \<open>lib/http-client.ts\<close>: equal GET requests that are in flight share one request, and the
  effects of a rejected request are carried out: the expired session is presented, the page goes to the
  sign-in form, and the message of the error is replaced by the one that is presented.
\<close>

section \<open>Shared GET requests\<close>

text \<open>A call of \<open>api.get\<close>, with the session of the store at that time; absent parameters are \<open>JUndefined\<close>.\<close>

record get_call =
  gc_sid :: "jstr option"
  gc_url :: jstr
  gc_params :: jsvalue
  gc_disableDuplicate :: bool

definition session_text :: "jstr option \<Rightarrow> jstr" where
  "session_text sid = (case sid of Some s \<Rightarrow> if s \<noteq> [] then s else js ''anonymous'' | None \<Rightarrow> js ''anonymous'')"

definition params_text :: "jsvalue \<Rightarrow> jstr" where
  "params_text params = (if truthy params then json_text params else js ''{}'')"

definition request_target :: "get_call \<Rightarrow> jstr" where
  "request_target c = gc_url c @ js ''?'' @ params_text (gc_params c)"

definition request_key :: "get_call \<Rightarrow> jstr" where
  "request_key c = session_text (gc_sid c) @ js '':'' @ request_target c"

text \<open>
  The requests that were sent, each with its call, \<open>inFlightGet\<close>, and the requests that are settled; a
  promise is the number of its request.
\<close>

record get_client =
  gx_sent :: "get_call list"
  gx_inFlight :: "jstr \<rightharpoonup> nat"
  gx_settled :: "nat set"

definition new_get_client :: get_client where
  "new_get_client = \<lparr>gx_sent = [], gx_inFlight = Map.empty, gx_settled = {}\<rparr>"

definition api_get :: "get_call \<Rightarrow> get_client \<Rightarrow> nat \<times> get_client" where
  "api_get c x =
     (let i = length (gx_sent x); sent = gx_sent x @ [c] in
      if gc_disableDuplicate c then (i, x\<lparr>gx_sent := sent\<rparr>)
      else (case gx_inFlight x (request_key c) of
          Some existing \<Rightarrow> (existing, x)
        | None \<Rightarrow> (i, x\<lparr>gx_sent := sent, gx_inFlight := (gx_inFlight x)(request_key c \<mapsto> i)\<rparr>)))"

text \<open>A request settles, once; \<open>finally\<close> removes the entry of a shared one.\<close>

definition settle_get :: "nat \<Rightarrow> get_client \<Rightarrow> get_client" where
  "settle_get i x =
     (if i < length (gx_sent x) \<and> i \<notin> gx_settled x
      then (let x' = x\<lparr>gx_settled := insert i (gx_settled x)\<rparr>; c = gx_sent x ! i in
            if gc_disableDuplicate c then x'
            else x'\<lparr>gx_inFlight := (gx_inFlight x)(request_key c := None)\<rparr>)
      else x)"

datatype get_event = Get get_call | Settle nat

fun get_step :: "get_client \<Rightarrow> get_event \<Rightarrow> get_client" where
  "get_step x (Get c) = snd (api_get c x)"
| "get_step x (Settle i) = settle_get i x"

definition run_gets :: "get_event list \<Rightarrow> get_client" where
  "run_gets evs = foldl get_step new_get_client evs"

text \<open>The entries are the shared requests that are not settled.\<close>

definition pending_get :: "get_client \<Rightarrow> jstr \<Rightarrow> nat \<Rightarrow> bool" where
  "pending_get x k i \<longleftrightarrow>
     i < length (gx_sent x) \<and> i \<notin> gx_settled x \<and> \<not> gc_disableDuplicate (gx_sent x ! i)
     \<and> request_key (gx_sent x ! i) = k"

definition get_client_ok :: "get_client \<Rightarrow> bool" where
  "get_client_ok x \<longleftrightarrow>
     (\<forall>k i. gx_inFlight x k = Some i \<longleftrightarrow> pending_get x k i) \<and> (\<forall>i \<in> gx_settled x. i < length (gx_sent x))"

lemma pending_unique: "get_client_ok x \<Longrightarrow> pending_get x k i \<Longrightarrow> pending_get x k j \<Longrightarrow> i = j"
  by (metis get_client_ok_def option.inject)

lemma pending_sent:
  "\<forall>i \<in> gx_settled x. i < length (gx_sent x) \<Longrightarrow>
   pending_get (x\<lparr>gx_sent := gx_sent x @ [c], gx_inFlight := m\<rparr>) k i \<longleftrightarrow>
     pending_get x k i \<or> i = length (gx_sent x) \<and> \<not> gc_disableDuplicate c \<and> request_key c = k"
  "\<forall>i \<in> gx_settled x. i < length (gx_sent x) \<Longrightarrow>
   pending_get (x\<lparr>gx_sent := gx_sent x @ [c]\<rparr>) k i \<longleftrightarrow>
     pending_get x k i \<or> i = length (gx_sent x) \<and> \<not> gc_disableDuplicate c \<and> request_key c = k"
  by (auto simp: pending_get_def nth_append less_Suc_eq)

lemma api_get_ok: "get_client_ok x \<Longrightarrow> get_client_ok (snd (api_get c x))"
  by (auto simp: get_client_ok_def api_get_def Let_def pending_sent split: option.splits) (metis option.distinct(1))

lemma settle_get_ok: "get_client_ok x \<Longrightarrow> get_client_ok (settle_get i x)"
  using pending_unique [of x]
  by (auto simp: get_client_ok_def settle_get_def Let_def pending_get_def)

lemma run_gets_ok: "get_client_ok (run_gets evs)"
proof (induction evs rule: rev_induct)
  case Nil
  show ?case by (simp add: run_gets_def new_get_client_def get_client_ok_def pending_get_def)
next
  case (snoc e evs)
  then show ?case by (cases e) (simp_all add: run_gets_def api_get_ok settle_get_ok)
qed

lemma key_parts:
  assumes "58 \<notin> set (session_text (gc_sid c))" "58 \<notin> set (session_text (gc_sid d))" "request_key c = request_key d"
  shows "session_text (gc_sid c) = session_text (gc_sid d) \<and> request_target c = request_target d"
proof -
  have colon: "js '':'' = [58]" by (simp add: js_def)
  have "takeWhile (\<lambda>x. x \<noteq> 58) (s @ 58 # t) = s \<and> dropWhile (\<lambda>x. x \<noteq> 58) (s @ 58 # t) = 58 # t" if "58 \<notin> set s" for s t :: jstr
    using that by (induction s) auto
  with assms show ?thesis
    by (simp add: request_key_def colon) (metis list.inject)
qed

section \<open>The effects of a rejection\<close>

text \<open>
  What the effects change: the memory of errors, the presenter, and the path of the page. \<open>Clear\<close> is
  carried out on the authentication store, which \<open>clearAuthentication\<close> models.
\<close>

record client_world =
  cw_heap :: err_heap
  cw_presenter :: error_presenter
  cw_path :: "jstr option"

definition redirectToSignIn :: "client_world \<Rightarrow> client_world" where
  "redirectToSignIn w =
     (case cw_path w of
        None \<Rightarrow> w
      | Some path \<Rightarrow> if path \<noteq> js ''/sign-in'' then w\<lparr>cw_path := Some (js ''/sign-in'')\<rparr> else w)"

text \<open>The object \<open>{ message: t('Session expired!'), [safeServerErrorMessage]: true, cause: error }\<close>.\<close>

definition expired_call ::
  "(message_key \<Rightarrow> jstr) \<Rightarrow> err_heap \<Rightarrow> err_value \<Rightarrow> error_call" where
  "expired_call t h err =
     (let r = fresh_address h err in
      \<lparr>ec_heap = (r, safe_object (t (Key (js ''Session expired!''))) err) # h, ec_error = ERef r,
       ec_fallback = None, ec_presentation = None\<rparr>)"

definition run_effect ::
  "(err_object \<Rightarrow> bool) \<Rightarrow> (message_key \<Rightarrow> jstr) \<Rightarrow> err_value \<Rightarrow> error_effect \<Rightarrow> client_world \<Rightarrow> client_world" where
  "run_effect cancels t err e w =
     (case e of
        Report_expired \<Rightarrow>
          (let c = expired_call t (cw_heap w) err in
           w\<lparr>cw_heap := ec_heap c, cw_presenter := handleServerError cancels t c (cw_presenter w)\<rparr>)
      | Redirect_sign_in \<Rightarrow> redirectToSignIn w
      | Clear_authentication \<Rightarrow> w)"

text \<open>\<open>if (axios.isAxiosError(error)) error.message = getServerErrorMessage(error)\<close>.\<close>

definition set_prop :: "jstr \<Rightarrow> err_value \<Rightarrow> err_object \<Rightarrow> err_object" where
  "set_prop name v ob = ob\<lparr>eo_props := (name, v) # eo_props ob\<rparr>"

definition present_message :: "(message_key \<Rightarrow> jstr) \<Rightarrow> err_heap \<Rightarrow> err_value \<Rightarrow> err_heap" where
  "present_message t h err =
     (case as_record err of
        None \<Rightarrow> h
      | Some r \<Rightarrow>
          if prop_of h r (js ''isAxiosError'') = EBool True
          then (r, set_prop (js ''message'') (EStr (getServerErrorMessage t h err None)) (object_at h r)) # h
          else h)"

definition reject_request ::
  "(err_object \<Rightarrow> bool) \<Rightarrow> (message_key \<Rightarrow> jstr) \<Rightarrow> err_value \<Rightarrow> error_effect list \<Rightarrow> client_world \<Rightarrow> client_world" where
  "reject_request cancels t err effects w =
     (let w' = fold (run_effect cancels t err) effects w in
      w'\<lparr>cw_heap := present_message t (cw_heap w') err\<rparr>)"

section \<open>Properties\<close>

text \<open>
  C28: However calls and answers follow each other: what a call of \<open>api.get\<close> is given is a request that is
  not settled yet, made for the same session and the same target where session identifiers hold no
  colon; it is a new one exactly where sharing is disabled or no such shared request is in flight; and
  no two shared requests in flight have the same key.
\<close>

theorem get_requests_shared:
  assumes "api_get c (run_gets evs) = (i, x)"
  shows "i < length (gx_sent x) \<and> i \<notin> gx_settled x
    \<and> request_key (gx_sent x ! i) = request_key c
    \<and> (58 \<notin> set (session_text (gc_sid c)) \<longrightarrow> 58 \<notin> set (session_text (gc_sid (gx_sent x ! i))) \<longrightarrow>
        session_text (gc_sid (gx_sent x ! i)) = session_text (gc_sid c)
        \<and> request_target (gx_sent x ! i) = request_target c)
    \<and> (gx_sent x = gx_sent (run_gets evs) @ [c] \<longleftrightarrow>
        gc_disableDuplicate c \<or> \<not> (\<exists>j. pending_get (run_gets evs) (request_key c) j))
    \<and> (\<forall>j k. pending_get x k j \<and> pending_get x k i \<longrightarrow> i = j)"
proof -
  have ok: "get_client_ok (run_gets evs)" by (rule run_gets_ok)
  then have after: "get_client_ok x" using api_get_ok [of "run_gets evs" c] assms by simp
  have unsettled: "length (gx_sent (run_gets evs)) \<notin> gx_settled (run_gets evs)"
    using ok by (auto simp: get_client_ok_def)
  have basic: "i < length (gx_sent x) \<and> i \<notin> gx_settled x \<and> request_key (gx_sent x ! i) = request_key c"
    using assms ok unsettled
    by (auto simp: api_get_def Let_def get_client_ok_def pending_get_def split: if_splits option.splits)
  have new: "gx_sent x = gx_sent (run_gets evs) @ [c] \<longleftrightarrow>
      gc_disableDuplicate c \<or> \<not> (\<exists>j. pending_get (run_gets evs) (request_key c) j)"
  proof (cases "gx_inFlight (run_gets evs) (request_key c)")
    case None
    with ok have "\<not> (\<exists>j. pending_get (run_gets evs) (request_key c) j)"
      by (metis get_client_ok_def option.distinct(1))
    with None assms show ?thesis by (auto simp: api_get_def Let_def split: if_splits)
  next
    case (Some j)
    with ok have "pending_get (run_gets evs) (request_key c) j" by (simp add: get_client_ok_def)
    with Some assms show ?thesis by (auto simp: api_get_def Let_def split: if_splits)
  qed
  show ?thesis
    using basic new key_parts [of "gx_sent x ! i" c] pending_unique [OF after] by blast
qed

definition sample_get :: get_call where
  "sample_get =
     \<lparr>gc_sid = Some (js ''s1''), gc_url = js ''/api/status'', gc_params = JUndefined, gc_disableDuplicate = False\<rparr>"

theorem get_requests_shared_witness:
  "api_get sample_get (run_gets [Get sample_get]) = (0, run_gets [Get sample_get])
   \<and> session_text (gc_sid (gx_sent (run_gets [Get sample_get]) ! 0)) = session_text (gc_sid sample_get)"
proof -
  have twice: "api_get sample_get (run_gets [Get sample_get]) = (0, run_gets [Get sample_get])"
    by (simp add: run_gets_def api_get_def new_get_client_def sample_get_def Let_def)
  have sent: "gx_sent (run_gets [Get sample_get]) = [sample_get]"
    by (simp add: run_gets_def api_get_def new_get_client_def sample_get_def Let_def)
  have "58 \<notin> set (session_text (gc_sid sample_get))" by code_simp
  with get_requests_shared [OF twice] twice sent show ?thesis by simp
qed

lemma expired_sources:
  "call_sources (expired_call t h err) = fresh_address h err # getServerErrorSources h err"
proof -
  have "origins ((fresh_address h err, safe_object m err) # h) (fresh_address h err) = [err, EUndefined]" for m
    by (simp add: origins_def prop_of_def object_at_def safe_object_def)
  then show ?thesis
    by (simp add: call_sources_def expired_call_def Let_def wrapped_sources fresh_address)
qed

lemma expired_text:
  assumes "messageText (EStr (t (Key (js ''Session expired!'')))) = Some (t (Key (js ''Session expired!'')))"
  shows "toast_text t (expired_call t h err) = t (Key (t (Key (js ''Session expired!''))))"
proof -
  let ?r = "fresh_address h err" and ?m = "t (Key (js ''Session expired!''))"
  let ?h = "(?r, safe_object ?m err) # h"
  have sources: "getServerErrorSources ?h (ERef ?r) = ?r # getServerErrorSources h err"
    using expired_sources [of t h err] by (simp add: call_sources_def expired_call_def Let_def)
  have "is_safe ?h ?r" by (simp add: is_safe_def object_at_def safe_object_def)
  moreover have "source_key ?h ?r = None"
    by (simp add: source_key_def prop_of_def object_at_def safe_object_def)
  moreover have "prop_of ?h ?r (js ''message'') = EStr ?m"
    by (simp add: prop_of_def object_at_def safe_object_def)
  ultimately have "getServerErrorMessage t ?h (ERef ?r) None = t (Key ?m)"
    using assms by (simp add: getServerErrorMessage_def safe_text_def getServerErrorMessageKey_def sources)
  then show ?thesis by (simp add: toast_text_def expired_call_def Let_def)
qed

text \<open>
  A session that expired is told of once: the client shows that the session expired, unless the
  failure was reported before, and after that the error of the request, and everything made of it,
  shows no further toast at any later layer.
\<close>

theorem expired_session_told_once:
  assumes "messageText (EStr (t (Key (js ''Session expired!'')))) = Some (t (Key (js ''Session expired!'')))"
    and "\<not> call_cancelled cancels (expired_call t h (ERef e))"
    and "p' = handleServerError cancels t (expired_call t h (ERef e)) p"
  shows "(er_toasts p' =
       (if set (fresh_address h (ERef e) # getServerErrorSources h (ERef e)) \<inter> set (er_reported p) = {}
        then er_toasts p @ [(t (Key (t (Key (js ''Session expired!'')))), None)] else er_toasts p))
    \<and> (ec_error c = ERef e \<or> e \<in> set (call_sources c) \<longrightarrow>
        er_toasts (handleServerError cancels t c p') = er_toasts p')"
proof -
  have desc: "toast_description (expired_call t h (ERef e)) = None"
    by (simp add: toast_description_def expired_call_def Let_def)
  have "e \<in> set (getServerErrorSources h (ERef e))"
    using sources_head [of h e] by auto
  then have reported: "e \<in> set (er_reported p')"
    using assms(2,3) by (simp add: handle_reported expired_sources)
  have "e \<in> set (call_sources c)" if "ec_error c = ERef e"
    using that sources_head [of "ec_heap c" e] by (auto simp: call_sources_def)
  with reported have "er_toasts (handleServerError cancels t c p') = er_toasts p'"
    if "ec_error c = ERef e \<or> e \<in> set (call_sources c)"
    using that by (auto simp: handle_toasts shows_toast_def list_ex_iff)
  moreover have "shows_toast cancels (expired_call t h (ERef e)) p \<longleftrightarrow>
      set (fresh_address h (ERef e) # getServerErrorSources h (ERef e)) \<inter> set (er_reported p) = {}"
    using assms(2) by (auto simp: shows_toast_def list_ex_iff expired_sources)
  ultimately show ?thesis
    using assms(3) expired_text [of t h "ERef e"] assms(1) desc by (simp add: handle_toasts)
qed

theorem expired_session_told_once_witness:
  "er_toasts (handleServerError (\<lambda>ob. False) text_of_key
       (expired_call text_of_key [(0, text_object (js ''HTTP 401''))] (ERef 0)) \<lparr>er_reported = [], er_toasts = []\<rparr>)
   = [(js ''Session expired!'', None)]"
proof -
  let ?h = "[(0, text_object (js ''HTTP 401''))]" and ?p = "\<lparr>er_reported = [], er_toasts = []\<rparr>"
  have "messageText (EStr (text_of_key (Key (js ''Session expired!'')))) = Some (text_of_key (Key (js ''Session expired!'')))"
    "\<not> call_cancelled (\<lambda>ob. False) (expired_call text_of_key ?h (ERef 0))" by code_simp+
  from expired_session_told_once [OF this refl, of ?p "expired_call text_of_key ?h (ERef 0)"]
  show ?thesis by (simp add: text_of_key_def)
qed

text \<open>A call that shares a request is answered under the configuration of the first one.\<close>

theorem sharing_keeps_first_call:
  "gx_inFlight x (request_key c) = Some i \<Longrightarrow> \<not> gc_disableDuplicate c \<Longrightarrow> api_get c x = (i, x)"
  by (simp add: api_get_def Let_def)

end
