(* ===== verification/SystemUpdate.thy ===== *)
theory SystemUpdate
  imports JsValue
begin

text \<open>
  \<open>features/system-update/releases.ts\<close>: the order of version tags and the choice of the latest release.
  The pattern of ISO date-times belongs to the validation library and is a parameter.
\<close>

section \<open>Version tags\<close>

record SystemVersion =
  sv_core :: "int list"
  sv_stage :: int
  sv_sequence :: int
  sv_revision :: int

definition releaseStages :: "(jstr \<times> int) list" where
  "releaseStages = [(js ''alpha'', 0), (js ''beta'', 1), (js ''rc'', 2), (js ''stable'', 3), (js ''patch'', 4)]"

definition split_prefix :: "jstr \<Rightarrow> jstr \<Rightarrow> jstr option" where
  "split_prefix p s = (if startsWith s p then Some (drop (length p) s) else None)"

text \<open>An optional group of a prefix and digits: the digits, if the group matches, and the rest.\<close>

definition optional_number :: "jstr \<Rightarrow> jstr \<Rightarrow> jstr option \<times> jstr" where
  "optional_number p s =
     (case split_prefix p s of
        None \<Rightarrow> (None, s)
      | Some t \<Rightarrow>
          if takeWhile is_digit t = [] then (None, s) else (Some (takeWhile is_digit t), dropWhile is_digit t))"

text \<open>\<open>(?:\+[\da-zA-Z.-]+)?$\<close>.\<close>

definition build_suffix :: "jstr \<Rightarrow> bool" where
  "build_suffix s \<longleftrightarrow>
     (case s of
        [] \<Rightarrow> True
      | c # t \<Rightarrow> c = 43 \<and> t \<noteq> []
          \<and> list_all (\<lambda>d. is_digit d \<or> is_upper d \<or> is_lower d \<or> d = 46 \<or> d = 45) t)"

text \<open>The name of the stage, if there is one, its number and revision, and the rest of the tag.\<close>

definition stage_group :: "jstr \<Rightarrow> jstr option \<times> jstr option \<times> jstr option \<times> jstr" where
  "stage_group s =
     (case s of
        [] \<Rightarrow> (None, None, None, s)
      | c # t \<Rightarrow>
          if c \<noteq> 45 then (None, None, None, s)
          else (case find (startsWith t) [js ''alpha'', js ''beta'', js ''rc'', js ''patch''] of
              None \<Rightarrow> (None, None, None, s)
            | Some name \<Rightarrow>
                let (sequence, t1) = optional_number (js ''.'') (drop (length name) t);
                    (revision, t2) = optional_number (js ''-i18nfix.'') t1
                in (Some name, sequence, revision, t2)))"

definition number_or_zero :: "jstr option \<Rightarrow> int" where
  "number_or_zero s = (case s of None \<Rightarrow> 0 | Some ds \<Rightarrow> digits_value 0 ds)"

definition stage_rank :: "jstr option \<Rightarrow> int" where
  "stage_rank name =
     (case map_of releaseStages (case name of None \<Rightarrow> js ''stable'' | Some n \<Rightarrow> n) of None \<Rightarrow> 0 | Some r \<Rightarrow> r)"

definition parseSystemVersion :: "jstr \<Rightarrow> SystemVersion option" where
  "parseSystemVersion tag =
     (let s = trim tag;
          s = (case split_prefix (js ''v'') s of None \<Rightarrow> s | Some t \<Rightarrow> t);
          parts = split_at 46 (takeWhile (\<lambda>c. is_digit c \<or> c = 46) s);
          (name, sequence, revision, rest) = stage_group (dropWhile (\<lambda>c. is_digit c \<or> c = 46) s);
          core = map (digits_value 0) parts
      in if length parts < 3 \<or> [] \<in> set parts \<or> \<not> build_suffix rest then None
         else if revision \<noteq> None \<and> name \<noteq> Some (js ''rc'') then None
         else if list_all (\<lambda>part. part = 0) core then None
         else Some \<lparr>sv_core = core, sv_stage = stage_rank name, sv_sequence = number_or_zero sequence,
                    sv_revision = number_or_zero revision\<rparr>)"

section \<open>Their order\<close>

definition compare_int :: "int \<Rightarrow> int \<Rightarrow> int" where
  "compare_int a b = (if a = b then 0 else if a < b then -1 else 1)"

text \<open>The loop over the longer core; a part that is absent counts as 0.\<close>

fun compare_core :: "int list \<Rightarrow> int list \<Rightarrow> int" where
  "compare_core [] [] = 0"
| "compare_core (a # as) [] = (if a \<noteq> 0 then compare_int a 0 else compare_core as [])"
| "compare_core [] (b # bs) = (if b \<noteq> 0 then compare_int 0 b else compare_core [] bs)"
| "compare_core (a # as) (b # bs) = (if a \<noteq> b then compare_int a b else compare_core as bs)"

definition compare_versions :: "SystemVersion \<Rightarrow> SystemVersion \<Rightarrow> int" where
  "compare_versions a b =
     (if compare_core (sv_core a) (sv_core b) \<noteq> 0 then compare_core (sv_core a) (sv_core b)
      else if sv_stage a \<noteq> sv_stage b then compare_int (sv_stage a) (sv_stage b)
      else if sv_sequence a \<noteq> sv_sequence b then compare_int (sv_sequence a) (sv_sequence b)
      else compare_int (sv_revision a) (sv_revision b))"

definition compareSystemVersions :: "jstr \<Rightarrow> jstr \<Rightarrow> int option" where
  "compareSystemVersions left right =
     (case (parseSystemVersion left, parseSystemVersion right) of
        (Some a, Some b) \<Rightarrow> Some (compare_versions a b)
      | _ \<Rightarrow> None)"

text \<open>A comparison by sign that is antisymmetric and transitive.\<close>

locale comparison =
  fixes cmp :: "'a \<Rightarrow> 'a \<Rightarrow> int"
  assumes anti: "cmp b a = - cmp a b"
    and trans: "cmp a b \<le> 0 \<Longrightarrow> cmp b c \<le> 0 \<Longrightarrow> cmp a c \<le> 0"
begin

lemma reflexive [simp]: "cmp a a = 0"
  using anti [of a a] by simp

lemma total: "cmp a b \<le> 0 \<or> cmp b a \<le> 0"
  using anti [of a b] by auto

lemma trans_eq: "cmp a b = 0 \<Longrightarrow> cmp b c = 0 \<Longrightarrow> cmp a c = 0"
  using trans [of a b c] trans [of c b a] anti [of c a] anti [of c b] anti [of b a] by simp

lemma trans_less: "cmp a b < 0 \<Longrightarrow> cmp b c \<le> 0 \<Longrightarrow> cmp a c < 0"
  using trans [of a b c] trans [of b c a] anti [of c a] anti [of b a] by force

lemma trans_le_less: "cmp a b \<le> 0 \<Longrightarrow> cmp b c < 0 \<Longrightarrow> cmp a c < 0"
  using trans [of a b c] trans [of c a b] anti [of c a] anti [of c b] by force

end

text \<open>One comparison where another does not decide.\<close>

locale comparison_pair = first: comparison cmp1 + second: comparison cmp2
  for cmp1 :: "'a \<Rightarrow> 'a \<Rightarrow> int" and cmp2 :: "'a \<Rightarrow> 'a \<Rightarrow> int"
begin

lemma lexicographic: "comparison (\<lambda>a b. if cmp1 a b \<noteq> 0 then cmp1 a b else cmp2 a b)"
proof
  fix a b show "(if cmp1 b a \<noteq> 0 then cmp1 b a else cmp2 b a) = - (if cmp1 a b \<noteq> 0 then cmp1 a b else cmp2 a b)"
    using first.anti [of a b] second.anti [of a b] by simp
next
  fix a b c
  assume "(if cmp1 a b \<noteq> 0 then cmp1 a b else cmp2 a b) \<le> 0" "(if cmp1 b c \<noteq> 0 then cmp1 b c else cmp2 b c) \<le> 0"
  then show "(if cmp1 a c \<noteq> 0 then cmp1 a c else cmp2 a c) \<le> 0"
    using first.trans [of a b c] first.trans_less [of a b c] first.trans_le_less [of a b c]
      first.trans_eq [of a b c] second.trans [of a b c]
    by (auto split: if_splits)
qed

end

lemma compare_int_comparison: "comparison (\<lambda>a b. compare_int (f a) (f b))"
  by unfold_locales (auto simp: compare_int_def split: if_splits)

lemma compare_core_anti: "compare_core b a = - compare_core a b"
  by (induction a b rule: compare_core.induct) (auto simp: compare_int_def)

text \<open>The parts are compared one by one, with 0 for those that are absent.\<close>

definition part :: "int list \<Rightarrow> int" where
  "part xs = (case xs of [] \<Rightarrow> 0 | x # _ \<Rightarrow> x)"

lemma compare_core_step:
  "a \<noteq> [] \<or> b \<noteq> [] \<Longrightarrow>
   compare_core a b = (if part a \<noteq> part b then compare_int (part a) (part b) else compare_core (tl a) (tl b))"
  by (cases a; cases b) (auto simp: part_def)

lemma compare_core_trans: "compare_core a b \<le> 0 \<Longrightarrow> compare_core b c \<le> 0 \<Longrightarrow> compare_core a c \<le> 0"
proof (induction "length a + length b + length c" arbitrary: a b c rule: less_induct)
  case less
  show ?case
  proof (cases "a = [] \<and> b = [] \<or> b = [] \<and> c = [] \<or> a = [] \<and> c = []")
    case True
    with less.prems show ?thesis by auto
  next
    case False
    then have ne: "a \<noteq> [] \<or> b \<noteq> []" "b \<noteq> [] \<or> c \<noteq> []" "a \<noteq> [] \<or> c \<noteq> []" by auto
    have "length (tl a) + length (tl b) + length (tl c) < length a + length b + length c"
      using ne by (cases a; cases b; cases c) auto
    from less.hyps [OF this] less.prems show ?thesis
      by (auto simp: compare_core_step [OF ne(1)] compare_core_step [OF ne(2)] compare_core_step [OF ne(3)]
          compare_int_def split: if_splits)
  qed
qed

interpretation cores: comparison compare_core
  by unfold_locales (fact compare_core_anti, fact compare_core_trans)

lemma compare_int_0 [simp]: "compare_int a b = 0 \<longleftrightarrow> a = b"
  by (simp add: compare_int_def)

lemma versions_comparison: "comparison compare_versions"
proof -
  note pair = comparison_pair.lexicographic [OF comparison_pair.intro]
  have "comparison (\<lambda>a b. if compare_int (sv_sequence a) (sv_sequence b) \<noteq> 0 then compare_int (sv_sequence a) (sv_sequence b)
      else compare_int (sv_revision a) (sv_revision b))" (is "comparison ?c3")
    by (intro pair compare_int_comparison)
  then have "comparison (\<lambda>a b. if compare_int (sv_stage a) (sv_stage b) \<noteq> 0 then compare_int (sv_stage a) (sv_stage b)
      else ?c3 a b)" (is "comparison ?c2")
    by - (rule pair, rule compare_int_comparison)
  moreover have "comparison (\<lambda>a b. compare_core (sv_core a) (sv_core b))"
    by unfold_locales (rule compare_core_anti, erule (1) compare_core_trans)
  ultimately have "comparison (\<lambda>a b. if compare_core (sv_core a) (sv_core b) \<noteq> 0 then compare_core (sv_core a) (sv_core b)
      else ?c2 a b)"
    by - (rule pair)
  moreover have "(\<lambda>a b. if compare_core (sv_core a) (sv_core b) \<noteq> 0 then compare_core (sv_core a) (sv_core b)
      else ?c2 a b) = compare_versions"
    by (intro ext) (simp add: compare_versions_def)
  ultimately show ?thesis by (rule back_subst [of comparison])
qed

interpretation versions: comparison compare_versions
  by (rule versions_comparison)

lemma compare_core_sign: "compare_core a b \<in> {-1, 0, 1}"
  by (induction a b rule: compare_core.induct) (auto simp: compare_int_def)

lemma compare_versions_sign: "compare_versions a b \<in> {-1, 0, 1}"
  using compare_core_sign [of "sv_core a" "sv_core b"] by (auto simp: compare_versions_def compare_int_def)

section \<open>The latest release\<close>

record SystemRelease =
  sr_tag_name :: jstr
  sr_name :: jsvalue
  sr_body :: jsvalue
  sr_published_at :: jsvalue
  sr_prerelease :: bool

definition optional_string :: "(jstr \<Rightarrow> bool) \<Rightarrow> jsvalue \<Rightarrow> bool" where
  "optional_string ok v \<longleftrightarrow> (case v of JUndefined \<Rightarrow> True | JNull \<Rightarrow> True | JStr s \<Rightarrow> ok s | _ \<Rightarrow> False)"

text \<open>\<open>systemReleaseSchema\<close>; the tag is trimmed before its length is tested.\<close>

definition systemReleaseSchema :: "(jstr \<Rightarrow> bool) \<Rightarrow> jsvalue \<Rightarrow> SystemRelease option" where
  "systemReleaseSchema isoDateTime item =
     (case item of
        JObj props \<Rightarrow>
          (case (get_prop item (js ''tag_name''), get_prop item (js ''prerelease'')) of
             (JStr tag, JBool prerelease) \<Rightarrow>
               if trim tag \<noteq> [] \<and> optional_string (\<lambda>s. True) (get_prop item (js ''name''))
                  \<and> optional_string (\<lambda>s. True) (get_prop item (js ''body''))
                  \<and> optional_string isoDateTime (get_prop item (js ''published_at''))
               then Some \<lparr>sr_tag_name = trim tag, sr_name = get_prop item (js ''name''),
                          sr_body = get_prop item (js ''body''),
                          sr_published_at = get_prop item (js ''published_at''), sr_prerelease = prerelease\<rparr>
               else None
           | _ \<Rightarrow> None)
      | _ \<Rightarrow> None)"

definition publishedReleaseSchema :: "(jstr \<Rightarrow> bool) \<Rightarrow> jsvalue \<Rightarrow> (SystemRelease \<times> bool) option" where
  "publishedReleaseSchema isoDateTime item =
     (case (systemReleaseSchema isoDateTime item, get_prop item (js ''draft'')) of
        (Some release, JBool draft) \<Rightarrow> Some (release, draft)
      | _ \<Rightarrow> None)"

text \<open>One item of the payload: the latest release so far, and whether some item was valid.\<close>

definition release_step ::
  "(jstr \<Rightarrow> bool) \<Rightarrow> SystemRelease option \<times> bool \<Rightarrow> jsvalue \<Rightarrow> SystemRelease option \<times> bool" where
  "release_step isoDateTime s item =
     (case publishedReleaseSchema isoDateTime item of
        None \<Rightarrow> s
      | Some (release, draft) \<Rightarrow>
          if draft \<or> parseSystemVersion (sr_tag_name release) = None then (fst s, True)
          else (case fst s of
              None \<Rightarrow> (Some release, True)
            | Some latest \<Rightarrow>
                if compareSystemVersions (sr_tag_name release) (sr_tag_name latest) = Some 1
                then (Some release, True) else (Some latest, True)))"

definition selectLatestRelease :: "(jstr \<Rightarrow> bool) \<Rightarrow> jsvalue \<Rightarrow> jstr + SystemRelease option" where
  "selectLatestRelease isoDateTime payload =
     (case payload of
        JArr items \<Rightarrow>
          (let (latest, validPayload) = foldl (release_step isoDateTime) (None, items = []) items
           in if \<not> validPayload then Inl (js ''Unexpected release payload'') else Inr latest)
      | _ \<Rightarrow> Inl (js ''Unexpected release payload''))"

text \<open>The releases that compete: published, and with a version tag.\<close>

definition candidate :: "(jstr \<Rightarrow> bool) \<Rightarrow> jsvalue \<Rightarrow> SystemRelease option" where
  "candidate isoDateTime item =
     (case publishedReleaseSchema isoDateTime item of
        Some (release, False) \<Rightarrow> if parseSystemVersion (sr_tag_name release) = None then None else Some release
      | _ \<Rightarrow> None)"

definition candidates :: "(jstr \<Rightarrow> bool) \<Rightarrow> jsvalue list \<Rightarrow> SystemRelease list" where
  "candidates isoDateTime items = List.map_filter (candidate isoDateTime) items"

definition newer :: "SystemRelease \<Rightarrow> SystemRelease \<Rightarrow> bool" where
  "newer r q \<longleftrightarrow> compareSystemVersions (sr_tag_name r) (sr_tag_name q) = Some 1"

text \<open>The first among the newest: newer than all before it, and none after it is newer.\<close>

definition first_newest :: "SystemRelease list \<Rightarrow> SystemRelease \<Rightarrow> bool" where
  "first_newest rs r \<longleftrightarrow>
     (\<exists>before after. rs = before @ r # after \<and> (\<forall>q \<in> set before. newer r q) \<and> (\<forall>q \<in> set after. \<not> newer q r))"

lemma first_newestI:
  "rs = before @ r # after \<Longrightarrow> \<forall>q \<in> set before. newer r q \<Longrightarrow> \<forall>q \<in> set after. \<not> newer q r \<Longrightarrow> first_newest rs r"
  by (auto simp: first_newest_def)

lemma candidates_Nil [simp]: "candidates dt [] = []"
  by (simp add: candidates_def List.map_filter_def)

lemma candidates_snoc [simp]:
  "candidates dt (items @ [item]) = candidates dt items @ (case candidate dt item of None \<Rightarrow> [] | Some r \<Rightarrow> [r])"
  by (simp add: candidates_def List.map_filter_def split: option.split)

lemma candidate_version: "candidate dt item = Some r \<Longrightarrow> \<exists>a. parseSystemVersion (sr_tag_name r) = Some a"
  by (auto simp: candidate_def split: option.splits prod.splits bool.splits if_splits)

lemma candidates_versions: "r \<in> set (candidates dt items) \<Longrightarrow> \<exists>a. parseSystemVersion (sr_tag_name r) = Some a"
  by (induction items rule: rev_induct) (auto split: option.splits dest: candidate_version [OF sym])

text \<open>\<open>newer\<close> is a strict order whose incomparability is transitive.\<close>

lemma newer_versions:
  "parseSystemVersion (sr_tag_name r) = Some a \<Longrightarrow> parseSystemVersion (sr_tag_name q) = Some b \<Longrightarrow>
   newer r q \<longleftrightarrow> compare_versions b a < 0"
  using compare_versions_sign [of a b] versions.anti [of b a]
  by (auto simp: newer_def compareSystemVersions_def)

lemma release_step_candidate:
  "fst (release_step dt s item) =
     (case candidate dt item of
        None \<Rightarrow> fst s
      | Some r \<Rightarrow> (case fst s of None \<Rightarrow> Some r | Some latest \<Rightarrow> if newer r latest then Some r else Some latest))"
  by (auto simp: release_step_def candidate_def newer_def split: option.splits bool.splits)

lemma select_fold:
  "case fst (foldl (release_step dt) (None, v) items) of
     None \<Rightarrow> candidates dt items = []
   | Some r \<Rightarrow> first_newest (candidates dt items) r"
proof (induction items rule: rev_induct)
  case Nil
  then show ?case by simp
next
  case (snoc item items)
  show ?case
  proof (cases "candidate dt item")
    case None
    with snoc show ?thesis by (simp add: release_step_candidate split: option.splits)
  next
    case (Some q)
    then have all: "candidates dt (items @ [item]) = candidates dt items @ [q]" by simp
    show ?thesis
    proof (cases "fst (foldl (release_step dt) (None, v) items)")
      case None
      with snoc Some all show ?thesis
        by (auto simp: release_step_candidate intro: first_newestI [of _ "[]"])
    next
      case latest: (Some r)
      with snoc obtain before after where split: "candidates dt items = before @ r # after"
        and before: "\<forall>x \<in> set before. newer r x" and after: "\<forall>x \<in> set after. \<not> newer x r" by (auto simp: first_newest_def)
      obtain vr where vr: "parseSystemVersion (sr_tag_name r) = Some vr"
        using candidates_versions [of r dt items] split by auto
      obtain vq where vq: "parseSystemVersion (sr_tag_name q) = Some vq"
        using candidate_version [OF Some] by auto
      show ?thesis
      proof (cases "newer q r")
        case True
        have "newer q x" if x: "x \<in> set (before @ r # after)" for x
        proof -
          obtain vx where vx: "parseSystemVersion (sr_tag_name x) = Some vx"
            using candidates_versions [of x dt items] split x by auto
          have "compare_versions vx vr \<le> 0"
            using x before after newer_versions [OF vr vx] newer_versions [OF vx vr] newer_versions [OF vr vr]
              versions.anti [of vr vx] versions.reflexive vr vx
            by auto
          with True show ?thesis
            using versions.trans_le_less newer_versions [OF vq vr] newer_versions [OF vq vx] by auto
        qed
        then have "\<forall>x \<in> set (before @ r # after). newer q x" by blast
        moreover have "fst (foldl (release_step dt) (None, v) (items @ [item])) = Some q"
          using True Some latest by (simp add: release_step_candidate)
        ultimately show ?thesis
          using all split first_newestI [of "candidates dt (items @ [item])" "before @ r # after" q "[]"] by simp
      next
        case False
        with Some latest all split before after show ?thesis
          using first_newestI [of "candidates dt (items @ [item])" before r "after @ [q]"]
          by (auto simp: release_step_candidate)
      qed
    qed
  qed
qed

section \<open>Properties\<close>

text \<open>
  C38: \<open>compareSystemVersions\<close> orders the tags that are versions: it answers exactly where both are, with
  -1, 0 or 1, the answer for the tags exchanged is the opposite one, and "at most" is total and
  transitive, so versions of any lengths of core, stages and revisions are ranked consistently.
\<close>

theorem versions_ordered:
  assumes "compareSystemVersions x y = Some i" "compareSystemVersions y z = Some j"
  shows "i \<in> {-1, 0, 1} \<and> compareSystemVersions y x = Some (- i) \<and> compareSystemVersions x x = Some 0
    \<and> (\<exists>k. compareSystemVersions x z = Some k \<and> (i \<le> 0 \<and> j \<le> 0 \<longrightarrow> k \<le> 0) \<and> (i = 0 \<and> j = 0 \<longrightarrow> k = 0))"
proof -
  from assms obtain a b c where v: "parseSystemVersion x = Some a" "parseSystemVersion y = Some b"
    "parseSystemVersion z = Some c" "i = compare_versions a b" "j = compare_versions b c"
    by (auto simp: compareSystemVersions_def split: option.splits)
  then show ?thesis
    using compare_versions_sign [of a b] versions.anti [of b a] versions.trans [of a b c] versions.trans_eq [of a b c]
    by (auto simp: compareSystemVersions_def)
qed

theorem versions_ordered_witness:
  "\<exists>k. compareSystemVersions (js ''1.2.3-rc.1'') (js ''1.2.3.0-patch'') = Some k \<and> k \<le> 0"
proof -
  have "compareSystemVersions (js ''1.2.3-rc.1'') (js ''v1.2.3'') = Some (-1)"
    "compareSystemVersions (js ''v1.2.3'') (js ''1.2.3.0-patch'') = Some (-1)" by code_simp+
  from versions_ordered [OF this] show ?thesis by auto
qed

text \<open>
  C39: \<open>selectLatestRelease\<close> on a list reports an error exactly where the list has items and none is a
  release; it selects nothing exactly where no item is a published release with a version tag; and the
  release it selects is the first among the newest of these: newer than all before it, and none after
  it is newer.
\<close>

theorem latest_release_selected:
  "case selectLatestRelease dt (JArr items) of
     Inl e \<Rightarrow> items \<noteq> [] \<and> \<not> list_ex (\<lambda>item. publishedReleaseSchema dt item \<noteq> None) items
   | Inr None \<Rightarrow> candidates dt items = [] \<and> (items = [] \<or> list_ex (\<lambda>item. publishedReleaseSchema dt item \<noteq> None) items)
   | Inr (Some r) \<Rightarrow> first_newest (candidates dt items) r"
proof -
  let ?valid = "list_ex (\<lambda>item. publishedReleaseSchema dt item \<noteq> None)"
  have valid: "snd (foldl (release_step dt) (None, b) items) \<longleftrightarrow> b \<or> ?valid items" for b
    by (induction items rule: rev_induct) (auto simp: release_step_def split: option.splits)
  obtain latest v where run: "foldl (release_step dt) (None, items = []) items = (latest, v)"
    by (cases "foldl (release_step dt) (None, items = []) items")
  with select_fold [where v = "items = []" and items = items and dt = dt] valid [of "items = []"]
  show ?thesis by (cases "items = []") (simp_all add: selectLatestRelease_def split: option.splits)
qed

theorem latest_release_selected_witness:
  "\<exists>r. selectLatestRelease (\<lambda>s. True) (JArr [JObj [(js ''tag_name'', JStr (js ''v1.0.0'')),
      (js ''prerelease'', JBool False), (js ''draft'', JBool False)]]) = Inr (Some r) \<and>
    candidates (\<lambda>s. True) [JObj [(js ''tag_name'', JStr (js ''v1.0.0'')),
      (js ''prerelease'', JBool False), (js ''draft'', JBool False)]] = [r]"
proof -
  let ?items = "[JObj [(js ''tag_name'', JStr (js ''v1.0.0'')), (js ''prerelease'', JBool False), (js ''draft'', JBool False)]]"
  let ?r = "\<lparr>sr_tag_name = js ''v1.0.0'', sr_name = JUndefined, sr_body = JUndefined,
    sr_published_at = JUndefined, sr_prerelease = False\<rparr>"
  have selected: "selectLatestRelease (\<lambda>s. True) (JArr ?items) = Inr (Some ?r)"
    and one: "length (candidates (\<lambda>s. True) ?items) = 1" by code_simp+
  from latest_release_selected [where dt = "\<lambda>s. True" and items = ?items] obtain before after
    where "candidates (\<lambda>s. True) ?items = before @ ?r # after"
    unfolding selected by (auto simp: first_newest_def)
  with one selected show ?thesis by auto
qed

end
