(* ===== verification/JsSchema.thy ===== *)
theory JsSchema
  imports JsText
begin

text \<open>
  Schemas as the validation library (\<open>zod\<close>) reads values with them: one reader per type, \<open>optional\<close> and
  \<open>nullable\<close>, the fields of an object one after the other, and the values that are read back.
\<close>

section \<open>Readers\<close>

text \<open>Fields of an object as \<open>zod\<close> reads them: present with the type, or absent where optional.\<close>

fun as_string :: "jsvalue \<Rightarrow> jstr option" where
  "as_string (JStr s) = Some s"
| "as_string _ = None"

fun as_number :: "jsvalue \<Rightarrow> jsnum option" where
  "as_number (JNum x) = (if isFinite x then Some x else None)"
| "as_number _ = None"

fun as_bool :: "jsvalue \<Rightarrow> bool option" where
  "as_bool (JBool b) = Some b"
| "as_bool _ = None"

fun as_list :: "(jsvalue \<Rightarrow> 'a option) \<Rightarrow> jsvalue \<Rightarrow> 'a list option" where
  "as_list f (JArr vs) = all_some (map f vs)"
| "as_list f _ = None"

definition optional :: "(jsvalue \<Rightarrow> 'a option) \<Rightarrow> jsvalue \<Rightarrow> 'a option option" where
  "optional f v = (if v = JUndefined then Some None else map_option Some (f v))"

definition nullable :: "(jsvalue \<Rightarrow> 'a option) \<Rightarrow> jsvalue \<Rightarrow> 'a option option" where
  "nullable f v = (if v = JNull then Some None else map_option Some (f v))"

fun is_JObj :: "jsvalue \<Rightarrow> bool" where
  "is_JObj (JObj _) = True"
| "is_JObj _ = False"

text \<open>Reading one field and going on with it.\<close>

definition read_field :: "jsvalue \<Rightarrow> string \<Rightarrow> (jsvalue \<Rightarrow> 'a option) \<Rightarrow> ('a \<Rightarrow> 'b option) \<Rightarrow> 'b option" where
  "read_field v name f k = Option.bind (f (get_prop v (js name))) k"

section \<open>Values\<close>

fun of_optional :: "('a \<Rightarrow> jsvalue) \<Rightarrow> 'a option \<Rightarrow> jsvalue" where
  "of_optional f None = JUndefined"
| "of_optional f (Some x) = f x"

fun of_nullable :: "('a \<Rightarrow> jsvalue) \<Rightarrow> 'a option \<Rightarrow> jsvalue" where
  "of_nullable f None = JNull"
| "of_nullable f (Some x) = f x"

definition storable_number :: "jsnum option \<Rightarrow> bool" where
  "storable_number x \<longleftrightarrow> (case x of Some v \<Rightarrow> isFinite v | None \<Rightarrow> True)"

section \<open>Readers read values back\<close>

lemma of_optional_undefined [simp]:
  "(\<And>x. f x \<noteq> JUndefined) \<Longrightarrow> of_optional f v = JUndefined \<longleftrightarrow> v = None"
  by (cases v) auto

lemma optional_of_optional:
  "(\<And>x. f x \<noteq> JUndefined) \<Longrightarrow> (\<And>x. v = Some x \<Longrightarrow> g (f x) = Some x) \<Longrightarrow> optional g (of_optional f v) = Some v"
  by (cases v) (simp_all add: optional_def)

lemma optional_number: "optional as_number (of_optional JNum x) = (if storable_number x then Some x else None)"
  by (cases x) (simp_all add: optional_def storable_number_def)

lemma optional_bool [simp]: "optional as_bool (of_optional JBool b) = Some b"
  by (rule optional_of_optional) simp_all

lemma as_list_read_back: "(\<And>x. x \<in> set xs \<Longrightarrow> f (g x) = Some x) \<Longrightarrow> as_list f (JArr (map g xs)) = Some xs"
  by (simp add: all_some_Some_iff)

lemma as_list_Some_iff: "as_list f v = Some xs \<longleftrightarrow> (\<exists>vs. v = JArr vs \<and> map f vs = map Some xs)"
  by (cases v) (auto simp: all_some_Some_iff)

lemma nullable_of_nullable:
  "(\<And>x. f x \<noteq> JNull) \<Longrightarrow> (\<And>x. v = Some x \<Longrightarrow> g (f x) = Some x) \<Longrightarrow> nullable g (of_nullable f v) = Some v"
  by (cases v) (simp_all add: nullable_def)

end
