(* ===== verification/UpdateStore.thy ===== *)
theory UpdateStore
  imports SystemUpdate JsSchema "HOL-Library.AList"
begin

text \<open>
  \<open>features/system-update/store.ts\<close>: the snapshot of the last update check and the versions the users
  ignore, what is persisted of them and what is accepted back, and the tabs that share the stored
  preferences. The \<open>persist\<close> middleware writes the part of the state it is told to and hands back the
  value that was stored, if there is one; its JSON texts stay inside the middleware, so what is stored
  here is the value, and \<open>UpdateTabs\<close> adds the text that is no JSON.
\<close>

section \<open>The snapshot of the last check\<close>

datatype UpdateCheckErrorCode = Network_error | Rate_limit_error | Timeout_error | Payload_error

fun error_code_text :: "UpdateCheckErrorCode \<Rightarrow> jstr" where
  "error_code_text Network_error = js ''network''"
| "error_code_text Rate_limit_error = js ''rate-limit''"
| "error_code_text Timeout_error = js ''timeout''"
| "error_code_text Payload_error = js ''payload''"

fun as_error_code :: "jsvalue \<Rightarrow> UpdateCheckErrorCode option" where
  "as_error_code (JStr s) =
     (if s = js ''network'' then Some Network_error
      else if s = js ''rate-limit'' then Some Rate_limit_error
      else if s = js ''timeout'' then Some Timeout_error
      else if s = js ''payload'' then Some Payload_error else None)"
| "as_error_code _ = None"

record SystemUpdateSnapshot =
  us_release :: "SystemRelease option"
  us_lastCheckedAt :: jsnum
  us_lastAttemptAt :: jsnum
  us_error :: "UpdateCheckErrorCode option"

text \<open>\<open>z.number().finite().nonnegative()\<close>.\<close>

definition as_time :: "jsvalue \<Rightarrow> jsnum option" where
  "as_time v =
     (case as_number v of
        Some x \<Rightarrow> if js_le (num 0) x then Some x else None
      | None \<Rightarrow> None)"

definition snapshot_times :: "jsnum \<Rightarrow> SystemUpdateSnapshot \<Rightarrow> bool" where
  "snapshot_times now s \<longleftrightarrow>
     js_le (us_lastCheckedAt s) (us_lastAttemptAt s) \<and> js_le (us_lastAttemptAt s) now"

definition updateSnapshotSchema :: "(jstr \<Rightarrow> bool) \<Rightarrow> jsnum \<Rightarrow> jsvalue \<Rightarrow> SystemUpdateSnapshot option" where
  "updateSnapshotSchema isoDateTime now v =
     (if \<not> is_JObj v then None
      else read_field v ''release'' (nullable (systemReleaseSchema isoDateTime)) (\<lambda>r.
           read_field v ''lastCheckedAt'' as_time (\<lambda>checked.
           read_field v ''lastAttemptAt'' as_time (\<lambda>attempt.
           read_field v ''error'' (nullable as_error_code) (\<lambda>e.
             let s = \<lparr>us_release = r, us_lastCheckedAt = checked, us_lastAttemptAt = attempt, us_error = e\<rparr>
             in if snapshot_times now s then Some s else None)))))"

definition json_of_release :: "SystemRelease \<Rightarrow> jsvalue" where
  "json_of_release r = JObj
     [(js ''tag_name'', JStr (sr_tag_name r)), (js ''name'', sr_name r), (js ''body'', sr_body r),
      (js ''published_at'', sr_published_at r), (js ''prerelease'', JBool (sr_prerelease r))]"

definition json_of_snapshot :: "SystemUpdateSnapshot \<Rightarrow> jsvalue" where
  "json_of_snapshot s = JObj
     [(js ''release'', of_nullable json_of_release (us_release s)),
      (js ''lastCheckedAt'', JNum (us_lastCheckedAt s)), (js ''lastAttemptAt'', JNum (us_lastAttemptAt s)),
      (js ''error'', of_nullable (\<lambda>e. JStr (error_code_text e)) (us_error s))]"

text \<open>\<open>partialize\<close> and \<open>merge\<close> of the store of the snapshot.\<close>

definition partialize_snapshot :: "SystemUpdateSnapshot option \<Rightarrow> jsvalue" where
  "partialize_snapshot s = JObj [(js ''snapshot'', of_nullable json_of_snapshot s)]"

definition merge_snapshot :: "(jstr \<Rightarrow> bool) \<Rightarrow> jsnum \<Rightarrow> jsvalue \<Rightarrow> SystemUpdateSnapshot option" where
  "merge_snapshot isoDateTime now persisted =
     (if \<not> is_JObj persisted then None
      else (case nullable (updateSnapshotSchema isoDateTime now) (get_prop persisted (js ''snapshot'')) of
              Some s \<Rightarrow> s
            | None \<Rightarrow> None))"

text \<open>The releases and snapshots the schemas accept.\<close>

definition release_ok :: "(jstr \<Rightarrow> bool) \<Rightarrow> SystemRelease \<Rightarrow> bool" where
  "release_ok isoDateTime r \<longleftrightarrow>
     trim (sr_tag_name r) = sr_tag_name r \<and> sr_tag_name r \<noteq> []
     \<and> optional_string (\<lambda>s. True) (sr_name r) \<and> optional_string (\<lambda>s. True) (sr_body r)
     \<and> optional_string isoDateTime (sr_published_at r)"

definition time_ok :: "jsnum \<Rightarrow> bool" where
  "time_ok x \<longleftrightarrow> isFinite x \<and> js_le (num 0) x"

definition snapshot_ok :: "(jstr \<Rightarrow> bool) \<Rightarrow> jsnum \<Rightarrow> SystemUpdateSnapshot \<Rightarrow> bool" where
  "snapshot_ok isoDateTime now s \<longleftrightarrow>
     (case us_release s of None \<Rightarrow> True | Some r \<Rightarrow> release_ok isoDateTime r)
     \<and> time_ok (us_lastCheckedAt s) \<and> time_ok (us_lastAttemptAt s) \<and> snapshot_times now s"

lemma release_read_back:
  "systemReleaseSchema dt (json_of_release r) = (if release_ok dt r then Some r else None)"
  if "trim (sr_tag_name r) = sr_tag_name r"
  using that by (simp add: systemReleaseSchema_def json_of_release_def release_ok_def)

lemma release_schema_ok: "systemReleaseSchema dt v = Some r \<Longrightarrow> release_ok dt r"
  by (auto simp: systemReleaseSchema_def release_ok_def split: jsvalue.splits if_splits)

lemma error_code_read_back [simp]: "as_error_code (JStr (error_code_text e)) = Some e"
  by (cases e) simp_all

lemma time_read_back [simp]: "as_time (JNum x) = (if time_ok x then Some x else None)"
  by (simp add: as_time_def time_ok_def)

lemma as_time_ok: "as_time v = Some x \<Longrightarrow> time_ok x"
  by (cases v) (auto simp: as_time_def time_ok_def split: if_splits)

lemma snapshot_read_back: "snapshot_ok dt now s \<Longrightarrow> updateSnapshotSchema dt now (json_of_snapshot s) = Some s"
proof -
  assume ok: "snapshot_ok dt now s"
  have "nullable (systemReleaseSchema dt) (of_nullable json_of_release (us_release s)) = Some (us_release s)"
  proof (rule nullable_of_nullable)
    show "json_of_release r \<noteq> JNull" for r by (simp add: json_of_release_def)
    show "us_release s = Some r \<Longrightarrow> systemReleaseSchema dt (json_of_release r) = Some r" for r
      using ok by (simp add: snapshot_ok_def release_read_back release_ok_def)
  qed
  moreover have "nullable as_error_code (of_nullable (\<lambda>e. JStr (error_code_text e)) (us_error s)) = Some (us_error s)"
    by (rule nullable_of_nullable) (simp_all del: as_error_code.simps)
  ultimately show ?thesis
    using ok by (cases s)
      (simp add: updateSnapshotSchema_def json_of_snapshot_def read_field_def snapshot_ok_def Let_def)
qed

lemma nullable_Some: "nullable f v = Some x \<Longrightarrow> x = None \<or> (\<exists>y. x = Some y \<and> f v = Some y)"
  by (auto simp: nullable_def split: if_splits)

lemma snapshot_schema_ok: "updateSnapshotSchema dt now v = Some s \<Longrightarrow> snapshot_ok dt now s"
  by (auto simp: updateSnapshotSchema_def read_field_def bind_eq_Some_conv Let_def snapshot_ok_def
      split: if_splits dest!: nullable_Some dest: as_time_ok release_schema_ok)

lemma merge_partialize_snapshot:
  "(case s of None \<Rightarrow> True | Some x \<Rightarrow> snapshot_ok dt now x) \<Longrightarrow> merge_snapshot dt now (partialize_snapshot s) = s"
proof -
  assume ok: "case s of None \<Rightarrow> True | Some x \<Rightarrow> snapshot_ok dt now x"
  have "nullable (updateSnapshotSchema dt now) (of_nullable json_of_snapshot s) = Some s"
    by (rule nullable_of_nullable) (use ok in \<open>simp_all add: json_of_snapshot_def [of _] snapshot_read_back [unfolded json_of_snapshot_def]\<close>)
  then show ?thesis by (simp add: merge_snapshot_def partialize_snapshot_def)
qed

lemma merge_snapshot_ok: "merge_snapshot dt now v = Some s \<Longrightarrow> snapshot_ok dt now s"
  by (auto simp: merge_snapshot_def split: if_splits option.splits dest!: nullable_Some intro: snapshot_schema_ok)

section \<open>Ignored versions\<close>

text \<open>\<open>ignoredVersionsByUserId\<close>: the properties of an object, by the texts of the identifiers.\<close>

type_synonym ignored_versions = "(jstr \<times> jstr list) list"

definition ignored_tags :: "ignored_versions \<Rightarrow> jstr \<Rightarrow> jstr list" where
  "ignored_tags state user = (case map_of state user of None \<Rightarrow> [] | Some tags \<Rightarrow> tags)"

definition setVersionIgnored :: "jsnum \<Rightarrow> jstr \<Rightarrow> bool \<Rightarrow> ignored_versions \<Rightarrow> ignored_versions" where
  "setVersionIgnored userId tag ignored state =
     (let user = js_num_string userId; tags = ignored_tags state user in
      if (tag \<in> set tags) = ignored then state
      else let nextTags = (if ignored then tags @ [tag] else filter (\<lambda>v. v \<noteq> tag) tags) in
        if nextTags \<noteq> [] then AList.update user nextTags state else AList.delete user state)"

text \<open>\<open>/^[1-9]\d*$/\<close>.\<close>

definition user_key :: "jstr \<Rightarrow> bool" where
  "user_key s \<longleftrightarrow> (case s of [] \<Rightarrow> False | c # ds \<Rightarrow> 49 \<le> c \<and> c \<le> 57 \<and> list_all is_digit ds)"

definition as_tag :: "jsvalue \<Rightarrow> jstr option" where
  "as_tag v = (case as_string v of Some s \<Rightarrow> if s \<noteq> [] then Some s else None | None \<Rightarrow> None)"

text \<open>\<open>z.record\<close>: every key and every value passes, or the object does not.\<close>

definition ignored_entry :: "jstr \<times> jsvalue \<Rightarrow> (jstr \<times> jstr list) option" where
  "ignored_entry e = (if user_key (fst e) then map_option (Pair (fst e)) (as_list as_tag (snd e)) else None)"

fun ignored_record :: "jsvalue \<Rightarrow> ignored_versions option" where
  "ignored_record (JObj props) = all_some (map ignored_entry props)"
| "ignored_record _ = None"

definition updatePreferencesSchema :: "jsvalue \<Rightarrow> ignored_versions option" where
  "updatePreferencesSchema v =
     (if \<not> is_JObj v then None else read_field v ''ignoredVersionsByUserId'' ignored_record Some)"

definition json_of_ignored :: "ignored_versions \<Rightarrow> jsvalue" where
  "json_of_ignored state = JObj (map (\<lambda>(user, tags). (user, JArr (map JStr tags))) state)"

definition partialize_preferences :: "ignored_versions \<Rightarrow> jsvalue" where
  "partialize_preferences state = JObj [(js ''ignoredVersionsByUserId'', json_of_ignored state)]"

definition merge_preferences :: "jsvalue \<Rightarrow> ignored_versions" where
  "merge_preferences persisted = (case updatePreferencesSchema persisted of Some state \<Rightarrow> state | None \<Rightarrow> [])"

text \<open>The preferences that survive being stored.\<close>

definition preferences_ok :: "ignored_versions \<Rightarrow> bool" where
  "preferences_ok state \<longleftrightarrow> (\<forall>(user, tags) \<in> set state. user_key user \<and> [] \<notin> set tags)"

definition is_ignored :: "ignored_versions \<Rightarrow> jstr \<Rightarrow> jstr \<Rightarrow> bool" where
  "is_ignored state user tag \<longleftrightarrow> tag \<in> set (ignored_tags state user)"

lemma as_tag_read_back: "[] \<notin> set tags \<Longrightarrow> as_list as_tag (JArr (map JStr tags)) = Some tags"
  by (rule as_list_read_back) (auto simp: as_tag_def)

lemma merge_partialize_preferences:
  "preferences_ok state \<Longrightarrow> merge_preferences (partialize_preferences state) = state"
proof -
  assume ok: "preferences_ok state"
  have "map ignored_entry (map (\<lambda>(user, tags). (user, JArr (map JStr tags))) state) = map Some state"
    using ok by (auto simp: ignored_entry_def preferences_ok_def as_tag_read_back simp del: as_list.simps)
  then have "ignored_record (json_of_ignored state) = Some state"
    by (simp only: json_of_ignored_def ignored_record.simps all_some_Some_iff)
  then show ?thesis
    by (simp add: merge_preferences_def partialize_preferences_def updatePreferencesSchema_def read_field_def
        del: ignored_record.simps)
qed

lemma as_tag_Some: "as_tag v = Some s \<Longrightarrow> s \<noteq> []"
  by (auto simp: as_tag_def split: option.splits if_splits)

lemma tags_nonempty: "as_list as_tag v = Some tags \<Longrightarrow> [] \<notin> set tags"
proof
  assume "as_list as_tag v = Some tags" "[] \<in> set tags"
  then obtain vs where "map as_tag vs = map Some tags" by (auto simp: as_list_Some_iff)
  with \<open>[] \<in> set tags\<close> have "Some [] \<in> as_tag ` set vs" by (metis image_eqI list.set_map)
  then obtain w where "as_tag w = Some []" by (metis imageE)
  then show False using as_tag_Some by blast
qed

lemma merge_preferences_ok: "preferences_ok (merge_preferences v)"
proof (cases "updatePreferencesSchema v")
  case None
  then show ?thesis by (simp add: merge_preferences_def preferences_ok_def)
next
  case (Some state)
  then obtain props where "map ignored_entry props = map Some state"
    by (auto simp: updatePreferencesSchema_def read_field_def bind_eq_Some_conv
        split: if_splits elim!: ignored_record.elims dest!: all_some_SomeD [OF sym])
  then have entries: "Some e \<in> ignored_entry ` set props" if "e \<in> set state" for e
    using that by (metis image_eqI list.set_map)
  have "user_key (fst e) \<and> [] \<notin> set (snd e)" if "e \<in> set state" for e
  proof -
    from entries [OF that] obtain w where "ignored_entry w = Some e" by (metis imageE)
    then show ?thesis by (auto simp: ignored_entry_def dest: tags_nonempty split: if_splits)
  qed
  with Some show ?thesis by (auto simp: merge_preferences_def preferences_ok_def)
qed

lemma ignored_tags_update [simp]:
  "ignored_tags (AList.update u ts state) v = (if v = u then ts else ignored_tags state v)"
  by (simp add: ignored_tags_def update_conv')

lemma ignored_tags_delete [simp]:
  "ignored_tags (AList.delete u state) v = (if v = u then [] else ignored_tags state v)"
  by (simp add: ignored_tags_def delete_conv')

text \<open>Setting a version changes that version of that user and nothing else.\<close>

lemma setVersionIgnored_spec:
  "is_ignored (setVersionIgnored userId tag ignored state) user t \<longleftrightarrow>
     (if user = js_num_string userId \<and> t = tag then ignored else is_ignored state user t)"
proof -
  have gone: "t = tag" if "filter (\<lambda>w. w \<noteq> tag) ts = []" "t \<in> set ts" for ts
    using that by (metis (mono_tags, lifting) empty_filter_conv)
  show ?thesis by (auto simp: setVersionIgnored_def is_ignored_def Let_def dest: gone)
qed

lemma preferences_ok_update: "preferences_ok state \<Longrightarrow> user_key u \<Longrightarrow> [] \<notin> set ts \<Longrightarrow> preferences_ok (AList.update u ts state)"
  by (induction state) (auto simp: preferences_ok_def)

lemma preferences_ok_delete: "preferences_ok state \<Longrightarrow> preferences_ok (AList.delete u state)"
  by (auto simp: preferences_ok_def AList.delete_eq)

lemma ignored_tags_ok: "preferences_ok state \<Longrightarrow> [] \<notin> set (ignored_tags state u)"
  by (cases "map_of state u") (auto simp: ignored_tags_def preferences_ok_def dest!: map_of_SomeD)

lemma setVersionIgnored_ok [invs]:
  "preferences_ok state \<Longrightarrow> user_key (js_num_string userId) \<Longrightarrow> tag \<noteq> [] \<Longrightarrow>
   preferences_ok (setVersionIgnored userId tag ignored state)"
  using ignored_tags_ok [of state "js_num_string userId"]
  by (auto simp: setVersionIgnored_def Let_def intro!: preferences_ok_update preferences_ok_delete)

end
