(* ===== verification/UpdateTabs.thy ===== *)
theory UpdateTabs
  imports UpdateStore
begin

text \<open>
  The tabs that share the stored preferences (\<open>features/system-update/store.ts\<close>): the writes of the store,
  the storage events the browser delivers to the other tabs, the one listener all subscribers of a tab
  share, and the step relation over any number of tabs. Storage may refuse any read or write, and what is
  stored may be a text that is no JSON.
\<close>

section \<open>A tab\<close>

text \<open>
  The state of the store, \<open>preferenceSubscribers\<close>, whether the listener is attached, and the keys of the
  storage events the browser has yet to deliver; an event for the whole storage has no key.
\<close>

record preferences_tab =
  pt_state :: ignored_versions
  pt_subscribers :: nat
  pt_listening :: bool
  pt_events :: "jstr option list"

definition preferencesStorageKey :: jstr where
  "preferencesStorageKey = js ''system-update-preferences:v1''"

text \<open>
  What the storage has for the key of the preferences: no text, a text that is not JSON, or a text from
  which the middleware takes a value. \<open>updateStorage.getItem\<close> answers \<open>null\<close> where the storage is blocked.
\<close>

datatype stored_text = Absent | Corrupt | Stored jsvalue

definition read_stored :: "bool \<Rightarrow> stored_text \<Rightarrow> stored_text" where
  "read_stored accessible stored = (if accessible then stored else Absent)"

text \<open>
  \<open>persist.rehydrate()\<close>: the middleware merges the value that is stored, or \<open>undefined\<close> where there is
  none; where the text does not parse it leaves the state as it is.
\<close>

definition stored_preferences :: "stored_text \<Rightarrow> ignored_versions option" where
  "stored_preferences stored =
     (case stored of
        Absent \<Rightarrow> Some (merge_preferences JUndefined)
      | Corrupt \<Rightarrow> None
      | Stored v \<Rightarrow> Some (merge_preferences v))"

definition rehydrate :: "bool \<Rightarrow> stored_text \<Rightarrow> preferences_tab \<Rightarrow> preferences_tab" where
  "rehydrate accessible stored tab =
     (case stored_preferences (read_stored accessible stored) of
        Some state \<Rightarrow> tab\<lparr>pt_state := state\<rparr>
      | None \<Rightarrow> tab)"

definition relevant_key :: "jstr option \<Rightarrow> bool" where
  "relevant_key k \<longleftrightarrow> k = Some preferencesStorageKey \<or> k = None"

definition handlePreferenceStorage ::
  "bool \<Rightarrow> stored_text \<Rightarrow> jstr option \<Rightarrow> preferences_tab \<Rightarrow> preferences_tab" where
  "handlePreferenceStorage accessible stored k tab = (if relevant_key k then rehydrate accessible stored tab else tab)"

definition subscribe_preferences :: "bool \<Rightarrow> stored_text \<Rightarrow> preferences_tab \<Rightarrow> preferences_tab" where
  "subscribe_preferences accessible stored tab =
     (let tab' = tab\<lparr>pt_subscribers := pt_subscribers tab + 1\<rparr> in
      if pt_subscribers tab = 0 then rehydrate accessible stored (tab'\<lparr>pt_listening := True\<rparr>) else tab')"

definition unsubscribe_preferences :: "preferences_tab \<Rightarrow> preferences_tab" where
  "unsubscribe_preferences tab =
     (let tab' = tab\<lparr>pt_subscribers := pt_subscribers tab - 1\<rparr> in
      if pt_subscribers tab' = 0 then tab'\<lparr>pt_listening := False\<rparr> else tab')"

text \<open>A tab that opens creates the store with no ignored version, and the middleware hydrates it.\<close>

definition opened_tab :: "bool \<Rightarrow> stored_text \<Rightarrow> preferences_tab" where
  "opened_tab accessible stored =
     rehydrate accessible stored \<lparr>pt_state = [], pt_subscribers = 0, pt_listening = False, pt_events = []\<rparr>"

definition notify :: "jstr option \<Rightarrow> preferences_tab \<Rightarrow> preferences_tab" where
  "notify k tab = tab\<lparr>pt_events := pt_events tab @ [k]\<rparr>"

section \<open>All tabs\<close>

record preferences_world =
  pw_stored :: stored_text
  pw_tabs :: "preferences_tab list"

text \<open>The storage after a write of the middleware, which may be refused.\<close>

definition write_preferences :: "bool \<Rightarrow> ignored_versions \<Rightarrow> stored_text \<Rightarrow> stored_text" where
  "write_preferences accepted state stored =
     (if accepted then Stored (partialize_preferences state) else stored)"

text \<open>Storage events go to the other tabs, and only where the value changes.\<close>

definition notify_others :: "nat \<Rightarrow> bool \<Rightarrow> preferences_tab list \<Rightarrow> preferences_tab list" where
  "notify_others i changed tabs =
     map (\<lambda>(j, tab). if changed \<and> j \<noteq> i then notify (Some preferencesStorageKey) tab else tab)
       (zip [0..<length tabs] tabs)"

definition ignore_in_tab :: "bool \<Rightarrow> nat \<Rightarrow> jsnum \<Rightarrow> jstr \<Rightarrow> bool \<Rightarrow> preferences_world \<Rightarrow> preferences_world" where
  "ignore_in_tab accepted i userId tag ignored w =
     (let tab = pw_tabs w ! i;
          state = setVersionIgnored userId tag ignored (pt_state tab);
          stored = write_preferences accepted state (pw_stored w)
      in \<lparr>pw_stored = stored,
          pw_tabs = notify_others i (stored \<noteq> pw_stored w) ((pw_tabs w)[i := tab\<lparr>pt_state := state\<rparr>])\<rparr>)"

definition deliver_to_tab :: "bool \<Rightarrow> nat \<Rightarrow> preferences_world \<Rightarrow> preferences_world" where
  "deliver_to_tab accessible i w =
     (let tab = pw_tabs w ! i in
      case pt_events tab of
        [] \<Rightarrow> w
      | k # ks \<Rightarrow>
          let tab' = tab\<lparr>pt_events := ks\<rparr> in
          w\<lparr>pw_tabs := (pw_tabs w)[i :=
            if pt_listening tab then handlePreferenceStorage accessible (pw_stored w) k tab' else tab']\<rparr>)"

section \<open>Histories\<close>

text \<open>
  What a step means for a tab: a choice of its user, whose write is accepted or refused, or a reading of
  the storage, which is accessible or not.
\<close>

datatype preferences_event =
    Chosen (ev_tab: nat) jsnum jstr bool (ev_granted: bool)
  | Reread (ev_tab: nat) (ev_granted: bool)
  | Unnoticed

definition delivery :: "bool \<Rightarrow> nat \<Rightarrow> preferences_world \<Rightarrow> preferences_event" where
  "delivery accessible i w =
     (case pt_events (pw_tabs w ! i) of
        [] \<Rightarrow> Unnoticed
      | k # ks \<Rightarrow> if pt_listening (pw_tabs w ! i) \<and> relevant_key k then Reread i accessible else Unnoticed)"

text \<open>
  The steps. The last rule is any other writer of the origin: it may leave anything for the key of the
  preferences, a text that is no JSON included, or clear the storage.
\<close>

inductive preferences_step :: "preferences_event \<Rightarrow> preferences_world \<Rightarrow> preferences_world \<Rightarrow> bool" where
  ignore: "i < length (pw_tabs w) \<Longrightarrow> user_key (js_num_string userId) \<Longrightarrow> tag \<noteq> [] \<Longrightarrow>
    preferences_step (Chosen i userId tag ignored accepted) w (ignore_in_tab accepted i userId tag ignored w)"
| deliver: "i < length (pw_tabs w) \<Longrightarrow>
    preferences_step (delivery accessible i w) w (deliver_to_tab accessible i w)"
| subscribe: "i < length (pw_tabs w) \<Longrightarrow>
    preferences_step (if pt_subscribers (pw_tabs w ! i) = 0 then Reread i accessible else Unnoticed) w
      (w\<lparr>pw_tabs := (pw_tabs w)[i := subscribe_preferences accessible (pw_stored w) (pw_tabs w ! i)]\<rparr>)"
| unsubscribe: "i < length (pw_tabs w) \<Longrightarrow> 0 < pt_subscribers (pw_tabs w ! i) \<Longrightarrow>
    preferences_step Unnoticed w (w\<lparr>pw_tabs := (pw_tabs w)[i := unsubscribe_preferences (pw_tabs w ! i)]\<rparr>)"
| open_tab: "preferences_step (Reread (length (pw_tabs w)) accessible) w
    (w\<lparr>pw_tabs := pw_tabs w @ [opened_tab accessible (pw_stored w)]\<rparr>)"
| foreign_write: "relevant_key k \<or> stored = pw_stored w \<Longrightarrow>
    preferences_step Unnoticed w \<lparr>pw_stored = stored, pw_tabs = map (notify k) (pw_tabs w)\<rparr>"

text \<open>The histories that start with no tab at all, and the worlds they lead to.\<close>

inductive preferences_history :: "preferences_event list \<Rightarrow> preferences_world \<Rightarrow> bool" where
  start: "preferences_history [] \<lparr>pw_stored = stored, pw_tabs = []\<rparr>"
| step: "preferences_history events w \<Longrightarrow> preferences_step e w w' \<Longrightarrow> preferences_history (events @ [e]) w'"

text \<open>
  What a history says a tab has of the storage: whether its last reading or accepted writing reached the
  storage, and the choices since then whose writes were refused.
\<close>

type_synonym tab_view = "bool \<times> (jsnum \<times> jstr \<times> bool) list"

fun view_step :: "nat \<Rightarrow> preferences_event \<Rightarrow> tab_view \<Rightarrow> tab_view" where
  "view_step i (Chosen j userId tag ignored accepted) (seen, unsaved) =
     (if j \<noteq> i then (seen, unsaved)
      else if accepted then (True, []) else (seen, unsaved @ [(userId, tag, ignored)]))"
| "view_step i (Reread j accessible) view = (if j = i then (accessible, []) else view)"
| "view_step i Unnoticed view = view"

definition tab_view :: "nat \<Rightarrow> preferences_event list \<Rightarrow> tab_view" where
  "tab_view i events = fold (view_step i) events (True, [])"

text \<open>
  The preferences a tab then holds: those that are stored, or none where it could not read them, changed
  by its unsaved choices. A corrupt text tells none.
\<close>

definition apply_choice :: "jsnum \<times> jstr \<times> bool \<Rightarrow> ignored_versions \<Rightarrow> ignored_versions" where
  "apply_choice = (\<lambda>(userId, tag, ignored). setVersionIgnored userId tag ignored)"

definition viewed_preferences :: "stored_text \<Rightarrow> tab_view \<Rightarrow> ignored_versions option" where
  "viewed_preferences stored view =
     map_option (fold apply_choice (snd view)) (stored_preferences (read_stored (fst view) stored))"

lemma tab_view_Nil [simp]: "tab_view i [] = (True, [])"
  by (simp add: tab_view_def)

lemma tab_view_snoc [simp]: "tab_view i (events @ [e]) = view_step i e (tab_view i events)"
  by (simp add: tab_view_def)

lemma tab_view_granted:
  "\<forall>e \<in> set events. e \<noteq> Unnoticed \<and> ev_tab e = i \<longrightarrow> ev_granted e \<Longrightarrow> tab_view i events = (True, [])"
proof (induction events rule: rev_induct)
  case (snoc e events)
  then show ?case by (cases e) auto
qed simp

section \<open>Invariants\<close>

text \<open>What holds of each tab, against the stored text and what the tab has of it.\<close>

definition tab_ok :: "preferences_tab \<Rightarrow> bool" where
  "tab_ok tab \<longleftrightarrow> preferences_ok (pt_state tab) \<and> (pt_listening tab \<longleftrightarrow> 0 < pt_subscribers tab)"

definition tab_synced :: "stored_text \<Rightarrow> tab_view \<Rightarrow> preferences_tab \<Rightarrow> bool" where
  "tab_synced stored view tab \<longleftrightarrow>
     (pt_listening tab \<and> (\<forall>k \<in> set (pt_events tab). \<not> relevant_key k) \<longrightarrow>
      (\<forall>state. viewed_preferences stored view = Some state \<longrightarrow> pt_state tab = state))"

lemma stored_preferences_ok: "stored_preferences stored = Some state \<Longrightarrow> preferences_ok state"
  by (auto simp: stored_preferences_def merge_preferences_ok split: stored_text.splits)

lemma rehydrate_fields [simp]:
  "pt_subscribers (rehydrate a stored tab) = pt_subscribers tab"
  "pt_listening (rehydrate a stored tab) = pt_listening tab"
  "pt_events (rehydrate a stored tab) = pt_events tab"
  by (simp_all add: rehydrate_def split: option.split)

lemma rehydrate_state:
  "pt_state (rehydrate a stored tab) =
     (case stored_preferences (read_stored a stored) of Some state \<Rightarrow> state | None \<Rightarrow> pt_state tab)"
  by (simp add: rehydrate_def split: option.split)

lemma rehydrate_preferences_ok [invs]:
  "preferences_ok (pt_state tab) \<Longrightarrow> preferences_ok (pt_state (rehydrate a stored tab))"
  by (auto simp: rehydrate_state dest: stored_preferences_ok split: option.split)

lemma notify_ok [invs]: "tab_ok tab \<Longrightarrow> tab_ok (notify k tab)"
  by (simp add: tab_ok_def notify_def)

lemma events_ok [simp]: "tab_ok (tab\<lparr>pt_events := ks\<rparr>) = tab_ok tab"
  by (simp add: tab_ok_def)

lemma handle_ok [invs]: "tab_ok tab \<Longrightarrow> tab_ok (handlePreferenceStorage a stored k tab)"
  by (simp add: handlePreferenceStorage_def tab_ok_def rehydrate_preferences_ok)

lemma subscribe_ok [invs]: "tab_ok tab \<Longrightarrow> tab_ok (subscribe_preferences a stored tab)"
  by (auto simp: tab_ok_def subscribe_preferences_def rehydrate_preferences_ok Let_def)

lemma unsubscribe_ok [invs]: "tab_ok tab \<Longrightarrow> tab_ok (unsubscribe_preferences tab)"
  by (auto simp: tab_ok_def unsubscribe_preferences_def Let_def)

lemma opened_ok [invs]: "tab_ok (opened_tab a stored)"
  unfolding tab_ok_def opened_tab_def
  by (intro conjI rehydrate_preferences_ok) (simp_all add: preferences_ok_def)

lemma ignore_stored:
  "pw_stored (ignore_in_tab accepted i userId tag ignored w) =
     write_preferences accepted (setVersionIgnored userId tag ignored (pt_state (pw_tabs w ! i))) (pw_stored w)"
  by (simp add: ignore_in_tab_def Let_def)

lemma ignore_tabs:
  assumes "j < length (pw_tabs w)" "i < length (pw_tabs w)"
  shows "length (pw_tabs (ignore_in_tab accepted i userId tag ignored w)) = length (pw_tabs w)"
    "pw_tabs (ignore_in_tab accepted i userId tag ignored w) ! j =
     (if j = i then (pw_tabs w ! i)\<lparr>pt_state := setVersionIgnored userId tag ignored (pt_state (pw_tabs w ! i))\<rparr>
      else if pw_stored (ignore_in_tab accepted i userId tag ignored w) = pw_stored w then pw_tabs w ! j
      else notify (Some preferencesStorageKey) (pw_tabs w ! j))"
  using assms by (auto simp: ignore_in_tab_def notify_others_def Let_def)

lemma deliver_stored [simp]: "pw_stored (deliver_to_tab a i w) = pw_stored w"
  by (simp add: deliver_to_tab_def Let_def split: list.split)

lemma deliver_tabs:
  assumes "i < length (pw_tabs w)"
  shows "pw_tabs (deliver_to_tab a i w) = (pw_tabs w)[i :=
     (case pt_events (pw_tabs w ! i) of
        [] \<Rightarrow> pw_tabs w ! i
      | k # ks \<Rightarrow>
          if pt_listening (pw_tabs w ! i)
          then handlePreferenceStorage a (pw_stored w) k ((pw_tabs w ! i)\<lparr>pt_events := ks\<rparr>)
          else (pw_tabs w ! i)\<lparr>pt_events := ks\<rparr>)]"
  using assms by (simp add: deliver_to_tab_def Let_def split: list.split)

lemma tabs_ok: "preferences_history events w \<Longrightarrow> i < length (pw_tabs w) \<Longrightarrow> tab_ok (pw_tabs w ! i)"
proof (induction arbitrary: i rule: preferences_history.induct)
  case (step events w e w')
  from step.hyps(2) step.prems show ?case
  proof cases
    case (ignore j userId tag ignored accepted)
    with step.prems have i: "i < length (pw_tabs w)" by (simp add: ignore_tabs(1) [of j])
    from step.IH [OF i] ignore show ?thesis
      by (auto simp: ignore_tabs(2) [OF i] intro: invs) (auto simp: tab_ok_def intro: invs)
  next
    case (deliver j a)
    with step.prems step.IH show ?thesis
      by (auto simp: deliver_tabs nth_list_update handle_ok split: list.split)
  next
    case (open_tab a)
    with step.prems step.IH show ?thesis by (auto simp: nth_append less_Suc_eq intro: invs)
  qed (use step.IH in \<open>auto simp: nth_list_update intro: invs\<close>)
qed simp

text \<open>Each kind of step keeps a tab in step with its view.\<close>

lemma synced_state:
  "tab_synced stored view tab \<Longrightarrow> pt_listening tab \<Longrightarrow> \<forall>k \<in> set (pt_events tab). \<not> relevant_key k \<Longrightarrow>
   viewed_preferences stored view = Some state \<Longrightarrow> pt_state tab = state"
  by (simp add: tab_synced_def)

lemma notify_synced:
  "relevant_key k \<or> stored' = stored \<Longrightarrow> tab_synced stored view tab \<Longrightarrow> tab_synced stored' view (notify k tab)"
  by (auto simp: tab_synced_def notify_def)

lemma rehydrated_synced: "tab_synced stored (a, []) (rehydrate a stored tab)"
  by (auto simp: tab_synced_def viewed_preferences_def rehydrate_state)

lemma unheard_synced:
  "tab_synced stored view tab \<Longrightarrow> pt_events tab = k # ks \<Longrightarrow> \<not> (pt_listening tab \<and> relevant_key k) \<Longrightarrow>
   tab_synced stored view (tab\<lparr>pt_events := ks\<rparr>)"
  by (auto simp: tab_synced_def)

lemma unsubscribe_synced: "tab_synced stored view tab \<Longrightarrow> tab_synced stored view (unsubscribe_preferences tab)"
  by (simp add: tab_synced_def unsubscribe_preferences_def Let_def)

lemma subscribe_synced:
  "tab_ok tab \<Longrightarrow> tab_synced stored view tab \<Longrightarrow>
   tab_synced stored (if pt_subscribers tab = 0 then (a, []) else view) (subscribe_preferences a stored tab)"
  using rehydrated_synced [of stored a]
  by (simp add: tab_synced_def tab_ok_def subscribe_preferences_def Let_def)

lemma own_choice_synced:
  assumes "preferences_ok (setVersionIgnored userId tag ignored (pt_state tab))"
    and "tab_synced stored (tab_view i events) tab"
  shows "tab_synced (write_preferences accepted (setVersionIgnored userId tag ignored (pt_state tab)) stored)
    (view_step i (Chosen i userId tag ignored accepted) (tab_view i events))
    (tab\<lparr>pt_state := setVersionIgnored userId tag ignored (pt_state tab)\<rparr>)"
  using assms
  by (cases "tab_view i events")
    (auto simp: tab_synced_def viewed_preferences_def write_preferences_def stored_preferences_def
      read_stored_def merge_partialize_preferences apply_choice_def)

lemma delivery_synced:
  assumes "tab_synced (pw_stored w) (tab_view i events) (pw_tabs w ! i)" "i < length (pw_tabs w)"
  shows "tab_synced (pw_stored w) (view_step i (delivery a i w) (tab_view i events))
    (pw_tabs (deliver_to_tab a i w) ! i)"
  using assms unheard_synced [OF assms(1)] rehydrated_synced [of "pw_stored w" a]
  by (auto simp: deliver_tabs delivery_def handlePreferenceStorage_def split: list.split)

lemma other_tab_view [simp]: "j \<noteq> i \<Longrightarrow> view_step i (delivery a j w) view = view"
  by (auto simp: delivery_def split: list.split)

lemma other_choice_view [simp]: "j \<noteq> i \<Longrightarrow> view_step i (Chosen j userId tag ignored accepted) view = view"
  by (cases view) simp

lemma tabs_synced:
  "preferences_history events w \<Longrightarrow> i < length (pw_tabs w) \<Longrightarrow>
   tab_synced (pw_stored w) (tab_view i events) (pw_tabs w ! i)"
proof (induction arbitrary: i rule: preferences_history.induct)
  case (step events w e w')
  note ok = tabs_ok [OF step.hyps(1)]
  from step.hyps(2) step.prems show ?case
  proof cases
    case (ignore j userId tag ignored accepted)
    with step.prems have i: "i < length (pw_tabs w)" by (simp add: ignore_tabs(1) [of j])
    show ?thesis
    proof (cases "i = j")
      case True
      have "preferences_ok (setVersionIgnored userId tag ignored (pt_state (pw_tabs w ! j)))"
        using ok [OF ignore(3)] ignore by (auto simp: tab_ok_def intro: invs)
      from own_choice_synced [OF this step.IH [OF ignore(3)]] ignore True show ?thesis
        by (simp add: ignore_tabs(2) [OF ignore(3,3)] ignore_stored)
    next
      case False
      with ignore step.IH [OF i] show ?thesis
        by (auto simp: ignore_tabs(2) [OF i] relevant_key_def intro: notify_synced)
    qed
  next
    case (deliver j a)
    with step.prems step.IH delivery_synced show ?thesis
      by (cases "i = j") (auto simp: deliver_tabs)
  next
    case (subscribe j a)
    with step.prems step.IH [of i] ok [of i] subscribe_synced [of "pw_tabs w ! i" "pw_stored w" _ a]
    show ?thesis by (cases "i = j") (auto split: if_splits)
  next
    case (unsubscribe j)
    with step.prems step.IH unsubscribe_synced show ?thesis by (cases "i = j") auto
  next
    case (open_tab a)
    with step.prems step.IH rehydrated_synced show ?thesis
      by (cases "i = length (pw_tabs w)") (auto simp: nth_append opened_tab_def)
  next
    case (foreign_write k stored)
    with step.prems step.IH show ?thesis by (auto intro: notify_synced)
  qed
qed simp

section \<open>Properties\<close>

text \<open>
  C33: Whatever users choose in whichever tabs, in whatever order the browser delivers its events, whether
  or not the storage refuses a reading or a writing and whatever other writers leave there: a tab with a
  subscriber that has handled its events listens and, unless the stored text is corrupt, holds exactly
  the preferences that are stored (none, if its last reading was refused) with the choices it made since
  whose writes were refused. A tab of which nothing was refused holds what is stored, so all such tabs
  agree. Users have positive numbers and versions are not empty.
\<close>

theorem preferences_converge:
  assumes "preferences_history events w" "i < length (pw_tabs w)"
    and "0 < pt_subscribers (pw_tabs w ! i)" "\<forall>k \<in> set (pt_events (pw_tabs w ! i)). \<not> relevant_key k"
  shows "pt_listening (pw_tabs w ! i)
    \<and> (\<forall>state. viewed_preferences (pw_stored w) (tab_view i events) = Some state
          \<longrightarrow> pt_state (pw_tabs w ! i) = state)
    \<and> ((\<forall>e \<in> set events. e \<noteq> Unnoticed \<and> ev_tab e = i \<longrightarrow> ev_granted e)
          \<longrightarrow> (\<forall>state. stored_preferences (pw_stored w) = Some state \<longrightarrow> pt_state (pw_tabs w ! i) = state))"
proof -
  have listening: "pt_listening (pw_tabs w ! i)"
    using tabs_ok [OF assms(1,2)] assms(3) by (simp add: tab_ok_def)
  note state = synced_state [OF tabs_synced [OF assms(1,2)] listening assms(4)]
  then show ?thesis
    using listening tab_view_granted [of events i] by (auto simp: viewed_preferences_def read_stored_def)
qed

definition two_tabs :: preferences_world where
  "two_tabs =
     \<lparr>pw_stored = Absent, pw_tabs = [opened_tab True Absent, subscribe_preferences True Absent (opened_tab True Absent)]\<rparr>"

definition opening_events :: "preferences_event list" where
  "opening_events = [Reread 0 True, Reread 1 True, Reread 1 True]"

lemma two_tabs_history: "preferences_history opening_events two_tabs"
proof -
  have "preferences_history [] \<lparr>pw_stored = Absent, pw_tabs = []\<rparr>" by (rule preferences_history.start)
  from preferences_history.step [OF this preferences_step.open_tab [of _ True]]
  have "preferences_history [Reread 0 True] \<lparr>pw_stored = Absent, pw_tabs = [opened_tab True Absent]\<rparr>" by simp
  from preferences_history.step [OF this preferences_step.open_tab [of _ True]]
  have "preferences_history [Reread 0 True, Reread 1 True]
      \<lparr>pw_stored = Absent, pw_tabs = [opened_tab True Absent, opened_tab True Absent]\<rparr>" by simp
  from preferences_history.step [OF this preferences_step.subscribe [of 1 _ True]] show ?thesis
    by (simp add: two_tabs_def opening_events_def opened_tab_def numeral_2_eq_2)
qed

text \<open>The first tab stores a choice of which the second is told, and then a choice of the second is refused.\<close>

definition told_world :: preferences_world where
  "told_world = deliver_to_tab True 1 (ignore_in_tab True 0 (num 7) (js ''v1'') True two_tabs)"

definition refused_world :: preferences_world where
  "refused_world = ignore_in_tab False 1 (num 7) (js ''v2'') True told_world"

definition refused_events :: "preferences_event list" where
  "refused_events = opening_events @ [Chosen 0 (num 7) (js ''v1'') True True, Reread 1 True,
     Chosen 1 (num 7) (js ''v2'') True False]"

lemma refused_history: "preferences_history refused_events refused_world"
proof -
  have key: "user_key (js_num_string (num 7))" by code_simp
  let ?w = "ignore_in_tab True 0 (num 7) (js ''v1'') True two_tabs"
  have told: "delivery True 1 ?w = Reread 1 True" "length (pw_tabs ?w) = 2" "length (pw_tabs told_world) = 2"
    by code_simp+
  have "preferences_history (opening_events @ [Chosen 0 (num 7) (js ''v1'') True True]) ?w"
    by (rule preferences_history.step [OF two_tabs_history preferences_step.ignore])
      (use key in \<open>simp_all add: two_tabs_def\<close>)
  from preferences_history.step [OF this preferences_step.deliver [of 1 _ True]] told
  have "preferences_history (opening_events @ [Chosen 0 (num 7) (js ''v1'') True True, Reread 1 True]) told_world"
    by (simp add: told_world_def)
  from preferences_history.step [OF this preferences_step.ignore [of 1 _ "num 7" "js ''v2''"]] key told(3)
  show ?thesis by (simp add: refused_world_def refused_events_def)
qed

theorem preferences_converge_witness:
  "pt_state (pw_tabs refused_world ! 1) = [(js ''7'', [js ''v1'', js ''v2''])]"
proof -
  have "1 < length (pw_tabs refused_world)" "0 < pt_subscribers (pw_tabs refused_world ! 1)"
    "\<forall>k \<in> set (pt_events (pw_tabs refused_world ! 1)). \<not> relevant_key k" by code_simp+
  moreover have "viewed_preferences (pw_stored refused_world) (tab_view 1 refused_events) =
      Some [(js ''7'', [js ''v1'', js ''v2''])]" by code_simp
  ultimately show ?thesis using preferences_converge [OF refused_history] by blast
qed

text \<open>
  A choice takes effect in its own tab at once, for that user and that version alone, whatever the storage
  holds and whether or not it takes the write.
\<close>

theorem choice_takes_effect:
  assumes "i < length (pw_tabs w)"
  shows "is_ignored (pt_state (pw_tabs (ignore_in_tab accepted i userId tag ignored w) ! i)) user t \<longleftrightarrow>
     (if user = js_num_string userId \<and> t = tag then ignored else is_ignored (pt_state (pw_tabs w ! i)) user t)"
  by (simp add: ignore_tabs(2) [OF assms assms] setVersionIgnored_spec)

text \<open>A text that does not parse changes nothing in the tabs that read it.\<close>

theorem corrupt_text_ignored:
  "rehydrate True Corrupt tab = tab"
  by (simp add: rehydrate_def read_stored_def stored_preferences_def)

text \<open>
  Where storage refuses its writes, a choice lasts until the last subscriber of the tab leaves: the next
  one reads the storage again.
\<close>

theorem refused_choice_forgotten:
  "list_all (\<lambda>accessible.
     let tab = (opened_tab True Absent)\<lparr>pt_subscribers := 1, pt_listening := True\<rparr>;
         w = ignore_in_tab False 0 (num 7) (js ''v1.2.3'') True \<lparr>pw_stored = Absent, pw_tabs = [tab]\<rparr>;
         chosen = pw_tabs w ! 0;
         later = subscribe_preferences accessible (pw_stored w) (unsubscribe_preferences chosen)
     in is_ignored (pt_state chosen) (js ''7'') (js ''v1.2.3'')
        \<and> \<not> is_ignored (pt_state later) (js ''7'') (js ''v1.2.3'')) [True, False]"
  by code_simp

text \<open>Two tabs that choose before either is told of the other: the later write replaces the earlier one.\<close>

theorem concurrent_choice_lost:
  "let w = ignore_in_tab True 1 (num 7) (js ''v2'') True (ignore_in_tab True 0 (num 7) (js ''v1'') True two_tabs)
   in (case stored_preferences (pw_stored w) of
         Some state \<Rightarrow> is_ignored state (js ''7'') (js ''v2'') \<and> \<not> is_ignored state (js ''7'') (js ''v1'')
       | None \<Rightarrow> False)"
  by code_simp

end
