(* ===== verification/UpdateCheck.thy ===== *)
theory UpdateCheck
  imports UpdateStore AuthStore
begin

text \<open>
  \<open>features/system-update/api.ts\<close> and \<open>use-system-update.ts\<close>: fetching the latest release, the query that
  keeps the outcome of every check, failed ones included, and what the hook shows of it. The query
  library decides when the query runs; a run and a reload of the page are events of a history.
\<close>

section \<open>Fetching\<close>

text \<open>
  What \<open>fetch\<close> meets: it rejects, or there is a response with its status and its body, which may not be
  JSON. By the time the attempt ends its caller may have aborted it, and the timeout may have passed.
\<close>

datatype fetch_answer = Fetch_rejected | Responded int "jsvalue option"

record fetch_attempt =
  fa_answer :: fetch_answer
  fa_aborted :: bool
  fa_timed_out :: bool

text \<open>What is thrown: an \<open>UpdateCheckError\<close> with its code, or an error of the platform.\<close>

datatype check_error = Update_check_error UpdateCheckErrorCode | Other_error

definition controller_aborted :: "fetch_attempt \<Rightarrow> bool" where
  "controller_aborted a \<longleftrightarrow> fa_aborted a \<or> fa_timed_out a"

text \<open>The body of the \<open>try\<close> block.\<close>

definition read_releases ::
  "(jstr \<Rightarrow> bool) \<Rightarrow> fetch_attempt \<Rightarrow> check_error + SystemRelease option" where
  "read_releases isoDateTime a =
     (case fa_answer a of
        Fetch_rejected \<Rightarrow> Inl Other_error
      | Responded status body \<Rightarrow>
          if status = 403 \<or> status = 429 then Inl (Update_check_error Rate_limit_error)
          else if \<not> (200 \<le> status \<and> status \<le> 299) then Inl (Update_check_error Network_error)
          else (case (case body of None \<Rightarrow> Inl [] | Some v \<Rightarrow> selectLatestRelease isoDateTime v) of
              Inr release \<Rightarrow> Inr release
            | Inl _ \<Rightarrow>
                if controller_aborted a then Inl Other_error else Inl (Update_check_error Payload_error)))"

definition fetchLatestSystemRelease ::
  "(jstr \<Rightarrow> bool) \<Rightarrow> fetch_attempt \<Rightarrow> check_error + SystemRelease option" where
  "fetchLatestSystemRelease isoDateTime a =
     (case read_releases isoDateTime a of
        Inr release \<Rightarrow> Inr release
      | Inl e \<Rightarrow>
          if fa_aborted a then Inl e
          else if controller_aborted a then Inl (Update_check_error Timeout_error)
          else (case e of
              Update_check_error c \<Rightarrow> Inl (Update_check_error c)
            | Other_error \<Rightarrow> Inl (Update_check_error Network_error)))"

section \<open>The query\<close>

text \<open>A run of \<open>queryFn\<close>: it throws and keeps nothing where its signal was aborted.\<close>

definition check_snapshot ::
  "(jstr \<Rightarrow> bool) \<Rightarrow> fetch_attempt \<Rightarrow> jsnum \<Rightarrow> SystemUpdateSnapshot option \<Rightarrow> SystemUpdateSnapshot option" where
  "check_snapshot isoDateTime a now previous =
     (case fetchLatestSystemRelease isoDateTime a of
        Inr release \<Rightarrow>
          if fa_aborted a then None
          else Some \<lparr>us_release = release, us_lastCheckedAt = now, us_lastAttemptAt = now, us_error = None\<rparr>
      | Inl e \<Rightarrow>
          if fa_aborted a then None
          else Some
            \<lparr>us_release = (case previous of None \<Rightarrow> None | Some s \<Rightarrow> us_release s),
             us_lastCheckedAt = (case previous of None \<Rightarrow> num 0 | Some s \<Rightarrow> us_lastCheckedAt s),
             us_lastAttemptAt = now,
             us_error = Some (case e of Update_check_error c \<Rightarrow> c | Other_error \<Rightarrow> Network_error)\<rparr>)"

text \<open>The store in memory and the value that is stored of it.\<close>

record update_memory =
  um_snapshot :: "SystemUpdateSnapshot option"
  um_stored :: "jsvalue option"

text \<open>\<open>setSnapshot\<close>, and the write of the middleware, which storage may refuse.\<close>

definition set_snapshot :: "bool \<Rightarrow> SystemUpdateSnapshot \<Rightarrow> update_memory \<Rightarrow> update_memory" where
  "set_snapshot accepted s m =
     m\<lparr>um_snapshot := Some s,
       um_stored := (if accepted then Some (partialize_snapshot (Some s)) else um_stored m)\<rparr>"

definition run_check ::
  "(jstr \<Rightarrow> bool) \<Rightarrow> bool \<Rightarrow> fetch_attempt \<Rightarrow> jsnum \<Rightarrow> update_memory \<Rightarrow> update_memory" where
  "run_check isoDateTime accepted a now m =
     (case check_snapshot isoDateTime a now (um_snapshot m) of
        None \<Rightarrow> m
      | Some s \<Rightarrow> set_snapshot accepted s m)"

definition reload_store :: "(jstr \<Rightarrow> bool) \<Rightarrow> jsnum \<Rightarrow> update_memory \<Rightarrow> update_memory" where
  "reload_store isoDateTime now m =
     m\<lparr>um_snapshot := merge_snapshot isoDateTime now (case um_stored m of None \<Rightarrow> JUndefined | Some v \<Rightarrow> v)\<rparr>"

definition SYSTEM_UPDATE_INTERVAL :: jsnum where
  "SYSTEM_UPDATE_INTERVAL = num (60 * 60 * 1000)"

text \<open>\<open>refetchInterval\<close>; \<open>None\<close> is \<open>false\<close>.\<close>

definition refetch_interval :: "bool \<Rightarrow> jsnum \<Rightarrow> SystemUpdateSnapshot option \<Rightarrow> jsnum option" where
  "refetch_interval fetching now data =
     (if fetching then None
      else Some (js_max (num 1000)
        (js_sub SYSTEM_UPDATE_INTERVAL
          (js_sub now (case data of None \<Rightarrow> num 0 | Some s \<Rightarrow> us_lastAttemptAt s)))))"

section \<open>The hook\<close>

fun getUpdateErrorMessage :: "UpdateCheckErrorCode \<Rightarrow> (jstr \<Rightarrow> jstr) \<Rightarrow> jstr" where
  "getUpdateErrorMessage Rate_limit_error t = t (js ''GitHub rate limit reached. Try again later.'')"
| "getUpdateErrorMessage Timeout_error t = t (js ''Update check timed out. Try again.'')"
| "getUpdateErrorMessage Payload_error t = t (js ''Unexpected release payload'')"
| "getUpdateErrorMessage Network_error t = t (js ''Failed to check for updates'')"

record update_inputs =
  ui_user :: "AuthUser option"
  ui_online :: bool
  ui_visible :: bool
  ui_version :: "jstr option"
  ui_data :: "SystemUpdateSnapshot option"
  ui_ignored :: ignored_versions

definition ROLE_ADMIN :: jsnum where
  "ROLE_ADMIN = num 10"

definition is_admin :: "AuthUser option \<Rightarrow> bool" where
  "is_admin user \<longleftrightarrow> js_le ROLE_ADMIN (case user of None \<Rightarrow> num 0 | Some u \<Rightarrow> user_role u)"

definition query_enabled :: "update_inputs \<Rightarrow> bool" where
  "query_enabled i \<longleftrightarrow> is_admin (ui_user i) \<and> ui_visible i \<and> ui_online i"

definition current_version :: "update_inputs \<Rightarrow> jstr option" where
  "current_version i =
     (case ui_version i of
        None \<Rightarrow> None
      | Some v \<Rightarrow>
          if trim v = js ''v0.0.0'' \<or> trim v = js ''0.0.0'' \<or> trim v = [] then None else Some (trim v))"

definition known_release :: "update_inputs \<Rightarrow> SystemRelease option" where
  "known_release i = (case ui_data i of None \<Rightarrow> None | Some s \<Rightarrow> us_release s)"

definition version_comparison :: "update_inputs \<Rightarrow> int option" where
  "version_comparison i =
     (case (current_version i, known_release i) of
        (Some v, Some r) \<Rightarrow> compareSystemVersions v (sr_tag_name r)
      | _ \<Rightarrow> None)"

definition hasUpdate :: "update_inputs \<Rightarrow> bool" where
  "hasUpdate i \<longleftrightarrow> version_comparison i = Some (-1)"

definition isIgnored :: "update_inputs \<Rightarrow> bool" where
  "isIgnored i \<longleftrightarrow>
     (case (ui_user i, known_release i) of
        (Some u, Some r) \<Rightarrow> is_ignored (ui_ignored i) (js_num_string (user_id u)) (sr_tag_name r)
      | _ \<Rightarrow> False)"

definition shouldNotify :: "update_inputs \<Rightarrow> bool" where
  "shouldNotify i \<longleftrightarrow> is_admin (ui_user i) \<and> hasUpdate i \<and> \<not> isIgnored i"

definition setIgnored :: "bool \<Rightarrow> update_inputs \<Rightarrow> update_inputs" where
  "setIgnored ignored i =
     (case (ui_user i, known_release i) of
        (Some u, Some r) \<Rightarrow>
          if is_admin (ui_user i)
          then i\<lparr>ui_ignored := setVersionIgnored (user_id u) (sr_tag_name r) ignored (ui_ignored i)\<rparr>
          else i
      | _ \<Rightarrow> i)"

text \<open>\<open>checkNow\<close>: whether it refetches, and the message it reports of the data it gets then.\<close>

definition checkNow :: "(jstr \<Rightarrow> jstr) \<Rightarrow> update_inputs \<Rightarrow> SystemUpdateSnapshot option \<Rightarrow> bool \<times> jstr option" where
  "checkNow t i refetched =
     (if \<not> is_admin (ui_user i) \<or> \<not> ui_online i then (False, None)
      else (True, map_option (\<lambda>e. getUpdateErrorMessage e t) (Option.bind refetched us_error)))"

section \<open>A history of checks\<close>

text \<open>A check ends at a time, its write accepted or not, or the page is loaded anew at a time.\<close>

datatype update_event = Checked bool fetch_attempt nat | Reloaded nat

fun event_time :: "update_event \<Rightarrow> nat" where
  "event_time (Checked accepted a now) = now"
| "event_time (Reloaded now) = now"

definition time_num :: "nat \<Rightarrow> jsnum" where
  "time_num n = num (of_nat n)"

fun update_event_step :: "(jstr \<Rightarrow> bool) \<Rightarrow> update_memory \<Rightarrow> update_event \<Rightarrow> update_memory" where
  "update_event_step dt m (Checked accepted a now) = run_check dt accepted a (time_num now) m"
| "update_event_step dt m (Reloaded now) = reload_store dt (time_num now) m"

definition run_updates :: "(jstr \<Rightarrow> bool) \<Rightarrow> update_event list \<Rightarrow> update_memory" where
  "run_updates dt evs = foldl (update_event_step dt) \<lparr>um_snapshot = None, um_stored = None\<rparr> evs"

text \<open>The completed checks of a history: their time, and the release that was found or the error.\<close>

fun completed :: "(jstr \<Rightarrow> bool) \<Rightarrow> update_event \<Rightarrow> (nat \<times> (UpdateCheckErrorCode + SystemRelease option)) option" where
  "completed dt (Checked accepted a now) =
     (if fa_aborted a then None
      else Some (now, case fetchLatestSystemRelease dt a of
          Inr release \<Rightarrow> Inr release
        | Inl (Update_check_error c) \<Rightarrow> Inl c
        | Inl Other_error \<Rightarrow> Inl Network_error))"
| "completed dt (Reloaded now) = None"

definition completed_checks ::
  "(jstr \<Rightarrow> bool) \<Rightarrow> update_event list \<Rightarrow> (nat \<times> (UpdateCheckErrorCode + SystemRelease option)) list" where
  "completed_checks dt evs = List.map_filter (completed dt) evs"

text \<open>
  What the store is to know: the release and the time of the last check that succeeded, the time of the
  last check, and its error.
\<close>

fun last_success ::
  "(nat \<times> (UpdateCheckErrorCode + SystemRelease option)) list \<Rightarrow> SystemRelease option \<times> nat" where
  "last_success [] = (None, 0)"
| "last_success ((now, Inr release) # older) = (release, now)"
| "last_success ((now, Inl c) # older) = last_success older"

fun expected_snapshot ::
  "(nat \<times> (UpdateCheckErrorCode + SystemRelease option)) list \<Rightarrow> SystemUpdateSnapshot option" where
  "expected_snapshot [] = None"
| "expected_snapshot ((now, r) # older) =
     Some \<lparr>us_release = fst (last_success ((now, r) # older)),
           us_lastCheckedAt = time_num (snd (last_success ((now, r) # older))),
           us_lastAttemptAt = time_num now,
           us_error = (case r of Inl c \<Rightarrow> Some c | Inr _ \<Rightarrow> None)\<rparr>"

lemma candidate_ok: "candidate dt item = Some r \<Longrightarrow> release_ok dt r"
  by (auto simp: candidate_def publishedReleaseSchema_def dest: release_schema_ok
      split: option.splits bool.splits jsvalue.splits if_splits)

lemma candidates_ok: "r \<in> set (candidates dt items) \<Longrightarrow> release_ok dt r"
  by (induction items rule: rev_induct) (auto split: option.splits intro: candidate_ok)

lemma selected_release_ok: "selectLatestRelease dt v = Inr (Some r) \<Longrightarrow> release_ok dt r"
proof -
  assume selected: "selectLatestRelease dt v = Inr (Some r)"
  then obtain items ok where "foldl (release_step dt) (None, items = []) items = (Some r, ok)"
    by (cases v) (auto simp: selectLatestRelease_def split: prod.splits if_splits)
  with select_fold [where dt = dt and v = "items = []" and items = items]
  have "r \<in> set (candidates dt items)" by (auto simp: first_newest_def)
  then show ?thesis by (rule candidates_ok)
qed

lemma fetched_release_ok: "fetchLatestSystemRelease dt a = Inr (Some r) \<Longrightarrow> release_ok dt r"
  by (auto simp: fetchLatestSystemRelease_def read_releases_def dest: selected_release_ok
      split: sum.splits fetch_answer.splits option.splits if_splits check_error.splits)

lemma time_num_ok [simp]: "time_ok (time_num n)"
  by (auto simp: time_ok_def time_num_def js_le_def)

lemma time_num_le [simp]: "js_le (time_num m) (time_num n) \<longleftrightarrow> m \<le> n"
  by (auto simp: time_num_def js_le_def)

text \<open>A completed check updates what is expected.\<close>

definition checks_ok :: "(jstr \<Rightarrow> bool) \<Rightarrow> nat \<Rightarrow> (nat \<times> (UpdateCheckErrorCode + SystemRelease option)) list \<Rightarrow> bool" where
  "checks_ok dt now cs \<longleftrightarrow>
     sorted_wrt (\<ge>) (map fst cs) \<and> (\<forall>(tm, r) \<in> set cs. tm \<le> now \<and> (\<forall>release. r = Inr (Some release) \<longrightarrow> release_ok dt release))"

lemma last_success_le: "\<forall>c \<in> set cs. fst c \<le> bound \<Longrightarrow> snd (last_success cs) \<le> bound"
  by (induction cs rule: last_success.induct) auto

lemma last_success_ok:
  "checks_ok dt now cs \<Longrightarrow> case fst (last_success cs) of None \<Rightarrow> True | Some r \<Rightarrow> release_ok dt r"
  by (induction cs rule: last_success.induct) (auto simp: checks_ok_def split: option.splits)

lemma expected_snapshot_ok: "checks_ok dt now cs \<Longrightarrow> expected_snapshot cs = Some s \<Longrightarrow> snapshot_ok dt (time_num now) s"
  using last_success_ok [of dt now cs] last_success_le [of cs "fst (hd cs)"]
  by (cases cs) (auto simp: snapshot_ok_def snapshot_times_def checks_ok_def simp del: last_success.simps)

lemma check_snapshot_expected:
  "check_snapshot dt a (time_num now) (expected_snapshot cs) =
     (case completed dt (Checked accepted a now) of
        None \<Rightarrow> None
      | Some c \<Rightarrow> expected_snapshot (c # cs))"
proof -
  have "time_num 0 = num 0" by (simp add: time_num_def)
  then show ?thesis
    by (cases cs rule: last_success.cases)
      (auto simp: check_snapshot_def split: sum.splits check_error.splits)
qed

lemma completed_checks_simps [simp]:
  "completed_checks dt [] = []"
  "completed_checks dt (evs @ [e]) = completed_checks dt evs @ (case completed dt e of None \<Rightarrow> [] | Some c \<Rightarrow> [c])"
  by (simp_all add: completed_checks_def List.map_filter_def split: option.split)

lemma completed_time: "completed dt e = Some (now, r) \<Longrightarrow> now = event_time e"
  by (cases e) (auto split: if_splits)

lemma completed_release: "completed dt e = Some (now, Inr (Some r)) \<Longrightarrow> release_ok dt r"
  by (cases e) (auto split: if_splits sum.splits check_error.splits intro: fetched_release_ok)

fun write_accepted :: "update_event \<Rightarrow> bool" where
  "write_accepted (Checked accepted a now) = accepted"
| "write_accepted (Reloaded now) = True"

lemma run_updates_snoc: "run_updates dt (evs @ [e]) = update_event_step dt (run_updates dt evs) e"
  by (simp add: run_updates_def)

lemma updates_invariant:
  "sorted (map event_time evs) \<Longrightarrow> \<forall>e \<in> set evs. write_accepted e \<and> event_time e \<le> now \<Longrightarrow>
   um_snapshot (run_updates dt evs) = expected_snapshot (rev (completed_checks dt evs))
   \<and> um_stored (run_updates dt evs) =
       (if completed_checks dt evs = [] then None
        else Some (partialize_snapshot (um_snapshot (run_updates dt evs))))
   \<and> checks_ok dt now (rev (completed_checks dt evs))"
proof (induction evs arbitrary: now rule: rev_induct)
  case Nil
  then show ?case by (simp add: run_updates_def checks_ok_def)
next
  case (snoc e evs)
  let ?m = "run_updates dt evs" and ?cs = "rev (completed_checks dt evs)"
  from snoc.prems have prems: "sorted (map event_time evs)"
    "\<forall>d \<in> set evs. write_accepted d \<and> event_time d \<le> event_time e" "event_time e \<le> now" "write_accepted e"
    by (auto simp: sorted_append)
  from snoc.IH [OF prems(1,2)] have snap: "um_snapshot ?m = expected_snapshot ?cs"
    and stored: "um_stored ?m = (if completed_checks dt evs = [] then None else Some (partialize_snapshot (um_snapshot ?m)))"
    and ok: "checks_ok dt (event_time e) ?cs" by auto
  have checks: "checks_ok dt now (rev (completed_checks dt (evs @ [e])))"
  proof (cases "completed dt e")
    case None
    with ok prems(3) show ?thesis by (auto simp: checks_ok_def)
  next
    case (Some c)
    then have "fst c = event_time e" "snd c = Inr (Some r) \<Longrightarrow> release_ok dt r" for r
      using completed_time [of dt e "fst c" "snd c"] completed_release [of dt e "fst c" r] by (cases c; auto)+
    with ok prems(3) Some show ?thesis by (cases c) (auto simp: checks_ok_def)
  qed
  show ?case
  proof (cases e)
    case (Checked accepted a tm)
    with prems have [simp]: "accepted" by simp
    have next_snapshot: "check_snapshot dt a (time_num tm) (um_snapshot ?m) =
        (case completed dt e of None \<Rightarrow> None | Some c \<Rightarrow> expected_snapshot (c # ?cs))"
      using check_snapshot_expected [of dt a tm ?cs accepted] snap Checked by simp
    show ?thesis
    proof (cases "completed dt e")
      case None
      with next_snapshot snap stored checks Checked show ?thesis
        by (simp add: run_updates_snoc run_check_def del: completed.simps)
    next
      case (Some c)
      obtain s where s: "expected_snapshot (c # ?cs) = Some s" by (cases c) auto
      with Some next_snapshot checks Checked show ?thesis
        by (simp add: run_updates_snoc run_check_def set_snapshot_def del: completed.simps expected_snapshot.simps)
    qed
  next
    case (Reloaded tm)
    have "merge_snapshot dt (time_num tm) (case um_stored ?m of None \<Rightarrow> JUndefined | Some v \<Rightarrow> v) = um_snapshot ?m"
    proof (cases "completed_checks dt evs = []")
      case True
      with stored snap show ?thesis by (simp add: merge_snapshot_def)
    next
      case False
      have "case um_snapshot ?m of None \<Rightarrow> True | Some x \<Rightarrow> snapshot_ok dt (time_num tm) x"
        using expected_snapshot_ok [OF ok] snap Reloaded by (auto split: option.split)
      with False stored show ?thesis by (simp add: merge_partialize_snapshot)
    qed
    then have "run_updates dt (evs @ [e]) = ?m"
      using Reloaded by (simp add: run_updates_snoc reload_store_def)
    with Reloaded snap stored checks show ?thesis by simp
  qed
qed

section \<open>Properties\<close>

text \<open>
  C36: Over any history of checks and reloads of the page with a clock that does not run backwards, and
  writes that storage accepts, the store knows exactly the last completed check: its time and its error,
  and the release and the time of the last check that succeeded. A failed check therefore never costs
  the release that was found before, an aborted one changes nothing, and neither does a reload.
\<close>

theorem update_history_remembered:
  assumes "sorted (map event_time evs)" "\<forall>e \<in> set evs. write_accepted e"
  shows "um_snapshot (run_updates dt evs) = expected_snapshot (rev (completed_checks dt evs))"
proof -
  have "\<forall>e \<in> set evs. write_accepted e \<and> event_time e \<le> Max (insert 0 (event_time ` set evs))"
    using assms(2) by auto
  from updates_invariant [OF assms(1) this] show ?thesis by blast
qed

definition found_attempt :: fetch_attempt where
  "found_attempt =
     \<lparr>fa_answer = Responded 200 (Some (JArr [JObj [(js ''tag_name'', JStr (js ''v1.0.0'')),
        (js ''prerelease'', JBool False), (js ''draft'', JBool False)]])),
      fa_aborted = False, fa_timed_out = False\<rparr>"

definition limited_attempt :: fetch_attempt where
  "limited_attempt = \<lparr>fa_answer = Responded 429 None, fa_aborted = False, fa_timed_out = False\<rparr>"

theorem update_history_remembered_witness:
  "\<exists>s r. um_snapshot (run_updates (\<lambda>s. True) [Checked True found_attempt 5, Reloaded 7, Checked True limited_attempt 9])
       = Some s
     \<and> us_release s = Some r \<and> sr_tag_name r = js ''v1.0.0'' \<and> us_error s = Some Rate_limit_error"
proof -
  let ?evs = "[Checked True found_attempt 5, Reloaded 7, Checked True limited_attempt 9]"
  have "completed_checks (\<lambda>s. True) ?evs =
      [(5, Inr (Some \<lparr>sr_tag_name = js ''v1.0.0'', sr_name = JUndefined, sr_body = JUndefined,
          sr_published_at = JUndefined, sr_prerelease = False\<rparr>)), (9, Inl Rate_limit_error)]"
    by code_simp
  then show ?thesis
    using update_history_remembered [of ?evs "\<lambda>s. True"] by simp
qed

text \<open>
  An administrator is notified exactly where both the running version and the latest known release are
  versions, the running one is the older, and this administrator has not chosen to ignore that release.
  Choosing to ignore it silences it, the opposite choice restores the notification, and neither changes
  what anyone is told of another release or what another user is told of this one.
\<close>

theorem update_notification:
  "(shouldNotify i \<longleftrightarrow>
      is_admin (ui_user i)
      \<and> (\<exists>v r. current_version i = Some v \<and> known_release i = Some r
            \<and> compareSystemVersions v (sr_tag_name r) = Some (-1))
      \<and> \<not> isIgnored i)
   \<and> \<not> shouldNotify (setIgnored True i)
   \<and> (shouldNotify (setIgnored False i) \<longleftrightarrow> is_admin (ui_user i) \<and> hasUpdate i)
   \<and> (\<forall>ignored user tag.
        (\<forall>u r. ui_user i = Some u \<and> known_release i = Some r \<longrightarrow>
           user \<noteq> js_num_string (user_id u) \<or> tag \<noteq> sr_tag_name r) \<longrightarrow>
        is_ignored (ui_ignored (setIgnored ignored i)) user tag = is_ignored (ui_ignored i) user tag)"
proof -
  have same: "ui_user (setIgnored b i) = ui_user i" "known_release (setIgnored b i) = known_release i"
    "current_version (setIgnored b i) = current_version i" for b
    by (auto simp: setIgnored_def known_release_def current_version_def split: option.split)
  have no_user: "ui_user i = None \<Longrightarrow> \<not> is_admin (ui_user i)"
    by (simp add: is_admin_def ROLE_ADMIN_def js_le_def)
  have update: "hasUpdate i \<longleftrightarrow> (\<exists>v r. current_version i = Some v \<and> known_release i = Some r
            \<and> compareSystemVersions v (sr_tag_name r) = Some (-1))"
    by (auto simp: hasUpdate_def version_comparison_def split: option.splits)
  have kept: "hasUpdate (setIgnored b i) = hasUpdate i" for b
    by (simp add: hasUpdate_def version_comparison_def same)
  have chosen: "isIgnored (setIgnored b i) = b" if "is_admin (ui_user i)" "hasUpdate i" for b
  proof -
    from that(1) no_user obtain u where "ui_user i = Some u" by (cases "ui_user i") auto
    moreover from that(2) update obtain r where "known_release i = Some r" by blast
    ultimately have "ui_user i = Some u" "known_release i = Some r" by simp_all
    with that show ?thesis by (simp add: isIgnored_def same) (simp add: setIgnored_def setVersionIgnored_spec)
  qed
  have others: "is_ignored (ui_ignored (setIgnored b i)) user tag = is_ignored (ui_ignored i) user tag"
    if "\<forall>u r. ui_user i = Some u \<and> known_release i = Some r \<longrightarrow> user \<noteq> js_num_string (user_id u) \<or> tag \<noteq> sr_tag_name r"
    for b user tag
    using that by (auto simp: setIgnored_def setVersionIgnored_spec split: option.splits)
  have spelled: "shouldNotify i \<longleftrightarrow> is_admin (ui_user i)
      \<and> (\<exists>v r. current_version i = Some v \<and> known_release i = Some r
            \<and> compareSystemVersions v (sr_tag_name r) = Some (-1))
      \<and> \<not> isIgnored i"
    by (simp add: shouldNotify_def update)
  have "\<not> shouldNotify (setIgnored True i)" "shouldNotify (setIgnored False i) \<longleftrightarrow> is_admin (ui_user i) \<and> hasUpdate i"
    using chosen by (auto simp: shouldNotify_def kept same)
  with spelled others show ?thesis by blast
qed

definition notified_admin :: update_inputs where
  "notified_admin =
     \<lparr>ui_user = Some \<lparr>user_id = num 7, user_username = [], user_role = num 10, user_fields = []\<rparr>,
      ui_online = True, ui_visible = True, ui_version = Some (js ''v1.0.0''),
      ui_data = Some \<lparr>us_release = Some \<lparr>sr_tag_name = js ''v1.1.0'', sr_name = JUndefined, sr_body = JUndefined,
          sr_published_at = JUndefined, sr_prerelease = False\<rparr>,
        us_lastCheckedAt = num 5, us_lastAttemptAt = num 5, us_error = None\<rparr>,
      ui_ignored = []\<rparr>"

theorem update_notification_witness:
  "shouldNotify notified_admin
   \<and> is_ignored (ui_ignored (setIgnored True notified_admin)) (js ''7'') (js ''v1.0.5'')
       = is_ignored (ui_ignored notified_admin) (js ''7'') (js ''v1.0.5'')"
proof -
  have notified: "shouldNotify notified_admin" by code_simp
  have "\<forall>u r. ui_user notified_admin = Some u \<and> known_release notified_admin = Some r \<longrightarrow>
      js ''7'' \<noteq> js_num_string (user_id u) \<or> js ''v1.0.5'' \<noteq> sr_tag_name r"
    by (simp add: notified_admin_def known_release_def)
  with update_notification [of notified_admin] notified show ?thesis by blast
qed

text \<open>A check is never due sooner than a second after the last look at the clock.\<close>

theorem refetch_interval_bounded:
  "refetch_interval fetching now data = Some x \<Longrightarrow> x = NaN \<or> js_le (num 1000) x"
  by (auto simp: refetch_interval_def js_max_def js_le_def split: if_splits)

end
