(* ===== verification/ModelMapping.thy ===== *)
theory ModelMapping
  imports JsValue "HOL-Library.AList"
begin

text \<open>
  \<open>features/channels/lib/model-mapping-rules.ts\<close>: the pairs of a naming rule, and their merge into a
  mapping document. Properties have ordinary names, whose order in an object is the order of insertion.
\<close>

section \<open>Naming rules\<close>

record ModelMappingPair =
  mp_from :: jstr
  mp_to :: jstr

datatype ModelMappingDirection = Upstream | Request

datatype ModelMappingRule =
    Strip_prefix jstr
  | Strip_suffix jstr
  | Add_prefix jstr
  | Add_suffix jstr
  | Replace jstr jstr

record ModelMappingDerivation =
  md_pairs :: "ModelMappingPair list"
  md_unchanged :: "jstr list"
  md_conflicts :: "jstr list"

text \<open>\<open>rule.values.split(',').map(trim).filter(Boolean)\<close>; the other rules have none.\<close>

definition affixes :: "ModelMappingRule \<Rightarrow> jstr list" where
  "affixes rule =
     (case rule of
        Strip_prefix vs \<Rightarrow> filter (\<lambda>v. v \<noteq> []) (map trim (split_at 44 vs))
      | Strip_suffix vs \<Rightarrow> filter (\<lambda>v. v \<noteq> []) (map trim (split_at 44 vs))
      | _ \<Rightarrow> [])"

definition endsWith :: "jstr \<Rightarrow> jstr \<Rightarrow> bool" where
  "endsWith s p \<longleftrightarrow> startsWith (rev s) (rev p)"

text \<open>
  The replacement of a match at \<open>pos\<close>: \<open>$$\<close> is a dollar, \<open>$&\<close> the match, and a dollar with a backquote or a
  quote the text before or after the match; there are no groups.
\<close>

fun substitution :: "jstr \<Rightarrow> nat \<Rightarrow> jstr \<Rightarrow> jstr \<Rightarrow> jstr" where
  "substitution s pos pat [] = []"
| "substitution s pos pat [c] = [c]"
| "substitution s pos pat (c # d # r) =
     (if c = 36 \<and> d = 36 then 36 # substitution s pos pat r
      else if c = 36 \<and> d = 38 then pat @ substitution s pos pat r
      else if c = 36 \<and> d = 96 then take pos s @ substitution s pos pat r
      else if c = 36 \<and> d = 39 then drop (pos + length pat) s @ substitution s pos pat r
      else c # substitution s pos pat (d # r))"

text \<open>\<open>s.replaceAll(pat, replacement)\<close> from position \<open>i\<close>, for a pattern that is not empty.\<close>

function replace_from :: "jstr \<Rightarrow> jstr \<Rightarrow> jstr \<Rightarrow> nat \<Rightarrow> jstr" where
  "replace_from s pat replacement i =
     (if i \<ge> length s \<or> pat = [] then drop i s
      else if startsWith (drop i s) pat
        then substitution s i pat replacement @ replace_from s pat replacement (i + length pat)
      else s ! i # replace_from s pat replacement (i + 1))"
  by auto
termination by (relation "measure (\<lambda>(s, pat, r, i). length s - i)") (auto intro!: diff_less_mono2)

declare replace_from.simps [simp del]

definition apply_rule :: "ModelMappingRule \<Rightarrow> jstr \<Rightarrow> jstr" where
  "apply_rule rule model =
     (case rule of
        Strip_prefix vs \<Rightarrow>
          (case find (startsWith model) (affixes rule) of
             Some prefix \<Rightarrow> drop (length prefix) model | None \<Rightarrow> model)
      | Strip_suffix vs \<Rightarrow>
          (case find (endsWith model) (affixes rule) of
             Some suffix \<Rightarrow> take (length model - length suffix) model | None \<Rightarrow> model)
      | Add_prefix v \<Rightarrow> v @ model
      | Add_suffix v \<Rightarrow> model @ v
      | Replace pat replacement \<Rightarrow> if pat \<noteq> [] then replace_from model pat replacement 0 else model)"

definition derived_name :: "ModelMappingRule \<Rightarrow> jstr \<Rightarrow> jstr" where
  "derived_name rule model = trim (apply_rule rule model)"

definition mapping_pair :: "ModelMappingDirection \<Rightarrow> jstr \<Rightarrow> jstr \<Rightarrow> ModelMappingPair" where
  "mapping_pair direction model derived =
     (case direction of
        Upstream \<Rightarrow> \<lparr>mp_from = derived, mp_to = model\<rparr>
      | Request \<Rightarrow> \<lparr>mp_from = model, mp_to = derived\<rparr>)"

text \<open>The loop, with the set of models seen; the request names taken are those of the pairs.\<close>

record derivation_state =
  ds_seen :: "jstr list"
  ds_requestNames :: "jstr list"
  ds_result :: ModelMappingDerivation

definition derivation_step ::
  "ModelMappingDirection \<Rightarrow> ModelMappingRule \<Rightarrow> derivation_state \<Rightarrow> jstr \<Rightarrow> derivation_state" where
  "derivation_step direction rule s raw =
     (let model = trim raw; result = ds_result s in
      if model = [] \<or> model \<in> set (ds_seen s) then s
      else
        let s = s\<lparr>ds_seen := ds_seen s @ [model]\<rparr>; derived = derived_name rule model in
        if derived = [] \<or> derived = model
        then s\<lparr>ds_result := result\<lparr>md_unchanged := md_unchanged result @ [model]\<rparr>\<rparr>
        else let pair = mapping_pair direction model derived in
          if mp_from pair \<in> set (ds_requestNames s)
          then s\<lparr>ds_result := result\<lparr>md_conflicts := md_conflicts result @ [model]\<rparr>\<rparr>
          else s\<lparr>ds_requestNames := ds_requestNames s @ [mp_from pair],
                 ds_result := result\<lparr>md_pairs := md_pairs result @ [pair]\<rparr>\<rparr>)"

definition initial_derivation :: derivation_state where
  "initial_derivation =
     \<lparr>ds_seen = [], ds_requestNames = [], ds_result = \<lparr>md_pairs = [], md_unchanged = [], md_conflicts = []\<rparr>\<rparr>"

definition deriveModelMappingPairs ::
  "jstr list \<Rightarrow> ModelMappingDirection \<Rightarrow> ModelMappingRule \<Rightarrow> ModelMappingDerivation" where
  "deriveModelMappingPairs models direction rule =
     ds_result (foldl (derivation_step direction rule) initial_derivation models)"

text \<open>A replacement is not taken literally: two dollars become one.\<close>

lemma dollar_replacement: "apply_rule (Replace (js ''a'') (js ''$$'')) (js ''xa'') = js ''x$''"
  by code_simp

section \<open>Mapping documents\<close>

text \<open>The text of a value in a mapping document; the others make the document invalid.\<close>

definition mapping_entry :: "jstr \<times> jsvalue \<Rightarrow> (jstr \<times> jstr) option" where
  "mapping_entry e = (case snd e of JStr v \<Rightarrow> Some (fst e, v) | _ \<Rightarrow> None)"

text \<open>
  \<open>mergeModelMappingPairs\<close> between its parsing and its printing: \<open>None\<close> is the parsed value of blank text.
  The result is the entries of the merged object, or \<open>None\<close> where the document is no mapping.
\<close>

definition merge_mapping ::
  "jsvalue option \<Rightarrow> ModelMappingPair list \<Rightarrow> (jstr \<times> jstr) list option" where
  "merge_mapping document pairs =
     (case (case document of
              None \<Rightarrow> Some []
            | Some (JObj entries) \<Rightarrow> all_some (map mapping_entry entries)
            | Some _ \<Rightarrow> None) of
        None \<Rightarrow> None
      | Some mapping \<Rightarrow> Some (fold (\<lambda>p. AList.update (mp_from p) (mp_to p)) pairs mapping))"

section \<open>Every model is classified once\<close>

text \<open>The model a pair comes from, on the side of the direction.\<close>

definition pair_model :: "ModelMappingDirection \<Rightarrow> ModelMappingPair \<Rightarrow> jstr" where
  "pair_model direction p = (case direction of Upstream \<Rightarrow> mp_to p | Request \<Rightarrow> mp_from p)"

definition pair_ok :: "ModelMappingDirection \<Rightarrow> ModelMappingRule \<Rightarrow> ModelMappingPair \<Rightarrow> bool" where
  "pair_ok direction rule p \<longleftrightarrow>
     (let model = pair_model direction p; derived = derived_name rule model in
      derived \<noteq> [] \<and> derived \<noteq> model \<and> p = mapping_pair direction model derived)"

definition classified :: "ModelMappingDirection \<Rightarrow> ModelMappingDerivation \<Rightarrow> jstr list" where
  "classified direction d = map (pair_model direction) (md_pairs d) @ md_unchanged d @ md_conflicts d"

definition derivation_ok ::
  "ModelMappingDirection \<Rightarrow> ModelMappingRule \<Rightarrow> derivation_state \<Rightarrow> bool" where
  "derivation_ok direction rule s \<longleftrightarrow>
     (let d = ds_result s in
      distinct (classified direction d) \<and> set (classified direction d) = set (ds_seen s)
      \<and> ds_requestNames s = map mp_from (md_pairs d) \<and> distinct (map mp_from (md_pairs d))
      \<and> list_all (pair_ok direction rule) (md_pairs d)
      \<and> (\<forall>m \<in> set (md_conflicts d). mp_from (mapping_pair direction m (derived_name rule m)) \<in> set (map mp_from (md_pairs d)))
      \<and> (\<forall>m \<in> set (md_unchanged d). derived_name rule m \<in> {[], m}))"

lemma pair_model_mapping_pair [simp]: "pair_model direction (mapping_pair direction m d) = m"
  by (cases direction) (simp_all add: pair_model_def mapping_pair_def)

lemma derivation_step_ok:
  assumes "derivation_ok direction rule s"
  shows "derivation_ok direction rule (derivation_step direction rule s raw)
    \<and> set (ds_seen (derivation_step direction rule s raw)) = set (ds_seen s) \<union> ({trim raw} - {[]})"
  using assms
  by (auto simp: derivation_ok_def derivation_step_def classified_def pair_ok_def Let_def)

lemma derivation_fold_ok:
  "derivation_ok direction rule (foldl (derivation_step direction rule) initial_derivation models)
   \<and> set (ds_seen (foldl (derivation_step direction rule) initial_derivation models)) = trim ` set models - {[]}"
proof (induction models rule: rev_induct)
  case Nil
  then show ?case by (simp add: initial_derivation_def derivation_ok_def classified_def)
next
  case (snoc raw models)
  then show ?case using derivation_step_ok [of direction rule] by auto
qed

section \<open>The merged document\<close>

definition put_pairs :: "ModelMappingPair list \<Rightarrow> (jstr \<times> jstr) list \<Rightarrow> (jstr \<times> jstr) list" where
  "put_pairs pairs mapping = fold (\<lambda>p. AList.update (mp_from p) (mp_to p)) pairs mapping"

lemma put_pairs_simps [simp]:
  "put_pairs [] mapping = mapping"
  "put_pairs (p # ps) mapping = put_pairs ps (AList.update (mp_from p) (mp_to p) mapping)"
  by (simp_all add: put_pairs_def)

definition pair_entry :: "ModelMappingPair \<Rightarrow> jstr \<times> jstr" where
  "pair_entry p = (mp_from p, mp_to p)"

lemma put_pairs_lookup:
  "distinct (map mp_from pairs) \<Longrightarrow>
   map_of (put_pairs pairs mapping) name = (map_of mapping ++ map_of (map pair_entry pairs)) name"
proof (induction pairs arbitrary: mapping)
  case (Cons p ps)
  have "map_of (map pair_entry ps) (mp_from p) = None"
    using Cons.prems by (auto simp: map_of_eq_None_iff pair_entry_def)
  with Cons show ?case
    by (auto simp: pair_entry_def [of p] map_add_def update_conv' split: option.split)
qed simp

lemma put_pairs_keys: "\<exists>new. map fst (put_pairs pairs mapping) = map fst mapping @ new"
proof (induction pairs arbitrary: mapping)
  case (Cons p ps)
  from Cons.IH [of "AList.update (mp_from p) (mp_to p) mapping"] show ?case
    by (auto simp: update_keys split: if_splits)
qed simp

lemma merge_mapping_put: "merge_mapping document pairs = map_option (put_pairs pairs) (merge_mapping document [])"
  by (simp add: merge_mapping_def put_pairs_def split: option.split jsvalue.split)

text \<open>
  C40: Applying a naming rule classifies every non-blank selected model exactly once, as a pair, as
  unchanged or as a conflict; the pairs are those of the rule and no two share a request name, which a
  conflict's would. Merged into a mapping document, each pair's request name maps to its upstream name,
  every other name as before, and the names of the document keep their places in front.
\<close>

theorem model_mapping_derived:
  assumes "d = deriveModelMappingPairs models direction rule" "merge_mapping document (md_pairs d) = Some merged"
  shows "distinct (classified direction d) \<and> set (classified direction d) = trim ` set models - {[]}
    \<and> list_all (pair_ok direction rule) (md_pairs d) \<and> distinct (map mp_from (md_pairs d))
    \<and> (\<forall>m \<in> set (md_conflicts d).
          mp_from (mapping_pair direction m (derived_name rule m)) \<in> set (map mp_from (md_pairs d)))
    \<and> (\<exists>mapping new. merge_mapping document [] = Some mapping
        \<and> map_of merged = map_of mapping ++ map_of (map pair_entry (md_pairs d))
        \<and> map fst merged = map fst mapping @ new)"
proof -
  have ok: "derivation_ok direction rule (foldl (derivation_step direction rule) initial_derivation models)"
    and seen: "set (ds_seen (foldl (derivation_step direction rule) initial_derivation models)) = trim ` set models - {[]}"
    using derivation_fold_ok by blast+
  have d: "d = ds_result (foldl (derivation_step direction rule) initial_derivation models)"
    using assms(1) by (simp add: deriveModelMappingPairs_def)
  from assms(2) obtain mapping where mapping: "merge_mapping document [] = Some mapping"
    and merged: "merged = put_pairs (md_pairs d) mapping"
    by (subst (asm) merge_mapping_put) auto
  have "distinct (map mp_from (md_pairs d))"
    using ok by (simp add: derivation_ok_def d Let_def)
  then have "map_of merged = map_of mapping ++ map_of (map pair_entry (md_pairs d))"
    unfolding merged by (intro ext) (rule put_pairs_lookup)
  then show ?thesis
    using ok seen mapping put_pairs_keys [of "md_pairs d" mapping]
    by (simp add: derivation_ok_def d [symmetric] merged Let_def)
qed

theorem model_mapping_derived_witness:
  "map_of (put_pairs [\<lparr>mp_from = js ''b'', mp_to = js ''a-b''\<rparr>] [(js ''x'', js ''y'')]) (js ''b'') = Some (js ''a-b'')"
proof -
  let ?d = "deriveModelMappingPairs [js ''a-b'', js '' '', js ''c''] Upstream (Strip_prefix (js ''z,a-''))"
  let ?doc = "Some (JObj [(js ''x'', JStr (js ''y''))])"
  let ?merged = "put_pairs [\<lparr>mp_from = js ''b'', mp_to = js ''a-b''\<rparr>] [(js ''x'', js ''y'')]"
  have "merge_mapping ?doc (md_pairs ?d) = Some ?merged" by code_simp
  from model_mapping_derived [OF refl this] obtain mapping
    where "map_of ?merged = map_of mapping ++ map_of (map pair_entry (md_pairs ?d))" by blast
  moreover have "map pair_entry (md_pairs ?d) = [(js ''b'', js ''a-b'')]" by code_simp
  ultimately show ?thesis by simp
qed

end
