(* ===== verification/AdvancedCustom.thy ===== *)
theory AdvancedCustom
  imports Prelude
begin

text \<open>
  \<open>features/channels/lib/advanced-custom.ts\<close>: the routes of a custom channel, their normalization and
  validation, the management routes, the defaults of converters. The texts of JSON documents are their
  values, and \<open>new URL\<close> is a parameter: the protocol and the host of a text that is a URL.
\<close>

section \<open>Routes\<close>

record AdvancedCustomRouteAuth =
  ra_type :: "jstr option"
  ra_name :: "jstr option"
  ra_value :: "jstr option"

record AdvancedCustomRoute =
  cr_incoming_path :: "jstr option"
  cr_upstream_path :: "jstr option"
  cr_converter :: "jstr option"
  cr_models :: "jstr list option"
  cr_auth :: "AdvancedCustomRouteAuth option"
  cr_pass_through :: "bool option"

record AdvancedCustomConfig =
  advanced_routes :: "AdvancedCustomRoute list option"

record AdvancedCustomValidationError =
  ve_message :: jstr
  ve_routeIndex :: "nat option"

text \<open>\<open>value || fallback\<close> on an optional text.\<close>

definition or_else :: "jstr option \<Rightarrow> jstr \<Rightarrow> jstr" where
  "or_else x fallback = (case x of None \<Rightarrow> fallback | Some s \<Rightarrow> if s = [] then fallback else s)"

definition MODEL_LIST_PATH :: jstr where
  "MODEL_LIST_PATH = js ''/v1/models''"

definition BALANCE_PATH :: jstr where
  "BALANCE_PATH = js ''/v1/dashboard/billing/credit_grants''"

text \<open>The converters, with their labels and the labels of their triggers.\<close>

definition converter_options :: "(jstr \<times> jstr \<times> jstr) list" where
  "converter_options =
     [(js ''none'', js ''Native forwarding'', js ''Native forwarding''),
      (js ''anthropic_messages_to_openai_chat_completions'', js ''Anthropic Messages to OpenAI Chat'',
       js ''To OpenAI Chat''),
      (js ''openai_chat_completions_to_anthropic_messages'', js ''OpenAI Chat to Anthropic Messages'',
       js ''To Anthropic Messages''),
      (js ''openai_chat_completions_to_openai_responses'', js ''OpenAI Chat to OpenAI Responses'',
       js ''To OpenAI Responses''),
      (js ''openai_responses_to_openai_chat_completions'', js ''OpenAI Responses to OpenAI Chat'',
       js ''To OpenAI Chat''),
      (js ''openai_responses_to_gemini_generate_content'', js ''OpenAI Responses to Gemini Generate Content'',
       js ''To Gemini Generate Content''),
      (js ''gemini_generate_content_to_openai_chat_completions'', js ''Gemini Generate Content to OpenAI Chat'',
       js ''To OpenAI Chat''),
      (js ''openai_chat_completions_to_gemini_generate_content'', js ''OpenAI Chat to Gemini Generate Content'',
       js ''To Gemini Generate Content'')]"

definition incoming_path_options :: "(jstr \<times> jstr) list" where
  "incoming_path_options =
     [(js ''/v1/chat/completions'', js ''OpenAI Chat''), (js ''/v1/responses'', js ''OpenAI Responses''),
      (js ''/v1/responses/compact'', js ''OpenAI Responses Compact''),
      (js ''/v1/alpha/search'', js ''Codex Alpha Search''), (js ''/v1/embeddings'', js ''OpenAI Embeddings''),
      (js ''/v1/images/generations'', js ''OpenAI Image Generations''),
      (js ''/v1/images/edits'', js ''OpenAI Image Edits''), (js ''/v1/completions'', js ''OpenAI Completions''),
      (js ''/v1/audio/speech'', js ''OpenAI Audio Speech''),
      (js ''/v1/audio/transcriptions'', js ''OpenAI Audio Transcriptions''),
      (js ''/v1/audio/translations'', js ''OpenAI Audio Translations''), (js ''/v1/rerank'', js ''Rerank''),
      (js ''/v1/realtime'', js ''OpenAI Realtime''), (js ''/v1/messages'', js ''Claude Messages''),
      (js ''/v1beta/models/{model}:generateContent'', js ''Gemini Generate Content''),
      (js ''/v1beta/models/{model}:embedContent'', js ''Gemini Embed Content''),
      (js ''/v1beta/models/{model}:batchEmbedContents'', js ''Gemini Batch Embed Contents'')]"

definition route_summary_labels :: "(jstr \<times> jstr) list" where
  "route_summary_labels =
     [(js ''/v1/chat/completions'', js ''OpenAI Chat''), (MODEL_LIST_PATH, js ''OpenAI Models''),
      (BALANCE_PATH, js ''Balance Query'')]"

definition header_auth :: "jstr \<Rightarrow> jstr \<Rightarrow> AdvancedCustomRouteAuth" where
  "header_auth name val = \<lparr>ra_type = Some (js ''header''), ra_name = Some name, ra_value = Some val\<rparr>"

definition bearerHeaderAuth :: AdvancedCustomRouteAuth where
  "bearerHeaderAuth = header_auth (js ''Authorization'') (js ''Bearer {api_key}'')"

definition apiKeyHeaderAuth :: AdvancedCustomRouteAuth where
  "apiKeyHeaderAuth = header_auth (js ''x-api-key'') (js ''{api_key}'')"

definition geminiQueryAuth :: AdvancedCustomRouteAuth where
  "geminiQueryAuth =
     \<lparr>ra_type = Some (js ''query''), ra_name = Some (js ''key''), ra_value = Some (js ''{api_key}'')\<rparr>"

section \<open>Normalization\<close>

definition getAdvancedCustomRouteUpstreamPath :: "AdvancedCustomRoute \<Rightarrow> jstr" where
  "getAdvancedCustomRouteUpstreamPath route = trim (or_else (cr_upstream_path route) [])"

definition normalizeAdvancedCustomRouteModels :: "jstr list option \<Rightarrow> jstr list" where
  "normalizeAdvancedCustomRouteModels models =
     (case models of None \<Rightarrow> [] | Some ms \<Rightarrow> filter (\<lambda>m. m \<noteq> []) (map trim ms))"

definition normalizeAdvancedCustomRoute :: "AdvancedCustomRoute \<Rightarrow> AdvancedCustomRoute" where
  "normalizeAdvancedCustomRoute route =
     (let models = normalizeAdvancedCustomRouteModels (cr_models route) in
      \<lparr>cr_incoming_path = Some (or_else (cr_incoming_path route) []),
       cr_upstream_path = Some (getAdvancedCustomRouteUpstreamPath route),
       cr_converter = Some (or_else (cr_converter route) (js ''none'')),
       cr_models = (if models \<noteq> [] then Some models else None),
       cr_auth = map_option (\<lambda>a. \<lparr>ra_type = ra_type a, ra_name = Some (or_else (ra_name a) []),
                                   ra_value = Some (or_else (ra_value a) [])\<rparr>) (cr_auth route),
       cr_pass_through = (if cr_pass_through route = Some True then Some True else None)\<rparr>)"

definition normalized_routes :: "AdvancedCustomConfig \<Rightarrow> AdvancedCustomRoute list" where
  "normalized_routes config =
     (case advanced_routes config of None \<Rightarrow> [] | Some rs \<Rightarrow> map normalizeAdvancedCustomRoute rs)"

definition normalizeAdvancedCustomConfig :: "AdvancedCustomConfig \<Rightarrow> AdvancedCustomConfig" where
  "normalizeAdvancedCustomConfig config = \<lparr>advanced_routes = Some (normalized_routes config)\<rparr>"

definition route_path :: "AdvancedCustomRoute \<Rightarrow> jstr" where
  "route_path route = (case cr_incoming_path route of None \<Rightarrow> [] | Some p \<Rightarrow> trim p)"

definition isAdvancedCustomManagementPath :: "jstr \<Rightarrow> bool" where
  "isAdvancedCustomManagementPath path \<longleftrightarrow> path = MODEL_LIST_PATH \<or> path = BALANCE_PATH"

section \<open>Converters and authentication\<close>

definition isAdvancedCustomConverter :: "jstr \<Rightarrow> bool" where
  "isAdvancedCustomConverter v \<longleftrightarrow> v \<in> set (map fst converter_options)"

definition generates_content :: "jstr \<Rightarrow> bool" where
  "generates_content path \<longleftrightarrow>
     str_includes path (js '':generateContent'') \<or> str_includes path (js '':streamGenerateContent'')"

definition isConverterPathAllowed :: "jstr \<Rightarrow> jstr \<Rightarrow> bool" where
  "isConverterPathAllowed incomingPath converter \<longleftrightarrow>
     (if converter = js ''none'' then True
      else if incomingPath = js ''/v1/alpha/search'' then False
      else if converter = js ''anthropic_messages_to_openai_chat_completions'' then incomingPath = js ''/v1/messages''
      else if converter = js ''openai_chat_completions_to_anthropic_messages''
          \<or> converter = js ''openai_chat_completions_to_openai_responses''
          \<or> converter = js ''openai_chat_completions_to_gemini_generate_content''
        then incomingPath = js ''/v1/chat/completions''
      else if converter = js ''openai_responses_to_openai_chat_completions'' then incomingPath = js ''/v1/responses''
      else if converter = js ''openai_responses_to_gemini_generate_content'' then incomingPath = js ''/v1/responses''
      else generates_content incomingPath)"

definition isAdvancedCustomPassThroughAllowed :: "jstr \<Rightarrow> bool" where
  "isAdvancedCustomPassThroughAllowed converter \<longleftrightarrow> converter = js ''none''"

text \<open>The message of an invalid authentication; a name or value that is blank is missing.\<close>

definition blank :: "jstr option \<Rightarrow> bool" where
  "blank x \<longleftrightarrow> (case x of None \<Rightarrow> True | Some s \<Rightarrow> trim s = [])"

definition validateRouteAuth :: "AdvancedCustomRouteAuth option \<Rightarrow> jstr option" where
  "validateRouteAuth auth =
     (case auth of
        None \<Rightarrow> None
      | Some a \<Rightarrow>
          if ra_type a = Some (js ''none'') then None
          else if ra_type a \<noteq> Some (js ''header'') \<and> ra_type a \<noteq> Some (js ''query'') then Some (js ''Auth type is invalid'')
          else if blank (ra_name a) then Some (js ''Auth name is required'')
          else if blank (ra_value a) then Some (js ''Auth value is required'')
          else None)"

definition isFullHttpURLOrAbsolutePath :: "(jstr \<Rightarrow> (jstr \<times> jstr) option) \<Rightarrow> jstr \<Rightarrow> bool" where
  "isFullHttpURLOrAbsolutePath new_URL v \<longleftrightarrow>
     (if startsWith v (js ''/'') then \<not> startsWith v (js ''//'')
      else case new_URL v of
          None \<Rightarrow> False
        | Some (protocol, host) \<Rightarrow> host \<noteq> [] \<and> (protocol = js ''http:'' \<or> protocol = js ''https:''))"

section \<open>Validation\<close>

definition is_regex_rule :: "jstr \<Rightarrow> bool" where
  "is_regex_rule rule \<longleftrightarrow> startsWith rule (js ''re:'')"

definition getAdvancedCustomRegexModelPattern :: "jstr \<Rightarrow> jstr" where
  "getAdvancedCustomRegexModelPattern rule = drop 3 rule"

text \<open>What is known of an incoming path: the index of its catch-all route, and of each model.\<close>

record path_rules =
  pr_catchAllIndex :: "nat option"
  pr_models :: "jstr \<rightharpoonup> nat"

record validation_state =
  vs_paths :: "jstr \<rightharpoonup> path_rules"
  vs_modelListIndex :: "nat option"
  vs_balanceIndex :: "nat option"

definition empty_rules :: path_rules where
  "empty_rules = \<lparr>pr_catchAllIndex = None, pr_models = Map.empty\<rparr>"

definition rules_of :: "validation_state \<Rightarrow> jstr \<Rightarrow> path_rules" where
  "rules_of s path = (case vs_paths s path of None \<Rightarrow> empty_rules | Some r \<Rightarrow> r)"

fun add_models :: "nat \<Rightarrow> jstr list \<Rightarrow> jstr list \<Rightarrow> (jstr \<rightharpoonup> nat) \<Rightarrow> jstr + (jstr \<rightharpoonup> nat)" where
  "add_models index seen [] known = Inr known"
| "add_models index seen (model # models) known =
     (if is_regex_rule model \<and> getAdvancedCustomRegexModelPattern model = [] then Inl (js ''Model regex cannot be empty'')
      else if model \<in> set seen then Inl (js ''Duplicate model in route models'')
      else if known model \<noteq> None then Inl (js ''Route models must be unique for the same incoming path'')
      else add_models index (model # seen) models (known(model \<mapsto> index)))"

definition validateAdvancedCustomRouteModels ::
  "nat \<Rightarrow> jstr \<Rightarrow> jstr list \<Rightarrow> validation_state \<Rightarrow> jstr + validation_state" where
  "validateAdvancedCustomRouteModels index path models s =
     (let rules = rules_of s path in
      if models = [] then
        (if pr_catchAllIndex rules \<noteq> None
         then Inl (js ''Only one catch-all route is allowed for the same incoming path'')
         else Inr (s\<lparr>vs_paths := (vs_paths s)(path \<mapsto> rules\<lparr>pr_catchAllIndex := Some index\<rparr>)\<rparr>))
      else if pr_catchAllIndex rules \<noteq> None then Inl (js ''Catch-all route must be last for the same incoming path'')
      else (case add_models index [] models (pr_models rules) of
          Inl e \<Rightarrow> Inl e
        | Inr known \<Rightarrow> Inr (s\<lparr>vs_paths := (vs_paths s)(path \<mapsto> rules\<lparr>pr_models := known\<rparr>)\<rparr>)))"

definition validate_management ::
  "nat \<Rightarrow> AdvancedCustomRoute \<Rightarrow> validation_state \<Rightarrow> jstr + validation_state" where
  "validate_management index route s =
     (let path = route_path route; isModelListRoute = (path = MODEL_LIST_PATH);
          existing = (if isModelListRoute then vs_modelListIndex s else vs_balanceIndex s);
          label = (if isModelListRoute then js ''OpenAI Models'' else js ''Balance Query'')
      in if \<not> isAdvancedCustomManagementPath path then Inr s
         else if existing \<noteq> None then Inl (js ''Only one '' @ label @ js '' route is allowed'')
         else if normalizeAdvancedCustomRouteModels (cr_models route) \<noteq> []
           then Inl (label @ js '' route does not support client model rules'')
         else if or_else (cr_converter route) (js ''none'') \<noteq> js ''none''
           then Inl (label @ js '' route must use native forwarding'')
         else if str_includes (getAdvancedCustomRouteUpstreamPath route) (js ''{model}'')
           then Inl (label @ js '' upstream path must not contain {model}'')
         else if cr_pass_through route = Some True then Inl (label @ js '' route does not support pass-through'')
         else Inr (if isModelListRoute then s\<lparr>vs_modelListIndex := Some index\<rparr> else s\<lparr>vs_balanceIndex := Some index\<rparr>))"

definition validate_route ::
  "(jstr \<Rightarrow> (jstr \<times> jstr) option) \<Rightarrow> nat \<Rightarrow> AdvancedCustomRoute \<Rightarrow> validation_state \<Rightarrow> jstr + validation_state" where
  "validate_route new_URL index route s =
     (let path = route_path route; upstream = getAdvancedCustomRouteUpstreamPath route;
          converter = or_else (cr_converter route) (js ''none'') in
      if path = [] then Inl (js ''Incoming path is required'')
      else if \<not> startsWith path (js ''/'') then Inl (js ''Incoming path must start with /'')
      else if str_includes path (js ''?'') then Inl (js ''Incoming path must not include query'')
      else andThen (validate_management index route s) (\<lambda>s.
        andThen (validateAdvancedCustomRouteModels index path (normalizeAdvancedCustomRouteModels (cr_models route)) s) (\<lambda>s.
          if upstream = [] then Inl (js ''Upstream path is required'')
          else if \<not> isFullHttpURLOrAbsolutePath new_URL upstream
            then Inl (js ''Upstream path must be a full URL or a path starting with /'')
          else if \<not> isAdvancedCustomConverter converter then Inl (js ''Converter is not registered'')
          else if \<not> isConverterPathAllowed path converter then Inl (js ''Converter does not match incoming path'')
          else if cr_pass_through route = Some True \<and> \<not> isAdvancedCustomPassThroughAllowed converter
            then Inl (js ''Pass-through requires native forwarding'')
          else (case validateRouteAuth (cr_auth route) of Some e \<Rightarrow> Inl e | None \<Rightarrow> Inr s))))"

fun validate_routes ::
  "(jstr \<Rightarrow> (jstr \<times> jstr) option) \<Rightarrow> nat \<Rightarrow> AdvancedCustomRoute list \<Rightarrow> validation_state
    \<Rightarrow> AdvancedCustomValidationError option" where
  "validate_routes new_URL index [] s = None"
| "validate_routes new_URL index (route # routes) s =
     (case validate_route new_URL index route s of
        Inl message \<Rightarrow> Some \<lparr>ve_message = message, ve_routeIndex = Some index\<rparr>
      | Inr s' \<Rightarrow> validate_routes new_URL (index + 1) routes s')"

definition initial_validation :: validation_state where
  "initial_validation = \<lparr>vs_paths = Map.empty, vs_modelListIndex = None, vs_balanceIndex = None\<rparr>"

definition validateAdvancedCustomConfig ::
  "(jstr \<Rightarrow> (jstr \<times> jstr) option) \<Rightarrow> AdvancedCustomConfig option \<Rightarrow> AdvancedCustomValidationError option" where
  "validateAdvancedCustomConfig new_URL config =
     (case config of
        None \<Rightarrow> Some \<lparr>ve_message = js ''Advanced custom configuration is required'', ve_routeIndex = None\<rparr>
      | Some c \<Rightarrow>
          if normalized_routes c = []
          then Some \<lparr>ve_message = js ''Advanced custom configuration requires at least one route'', ve_routeIndex = None\<rparr>
          else validate_routes new_URL 0 (normalized_routes c) initial_validation)"

section \<open>What an accepted configuration is\<close>

definition route_models :: "AdvancedCustomRoute \<Rightarrow> jstr list" where
  "route_models route = normalizeAdvancedCustomRouteModels (cr_models route)"

definition route_converter :: "AdvancedCustomRoute \<Rightarrow> jstr" where
  "route_converter route = or_else (cr_converter route) (js ''none'')"

definition empty_regex :: "jstr \<Rightarrow> bool" where
  "empty_regex model \<longleftrightarrow> is_regex_rule model \<and> getAdvancedCustomRegexModelPattern model = []"

definition management_ok :: "AdvancedCustomRoute \<Rightarrow> bool" where
  "management_ok r \<longleftrightarrow> isAdvancedCustomManagementPath (route_path r) \<longrightarrow>
     route_models r = [] \<and> route_converter r = js ''none''
     \<and> \<not> str_includes (getAdvancedCustomRouteUpstreamPath r) (js ''{model}'') \<and> cr_pass_through r \<noteq> Some True"

definition models_ok :: "AdvancedCustomRoute \<Rightarrow> bool" where
  "models_ok r \<longleftrightarrow> distinct (route_models r) \<and> list_all (\<lambda>m. \<not> empty_regex m) (route_models r)"

definition path_ok :: "AdvancedCustomRoute \<Rightarrow> bool" where
  "path_ok r \<longleftrightarrow> route_path r \<noteq> [] \<and> startsWith (route_path r) (js ''/'') \<and> \<not> str_includes (route_path r) (js ''?'')"

definition target_ok :: "(jstr \<Rightarrow> (jstr \<times> jstr) option) \<Rightarrow> AdvancedCustomRoute \<Rightarrow> bool" where
  "target_ok new_URL r \<longleftrightarrow>
     getAdvancedCustomRouteUpstreamPath r \<noteq> []
     \<and> isFullHttpURLOrAbsolutePath new_URL (getAdvancedCustomRouteUpstreamPath r)
     \<and> isAdvancedCustomConverter (route_converter r) \<and> isConverterPathAllowed (route_path r) (route_converter r)
     \<and> (cr_pass_through r = Some True \<longrightarrow> route_converter r = js ''none'') \<and> validateRouteAuth (cr_auth r) = None"

definition route_ok :: "(jstr \<Rightarrow> (jstr \<times> jstr) option) \<Rightarrow> AdvancedCustomRoute \<Rightarrow> bool" where
  "route_ok new_URL r \<longleftrightarrow> path_ok r \<and> management_ok r \<and> models_ok r \<and> target_ok new_URL r"

text \<open>
  An earlier and a later route do not claim the same requests: on one path the earlier names its models,
  and the later names others or is the catch-all.
\<close>

definition compatible :: "AdvancedCustomRoute \<Rightarrow> AdvancedCustomRoute \<Rightarrow> bool" where
  "compatible r q \<longleftrightarrow>
     (route_path r = route_path q \<longrightarrow> route_models r \<noteq> [] \<and> set (route_models r) \<inter> set (route_models q) = {})"

definition well_formed_routes :: "(jstr \<Rightarrow> (jstr \<times> jstr) option) \<Rightarrow> AdvancedCustomRoute list \<Rightarrow> bool" where
  "well_formed_routes new_URL rs \<longleftrightarrow> list_all (route_ok new_URL) rs \<and> sorted_wrt compatible rs"

text \<open>The state after the routes \<open>rs\<close>.\<close>

definition paths_known :: "AdvancedCustomRoute list \<Rightarrow> validation_state \<Rightarrow> bool" where
  "paths_known rs s \<longleftrightarrow> (\<forall>p.
     (pr_catchAllIndex (rules_of s p) \<noteq> None \<longleftrightarrow> (\<exists>r \<in> set rs. route_path r = p \<and> route_models r = []))
     \<and> (\<forall>m. m \<in> dom (pr_models (rules_of s p)) \<longleftrightarrow> (\<exists>r \<in> set rs. route_path r = p \<and> m \<in> set (route_models r))))"

lemma known_catch_all:
  "paths_known rs s \<Longrightarrow>
   pr_catchAllIndex (rules_of s p) = None \<longleftrightarrow> (\<forall>r \<in> set rs. route_path r = p \<longrightarrow> route_models r \<noteq> [])"
  unfolding paths_known_def by blast

lemma known_models:
  "paths_known rs s \<Longrightarrow>
   m \<in> dom (pr_models (rules_of s p)) \<longleftrightarrow> (\<exists>r \<in> set rs. route_path r = p \<and> m \<in> set (route_models r))"
  unfolding paths_known_def by blast

definition represents :: "AdvancedCustomRoute list \<Rightarrow> validation_state \<Rightarrow> bool" where
  "represents rs s \<longleftrightarrow> paths_known rs s \<and> list_all management_ok rs
     \<and> (vs_modelListIndex s \<noteq> None \<longleftrightarrow> (\<exists>r \<in> set rs. route_path r = MODEL_LIST_PATH))
     \<and> (vs_balanceIndex s \<noteq> None \<longleftrightarrow> (\<exists>r \<in> set rs. route_path r = BALANCE_PATH))"

lemma path_constants [simp]: "MODEL_LIST_PATH \<noteq> BALANCE_PATH" "BALANCE_PATH \<noteq> MODEL_LIST_PATH"
  by code_simp+

lemma add_models_Inr:
  "add_models i seen ms known = Inr known' \<Longrightarrow>
   list_all (\<lambda>m. \<not> empty_regex m) ms \<and> distinct ms \<and> set ms \<inter> set seen = {} \<and> set ms \<inter> dom known = {}
   \<and> dom known' = dom known \<union> set ms"
  by (induction i seen ms known rule: add_models.induct)
    (auto simp: empty_regex_def split: if_splits)

lemma add_models_Inl:
  "add_models i seen ms known = Inl e \<Longrightarrow>
   \<not> (list_all (\<lambda>m. \<not> empty_regex m) ms \<and> distinct ms \<and> set ms \<inter> set seen = {} \<and> set ms \<inter> dom known = {})"
  by (induction i seen ms known rule: add_models.induct)
    (auto simp: empty_regex_def split: if_splits)

lemma rules_of_update [simp]:
  "rules_of (s\<lparr>vs_paths := (vs_paths s)(p \<mapsto> r)\<rparr>) q = (if q = p then r else rules_of s q)"
  by (simp add: rules_of_def)

lemma rules_of_indices [simp]:
  "rules_of (s\<lparr>vs_modelListIndex := i\<rparr>) p = rules_of s p" "rules_of (s\<lparr>vs_balanceIndex := i\<rparr>) p = rules_of s p"
  by (simp_all add: rules_of_def)

text \<open>The models of the next route.\<close>

lemma models_step_Inr:
  assumes known: "paths_known rs s"
    and step: "validateAdvancedCustomRouteModels i (route_path r) (route_models r) s = Inr s'"
  shows "models_ok r \<and> (\<forall>q \<in> set rs. compatible q r) \<and> paths_known (rs @ [r]) s'
    \<and> vs_modelListIndex s' = vs_modelListIndex s \<and> vs_balanceIndex s' = vs_balanceIndex s"
proof (cases "route_models r = []")
  case True
  with step have none: "pr_catchAllIndex (rules_of s (route_path r)) = None"
    and s': "s' = s\<lparr>vs_paths := (vs_paths s)(route_path r \<mapsto> rules_of s (route_path r)\<lparr>pr_catchAllIndex := Some i\<rparr>)\<rparr>"
    by (auto simp: validateAdvancedCustomRouteModels_def Let_def split: if_splits)
  have "\<forall>q \<in> set rs. compatible q r"
    using none True by (simp add: compatible_def known_catch_all [OF known])
  moreover have "paths_known (rs @ [r]) s'"
    using known True unfolding paths_known_def s' rules_of_update by (auto simp del: dom_def)
  ultimately show ?thesis using True by (simp add: models_ok_def s')
next
  case False
  with step obtain models where models: "add_models i [] (route_models r) (pr_models (rules_of s (route_path r))) = Inr models"
    and none: "pr_catchAllIndex (rules_of s (route_path r)) = None"
    and s': "s' = s\<lparr>vs_paths := (vs_paths s)(route_path r \<mapsto> rules_of s (route_path r)\<lparr>pr_models := models\<rparr>)\<rparr>"
    by (auto simp: validateAdvancedCustomRouteModels_def Let_def split: if_splits sum.splits)
  note added = add_models_Inr [OF models]
  have "compatible q r" if "q \<in> set rs" for q
    using that added none known_models [OF known] unfolding compatible_def known_catch_all [OF known] by blast
  moreover have "paths_known (rs @ [r]) s'"
    using known added False none [unfolded known_catch_all [OF known]] by (auto simp: paths_known_def s')
  ultimately show ?thesis using added by (simp add: models_ok_def s')
qed

lemma models_step_Inl:
  assumes known: "paths_known rs s"
    and step: "validateAdvancedCustomRouteModels i (route_path r) (route_models r) s = Inl e"
  shows "\<not> (models_ok r \<and> (\<forall>q \<in> set rs. compatible q r))"
proof (cases "pr_catchAllIndex (rules_of s (route_path r)) = None")
  case True
  with step have "route_models r \<noteq> []"
    and "add_models i [] (route_models r) (pr_models (rules_of s (route_path r))) = Inl e"
    by (auto simp: validateAdvancedCustomRouteModels_def Let_def split: if_splits sum.splits)
  from add_models_Inl [OF this(2)] known_models [OF known] show ?thesis
    unfolding models_ok_def compatible_def by fastforce
next
  case False
  with known obtain q where "q \<in> set rs" "route_path q = route_path r" "route_models q = []"
    by (auto simp: paths_known_def)
  then show ?thesis by (auto simp: compatible_def)
qed

text \<open>The management tests of the next route.\<close>

lemma management_existing:
  assumes "represents rs s" "isAdvancedCustomManagementPath (route_path r)"
  shows "(if route_path r = MODEL_LIST_PATH then vs_modelListIndex s else vs_balanceIndex s) \<noteq> None
    \<longleftrightarrow> (\<exists>q \<in> set rs. route_path q = route_path r)"
  using assms by (auto simp: represents_def isAdvancedCustomManagementPath_def)

lemma management_step_Inr:
  assumes "represents rs s" "validate_management i r s = Inr s'"
  shows "management_ok r \<and> vs_paths s' = vs_paths s
    \<and> (vs_modelListIndex s' \<noteq> None \<longleftrightarrow> (\<exists>q \<in> set (rs @ [r]). route_path q = MODEL_LIST_PATH))
    \<and> (vs_balanceIndex s' \<noteq> None \<longleftrightarrow> (\<exists>q \<in> set (rs @ [r]). route_path q = BALANCE_PATH))"
  using assms
  by (auto simp: validate_management_def management_ok_def represents_def Let_def route_models_def route_converter_def
      isAdvancedCustomManagementPath_def split: if_splits)

lemma management_step_Inl:
  assumes rep: "represents rs s" and step: "validate_management i r s = Inl e"
  shows "\<not> (management_ok r \<and> (\<forall>q \<in> set rs. compatible q r))"
proof -
  from step have management: "isAdvancedCustomManagementPath (route_path r)"
    by (auto simp: validate_management_def Let_def split: if_splits)
  show ?thesis
  proof (cases "\<exists>q \<in> set rs. route_path q = route_path r")
    case True
    then obtain q where q: "q \<in> set rs" "route_path q = route_path r" by blast
    with rep management have "route_models q = []"
      by (auto simp: represents_def list_all_iff management_ok_def)
    with q show ?thesis by (auto simp: compatible_def)
  next
    case False
    with management_existing [OF rep management] step management show ?thesis
      by (auto simp: validate_management_def management_ok_def Let_def route_models_def route_converter_def
          split: if_splits)
  qed
qed

lemma paths_known_cong: "vs_paths s = vs_paths s' \<Longrightarrow> paths_known rs s = paths_known rs s'"
  by (simp add: paths_known_def rules_of_def)

text \<open>One route: it is rejected exactly where it is not well formed after those before it.\<close>

lemma validate_route_step:
  assumes rep: "represents rs s"
  shows "case validate_route new_URL i r s of
      Inl e \<Rightarrow> \<not> (route_ok new_URL r \<and> (\<forall>q \<in> set rs. compatible q r))
    | Inr s' \<Rightarrow> route_ok new_URL r \<and> (\<forall>q \<in> set rs. compatible q r) \<and> represents (rs @ [r]) s'"
proof (cases "path_ok r")
  case False
  then show ?thesis by (auto simp: validate_route_def path_ok_def route_ok_def Let_def)
next
  case path: True
  show ?thesis
  proof (cases "validate_management i r s")
    case (Inl e)
    with management_step_Inl [OF rep Inl] path show ?thesis
      by (auto simp: validate_route_def path_ok_def route_ok_def Let_def)
  next
    case management: (Inr s1)
    note m = management_step_Inr [OF rep management]
    with rep have known: "paths_known rs s1"
      by (simp add: represents_def paths_known_cong [of s1 s])
    show ?thesis
    proof (cases "validateAdvancedCustomRouteModels i (route_path r) (route_models r) s1")
      case (Inl e)
      with models_step_Inl [OF known Inl] path management show ?thesis
        by (auto simp: validate_route_def path_ok_def route_ok_def Let_def route_models_def)
    next
      case models: (Inr s2)
      note k = models_step_Inr [OF known models]
      have rep2: "represents (rs @ [r]) s2"
        using rep m k by (simp add: represents_def)
      show ?thesis
      proof (cases "target_ok new_URL r")
        case True
        with rep2 m k path management models show ?thesis
          by (auto simp: validate_route_def path_ok_def route_ok_def target_ok_def Let_def route_models_def
              route_converter_def isAdvancedCustomPassThroughAllowed_def)
      next
        case False
        with path management models show ?thesis
          by (auto simp: validate_route_def path_ok_def route_ok_def target_ok_def Let_def route_models_def
              route_converter_def isAdvancedCustomPassThroughAllowed_def split: option.splits)
      qed
    qed
  qed
qed

text \<open>The loop rejects the first route that is not well formed after those before it.\<close>

lemma well_formed_snoc:
  "well_formed_routes new_URL (rs @ [r]) \<longleftrightarrow>
     well_formed_routes new_URL rs \<and> route_ok new_URL r \<and> (\<forall>q \<in> set rs. compatible q r)"
  by (auto simp: well_formed_routes_def sorted_wrt_append)

lemma validate_routes_sound:
  "represents before s \<Longrightarrow> well_formed_routes new_URL before \<Longrightarrow>
   case validate_routes new_URL (length before) rs s of
     None \<Rightarrow> well_formed_routes new_URL (before @ rs)
   | Some e \<Rightarrow> \<exists>k < length rs. ve_routeIndex e = Some (length before + k)
       \<and> well_formed_routes new_URL (before @ take k rs) \<and> \<not> well_formed_routes new_URL (before @ take (Suc k) rs)"
proof (induction rs arbitrary: before s)
  case Nil
  then show ?case by simp
next
  case (Cons r rs)
  note step = validate_route_step [OF Cons.prems(1), where new_URL = new_URL and i = "length before" and r = r]
  show ?case
  proof (cases "validate_route new_URL (length before) r s")
    case (Inl e)
    with step Cons.prems(2) show ?thesis
      by (auto simp: well_formed_snoc intro!: exI [of _ 0])
  next
    case (Inr s')
    with step Cons.prems(2) have wf: "well_formed_routes new_URL (before @ [r])" and rep: "represents (before @ [r]) s'"
      by (auto simp: well_formed_snoc)
    from Cons.IH [OF rep wf] Inr show ?thesis
      by (auto split: option.splits)
  qed
qed

lemma represents_initial: "represents [] initial_validation"
  by (simp add: represents_def paths_known_def initial_validation_def rules_of_def empty_rules_def)

section \<open>Management routes\<close>

definition is_route_of :: "jstr \<Rightarrow> AdvancedCustomRoute \<Rightarrow> bool" where
  "is_route_of path route \<longleftrightarrow> route_path route = path"

definition getAdvancedCustomManagementRoute :: "AdvancedCustomConfig \<Rightarrow> jstr \<Rightarrow> AdvancedCustomRoute option" where
  "getAdvancedCustomManagementRoute config path = find (is_route_of path) (normalized_routes config)"

text \<open>\<open>routes.findIndex\<close>, with \<open>None\<close> for -1.\<close>

fun find_index :: "('a \<Rightarrow> bool) \<Rightarrow> 'a list \<Rightarrow> nat option" where
  "find_index P [] = None"
| "find_index P (x # xs) = (if P x then Some 0 else map_option Suc (find_index P xs))"

definition replaceAdvancedCustomManagementRoute ::
  "AdvancedCustomConfig \<Rightarrow> jstr \<Rightarrow> AdvancedCustomRoute option \<Rightarrow> AdvancedCustomConfig" where
  "replaceAdvancedCustomManagementRoute config path route =
     (let routes = normalized_routes config; index = find_index (is_route_of path) routes in
      \<lparr>advanced_routes = Some (case route of
          None \<Rightarrow> (case index of None \<Rightarrow> routes | Some i \<Rightarrow> take i routes @ drop (i + 1) routes)
        | Some r \<Rightarrow>
            let managementRoute =
                  \<lparr>cr_incoming_path = Some path, cr_upstream_path = Some (or_else (cr_upstream_path r) []),
                   cr_converter = Some (js ''none''), cr_models = Some [], cr_auth = cr_auth r, cr_pass_through = None\<rparr>
            in (case index of None \<Rightarrow> routes @ [managementRoute] | Some i \<Rightarrow> routes[i := managementRoute]))\<rparr>)"

definition replaceAdvancedCustomForwardingRoutes ::
  "AdvancedCustomConfig \<Rightarrow> AdvancedCustomRoute list \<Rightarrow> AdvancedCustomConfig" where
  "replaceAdvancedCustomForwardingRoutes config forwardingRoutes =
     (let routes = normalized_routes config;
          management = (\<lambda>r. isAdvancedCustomManagementPath (route_path r)) in
      \<lparr>advanced_routes = Some (case find_index (\<lambda>r. \<not> management r) routes of
          None \<Rightarrow> filter management routes @ forwardingRoutes
        | Some i \<Rightarrow> filter management (take i routes) @ forwardingRoutes @ filter management (drop i routes))\<rparr>)"

text \<open>Normalizing twice is normalizing once, and it keeps the trimmed path.\<close>

lemma or_else_Some [simp]: "or_else (Some s) [] = s"
  by (simp add: or_else_def)

lemma or_else_nonempty [simp]: "d \<noteq> [] \<Longrightarrow> or_else (Some (or_else x d)) e = or_else x d"
  by (simp add: or_else_def split: option.split)

lemma normalize_models_idem [simp]:
  "normalizeAdvancedCustomRouteModels (Some (normalizeAdvancedCustomRouteModels ms)) = normalizeAdvancedCustomRouteModels ms"
  by (auto simp: normalizeAdvancedCustomRouteModels_def trim_idem filter_map comp_def split: option.split
      intro!: filter_True map_idI)

lemma normalize_models_None [simp]: "normalizeAdvancedCustomRouteModels None = []"
  by (simp add: normalizeAdvancedCustomRouteModels_def)

lemma normalize_route_idem [simp]: "normalizeAdvancedCustomRoute (normalizeAdvancedCustomRoute r) = normalizeAdvancedCustomRoute r"
  by (cases "cr_auth r")
    (simp_all add: normalizeAdvancedCustomRoute_def Let_def getAdvancedCustomRouteUpstreamPath_def trim_idem)

lemma normalized_idem: "r \<in> set (normalized_routes config) \<Longrightarrow> normalizeAdvancedCustomRoute r = r"
  by (auto simp: normalized_routes_def split: option.splits)

lemma route_path_normalize [simp]: "route_path (normalizeAdvancedCustomRoute r) = route_path r"
  by (simp add: route_path_def normalizeAdvancedCustomRoute_def Let_def or_else_def split: option.split)

lemma normalized_routes_of: "normalized_routes \<lparr>advanced_routes = Some rs\<rparr> = map normalizeAdvancedCustomRoute rs"
  by (simp add: normalized_routes_def)

text \<open>Finding after an update, a removal, an insertion.\<close>

lemma find_index_None: "find_index P xs = None \<longleftrightarrow> (\<forall>x \<in> set xs. \<not> P x)"
  by (induction xs) auto

lemma find_index_Some: "find_index P xs = Some i \<Longrightarrow> i < length xs \<and> P (xs ! i) \<and> (\<forall>x \<in> set (take i xs). \<not> P x)"
  by (induction xs arbitrary: i) (auto split: if_splits)

lemma find_update_same: "find_index P xs = Some i \<Longrightarrow> P y \<Longrightarrow> find P (xs[i := y]) = Some y"
  by (induction xs arbitrary: i) (auto split: if_splits)

lemma find_update_other:
  "find_index P xs = Some i \<Longrightarrow> \<forall>x. P x \<longrightarrow> \<not> Q x \<Longrightarrow> \<not> Q y \<Longrightarrow> find Q (xs[i := y]) = find Q xs"
  by (induction xs arbitrary: i) (auto split: if_splits)

lemma find_remove_other:
  "find_index P xs = Some i \<Longrightarrow> \<forall>x. P x \<longrightarrow> \<not> Q x \<Longrightarrow> find Q (take i xs @ drop (Suc i) xs) = find Q xs"
  by (induction xs arbitrary: i) (auto split: if_splits)

lemma find_append: "find P (xs @ ys) = (case find P xs of None \<Rightarrow> find P ys | Some x \<Rightarrow> Some x)"
  by (induction xs) auto

lemma find_snoc_other: "\<not> P y \<Longrightarrow> find P (xs @ [y]) = find P xs"
  by (simp add: find_append split: option.split)

lemma find_map: "find P (map f xs) = map_option f (find (P \<circ> f) xs)"
  by (induction xs) auto

lemma find_cong_set: "(\<And>x. x \<in> set xs \<Longrightarrow> P x = Q x) \<Longrightarrow> find P xs = find Q xs"
  by (induction xs) auto

lemma find_filter: "(\<And>x. P x \<Longrightarrow> Q x) \<Longrightarrow> find P (filter Q xs) = find P xs"
  by (induction xs) auto

lemma is_route_of_normalize [simp]: "is_route_of path \<circ> normalizeAdvancedCustomRoute = is_route_of path"
  by (simp add: is_route_of_def fun_eq_iff)

lemma find_in_set: "find P xs = Some x \<Longrightarrow> x \<in> set xs"
  by (induction xs) (auto split: if_splits)

lemma find_normalized: "map_option normalizeAdvancedCustomRoute (find P (normalized_routes c)) = find P (normalized_routes c)"
  by (cases "find P (normalized_routes c)") (auto dest: find_in_set normalized_idem)

section \<open>Defaults of converters\<close>

definition createAdvancedCustomRoute :: AdvancedCustomRoute where
  "createAdvancedCustomRoute =
     \<lparr>cr_incoming_path = Some (js ''/v1/chat/completions''), cr_upstream_path = Some (js ''/v1/chat/completions''),
      cr_converter = Some (js ''none''), cr_models = None, cr_auth = None, cr_pass_through = None\<rparr>"

definition createAdvancedCustomManagementRoute :: "jstr \<Rightarrow> AdvancedCustomRoute" where
  "createAdvancedCustomManagementRoute path =
     \<lparr>cr_incoming_path = Some path, cr_upstream_path = Some path, cr_converter = Some (js ''none''),
      cr_models = Some [], cr_auth = None, cr_pass_through = None\<rparr>"

definition getAdvancedCustomIncomingPathOptions :: "jstr \<Rightarrow> (jstr \<times> jstr) list" where
  "getAdvancedCustomIncomingPathOptions converter =
     filter (\<lambda>opt. isConverterPathAllowed (fst opt) converter) incoming_path_options"

definition getDefaultAdvancedCustomIncomingPath :: "jstr \<Rightarrow> jstr" where
  "getDefaultAdvancedCustomIncomingPath converter =
     or_else (case getAdvancedCustomIncomingPathOptions converter of [] \<Rightarrow> None | opt # _ \<Rightarrow> Some (fst opt))
       (js ''/v1/chat/completions'')"

definition getAdvancedCustomNativeAuth :: "jstr \<Rightarrow> AdvancedCustomRouteAuth" where
  "getAdvancedCustomNativeAuth incomingPath =
     (if incomingPath = js ''/v1/messages'' then apiKeyHeaderAuth
      else if generates_content incomingPath \<or> str_includes incomingPath (js '':embedContent'')
          \<or> str_includes incomingPath (js '':batchEmbedContents'') then geminiQueryAuth
      else bearerHeaderAuth)"

text \<open>The upstream path and the authentication a converter starts from.\<close>

definition getAdvancedCustomConverterDefaults :: "jstr \<Rightarrow> jstr \<Rightarrow> jstr \<times> AdvancedCustomRouteAuth" where
  "getAdvancedCustomConverterDefaults converter incomingPath =
     (let path = or_else (Some (trim incomingPath)) (getDefaultAdvancedCustomIncomingPath converter) in
      if converter = js ''none'' then (path, getAdvancedCustomNativeAuth path)
      else if converter \<in> {js ''anthropic_messages_to_openai_chat_completions'',
          js ''gemini_generate_content_to_openai_chat_completions'', js ''openai_responses_to_openai_chat_completions''}
        then (js ''/v1/chat/completions'', bearerHeaderAuth)
      else if converter = js ''openai_chat_completions_to_openai_responses'' then (js ''/v1/responses'', bearerHeaderAuth)
      else if converter = js ''openai_chat_completions_to_anthropic_messages'' then (js ''/v1/messages'', apiKeyHeaderAuth)
      else if converter = js ''openai_chat_completions_to_gemini_generate_content''
          \<or> converter = js ''openai_responses_to_gemini_generate_content''
        then (js ''/v1beta/models/{model}:generateContent'', geminiQueryAuth)
      else (or_else (Some path) (js ''/v1/chat/completions''), getAdvancedCustomNativeAuth path))"

definition native_routes :: "jstr list \<Rightarrow> AdvancedCustomRouteAuth \<Rightarrow> AdvancedCustomRoute list" where
  "native_routes paths auth =
     map (\<lambda>path. \<lparr>cr_incoming_path = Some path, cr_upstream_path = Some path, cr_converter = Some (js ''none''),
                    cr_models = None, cr_auth = Some auth, cr_pass_through = None\<rparr>) paths"

definition createOpenAINativeRoutes :: "AdvancedCustomRoute list" where
  "createOpenAINativeRoutes =
     native_routes [js ''/v1/chat/completions'', js ''/v1/completions'', js ''/v1/responses'',
       js ''/v1/responses/compact'', js ''/v1/embeddings'', js ''/v1/images/generations'', js ''/v1/images/edits'',
       js ''/v1/audio/speech'', js ''/v1/audio/transcriptions'', js ''/v1/audio/translations'', js ''/v1/realtime'']
       bearerHeaderAuth"

definition createClaudeNativeRoutes :: "AdvancedCustomRoute list" where
  "createClaudeNativeRoutes = native_routes [js ''/v1/messages''] apiKeyHeaderAuth"

definition createGeminiNativeRoutes :: "AdvancedCustomRoute list" where
  "createGeminiNativeRoutes =
     native_routes [js ''/v1beta/models/{model}:generateContent'', js ''/v1beta/models/{model}:embedContent'',
       js ''/v1beta/models/{model}:batchEmbedContents''] geminiQueryAuth"

definition createGatewayNativeRoutes :: "AdvancedCustomRoute list" where
  "createGatewayNativeRoutes = native_routes [js ''/v1/alpha/search'', js ''/v1/rerank''] bearerHeaderAuth"

definition template_options :: "(jstr \<times> jstr \<times> AdvancedCustomRoute list) list" where
  "template_options =
     [(js ''all_protocols'', js ''All routes'',
       createOpenAINativeRoutes @ createClaudeNativeRoutes @ createGeminiNativeRoutes @ createGatewayNativeRoutes),
      (js ''openai_only'', js ''OpenAI only'', createOpenAINativeRoutes),
      (js ''claude_only'', js ''Claude only'', createClaudeNativeRoutes),
      (js ''gemini_only'', js ''Gemini only'', createGeminiNativeRoutes)]"

definition getAdvancedCustomTemplateConfig :: "jstr \<Rightarrow> AdvancedCustomConfig" where
  "getAdvancedCustomTemplateConfig templateKey =
     \<lparr>advanced_routes = Some (case map_of template_options templateKey of
        Some (label, routes) \<Rightarrow> routes | None \<Rightarrow> snd (snd (hd template_options)))\<rparr>"

section \<open>Reading a configuration\<close>

definition getAdvancedCustomConverterOptions :: "jstr \<Rightarrow> (jstr \<times> jstr \<times> jstr) list" where
  "getAdvancedCustomConverterOptions incomingPath =
     filter (\<lambda>opt. fst opt = js ''none'' \<or> isConverterPathAllowed (trim incomingPath) (fst opt)) converter_options"

definition getAdvancedCustomIncomingPathLabel :: "jstr \<Rightarrow> jstr" where
  "getAdvancedCustomIncomingPathLabel v = or_else (map_of incoming_path_options v) v"

definition parseAdvancedCustomRouteModels :: "jstr \<Rightarrow> jstr list" where
  "parseAdvancedCustomRouteModels v =
     foldl (\<lambda>ms m. if m \<in> set ms then ms else ms @ [m]) [] (filter (\<lambda>m. m \<noteq> []) (map trim (split_at 44 v)))"

definition hasValidAdvancedCustomModelListRoute ::
  "(jstr \<Rightarrow> (jstr \<times> jstr) option) \<Rightarrow> AdvancedCustomConfig option \<Rightarrow> bool" where
  "hasValidAdvancedCustomModelListRoute new_URL config =
     (case config of
        None \<Rightarrow> False
      | Some c \<Rightarrow> validateAdvancedCustomConfig new_URL config = None
          \<and> list_ex (\<lambda>r. route_path r = MODEL_LIST_PATH) (normalized_routes c))"

definition advancedCustomConfigUsesRelativeUpstreamPath :: "AdvancedCustomConfig option \<Rightarrow> bool" where
  "advancedCustomConfigUsesRelativeUpstreamPath config =
     (case config of
        None \<Rightarrow> False
      | Some c \<Rightarrow> list_ex (\<lambda>r. startsWith (getAdvancedCustomRouteUpstreamPath r) (js ''/'')) (normalized_routes c))"

definition getAdvancedCustomRouteSummaryLabel :: "AdvancedCustomRoute \<Rightarrow> jstr option" where
  "getAdvancedCustomRouteSummaryLabel route =
     (if route_path route = [] then None
      else Some (or_else (map_of route_summary_labels (route_path route))
        (getAdvancedCustomIncomingPathLabel (route_path route))))"

record AdvancedCustomStats =
  st_routeCount :: nat
  st_valid :: bool
  st_routeTypeLabels :: "jstr list"

text \<open>The argument is the parsed configuration.\<close>

definition getAdvancedCustomStats ::
  "(jstr \<Rightarrow> (jstr \<times> jstr) option) \<Rightarrow> AdvancedCustomConfig option \<Rightarrow> AdvancedCustomStats" where
  "getAdvancedCustomStats new_URL config =
     (case config of
        None \<Rightarrow> \<lparr>st_routeCount = 0, st_valid = False, st_routeTypeLabels = []\<rparr>
      | Some c \<Rightarrow>
          \<lparr>st_routeCount = length (normalized_routes c),
           st_valid = (validateAdvancedCustomConfig new_URL (Some (normalizeAdvancedCustomConfig c)) = None),
           st_routeTypeLabels = foldl (\<lambda>ls r. case getAdvancedCustomRouteSummaryLabel r of
               None \<Rightarrow> ls | Some l \<Rightarrow> if l = [] \<or> l \<in> set ls then ls else ls @ [l]) [] (normalized_routes c)\<rparr>)"

text \<open>The mode of an authentication and the authentication of a mode; \<open>default\<close> has none.\<close>

definition getAdvancedCustomAuthMode :: "AdvancedCustomRoute \<Rightarrow> jstr" where
  "getAdvancedCustomAuthMode route =
     (case cr_auth route of None \<Rightarrow> js ''default'' | Some a \<Rightarrow> or_else (ra_type a) (js ''default''))"

definition buildAdvancedCustomAuth ::
  "jstr \<Rightarrow> AdvancedCustomRouteAuth option \<Rightarrow> AdvancedCustomRouteAuth option" where
  "buildAdvancedCustomAuth mode previousAuth =
     (let name = Option.bind previousAuth ra_name; val = Option.bind previousAuth ra_value in
      if mode = js ''default'' then None
      else if mode = js ''none'' then Some \<lparr>ra_type = Some (js ''none''), ra_name = None, ra_value = None\<rparr>
      else if mode = js ''header'' then
        Some \<lparr>ra_type = Some (js ''header''), ra_name = Some (or_else name (js ''Authorization'')),
              ra_value = Some (or_else val (js ''Bearer {api_key}''))\<rparr>
      else
        Some \<lparr>ra_type = Some (js ''query''), ra_name = Some (or_else name (js ''api_key'')),
              ra_value = Some (or_else val (js ''{api_key}''))\<rparr>)"

text \<open>An accepted configuration stays accepted when it is normalized first.\<close>

lemma validate_normalized:
  "validateAdvancedCustomConfig new_URL (Some (normalizeAdvancedCustomConfig c)) = validateAdvancedCustomConfig new_URL (Some c)"
proof -
  have "normalized_routes (normalizeAdvancedCustomConfig c) = normalized_routes c"
    by (auto simp: normalizeAdvancedCustomConfig_def normalized_routes_of intro!: map_idI normalized_idem)
  then show ?thesis by (simp add: validateAdvancedCustomConfig_def)
qed

text \<open>The authentication of a mode has that mode, and is valid where the one before had no blank parts.\<close>

lemma build_auth_mode:
  assumes "mode \<in> {js ''none'', js ''header'', js ''query''}"
  shows "\<exists>a. buildAdvancedCustomAuth mode previous = Some a \<and> ra_type a = Some mode"
proof -
  have "js ''none'' \<noteq> js ''default''" "js ''header'' \<noteq> js ''default''" "js ''query'' \<noteq> js ''default''"
    "js ''header'' \<noteq> js ''none''" "js ''query'' \<noteq> js ''none''" "js ''query'' \<noteq> js ''header''" by code_simp+
  with assms show ?thesis by (auto simp: buildAdvancedCustomAuth_def Let_def)
qed

end
