(* ===== verification/AdvancedCustomProperties.thy ===== *)
theory AdvancedCustomProperties
  imports AdvancedCustom
begin

text \<open>
  The properties of custom channel routes: what validation accepts, and how the management routes of a
  configuration are read and replaced. The templates are valid.
\<close>

section \<open>Validation\<close>

text \<open>
  C15: Validation accepts exactly the configurations with routes in which each is well formed and no two
  claim the same requests: of the routes of one incoming path all but the last name models, no model is
  named twice, and a management path has one route. A rejection names the first route at fault: the
  routes before it are well formed and with it they are not.
\<close>

theorem config_accepted_iff:
  "case validateAdvancedCustomConfig new_URL (Some config) of
     None \<Rightarrow> normalized_routes config \<noteq> [] \<and> well_formed_routes new_URL (normalized_routes config)
   | Some e \<Rightarrow>
       (case ve_routeIndex e of
          None \<Rightarrow> normalized_routes config = []
        | Some k \<Rightarrow> k < length (normalized_routes config) \<and> well_formed_routes new_URL (take k (normalized_routes config))
            \<and> \<not> well_formed_routes new_URL (take (Suc k) (normalized_routes config)))"
proof (cases "normalized_routes config = []")
  case True
  then show ?thesis by (simp add: validateAdvancedCustomConfig_def)
next
  case False
  have "well_formed_routes new_URL []" by (simp add: well_formed_routes_def)
  from validate_routes_sound [OF represents_initial this, of "normalized_routes config"] False show ?thesis
    by (auto simp: validateAdvancedCustomConfig_def split: option.splits)
qed

section \<open>Management routes\<close>

definition management_route :: "jstr \<Rightarrow> AdvancedCustomRoute \<Rightarrow> AdvancedCustomRoute" where
  "management_route path r =
     normalizeAdvancedCustomRoute
       \<lparr>cr_incoming_path = Some path, cr_upstream_path = Some (or_else (cr_upstream_path r) []),
        cr_converter = Some (js ''none''), cr_models = Some [], cr_auth = cr_auth r, cr_pass_through = None\<rparr>"

lemma find_normalize_map:
  "find (is_route_of p) (map normalizeAdvancedCustomRoute rs) = map_option normalizeAdvancedCustomRoute (find (is_route_of p) rs)"
  by (simp add: find_map)

lemma management_paths_trimmed: "isAdvancedCustomManagementPath path \<Longrightarrow> trim path = path"
proof -
  have "trim MODEL_LIST_PATH = MODEL_LIST_PATH" "trim BALANCE_PATH = BALANCE_PATH" by code_simp+
  then show "isAdvancedCustomManagementPath path \<Longrightarrow> trim path = path"
    by (auto simp: isAdvancedCustomManagementPath_def)
qed

text \<open>A well-formed configuration has one route of a management path.\<close>

lemma remove_management:
  "well_formed_routes new_URL rs \<Longrightarrow> isAdvancedCustomManagementPath path \<Longrightarrow> find_index (is_route_of path) rs = Some i \<Longrightarrow>
   find (is_route_of path) (take i rs @ drop (i + 1) rs) = None"
proof (induction rs arbitrary: i)
  case (Cons r rs)
  show ?case
  proof (cases "route_path r = path")
    case True
    with Cons.prems have "route_models r = []" "\<forall>q \<in> set rs. compatible r q"
      by (auto simp: well_formed_routes_def route_ok_def management_ok_def)
    with True have "\<forall>q \<in> set rs. route_path q \<noteq> path" by (auto simp: compatible_def)
    with True Cons.prems(3) show ?thesis by (auto simp: is_route_of_def find_None_iff)
  next
    case False
    with Cons show ?thesis by (auto simp: is_route_of_def well_formed_routes_def)
  qed
qed simp

lemma get_of: "getAdvancedCustomManagementRoute \<lparr>advanced_routes = Some rs\<rparr> p =
    map_option normalizeAdvancedCustomRoute (find (is_route_of p) rs)"
  by (simp add: getAdvancedCustomManagementRoute_def normalized_routes_of find_normalize_map)

lemma get_own: "map_option normalizeAdvancedCustomRoute (find P (normalized_routes c)) = find P (normalized_routes c)"
  by (rule find_normalized)

lemma is_route_of_disjoint: "p \<noteq> q \<Longrightarrow> \<forall>x. is_route_of p x \<longrightarrow> \<not> is_route_of q x"
  by (simp add: is_route_of_def)

lemma forwarding_management:
  assumes "isAdvancedCustomManagementPath path" "\<forall>f \<in> set fs. \<not> isAdvancedCustomManagementPath (route_path f)"
  shows "getAdvancedCustomManagementRoute (replaceAdvancedCustomForwardingRoutes config fs) path
    = getAdvancedCustomManagementRoute config path"
proof -
  let ?rs = "normalized_routes config" and ?M = "\<lambda>r. isAdvancedCustomManagementPath (route_path r)"
  have none: "find (is_route_of path) fs = None"
    using assms by (auto simp: find_None_iff is_route_of_def)
  have keep: "find (is_route_of path) (filter ?M xs) = find (is_route_of path) xs" for xs
    by (rule find_filter) (use assms(1) in \<open>simp add: is_route_of_def\<close>)
  obtain rs where replaced: "replaceAdvancedCustomForwardingRoutes config fs = \<lparr>advanced_routes = Some rs\<rparr>"
    and "find (is_route_of path) rs = find (is_route_of path) ?rs"
  proof (cases "find_index (\<lambda>r. \<not> ?M r) ?rs")
    case None
    show thesis
      by (rule that [of "filter ?M ?rs @ fs"])
        (simp_all add: replaceAdvancedCustomForwardingRoutes_def None find_append keep none split: option.split)
  next
    case (Some i)
    have "find (is_route_of path) (filter ?M (take i ?rs) @ fs @ filter ?M (drop i ?rs))
        = find (is_route_of path) (take i ?rs @ drop i ?rs)"
      unfolding find_append keep none by (simp split: option.split)
    then show thesis
      by (intro that [of "filter ?M (take i ?rs) @ fs @ filter ?M (drop i ?rs)"])
        (simp_all add: replaceAdvancedCustomForwardingRoutes_def Some Let_def)
  qed
  then show ?thesis
    unfolding replaced get_of by (simp add: get_own getAdvancedCustomManagementRoute_def)
qed

text \<open>
  A management route is read back as it was written: replacing it stores the route with its path,
  the trimmed upstream path and no models, leaves the routes of every other path to be found as before,
  and, in an accepted configuration, replacing it by none removes it. Exchanging the forwarding routes
  leaves the management routes.
\<close>

theorem management_route_replaced:
  assumes "isAdvancedCustomManagementPath path"
    and "validateAdvancedCustomConfig new_URL (Some config) = None"
    and "\<forall>f \<in> set fs. \<not> isAdvancedCustomManagementPath (route_path f)"
  shows "getAdvancedCustomManagementRoute (replaceAdvancedCustomManagementRoute config path (Some r)) path
      = Some (management_route path r)
    \<and> getAdvancedCustomManagementRoute (replaceAdvancedCustomManagementRoute config path None) path = None
    \<and> (other \<noteq> path \<longrightarrow> getAdvancedCustomManagementRoute (replaceAdvancedCustomManagementRoute config path route) other
          = getAdvancedCustomManagementRoute config other)
    \<and> getAdvancedCustomManagementRoute (replaceAdvancedCustomForwardingRoutes config fs) path
        = getAdvancedCustomManagementRoute config path"
proof -
  let ?rs = "normalized_routes config"
  define new_route where "new_route q = \<lparr>cr_incoming_path = Some path, cr_upstream_path = Some (or_else (cr_upstream_path q) []),
      cr_converter = Some (js ''none''), cr_models = Some [], cr_auth = cr_auth q, cr_pass_through = None\<rparr>" for q :: AdvancedCustomRoute
  have new: "is_route_of path (new_route q)" for q
    using management_paths_trimmed [OF assms(1)] by (simp add: new_route_def is_route_of_def route_path_def)
  have wf: "well_formed_routes new_URL ?rs"
    using config_accepted_iff [where new_URL = new_URL and config = config] assms(2) by simp
  have 1: "getAdvancedCustomManagementRoute (replaceAdvancedCustomManagementRoute config path (Some r)) path
      = Some (management_route path r)"
  proof (cases "find_index (is_route_of path) ?rs")
    case None
    then have "find (is_route_of path) ?rs = None" by (simp add: find_index_None find_None_iff)
    with None new [of r] show ?thesis
      by (simp add: replaceAdvancedCustomManagementRoute_def Let_def get_of find_append management_route_def new_route_def)
  next
    case (Some i)
    from find_update_same [OF this new [of r]] Some show ?thesis
      by (simp add: replaceAdvancedCustomManagementRoute_def Let_def get_of management_route_def new_route_def)
  qed
  have 2: "getAdvancedCustomManagementRoute (replaceAdvancedCustomManagementRoute config path None) path = None"
  proof (cases "find_index (is_route_of path) ?rs")
    case None
    then have "\<forall>x \<in> set ?rs. \<not> is_route_of path x" by (simp add: find_index_None)
    with None show ?thesis
      by (simp add: replaceAdvancedCustomManagementRoute_def Let_def get_of find_None_iff)
  next
    case (Some i)
    from remove_management [OF wf assms(1) this] Some show ?thesis
      by (simp add: replaceAdvancedCustomManagementRoute_def Let_def get_of)
  qed
  have 3: "getAdvancedCustomManagementRoute (replaceAdvancedCustomManagementRoute config path route) other
      = getAdvancedCustomManagementRoute config other" if other: "other \<noteq> path"
  proof -
    note disjoint = is_route_of_disjoint [OF other [symmetric]]
    have "\<not> is_route_of other (new_route q)" for q using new [of q] disjoint by blast
    then have "\<exists>rs. replaceAdvancedCustomManagementRoute config path route = \<lparr>advanced_routes = Some rs\<rparr>
        \<and> find (is_route_of other) rs = find (is_route_of other) ?rs"
      using disjoint
      by (cases "find_index (is_route_of path) ?rs"; cases route)
        (simp_all add: replaceAdvancedCustomManagementRoute_def Let_def find_update_other find_remove_other
          find_snoc_other new_route_def)
    then obtain rs where replaced: "replaceAdvancedCustomManagementRoute config path route = \<lparr>advanced_routes = Some rs\<rparr>"
      and "find (is_route_of other) rs = find (is_route_of other) ?rs" by blast
    then show ?thesis
      unfolding replaced get_of by (simp add: get_own getAdvancedCustomManagementRoute_def)
  qed
  from 1 2 3 forwarding_management [OF assms(1,3)] show ?thesis by blast
qed

definition sample_routes :: AdvancedCustomConfig where
  "sample_routes = \<lparr>advanced_routes = Some [createAdvancedCustomRoute, createAdvancedCustomManagementRoute MODEL_LIST_PATH]\<rparr>"

theorem management_route_replaced_witness:
  "getAdvancedCustomManagementRoute (replaceAdvancedCustomManagementRoute sample_routes MODEL_LIST_PATH None) MODEL_LIST_PATH = None"
proof -
  have "isAdvancedCustomManagementPath MODEL_LIST_PATH" by (simp add: isAdvancedCustomManagementPath_def)
  moreover have "validateAdvancedCustomConfig (\<lambda>u. None) (Some sample_routes) = None" by code_simp
  moreover have "\<forall>f \<in> set []. \<not> isAdvancedCustomManagementPath (route_path f)" by simp
  ultimately show ?thesis using management_route_replaced by blast
qed

section \<open>Templates\<close>

text \<open>Every template is accepted.\<close>

lemma templates_accepted:
  "list_all (\<lambda>t. validateAdvancedCustomConfig (\<lambda>u. None) (Some \<lparr>advanced_routes = Some (snd (snd t))\<rparr>) = None) template_options"
  by code_simp

end
