(* ===== verification/ChatMessages.thy ===== *)
theory ChatMessages
  imports JsText
begin

text \<open>
  Messages of the playground chat (\<open>features/playground/types.ts\<close> and \<open>lib/message\<close>): their versions,
  reasoning and timing, think tags, the application of streamed chunks, completion, and the edits of a
  conversation. \<open>Date.now()\<close> is the argument \<open>now\<close>, read once per synchronous operation; \<open>nanoid()\<close> gives the
  keys and ids passed in.
\<close>

section \<open>Data\<close>

datatype message_role = User_role | Assistant_role | System_role

datatype message_status = Loading_status | Streaming_status | Complete_status | Error_status

record message_version =
  version_id :: jstr
  version_content :: jstr

record reasoning_state =
  reasoning_content :: jstr
  reasoning_duration :: jsnum
  reasoning_startedAt :: "jsnum option"
  reasoning_completedAt :: "jsnum option"
  reasoning_durationMs :: "jsnum option"

record message =
  key :: jstr
  sender :: message_role
  versions :: "message_version list"
  createdAt :: "jsnum option"
  startedAt :: "jsnum option"
  completedAt :: "jsnum option"
  durationMs :: "jsnum option"
  msg_sources :: "(jstr \<times> jstr) list option"
  reasoning :: "reasoning_state option"
  isReasoningStreaming :: "bool option"
  isReasoningComplete :: "bool option"
  isContentComplete :: "bool option"
  status :: "message_status option"
  errorCode :: "jstr option option"

section \<open>Versions\<close>

definition getCurrentVersion :: "message \<Rightarrow> message_version" where
  "getCurrentVersion m =
     (case versions m of
        [] \<Rightarrow> \<lparr>version_id = js ''default'', version_content = []\<rparr>
      | v # _ \<Rightarrow> v)"

definition getMessageContent :: "message \<Rightarrow> jstr" where
  "getMessageContent m = version_content (getCurrentVersion m)"

definition hasMessageContent :: "message \<Rightarrow> bool" where
  "hasMessageContent m \<longleftrightarrow> trim (getMessageContent m) \<noteq> []"

definition updateCurrentVersionContent :: "message \<Rightarrow> jstr \<Rightarrow> message" where
  "updateCurrentVersionContent m content =
     m\<lparr>versions := [(getCurrentVersion m)\<lparr>version_content := content\<rparr>]\<rparr>"

lemma content_update [simp]: "getMessageContent (updateCurrentVersionContent m c) = c"
  by (simp add: getMessageContent_def getCurrentVersion_def updateCurrentVersionContent_def)

lemma update_other_fields [simp]:
  "key (updateCurrentVersionContent m c) = key m"
  "sender (updateCurrentVersionContent m c) = sender m"
  "status (updateCurrentVersionContent m c) = status m"
  "reasoning (updateCurrentVersionContent m c) = reasoning m"
  "isReasoningStreaming (updateCurrentVersionContent m c) = isReasoningStreaming m"
  "createdAt (updateCurrentVersionContent m c) = createdAt m"
  "startedAt (updateCurrentVersionContent m c) = startedAt m"
  by (simp_all add: updateCurrentVersionContent_def)

text \<open>
  \<open>createUserMessage\<close> and \<open>createLoadingAssistantMessage\<close>; \<open>k\<close> and \<open>v\<close> are the fresh identifiers.
\<close>

definition createUserMessage :: "jstr \<Rightarrow> jstr \<Rightarrow> jstr \<Rightarrow> jsnum \<Rightarrow> message" where
  "createUserMessage k v content created =
     \<lparr>key = k, sender = User_role, versions = [\<lparr>version_id = v, version_content = content\<rparr>],
      createdAt = Some created, startedAt = None, completedAt = None, durationMs = None,
      msg_sources = None, reasoning = None, isReasoningStreaming = None,
      isReasoningComplete = None, isContentComplete = None, status = None, errorCode = None\<rparr>"

definition createLoadingAssistantMessage :: "jstr \<Rightarrow> jstr \<Rightarrow> jsnum \<Rightarrow> message" where
  "createLoadingAssistantMessage k v started =
     \<lparr>key = k, sender = Assistant_role, versions = [\<lparr>version_id = v, version_content = []\<rparr>],
      createdAt = Some started, startedAt = Some started, completedAt = None, durationMs = None,
      msg_sources = None, reasoning = None, isReasoningStreaming = Some False,
      isReasoningComplete = Some False, isContentComplete = Some False,
      status = Some Loading_status, errorCode = None\<rparr>"

text \<open>\<open>buildMessageContent\<close>: text alone, or parts when there are images.\<close>

datatype content_part = Text_part jstr | Image_part jstr

datatype message_content = Plain_content jstr | Parts_content "content_part list"

definition buildMessageContent :: "jstr \<Rightarrow> jstr list \<Rightarrow> message_content" where
  "buildMessageContent body imageUrls =
     (let validImages = filter (\<lambda>url. trim url \<noteq> []) imageUrls in
      if validImages = [] then Plain_content body
      else Parts_content (Text_part body # map (\<lambda>url. Image_part (trim url)) validImages))"

definition getTextContent :: "message_content \<Rightarrow> jstr" where
  "getTextContent content =
     (case content of
        Plain_content s \<Rightarrow> s
      | Parts_content parts \<Rightarrow>
          (case find (\<lambda>p. case p of Text_part _ \<Rightarrow> True | Image_part _ \<Rightarrow> False) parts of
             Some (Text_part s) \<Rightarrow> s
           | _ \<Rightarrow> []))"

lemma text_of_built_content: "getTextContent (buildMessageContent body urls) = body"
  by (simp add: getTextContent_def buildMessageContent_def Let_def)

definition formatMessageForAPI :: "message \<Rightarrow> message_role \<times> jstr" where
  "formatMessageForAPI m = (sender m, version_content (getCurrentVersion m))"

definition isValidMessage :: "message \<Rightarrow> bool" where
  "isValidMessage m \<longleftrightarrow>
     versions m \<noteq> [] \<and> \<not> (sender m = Assistant_role \<and> \<not> hasMessageContent m)"

section \<open>Timing\<close>

text \<open>\<open>Math.max(0, end - start)\<close>.\<close>

definition elapsed :: "jsnum \<Rightarrow> jsnum \<Rightarrow> jsnum" where
  "elapsed finish start = js_max (Fin 0) (js_sub finish start)"

fun coalesce :: "'a option \<Rightarrow> 'a \<Rightarrow> 'a" where
  "coalesce (Some x) y = x"
| "coalesce None y = y"

definition completeAssistantTiming :: "jsnum \<Rightarrow> message \<Rightarrow> message" where
  "completeAssistantTiming finish m =
     (if sender m \<noteq> Assistant_role then m
      else let start = coalesce (startedAt m) (coalesce (createdAt m) finish)
           in m\<lparr>startedAt := Some start, completedAt := Some finish,
                durationMs := Some (elapsed finish start)\<rparr>)"

definition startReasoningTiming :: "jsnum \<Rightarrow> message \<Rightarrow> reasoning_state" where
  "startReasoningTiming start m =
     (case reasoning m of
        None \<Rightarrow> \<lparr>reasoning_content = [], reasoning_duration = Fin 0, reasoning_startedAt = Some start,
                 reasoning_completedAt = None, reasoning_durationMs = None\<rparr>
      | Some r \<Rightarrow> r\<lparr>reasoning_startedAt := Some (coalesce (reasoning_startedAt r) start)\<rparr>)"

definition completeReasoningTiming :: "jsnum \<Rightarrow> message \<Rightarrow> message" where
  "completeReasoningTiming finish m =
     (case reasoning m of
        None \<Rightarrow> m
      | Some r \<Rightarrow>
          if reasoning_durationMs r \<noteq> None then m
          else let start = coalesce (reasoning_startedAt r) (coalesce (startedAt m) finish);
                   spent = elapsed finish start
               in m\<lparr>reasoning := Some (r\<lparr>reasoning_startedAt := Some start,
                      reasoning_completedAt := Some finish, reasoning_durationMs := Some spent,
                      reasoning_duration := js_ceil (js_div spent (Fin 1000))\<rparr>)\<rparr>)"

lemma timing_other_fields [simp]:
  "getMessageContent (completeAssistantTiming t m) = getMessageContent m"
  "sender (completeAssistantTiming t m) = sender m"
  "key (completeAssistantTiming t m) = key m"
  "status (completeAssistantTiming t m) = status m"
  "reasoning (completeAssistantTiming t m) = reasoning m"
  "isReasoningStreaming (completeAssistantTiming t m) = isReasoningStreaming m"
  "getMessageContent (completeReasoningTiming t m) = getMessageContent m"
  "sender (completeReasoningTiming t m) = sender m"
  "key (completeReasoningTiming t m) = key m"
  "status (completeReasoningTiming t m) = status m"
  "isReasoningStreaming (completeReasoningTiming t m) = isReasoningStreaming m"
  by (simp_all add: completeAssistantTiming_def completeReasoningTiming_def getMessageContent_def
      getCurrentVersion_def Let_def split: option.splits)

section \<open>Think tags\<close>

record think_parts =
  visibleContent :: jstr
  think_reasoning :: jstr
  hasUnclosedTag :: bool

definition open_tag :: jstr where
  "open_tag = js ''<think>''"

definition close_tag :: jstr where
  "close_tag = js ''</think>''"

lemma length_tags [simp]: "length open_tag = 7" "length close_tag = 8"
  by (simp_all add: open_tag_def close_tag_def)

lemma indexOf_beyond: "t \<noteq> [] \<Longrightarrow> length s < p + length t \<Longrightarrow> indexOf s t p = None"
  using first_index_SomeD [of "drop p s" t] by (cases "first_index (drop p s) t") (auto simp: indexOf_def)

lemma tags: "is_tag open_tag" "is_tag close_tag" "open_tag \<noteq> []" "close_tag \<noteq> []"
  by (simp_all add: is_tag_def open_tag_def close_tag_def js_def)

text \<open>
  The loop of \<open>parseThinkTags\<close>: the pieces outside and inside the tags, and whether the last tag is open.
\<close>

function think_loop :: "jstr \<Rightarrow> nat \<Rightarrow> jstr list \<Rightarrow> jstr list \<Rightarrow> jstr list \<times> jstr list \<times> bool" where
  "think_loop content currentPos visibleParts reasoningParts =
     (case indexOf content open_tag currentPos of
        None \<Rightarrow>
          (if currentPos < length content
           then visibleParts @ [slice content currentPos (length content)] else visibleParts,
           reasoningParts, False)
      | Some openPos \<Rightarrow>
          let visible = (if currentPos < openPos
                then visibleParts @ [slice content currentPos openPos] else visibleParts) in
          (case indexOf content close_tag (openPos + 7) of
             None \<Rightarrow> (visible, reasoningParts @ [slice content (openPos + 7) (length content)], True)
           | Some closePos \<Rightarrow>
               think_loop content (closePos + 8) visible
                 (reasoningParts @ [slice content (openPos + 7) closePos])))"
  by pat_completeness auto

termination
proof (relation "measure (\<lambda>(content, pos, _). length content - pos)")
  fix content pos vs rs open_at visible close_at
  assume "indexOf content open_tag pos = Some open_at"
    and close: "indexOf content close_tag (open_at + 7) = Some close_at"
  then have "pos \<le> open_at" "open_at + 7 \<le> close_at" by (auto dest: indexOf_SomeD)
  moreover have "close_at + 8 \<le> length content"
  proof -
    have "open_at + 7 \<le> length content"
      using indexOf_beyond [of close_tag content "open_at + 7"] close tags by (cases "open_at + 7 \<le> length content") auto
    with indexOf_SomeD(2) [OF close] show ?thesis by simp
  qed
  ultimately show "((content, close_at + 8, visible, rs @ [slice content (open_at + 7) close_at]), content, pos, vs, rs)
      \<in> measure (\<lambda>(content, pos, _). length content - pos)" by simp
qed simp

declare think_loop.simps [simp del]

definition parseThinkTags :: "jstr \<Rightarrow> think_parts" where
  "parseThinkTags content =
     (if \<not> str_includes content open_tag
      then \<lparr>visibleContent = content, think_reasoning = [], hasUnclosedTag = False\<rparr>
      else let (visibleParts, reasoningParts, unclosed) = think_loop content 0 [] []
           in \<lparr>visibleContent = trim (concat visibleParts),
               think_reasoning = trim (join [10, 10] reasoningParts), hasUnclosedTag = unclosed\<rparr>)"

text \<open>
  A text written in pieces: visible text and reasoning in turn, then the last visible text and, where a tag
  is left open, the reasoning that follows it.
\<close>

fun write_thinking :: "(jstr \<times> jstr) list \<Rightarrow> jstr \<Rightarrow> jstr option \<Rightarrow> jstr" where
  "write_thinking [] v None = v"
| "write_thinking [] v (Some r) = v @ open_tag @ r"
| "write_thinking ((v0, r0) # ps) v last_open = v0 @ open_tag @ r0 @ close_tag @ write_thinking ps v last_open"

lemma indexOf_tag:
  "is_tag t \<Longrightarrow> \<not> str_includes s t \<Longrightarrow> n = length pre \<Longrightarrow> indexOf (pre @ s @ t @ u) t n = Some (length pre + length s)"
  by (simp add: indexOf_def first_index_tag)

lemma indexOf_no_tag: "\<not> str_includes s t \<Longrightarrow> n = length pre \<Longrightarrow> indexOf (pre @ s) t n = None"
  by (simp add: indexOf_def first_index_None)

lemma think_loop_write:
  assumes "\<And>v r. (v, r) \<in> set ps \<Longrightarrow> \<not> str_includes v open_tag \<and> \<not> str_includes r close_tag"
    and "\<not> str_includes v open_tag" and "\<And>r. last_open = Some r \<Longrightarrow> \<not> str_includes r close_tag"
  shows "think_loop (pre @ write_thinking ps v last_open) (length pre) vs rs =
    (vs @ filter (\<lambda>s. s \<noteq> []) (map fst ps @ [v]),
     rs @ map snd ps @ (case last_open of None \<Rightarrow> [] | Some r \<Rightarrow> [r]), last_open \<noteq> None)"
  using assms(1)
proof (induction ps arbitrary: pre vs rs)
  case Nil
  show ?case
  proof (cases last_open)
    case None
    with assms(2) show ?thesis
      by (subst think_loop.simps) (simp add: indexOf_no_tag slice_def)
  next
    case (Some r)
    have a: "indexOf (pre @ v @ open_tag @ r) open_tag (length pre) = Some (length pre + length v)"
      using assms(2) tags by (simp add: indexOf_tag)
    have b: "indexOf (pre @ v @ open_tag @ r) close_tag (length pre + length v + 7) = None"
      using indexOf_no_tag [of r close_tag "length pre + length v + 7" "pre @ v @ open_tag"] assms(3) Some by simp
    from Some a b show ?thesis
      by (subst think_loop.simps) (simp add: slice_def Let_def)
  qed
next
  case (Cons p ps)
  obtain v0 r0 where p: "p = (v0, r0)" by fastforce
  with Cons.prems have free: "\<not> str_includes v0 open_tag" "\<not> str_includes r0 close_tag" by auto
  define rest where "rest = write_thinking ps v last_open"
  define all where "all = pre @ write_thinking (p # ps) v last_open"
  have all: "all = pre @ v0 @ open_tag @ r0 @ close_tag @ rest" by (simp add: all_def rest_def p)
  have a: "indexOf all open_tag (length pre) = Some (length pre + length v0)"
    using free tags by (simp add: all indexOf_tag)
  have b: "indexOf all close_tag (length pre + length v0 + 7) = Some (length pre + length v0 + 7 + length r0)"
    using indexOf_tag [of close_tag r0 "length pre + length v0 + 7" "pre @ v0 @ open_tag" rest] free tags
    by (simp add: all)
  have pieces: "slice all (length pre) (length pre + length v0) = v0"
    "slice all (length pre + length v0 + 7) (length pre + length v0 + 7 + length r0) = r0"
    by (simp_all add: all slice_def)
  have again: "think_loop all (length pre + length v0 + 7 + length r0 + 8) vs' rs' =
      (vs' @ filter (\<lambda>s. s \<noteq> []) (map fst ps @ [v]),
       rs' @ map snd ps @ (case last_open of None \<Rightarrow> [] | Some r \<Rightarrow> [r]), last_open \<noteq> None)" for vs' rs'
  proof -
    have len: "length pre + length v0 + 7 + length r0 + 8 = length (pre @ v0 @ open_tag @ r0 @ close_tag)" by simp
    have whole: "all = (pre @ v0 @ open_tag @ r0 @ close_tag) @ write_thinking ps v last_open"
      by (simp add: all rest_def)
    show ?thesis unfolding len whole using Cons.prems by (intro Cons.IH) auto
  qed
  show ?case unfolding all_def [symmetric] think_loop.simps [of all "length pre" vs rs]
    by (simp only: a b pieces again option.case Let_def) (simp add: p)
qed

lemma concat_nonempty: "concat (filter (\<lambda>s. s \<noteq> []) ss) = concat ss"
  by (induction ss) auto

lemma includes_written_tag: "ps \<noteq> [] \<or> last_open \<noteq> None \<Longrightarrow> str_includes (write_thinking ps v last_open) open_tag"
  by (cases "(ps, v, last_open)" rule: write_thinking.cases) (auto simp: str_includes_iff)

lemma parse_written_thinking:
  assumes "\<And>v r. (v, r) \<in> set ps \<Longrightarrow> \<not> str_includes v open_tag \<and> \<not> str_includes r close_tag"
    and "\<not> str_includes v open_tag" and "\<And>r. last_open = Some r \<Longrightarrow> \<not> str_includes r close_tag"
    and "ps \<noteq> [] \<or> last_open \<noteq> None"
  shows "parseThinkTags (write_thinking ps v last_open) =
    \<lparr>visibleContent = trim (concat (map fst ps) @ v),
     think_reasoning = trim (join [10, 10] (map snd ps @ (case last_open of None \<Rightarrow> [] | Some r \<Rightarrow> [r]))),
     hasUnclosedTag = (last_open \<noteq> None)\<rparr>"
  using think_loop_write [of ps v last_open "[]" "[]" "[]"] assms
  by (simp add: parseThinkTags_def includes_written_tag concat_nonempty)

text \<open>Every text is written so in one way at least.\<close>

lemma first_piece:
  assumes "t \<noteq> []" "str_includes s t"
  obtains u w where "s = u @ t @ w" "\<not> str_includes u t"
proof -
  from assms(2) obtain k where k: "first_index s t = Some k" using first_index_None by fastforce
  have least: "k \<le> length u" if "s = u @ t @ w" for u w
    using that k
  proof (induction u arbitrary: s k)
    case Nil
    then have "startsWith s t" by (auto simp: startsWith_iff)
    then have "first_index s t = Some 0" by (rule first_index_start)
    with Nil show ?case by simp
  next
    case (Cons c u)
    then show ?case by (auto split: if_splits)
  qed
  have split: "s = take k s @ t @ drop (k + length t) s" "k + length t \<le> length s"
    using first_index_SomeD [OF k] by auto
  have "\<not> str_includes (take k s) t"
  proof
    assume "str_includes (take k s) t"
    then obtain u v where uv: "take k s = u @ t @ v" by (auto simp: str_includes_iff)
    with split(1) have "s = u @ t @ v @ t @ drop (k + length t) s" by simp
    then have "k \<le> length u" by (rule least)
    moreover have "length u + length t + length v = k" using uv split(2) by (metis add.assoc add_leD1 length_append length_take min.absorb2)
    ultimately show False using assms(1) by (cases t) auto
  qed
  with split(1) that show ?thesis by blast
qed

lemma thinking_written:
  "\<exists>ps v last_open. content = write_thinking ps v last_open
     \<and> (\<forall>(v, r) \<in> set ps. \<not> str_includes v open_tag \<and> \<not> str_includes r close_tag)
     \<and> \<not> str_includes v open_tag \<and> (\<forall>r. last_open = Some r \<longrightarrow> \<not> str_includes r close_tag)"
proof (induction content rule: length_induct)
  case (1 content)
  show ?case
  proof (cases "str_includes content open_tag")
    case False
    then show ?thesis by (intro exI [of _ "[]"] exI [of _ content] exI [of _ None]) simp
  next
    case True
    with tags obtain v0 w where v0: "content = v0 @ open_tag @ w" "\<not> str_includes v0 open_tag"
      by (meson first_piece)
    show ?thesis
    proof (cases "str_includes w close_tag")
      case False
      with v0 show ?thesis by (intro exI [of _ "[]"] exI [of _ v0] exI [of _ "Some w"]) simp
    next
      case True
      with tags obtain r0 rest where r0: "w = r0 @ close_tag @ rest" "\<not> str_includes r0 close_tag"
        by (meson first_piece)
      have "length rest < length content" using v0 r0 by simp
      with 1 obtain ps v last_open where "rest = write_thinking ps v last_open"
        "\<forall>(v, r) \<in> set ps. \<not> str_includes v open_tag \<and> \<not> str_includes r close_tag"
        "\<not> str_includes v open_tag" "\<forall>r. last_open = Some r \<longrightarrow> \<not> str_includes r close_tag" by blast
      with v0 r0 show ?thesis
        by (intro exI [of _ "(v0, r0) # ps"] exI [of _ v] exI [of _ last_open]) auto
    qed
  qed
qed

end
