(* ===== verification/ChatStreaming.thy ===== *)
theory ChatStreaming
  imports ChatMessages
begin

text \<open>
  Streamed answers (\<open>lib/message/message-streaming-utils.ts\<close>, \<open>message-update-utils.ts\<close>), what is shown of a
  message (\<open>message-content-utils.ts\<close>, \<open>message-error-utils.ts\<close>, \<open>message-action-utils.ts\<close>,
  \<open>message-editor-utils.ts\<close>) and the edits of a conversation (\<open>conversation-message-utils.ts\<close>).
\<close>

section \<open>Chunks\<close>

text \<open>\<open>processStreamingContent\<close>; an empty chunk is no chunk.\<close>

definition processStreamingContent :: "jsnum \<Rightarrow> message \<Rightarrow> jstr \<Rightarrow> message" where
  "processStreamingContent now m contentChunk =
     (let fullContent = getMessageContent m @ contentChunk;
          updated = updateCurrentVersionContent m fullContent in
      if reasoning m = None \<and> \<not> str_includes fullContent open_tag
      then updated\<lparr>isReasoningStreaming := Some False\<rparr>
      else let parsed = parseThinkTags fullContent;
               finalReasoning = (if think_reasoning parsed \<noteq> []
                 then Some ((startReasoningTiming now m)\<lparr>reasoning_content := think_reasoning parsed\<rparr>)
                 else reasoning m)
           in updated\<lparr>reasoning := finalReasoning,
                isReasoningStreaming := Some (hasUnclosedTag parsed)\<rparr>)"

datatype chunk_type = Reasoning_chunk | Content_chunk

definition getAppendableChunk :: "jstr \<Rightarrow> jstr \<Rightarrow> jstr" where
  "getAppendableChunk currentContent chunk =
     (if currentContent = [] \<or> \<not> startsWith chunk currentContent then chunk
      else drop (length currentContent) chunk)"

definition applyStreamingChunk :: "jsnum \<Rightarrow> message \<Rightarrow> chunk_type \<Rightarrow> jstr \<Rightarrow> message" where
  "applyStreamingChunk now m type chunk =
     (if status m = Some Error_status then m
      else case type of
        Reasoning_chunk \<Rightarrow>
          let r = startReasoningTiming now m;
              appendableChunk = getAppendableChunk (reasoning_content r) chunk
          in m\<lparr>reasoning := Some (r\<lparr>reasoning_content := reasoning_content r @ appendableChunk\<rparr>),
               isReasoningStreaming := Some True, status := Some Streaming_status\<rparr>
      | Content_chunk \<Rightarrow>
          let appendableChunk = getAppendableChunk (getMessageContent m) chunk;
              contentMessage = processStreamingContent now m appendableChunk
          in (if isReasoningStreaming contentMessage = Some True then contentMessage
              else completeReasoningTiming now contentMessage)\<lparr>status := Some Streaming_status\<rparr>)"

section \<open>Completion\<close>

text \<open>\<open>a || b || c || ''\<close> on texts.\<close>

fun first_nonempty :: "jstr list \<Rightarrow> jstr" where
  "first_nonempty [] = []"
| "first_nonempty (s # ss) = (if s \<noteq> [] then s else first_nonempty ss)"

definition finalizeMessage :: "jsnum \<Rightarrow> message \<Rightarrow> jstr option \<Rightarrow> message" where
  "finalizeMessage now m apiReasoningContent =
     (let content = getMessageContent m;
          parsed = (if str_includes content open_tag then Some (parseThinkTags content) else None);
          visible = (case parsed of Some p \<Rightarrow> visibleContent p | None \<Rightarrow> content);
          finalReasoning = first_nonempty
            [coalesce apiReasoningContent [],
             (case reasoning m of Some r \<Rightarrow> reasoning_content r | None \<Rightarrow> []),
             (case parsed of Some p \<Rightarrow> think_reasoning p | None \<Rightarrow> [])]
      in completeReasoningTiming now
           ((updateCurrentVersionContent m visible)
              \<lparr>reasoning := (if finalReasoning \<noteq> []
                 then Some ((startReasoningTiming now m)\<lparr>reasoning_content := finalReasoning\<rparr>) else None),
               isReasoningStreaming := Some False\<rparr>))"

definition completeAssistantMessage :: "jsnum \<Rightarrow> message \<Rightarrow> message" where
  "completeAssistantMessage now m =
     completeAssistantTiming now ((finalizeMessage now m None)\<lparr>status := Some Complete_status\<rparr>)"

definition isAssistantMessageFinal :: "message \<Rightarrow> bool" where
  "isAssistantMessageFinal m \<longleftrightarrow> status m = Some Complete_status \<or> status m = Some Error_status"

definition isAssistantMessagePending :: "message \<Rightarrow> bool" where
  "isAssistantMessagePending m \<longleftrightarrow> status m = Some Loading_status \<or> status m = Some Streaming_status"

definition isPendingAssistantMessage :: "message \<Rightarrow> bool" where
  "isPendingAssistantMessage m \<longleftrightarrow> sender m = Assistant_role \<and> isAssistantMessagePending m"

text \<open>
  \<open>ChatCompletionResponse\<close> as far as it is read: \<open>choices?.[0]\<close>, and \<open>message?.content\<close> and
  \<open>message?.reasoning_content\<close> of a choice.
\<close>

record completion_choice =
  choice_content :: "jstr option"
  choice_reasoning :: "jstr option"

record completion_response =
  response_choices :: "completion_choice list option"

definition first_choice :: "completion_response \<Rightarrow> completion_choice option" where
  "first_choice response = (case response_choices response of Some (c # _) \<Rightarrow> Some c | _ \<Rightarrow> None)"

definition hasChatCompletionChoice :: "completion_response \<Rightarrow> bool" where
  "hasChatCompletionChoice response \<longleftrightarrow> first_choice response \<noteq> None"

definition applyChatCompletionChoice :: "jsnum \<Rightarrow> message \<Rightarrow> completion_choice \<Rightarrow> message" where
  "applyChatCompletionChoice now m choice =
     completeAssistantTiming now
       ((finalizeMessage now (updateCurrentVersionContent m (coalesce (choice_content choice) []))
          (choice_reasoning choice))\<lparr>status := Some Complete_status\<rparr>)"

definition applyChatCompletionResponse :: "jsnum \<Rightarrow> message \<Rightarrow> completion_response \<Rightarrow> message option" where
  "applyChatCompletionResponse now m response =
     map_option (applyChatCompletionChoice now m) (first_choice response)"

section \<open>Updates of the last message\<close>

definition updateLastAssistantMessage :: "message list \<Rightarrow> (message \<Rightarrow> message) \<Rightarrow> message list" where
  "updateLastAssistantMessage messages updater =
     (if messages = [] \<or> sender (last messages) \<noteq> Assistant_role then messages
      else messages[length messages - 1 := updater (last messages)])"

definition updateAssistantMessageWithError ::
  "jsnum \<Rightarrow> message list \<Rightarrow> jstr \<Rightarrow> jstr option \<Rightarrow> jstr \<Rightarrow> message list" where
  "updateAssistantMessageWithError now messages errorMessage code title =
     updateLastAssistantMessage messages (\<lambda>m.
       completeAssistantTiming now
         ((updateCurrentVersionContent m (title @ js '': '' @ errorMessage))
            \<lparr>status := Some Error_status, isReasoningStreaming := Some False,
             errorCode := Some (if coalesce code [] = [] then None else code)\<rparr>))"

section \<open>Messages left pending\<close>

text \<open>The index the backward loop of \<open>sanitizeMessagesOnLoad\<close> stops at.\<close>

definition last_index :: "('a \<Rightarrow> bool) \<Rightarrow> 'a list \<Rightarrow> nat option" where
  "last_index P xs =
     (case dropWhile (\<lambda>x. \<not> P x) (rev xs) of [] \<Rightarrow> None | _ # earlier \<Rightarrow> Some (length earlier))"

definition API_REQUEST_ERROR :: jstr where
  "API_REQUEST_ERROR = js ''Request error occurred''"

definition INTERRUPTED :: jstr where
  "INTERRUPTED = js ''Generation was interrupted''"

text \<open>\<open>t\<close> is the translation function of the user's language.\<close>

definition sanitizeMessagesOnLoad :: "(jstr \<Rightarrow> jstr) \<Rightarrow> jsnum \<Rightarrow> message list \<Rightarrow> message list" where
  "sanitizeMessagesOnLoad t now messages =
     (case last_index isPendingAssistantMessage messages of
        None \<Rightarrow> messages
      | Some targetIndex \<Rightarrow>
          let finalized = finalizeMessage now (messages ! targetIndex) None;
              hasReasoning = (case reasoning finalized of
                Some r \<Rightarrow> trim (reasoning_content r) \<noteq> [] | None \<Rightarrow> False);
              sanitized = (if hasMessageContent finalized \<or> hasReasoning
                then completeAssistantTiming now
                  (finalized\<lparr>status := Some Complete_status, isReasoningStreaming := Some False\<rparr>)
                else completeAssistantTiming now
                  ((updateCurrentVersionContent finalized (t API_REQUEST_ERROR @ js '': '' @ t INTERRUPTED))
                     \<lparr>status := Some Error_status, isReasoningStreaming := Some False\<rparr>))
          in messages[targetIndex := sanitized])"

section \<open>What is shown\<close>

record content_state =
  displayContent :: jstr
  isAssistant :: bool
  showLoader :: bool
  showMessageContent :: bool
  shown_sources :: "(jstr \<times> jstr) list"
  shown_reasoning :: "jstr option"

definition shouldShowMessageLoader :: "message \<Rightarrow> bool \<Rightarrow> jstr \<Rightarrow> bool" where
  "shouldShowMessageLoader m assistant versionContent \<longleftrightarrow>
     assistant \<and> isReasoningStreaming m \<noteq> Some True
     \<and> (status m = Some Loading_status \<or> status m = Some Streaming_status \<and> versionContent = [])"

definition shouldShowMessageContent :: "message \<Rightarrow> jstr \<Rightarrow> bool" where
  "shouldShowMessageContent m versionContent \<longleftrightarrow>
     (sender m = User_role \<or> isReasoningStreaming m \<noteq> Some True) \<and> versionContent \<noteq> []"

definition getDisplayContent :: "message \<Rightarrow> jstr \<Rightarrow> jstr" where
  "getDisplayContent m versionContent =
     (if sender m \<noteq> Assistant_role then versionContent
      else if \<not> str_includes versionContent open_tag then versionContent
      else visibleContent (parseThinkTags versionContent))"

text \<open>\<open>hasSources\<close> and \<open>hasReasoning\<close> are read off the lists and the option.\<close>

definition getMessageContentState :: "message \<Rightarrow> jstr \<Rightarrow> content_state" where
  "getMessageContentState m versionContent =
     (let assistant = (sender m = Assistant_role);
          r = (if assistant then map_option reasoning_content (reasoning m) else None)
      in \<lparr>displayContent = getDisplayContent m versionContent, isAssistant = assistant,
          showLoader = shouldShowMessageLoader m assistant versionContent,
          showMessageContent = shouldShowMessageContent m versionContent,
          shown_sources = coalesce (msg_sources m) [],
          shown_reasoning = (if r = Some [] then None else r)\<rparr>)"

datatype error_kind = Generic_error | Model_price_error

definition getMessageErrorState :: "message \<Rightarrow> bool \<Rightarrow> (jstr \<times> error_kind \<times> bool) option" where
  "getMessageErrorState m isAdmin =
     (if status m \<noteq> Some Error_status then None
      else let content = first_nonempty [getMessageContent m, js ''An unknown error occurred''];
               price = (errorCode m = Some (Some (js ''model_price_error'')))
           in Some (content, if price then Model_price_error else Generic_error, price \<and> isAdmin))"

record action_state =
  action_content :: jstr
  action_hasContent :: bool
  action_isAssistant :: bool
  action_isLoading :: bool
  action_isUser :: bool

definition getMessageActionState :: "message \<Rightarrow> action_state" where
  "getMessageActionState m =
     \<lparr>action_content = getMessageContent m, action_hasContent = hasMessageContent m,
      action_isAssistant = (sender m = Assistant_role),
      action_isLoading = (status m = Some Loading_status \<or> status m = Some Streaming_status),
      action_isUser = (sender m = User_role)\<rparr>"

record editor_state =
  canSave :: bool
  hasChanged :: bool
  showSaveAndSubmit :: bool

definition getMessageEditorState :: "message \<Rightarrow> jstr \<Rightarrow> jstr \<Rightarrow> editor_state" where
  "getMessageEditorState m editText originalText =
     \<lparr>canSave = (trim editText \<noteq> [] \<and> editText \<noteq> originalText),
      hasChanged = (editText \<noteq> originalText), showSaveAndSubmit = (sender m = User_role)\<rparr>"

section \<open>Edits of a conversation\<close>

text \<open>Fresh identifiers: the key of a message and the id of its version.\<close>

type_synonym fresh = "jstr \<times> jstr"

definition appendUserMessagePair :: "fresh \<Rightarrow> fresh \<Rightarrow> jsnum \<Rightarrow> message list \<Rightarrow> jstr \<Rightarrow> message list" where
  "appendUserMessagePair user_ids answer_ids submittedAt messages content =
     messages @ [createUserMessage (fst user_ids) (snd user_ids) content submittedAt,
                 createLoadingAssistantMessage (fst answer_ids) (snd answer_ids) submittedAt]"

fun findIndex :: "('a \<Rightarrow> bool) \<Rightarrow> 'a list \<Rightarrow> nat option" where
  "findIndex P [] = None"
| "findIndex P (x # xs) = (if P x then Some 0 else map_option Suc (findIndex P xs))"

definition createRegeneratedMessages :: "fresh \<Rightarrow> jsnum \<Rightarrow> message list \<Rightarrow> jstr \<Rightarrow> message list option" where
  "createRegeneratedMessages answer_ids now messages messageKey =
     (case findIndex (\<lambda>m. key m = messageKey) messages of
        None \<Rightarrow> None
      | Some i \<Rightarrow>
          let answer = createLoadingAssistantMessage (fst answer_ids) (snd answer_ids) now in
          if sender (messages ! i) = User_role then Some (take (i + 1) messages @ [answer])
          else Some (take i messages @ [answer]))"

definition removeMessageByKey :: "message list \<Rightarrow> jstr \<Rightarrow> message list" where
  "removeMessageByKey messages messageKey = filter (\<lambda>m. key m \<noteq> messageKey) messages"

text \<open>The backward search from \<open>beforeIndex - 1\<close>, for an index that is at most the length.\<close>

definition getPreviousUserMessage :: "message list \<Rightarrow> nat \<Rightarrow> message option" where
  "getPreviousUserMessage messages beforeIndex =
     find (\<lambda>m. sender m = User_role) (rev (take beforeIndex messages))"

definition applyMessageEdit ::
  "fresh \<Rightarrow> jsnum \<Rightarrow> message list \<Rightarrow> jstr \<Rightarrow> jstr \<Rightarrow> bool \<Rightarrow> (message list \<times> bool) option" where
  "applyMessageEdit answer_ids submittedAt messages messageKey content shouldSubmit =
     (case findIndex (\<lambda>m. key m = messageKey) messages of
        None \<Rightarrow> None
      | Some i \<Rightarrow>
          let updatedMessages = map (\<lambda>m.
                if key m = messageKey
                then (updateCurrentVersionContent m content)
                  \<lparr>createdAt := (if shouldSubmit then Some submittedAt else createdAt m)\<rparr>
                else m) messages in
          if \<not> shouldSubmit \<or> sender (updatedMessages ! i) \<noteq> User_role then Some (updatedMessages, False)
          else Some (take (i + 1) updatedMessages
                 @ [createLoadingAssistantMessage (fst answer_ids) (snd answer_ids) submittedAt], True))"

definition getEditingMessageContent :: "message list \<Rightarrow> jstr option \<Rightarrow> jstr" where
  "getEditingMessageContent messages editingKey =
     (case editingKey of
        None \<Rightarrow> []
      | Some k \<Rightarrow>
          if k = [] then []
          else case find (\<lambda>m. key m = k) messages of Some m \<Rightarrow> getMessageContent m | None \<Rightarrow> [])"

definition getChatMessageRenderState :: "message list \<Rightarrow> message \<Rightarrow> nat \<Rightarrow> jstr option \<Rightarrow> bool \<times> jstr \<times> bool" where
  "getChatMessageRenderState messages m messageIndex editingKey =
     (Suc messageIndex = length messages \<and> sender m = Assistant_role, getMessageContent m,
      editingKey = Some (key m))"

end
