(* ===== verification/ChatStorage.thy ===== *)
theory ChatStorage
  imports ChatStreaming JsSchema
begin

text \<open>
  Persistence of the playground (\<open>lib/storage/storage.ts\<close>, \<open>storage-schema.ts\<close>): the schemas, the envelope of
  a version, the bounds on what is loaded, the collapse of repeated sections, loading and saving. Local
  storage is a map from keys to texts; \<open>fits\<close> says which contents the browser accepts before \<open>setItem\<close>
  throws.
\<close>

section \<open>Schemas\<close>

fun role_of :: "jsvalue \<Rightarrow> message_role option" where
  "role_of (JStr s) =
     (if s = js ''user'' then Some User_role
      else if s = js ''assistant'' then Some Assistant_role
      else if s = js ''system'' then Some System_role else None)"
| "role_of _ = None"

fun status_of :: "jsvalue \<Rightarrow> message_status option" where
  "status_of (JStr s) =
     (if s = js ''loading'' then Some Loading_status
      else if s = js ''streaming'' then Some Streaming_status
      else if s = js ''complete'' then Some Complete_status
      else if s = js ''error'' then Some Error_status else None)"
| "status_of _ = None"

definition messageVersionSchema :: "jsvalue \<Rightarrow> message_version option" where
  "messageVersionSchema v =
     (if \<not> is_JObj v then None
      else read_field v ''id'' as_string (\<lambda>i.
           read_field v ''content'' as_string (\<lambda>c.
             Some \<lparr>version_id = i, version_content = c\<rparr>)))"

definition sourceSchema :: "jsvalue \<Rightarrow> (jstr \<times> jstr) option" where
  "sourceSchema v =
     (if \<not> is_JObj v then None
      else read_field v ''href'' as_string (\<lambda>h. read_field v ''title'' as_string (\<lambda>t. Some (h, t))))"

definition reasoningSchema :: "jsvalue \<Rightarrow> reasoning_state option" where
  "reasoningSchema v =
     (if \<not> is_JObj v then None
      else read_field v ''content'' as_string (\<lambda>c.
           read_field v ''duration'' as_number (\<lambda>d.
           read_field v ''startedAt'' (optional as_number) (\<lambda>b.
           read_field v ''completedAt'' (optional as_number) (\<lambda>e.
           read_field v ''durationMs'' (optional as_number) (\<lambda>ms.
             Some \<lparr>reasoning_content = c, reasoning_duration = d, reasoning_startedAt = b,
                   reasoning_completedAt = e, reasoning_durationMs = ms\<rparr>))))))"

definition at_least_one :: "'a list option \<Rightarrow> 'a list option" where
  "at_least_one r = (case r of Some [] \<Rightarrow> None | _ \<Rightarrow> r)"

definition messageSchema :: "jsvalue \<Rightarrow> message option" where
  "messageSchema v =
     (if \<not> is_JObj v then None
      else read_field v ''key'' as_string (\<lambda>k.
           read_field v ''from'' role_of (\<lambda>from_role.
           read_field v ''versions'' (\<lambda>w. at_least_one (as_list messageVersionSchema w)) (\<lambda>vs.
           read_field v ''createdAt'' (optional as_number) (\<lambda>created.
           read_field v ''startedAt'' (optional as_number) (\<lambda>started.
           read_field v ''completedAt'' (optional as_number) (\<lambda>completed.
           read_field v ''durationMs'' (optional as_number) (\<lambda>duration.
           read_field v ''sources'' (optional (as_list sourceSchema)) (\<lambda>srcs.
           read_field v ''reasoning'' (optional reasoningSchema) (\<lambda>r.
           read_field v ''isReasoningStreaming'' (optional as_bool) (\<lambda>rs.
           read_field v ''isReasoningComplete'' (optional as_bool) (\<lambda>rc.
           read_field v ''isContentComplete'' (optional as_bool) (\<lambda>cc.
           read_field v ''status'' (optional status_of) (\<lambda>st.
           read_field v ''errorCode'' (optional (nullable as_string)) (\<lambda>code.
             Some \<lparr>key = k, sender = from_role, versions = vs, createdAt = created, startedAt = started,
                   completedAt = completed, durationMs = duration, msg_sources = srcs, reasoning = r,
                   isReasoningStreaming = rs, isReasoningComplete = rc, isContentComplete = cc,
                   status = st, errorCode = code\<rparr>)))))))))))))))"

definition messagesSchema :: "jsvalue \<Rightarrow> message list option" where
  "messagesSchema v = as_list messageSchema v"

section \<open>Values of messages\<close>

text \<open>The object \<open>JSON.stringify\<close> sees, in the order the schema leaves its fields in.\<close>

fun role_text :: "message_role \<Rightarrow> jstr" where
  "role_text User_role = js ''user''"
| "role_text Assistant_role = js ''assistant''"
| "role_text System_role = js ''system''"

fun status_text :: "message_status \<Rightarrow> jstr" where
  "status_text Loading_status = js ''loading''"
| "status_text Streaming_status = js ''streaming''"
| "status_text Complete_status = js ''complete''"
| "status_text Error_status = js ''error''"

definition json_of_version :: "message_version \<Rightarrow> jsvalue" where
  "json_of_version v = JObj [(js ''id'', JStr (version_id v)), (js ''content'', JStr (version_content v))]"

definition json_of_reasoning :: "reasoning_state \<Rightarrow> jsvalue" where
  "json_of_reasoning r = JObj
     [(js ''content'', JStr (reasoning_content r)), (js ''duration'', JNum (reasoning_duration r)),
      (js ''startedAt'', of_optional JNum (reasoning_startedAt r)),
      (js ''completedAt'', of_optional JNum (reasoning_completedAt r)),
      (js ''durationMs'', of_optional JNum (reasoning_durationMs r))]"

definition json_of_source :: "jstr \<times> jstr \<Rightarrow> jsvalue" where
  "json_of_source s = JObj [(js ''href'', JStr (fst s)), (js ''title'', JStr (snd s))]"

definition json_of_message :: "message \<Rightarrow> jsvalue" where
  "json_of_message m = JObj
     [(js ''key'', JStr (key m)), (js ''from'', JStr (role_text (sender m))),
      (js ''versions'', JArr (map json_of_version (versions m))),
      (js ''createdAt'', of_optional JNum (createdAt m)), (js ''startedAt'', of_optional JNum (startedAt m)),
      (js ''completedAt'', of_optional JNum (completedAt m)), (js ''durationMs'', of_optional JNum (durationMs m)),
      (js ''sources'', of_optional (\<lambda>ss. JArr (map json_of_source ss)) (msg_sources m)),
      (js ''reasoning'', of_optional json_of_reasoning (reasoning m)),
      (js ''isReasoningStreaming'', of_optional JBool (isReasoningStreaming m)),
      (js ''isReasoningComplete'', of_optional JBool (isReasoningComplete m)),
      (js ''isContentComplete'', of_optional JBool (isContentComplete m)),
      (js ''status'', of_optional (\<lambda>st. JStr (status_text st)) (status m)),
      (js ''errorCode'', of_optional (of_nullable JStr) (errorCode m))]"

section \<open>Sections that repeat\<close>

definition line_terminator :: "code_unit \<Rightarrow> bool" where
  "line_terminator c \<longleftrightarrow> c = 10 \<or> c = 13 \<or> c = 8232 \<or> c = 8233"

text \<open>
  The length of a match of \<open>/^#{2,6}\s+\d+\.\s+.+$/m\<close> at the start of a line. White space may run over line
  ends; the last one gives back code units where nothing follows on the line it reaches.
\<close>

definition heading_match :: "jstr \<Rightarrow> nat option" where
  "heading_match s =
     (let h = length (takeWhile (\<lambda>c. c = 35) s); s1 = drop h s;
          w = length (takeWhile is_space s1); s2 = drop w s1;
          d = length (takeWhile is_digit s2); s3 = drop d s2;
          s4 = tl s3; w2 = length (takeWhile is_space s4)
      in if h < 2 \<or> 6 < h \<or> w = 0 \<or> d = 0 \<or> s3 = [] \<or> hd s3 \<noteq> 46 then None
         else case find (\<lambda>j. j < length s4 \<and> \<not> line_terminator (s4 ! j)) (rev [1..<w2 + 1]) of
             None \<Rightarrow> None
           | Some j \<Rightarrow> Some (h + w + d + 1 + j + length (takeWhile (\<lambda>c. \<not> line_terminator c) (drop j s4))))"

lemma heading_match_pos: "heading_match s = Some n \<Longrightarrow> 0 < n"
  by (auto simp: heading_match_def Let_def split: if_splits option.splits)

text \<open>\<open>getSectionOccurrences\<close>: the matches with their indexes; \<open>bol\<close> tells the start of a line.\<close>

function section_occurrences :: "nat \<Rightarrow> bool \<Rightarrow> jstr \<Rightarrow> (jstr \<times> nat) list" where
  "section_occurrences i bol [] = []"
| "section_occurrences i bol (c # s) =
     (case (if bol then heading_match (c # s) else None) of
        Some n \<Rightarrow> (take n (c # s), i) # section_occurrences (i + n) False (drop n (c # s))
      | None \<Rightarrow> section_occurrences (Suc i) (line_terminator c) s)"
  by pat_completeness auto

termination
  by (relation "measure (\<lambda>(i, bol, s). length s)") (auto dest: heading_match_pos split: if_splits)

definition getSectionOccurrences :: "jstr \<Rightarrow> (jstr \<times> nat) list" where
  "getSectionOccurrences body = section_occurrences 0 True body"

definition getHeadingCounts :: "(jstr \<times> nat) list \<Rightarrow> jstr \<Rightarrow> nat" where
  "getHeadingCounts occurrences = foldl (\<lambda>counts (h, i). counts(h := counts h + 1)) (\<lambda>_. 0) occurrences"

text \<open>The backward loop: the last index of every heading seen at least three times.\<close>

fun last_repeated_indexes :: "(jstr \<Rightarrow> nat) \<Rightarrow> jstr list \<Rightarrow> nat list \<Rightarrow> (jstr \<times> nat) list \<Rightarrow> nat list" where
  "last_repeated_indexes counts seen indexes [] = indexes"
| "last_repeated_indexes counts seen indexes ((h, i) # earlier) =
     (if counts h < 3 \<or> h \<in> set seen then last_repeated_indexes counts seen indexes earlier
      else last_repeated_indexes counts (h # seen) (indexes @ [i]) earlier)"

definition findLastRepeatedSectionRunStart :: "jstr \<Rightarrow> nat option" where
  "findLastRepeatedSectionRunStart body =
     (let occurrences = getSectionOccurrences body;
          indexes = last_repeated_indexes (getHeadingCounts occurrences) [] [] (rev occurrences)
      in if indexes = [] then None else Some (Min (set indexes)))"

definition collapseRepeatedSectionSnapshots :: "jstr \<Rightarrow> jstr" where
  "collapseRepeatedSectionSnapshots body =
     (if length body < 2000 then body
      else case findLastRepeatedSectionRunStart body of None \<Rightarrow> body | Some i \<Rightarrow> drop i body)"

section \<open>Bounds\<close>

definition MAX_STORED_MESSAGES :: nat where "MAX_STORED_MESSAGES = 100"
definition MAX_STORED_MESSAGES_BYTES :: nat where "MAX_STORED_MESSAGES_BYTES = 1048576"
definition MAX_LOADED_MESSAGES_CHARS :: nat where "MAX_LOADED_MESSAGES_CHARS = 120000"
definition MAX_LOADED_MESSAGE_CHARS :: nat where "MAX_LOADED_MESSAGE_CHARS = 40000"

definition TRUNCATED_CONTENT_SUFFIX :: jstr where
  "TRUNCATED_CONTENT_SUFFIX = [10, 10] @ js ''[...]''"

definition trimMessages :: "message list \<Rightarrow> message list" where
  "trimMessages messages =
     (if length messages \<le> MAX_STORED_MESSAGES then messages
      else drop (length messages - MAX_STORED_MESSAGES) messages)"

definition getMessageSize :: "message \<Rightarrow> nat" where
  "getMessageSize m =
     foldl (\<lambda>total v. total + length (version_content v)) 0 (versions m)
       + (case reasoning m of Some r \<Rightarrow> length (reasoning_content r) | None \<Rightarrow> 0)"

definition truncateText :: "jstr \<Rightarrow> nat \<Rightarrow> jstr" where
  "truncateText body maxLength =
     (if length body \<le> maxLength then body
      else if maxLength \<le> length TRUNCATED_CONTENT_SUFFIX then take maxLength body
      else take (maxLength - length TRUNCATED_CONTENT_SUFFIX) body @ TRUNCATED_CONTENT_SUFFIX)"

text \<open>The backward loop of \<open>trimMessagesByContentSize\<close>; the result grows in reverse.\<close>

fun trim_by_size :: "nat \<Rightarrow> message list \<Rightarrow> message list \<Rightarrow> message list" where
  "trim_by_size totalSize result [] = result"
| "trim_by_size totalSize result (m # earlier) =
     (if result \<noteq> [] \<and> MAX_LOADED_MESSAGES_CHARS < totalSize + getMessageSize m then result
      else trim_by_size (totalSize + getMessageSize m) (m # result) earlier)"

definition trimMessagesByContentSize :: "message list \<Rightarrow> message list" where
  "trimMessagesByContentSize messages = trim_by_size 0 [] (rev messages)"

text \<open>
  \<open>normalizeStoredMessageForLoad\<close>; the flag tells whether the result is another object than the argument,
  which is what \<open>loadMessages\<close> compares.
\<close>

definition normalize_version :: "message_version \<Rightarrow> message_version \<times> bool" where
  "normalize_version v =
     (let collapsedContent = collapseRepeatedSectionSnapshots (version_content v);
          content = truncateText collapsedContent MAX_LOADED_MESSAGE_CHARS
      in if content = version_content v \<and> collapsedContent = version_content v then (v, False)
         else (v\<lparr>version_content := content\<rparr>, True))"

definition normalizeStoredMessageForLoad :: "jsnum \<Rightarrow> message \<Rightarrow> message \<times> bool" where
  "normalizeStoredMessageForLoad now m =
     (let vs = map normalize_version (versions m);
          r = map_option (\<lambda>r. r\<lparr>reasoning_content := truncateText (reasoning_content r) MAX_LOADED_MESSAGE_CHARS\<rparr>)
                (reasoning m);
          changed = (list_ex snd vs \<or> map_option reasoning_content r \<noteq> map_option reasoning_content (reasoning m));
          normalized = (if changed then m\<lparr>versions := map fst vs, reasoning := r\<rparr> else m);
          hasReasoning = (case reasoning normalized of
            Some r \<Rightarrow> trim (reasoning_content r) \<noteq> [] | None \<Rightarrow> False)
      in if \<not> isAssistantMessagePending normalized \<or> \<not> hasMessageContent normalized \<and> \<not> hasReasoning
         then (normalized, changed)
         else
           let finish = coalesce (completedAt normalized)
                 (coalesce (Option.bind (reasoning normalized) reasoning_completedAt)
                   (coalesce (startedAt normalized) (coalesce (createdAt normalized) now)))
           in (completeAssistantTiming finish
                 ((finalizeMessage now normalized None)
                    \<lparr>status := Some Complete_status, isReasoningStreaming := Some False\<rparr>), True))"

section \<open>Loading and saving\<close>

type_synonym local_storage = "jstr \<Rightarrow> jstr option"

definition MESSAGES_KEY :: jstr where "MESSAGES_KEY = js ''playground_messages''"
definition CONFIG_KEY :: jstr where "CONFIG_KEY = js ''playground_config''"
definition PARAMETER_ENABLED_KEY :: jstr where "PARAMETER_ENABLED_KEY = js ''playground_parameter_enabled''"

text \<open>\<open>null\<close> where nothing is stored, an error where the text is no JSON.\<close>

definition readStoredValue :: "local_storage \<Rightarrow> jstr \<Rightarrow> unit + jsvalue" where
  "readStoredValue storage k =
     (case storage k of
        None \<Rightarrow> Inr JNull
      | Some saved \<Rightarrow>
          if saved = [] then Inr JNull
          else case JSON_parse saved of None \<Rightarrow> Inl () | Some v \<Rightarrow> Inr v)"

definition readStoredMessagesValue :: "local_storage \<Rightarrow> (unit + jsvalue) \<times> local_storage" where
  "readStoredMessagesValue storage =
     (case storage MESSAGES_KEY of
        None \<Rightarrow> (Inr JNull, storage)
      | Some saved \<Rightarrow>
          if saved = [] then (Inr JNull, storage)
          else if MAX_STORED_MESSAGES_BYTES < length saved then (Inr JNull, storage(MESSAGES_KEY := None))
          else (case JSON_parse saved of None \<Rightarrow> (Inl (), storage) | Some v \<Rightarrow> (Inr v, storage)))"

definition unwrapStoredValue :: "jsvalue \<Rightarrow> jsvalue" where
  "unwrapStoredValue v =
     (case v of
        JObj props \<Rightarrow>
          if hasOwn props (js ''version'') \<and> hasOwn props (js ''data'') then get_prop v (js ''data'') else v
      | _ \<Rightarrow> v)"

definition stored_envelope :: "jsvalue \<Rightarrow> jstr" where
  "stored_envelope v = json_text (JObj [(js ''version'', JNum (Fin 1)), (js ''data'', v)])"

definition setItem :: "(local_storage \<Rightarrow> bool) \<Rightarrow> local_storage \<Rightarrow> jstr \<Rightarrow> jstr \<Rightarrow> local_storage" where
  "setItem fits storage k body = (if fits (storage(k := Some body)) then storage(k := Some body) else storage)"

text \<open>A value the schema refuses and a write the browser refuses are caught; the storage stays as it is.\<close>

definition saveMessages :: "(local_storage \<Rightarrow> bool) \<Rightarrow> local_storage \<Rightarrow> message list \<Rightarrow> local_storage" where
  "saveMessages fits storage messages =
     (case messagesSchema (JArr (map json_of_message (trimMessages messages))) of
        None \<Rightarrow> storage
      | Some parsed \<Rightarrow>
          setItem fits storage MESSAGES_KEY (stored_envelope (JArr (map json_of_message parsed))))"

text \<open>
  \<open>loadMessages\<close>. \<open>trimMessagesByContentSize\<close> builds a new array each time, so the comparison with its
  argument by reference always differs and the loaded messages are written back.
\<close>

definition loadMessages ::
  "(jstr \<Rightarrow> jstr) \<Rightarrow> (local_storage \<Rightarrow> bool) \<Rightarrow> jsnum \<Rightarrow> local_storage \<Rightarrow> message list option \<times> local_storage" where
  "loadMessages t fits now storage =
     (case readStoredMessagesValue storage of
        (Inl _, storage1) \<Rightarrow> (None, storage1)
      | (Inr saved, storage1) \<Rightarrow>
          if \<not> truthy saved then (None, storage1)
          else case messagesSchema (unwrapStoredValue saved) of
              None \<Rightarrow> (None, storage1)
            | Some parsed \<Rightarrow>
                let normalized = map fst (map (normalizeStoredMessageForLoad now) parsed);
                    trimmed = trimMessages normalized;
                    sizeTrimmed = trimMessagesByContentSize trimmed;
                    sanitized = sanitizeMessagesOnLoad t now sizeTrimmed
                in (Some sanitized, saveMessages fits storage1 sanitized))"

definition clearPlaygroundData :: "local_storage \<Rightarrow> local_storage" where
  "clearPlaygroundData storage =
     storage(CONFIG_KEY := None, PARAMETER_ENABLED_KEY := None, MESSAGES_KEY := None)"

section \<open>The schemas read the values back\<close>

definition storable :: "message \<Rightarrow> bool" where
  "storable m \<longleftrightarrow> versions m \<noteq> [] \<and> storable_number (createdAt m) \<and> storable_number (startedAt m)
     \<and> storable_number (completedAt m) \<and> storable_number (durationMs m)
     \<and> (case reasoning m of None \<Rightarrow> True | Some r \<Rightarrow> isFinite (reasoning_duration r)
          \<and> storable_number (reasoning_startedAt r) \<and> storable_number (reasoning_completedAt r)
          \<and> storable_number (reasoning_durationMs r))"

lemma role_of_text [simp]: "role_of (JStr (role_text r)) = Some r"
  by (cases r) simp_all

lemma status_of_text [simp]: "status_of (JStr (status_text r)) = Some r"
  by (cases r) simp_all

lemma optional_status [simp]: "optional status_of (of_optional (\<lambda>st. JStr (status_text st)) s) = Some s"
  by (rule optional_of_optional) (simp_all del: status_of.simps)

lemma version_read_back [simp]: "messageVersionSchema (json_of_version v) = Some v"
  by (simp add: messageVersionSchema_def json_of_version_def read_field_def)

lemma source_read_back [simp]: "sourceSchema (json_of_source v) = Some v"
  by (simp add: sourceSchema_def json_of_source_def read_field_def)

lemma sources_read_back [simp]:
  "optional (as_list sourceSchema) (of_optional (\<lambda>ss. JArr (map json_of_source ss)) s) = Some s"
  by (rule optional_of_optional) (simp_all del: as_list.simps add: as_list_read_back)

lemma error_read_back [simp]: "optional (nullable as_string) (of_optional (of_nullable JStr) c) = Some c"
proof (rule optional_of_optional)
  fix x :: "jstr option"
  show "of_nullable JStr x \<noteq> JUndefined" "nullable as_string (of_nullable JStr x) = Some x"
    by (cases x; simp add: nullable_def)+
qed

lemma get_prop_Cons:
  "get_prop (JObj ((js k, v) # ps)) (js n) = (if k = n then v else get_prop (JObj ps) (js n))"
  by simp

definition storable_reasoning :: "reasoning_state \<Rightarrow> bool" where
  "storable_reasoning r \<longleftrightarrow> isFinite (reasoning_duration r) \<and> storable_number (reasoning_startedAt r)
     \<and> storable_number (reasoning_completedAt r) \<and> storable_number (reasoning_durationMs r)"

lemma reasoning_read_back:
  "reasoningSchema (json_of_reasoning r) = (if storable_reasoning r then Some r else None)"
  by (auto simp: reasoningSchema_def json_of_reasoning_def read_field_def optional_number storable_reasoning_def
      simp del: get_prop.simps simp: get_prop_Cons)

lemma optional_reasoning:
  "optional reasoningSchema (of_optional json_of_reasoning r) =
     (if case r of None \<Rightarrow> True | Some x \<Rightarrow> storable_reasoning x then Some r else None)"
  by (cases r) (simp_all add: optional_def reasoning_read_back, simp add: json_of_reasoning_def)

lemma versions_read_back: "at_least_one (as_list messageVersionSchema (JArr (map json_of_version vs))) =
    (if vs = [] then None else Some vs)"
  by (simp del: as_list.simps add: as_list_read_back at_least_one_def split: list.splits)

lemma message_read_back: "messageSchema (json_of_message m) = (if storable m then Some m else None)"
  unfolding messageSchema_def json_of_message_def read_field_def
  by (simp del: get_prop.simps as_list.simps role_of.simps status_of.simps optional_def
      add: get_prop_Cons optional_number optional_reasoning versions_read_back
        storable_def storable_reasoning_def split: option.splits)

end
