(* ===== verification/ChatLoading.thy ===== *)
theory ChatLoading
  imports ChatStorage
begin

text \<open>
  What a load of the playground's messages yields: a suffix of the stored conversation within the bounds,
  whose last message is no answer left pending.
\<close>

section \<open>Suffixes and sizes\<close>

lemma length_trim_by_size_keys:
  "\<exists>k. trim_by_size n res ms = drop k (rev ms) @ res"
proof (induction ms arbitrary: n res)
  case (Cons m ms)
  show ?case
  proof (cases "res \<noteq> [] \<and> MAX_LOADED_MESSAGES_CHARS < n + getMessageSize m")
    case True
    then show ?thesis by (intro exI [of _ "length (m # ms)"]) simp
  next
    case False
    from Cons [of "n + getMessageSize m" "m # res"] obtain k
      where "trim_by_size (n + getMessageSize m) (m # res) ms = drop k (rev ms) @ m # res" by blast
    with False show ?thesis
      by (cases "k \<le> length ms") (auto intro!: exI [of _ "min k (length ms)"])
  qed
qed simp

lemma trimmed_is_suffix:
  "\<exists>k. trimMessages ms = drop k ms" "\<exists>k. trimMessagesByContentSize ms = drop k ms"
  using length_trim_by_size_keys [of 0 "[]" "rev ms"]
  by (auto simp: trimMessages_def trimMessagesByContentSize_def intro: exI [of _ 0])

lemma length_trimMessages: "length (trimMessages ms) \<le> 100"
  by (simp add: trimMessages_def MAX_STORED_MESSAGES_def)

lemma trim_by_size_bound:
  "n = sum_list (map getMessageSize res) \<Longrightarrow> length res \<le> 1 \<or> n \<le> MAX_LOADED_MESSAGES_CHARS
   \<Longrightarrow> length (trim_by_size n res ms) \<le> 1
      \<or> sum_list (map getMessageSize (trim_by_size n res ms)) \<le> MAX_LOADED_MESSAGES_CHARS"
proof (induction ms arbitrary: n res)
  case (Cons m ms)
  show ?case
  proof (cases "res \<noteq> [] \<and> MAX_LOADED_MESSAGES_CHARS < n + getMessageSize m")
    case False
    have "length (trim_by_size (n + getMessageSize m) (m # res) ms) \<le> 1
      \<or> sum_list (map getMessageSize (trim_by_size (n + getMessageSize m) (m # res) ms)) \<le> MAX_LOADED_MESSAGES_CHARS"
      by (rule Cons.IH) (use False Cons.prems in auto)
    with False show ?thesis by (simp only: trim_by_size.simps if_False)
  qed (use Cons.prems in auto)
qed auto

lemma trimmed_size:
  "length (trimMessagesByContentSize ms) \<le> 1
    \<or> sum_list (map getMessageSize (trimMessagesByContentSize ms)) \<le> 120000"
  using trim_by_size_bound [of 0 "[]" "rev ms"]
  by (simp add: trimMessagesByContentSize_def MAX_LOADED_MESSAGES_CHARS_def)

lemma length_visible: "length (visibleContent (parseThinkTags c)) \<le> length c"
proof (cases "str_includes c open_tag")
  case True
  obtain ps v last_open where c: "c = write_thinking ps v last_open"
    and free: "\<forall>(v, r) \<in> set ps. \<not> str_includes v open_tag \<and> \<not> str_includes r close_tag"
      "\<not> str_includes v open_tag" "\<forall>r. last_open = Some r \<longrightarrow> \<not> str_includes r close_tag"
    using thinking_written by blast
  with True have some: "ps \<noteq> [] \<or> last_open \<noteq> None" by (cases ps; cases last_open) auto
  have "length (concat (map fst ps) @ v) \<le> length c" unfolding c
    by (induction ps v last_open rule: write_thinking.induct) auto
  moreover have "visibleContent (parseThinkTags c) = trim (concat (map fst ps) @ v)"
    unfolding c using free some by (subst parse_written_thinking) auto
  ultimately show ?thesis using length_trim_le order.trans by metis
qed (simp add: parseThinkTags_def)

lemma finalize_fields [simp]:
  "sender (finalizeMessage now m r) = sender m"
  "key (finalizeMessage now m r) = key m"
  "status (finalizeMessage now m r) = status m"
  "isReasoningStreaming (finalizeMessage now m r) = Some False"
  by (simp_all add: finalizeMessage_def Let_def)

lemma content_set [simp]:
  "getMessageContent (m\<lparr>reasoning := r\<rparr>) = getMessageContent m"
  "getMessageContent (m\<lparr>isReasoningStreaming := b\<rparr>) = getMessageContent m"
  "getMessageContent (m\<lparr>status := st\<rparr>) = getMessageContent m"
  "getMessageContent (m\<lparr>createdAt := t\<rparr>) = getMessageContent m"
  "getMessageContent (m\<lparr>errorCode := e\<rparr>) = getMessageContent m"
  by (simp_all add: getMessageContent_def getCurrentVersion_def)

lemma finalize_content:
  "getMessageContent (finalizeMessage now m r) =
     (if str_includes (getMessageContent m) open_tag
      then visibleContent (parseThinkTags (getMessageContent m)) else getMessageContent m)"
  by (simp add: finalizeMessage_def Let_def)


lemma length_join: "length (join sep ss) \<le> sum_list (map length ss) + length sep * length ss"
  by (induction sep ss rule: join.induct) auto

lemma parsed_size:
  assumes "str_includes c open_tag"
  shows "length (visibleContent (parseThinkTags c)) + length (think_reasoning (parseThinkTags c)) \<le> length c"
proof -
  obtain ps v last_open where c: "c = write_thinking ps v last_open"
    and free: "\<forall>(v, r) \<in> set ps. \<not> str_includes v open_tag \<and> \<not> str_includes r close_tag"
      "\<not> str_includes v open_tag" "\<forall>r. last_open = Some r \<longrightarrow> \<not> str_includes r close_tag"
    using thinking_written by blast
  with assms have some: "ps \<noteq> [] \<or> last_open \<noteq> None" by (cases ps; cases last_open) auto
  define rs where "rs = map snd ps @ (case last_open of None \<Rightarrow> [] | Some r \<Rightarrow> [r])"
  have "length (concat (map fst ps) @ v) + (sum_list (map length rs) + 2 * length rs) \<le> length c"
    unfolding c rs_def by (induction ps v last_open rule: write_thinking.induct) auto
  moreover have "length (join [10, 10] rs) \<le> sum_list (map length rs) + 2 * length rs"
    using length_join [of "[10, 10]" rs] by simp
  moreover have "visibleContent (parseThinkTags c) = trim (concat (map fst ps) @ v)"
    "think_reasoning (parseThinkTags c) = trim (join [10, 10] rs)"
    unfolding c rs_def using free some by (subst parse_written_thinking; auto)+
  ultimately show ?thesis
    using length_trim_le [of "concat (map fst ps) @ v"] length_trim_le [of "join [10, 10] rs"] by simp
qed

lemma message_size:
  "getMessageSize m = sum_list (map (\<lambda>v. length (version_content v)) (versions m))
     + (case reasoning m of Some r \<Rightarrow> length (reasoning_content r) | None \<Rightarrow> 0)"
proof -
  have "foldl (\<lambda>total v. total + length (version_content v)) n vs
      = n + sum_list (map (\<lambda>v. length (version_content v)) vs)" for n vs
    by (induction vs arbitrary: n) auto
  from this [of 0 "versions m"] show ?thesis by (simp add: getMessageSize_def)
qed

lemma current_size: "length (getMessageContent m) \<le> sum_list (map (\<lambda>v. length (version_content v)) (versions m))"
  by (cases "versions m") (auto simp: getMessageContent_def getCurrentVersion_def)

lemma timing_size [simp]:
  "getMessageSize (completeAssistantTiming t m) = getMessageSize m"
  "getMessageSize (completeReasoningTiming t m) = getMessageSize m"
  by (simp_all add: message_size completeAssistantTiming_def completeReasoningTiming_def Let_def split: option.split)

lemma size_set [simp]:
  "getMessageSize (m\<lparr>isReasoningStreaming := b\<rparr>) = getMessageSize m"
  "getMessageSize (m\<lparr>status := st\<rparr>) = getMessageSize m"
  by (simp_all add: message_size)

lemma sized:
  "getMessageSize ((updateCurrentVersionContent m c)\<lparr>reasoning := r\<rparr>) =
     length c + (case r of Some x \<Rightarrow> length (reasoning_content x) | None \<Rightarrow> 0)"
  by (simp add: message_size updateCurrentVersionContent_def)

lemma finalize_size: "getMessageSize (finalizeMessage now m None) \<le> getMessageSize m"
proof -
  define c where "c = getMessageContent m"
  define old where "old = (case reasoning m of Some r \<Rightarrow> reasoning_content r | None \<Rightarrow> [])"
  have m: "length c + length old \<le> getMessageSize m"
    using current_size [of m] by (simp add: message_size c_def old_def split: option.split)
  show ?thesis
  proof (cases "str_includes c open_tag")
    case True
    with parsed_size [OF True] m show ?thesis
      by (cases "old = []") (simp_all add: finalizeMessage_def Let_def sized flip: c_def old_def)
  next
    case False
    with m show ?thesis
      by (cases "old = []") (simp_all add: finalizeMessage_def Let_def sized flip: c_def old_def)
  qed
qed

lemma replaced_size:
  "getMessageSize (updateCurrentVersionContent m c) \<le> getMessageSize m + length c"
  by (auto simp: message_size updateCurrentVersionContent_def split: option.split)

lemma last_index_Some:
  "last_index P xs = Some i \<Longrightarrow> i < length xs \<and> P (xs ! i) \<and> (\<forall>j. i < j \<and> j < length xs \<longrightarrow> \<not> P (xs ! j))"
proof -
  assume "last_index P xs = Some i"
  then obtain x earlier where d: "dropWhile (\<lambda>x. \<not> P x) (rev xs) = x # earlier" "length earlier = i"
    by (auto simp: last_index_def split: list.splits)
  define later where "later = takeWhile (\<lambda>x. \<not> P x) (rev xs)"
  have "rev xs = later @ x # earlier" using d(1) unfolding later_def by (metis takeWhile_dropWhile_id)
  then have xs: "xs = rev earlier @ x # rev later" by (metis rev_append rev.simps(2) rev_rev_ident append.assoc append_Cons append_Nil)
  have "P x" using d(1) by (metis dropWhile_eq_Cons_conv)
  moreover have none: "\<not> P y" if "y \<in> set later" for y using that unfolding later_def by (auto dest: set_takeWhileD)
  moreover have "\<not> P (xs ! j)" if "i < j" "j < length xs" for j
  proof -
    from that d(2) have "xs ! j = rev later ! (j - Suc i)" "j - Suc i < length later"
      unfolding xs by (simp_all add: nth_append nth_Cons')
    then have "xs ! j \<in> set later" by (metis length_rev nth_mem set_rev)
    with none show ?thesis by blast
  qed
  ultimately show ?thesis using d(2) unfolding xs by (simp add: nth_append)
qed

lemma last_index_None: "last_index P xs = None \<longleftrightarrow> (\<forall>x \<in> set xs. \<not> P x)"
  by (simp add: last_index_def dropWhile_eq_Nil_conv split: list.split)
     (metis dropWhile_eq_Nil_conv list.distinct(1) set_rev)

section \<open>The loaded conversation\<close>

lemma normalize_key: "key (fst (normalizeStoredMessageForLoad now m)) = key m"
  by (simp add: normalizeStoredMessageForLoad_def Let_def split: option.split)

lemma pending_normalized:
  assumes "m' = fst (normalizeStoredMessageForLoad now m)" "isAssistantMessagePending m'"
  shows "\<not> hasMessageContent m' \<and> (\<forall>r. reasoning m' = Some r \<longrightarrow> trim (reasoning_content r) = [])"
  using assms unfolding normalizeStoredMessageForLoad_def Let_def
  by (auto simp: isAssistantMessagePending_def split: if_splits)

definition interrupted_text :: "(jstr \<Rightarrow> jstr) \<Rightarrow> jstr" where
  "interrupted_text t = t API_REQUEST_ERROR @ js '': '' @ t INTERRUPTED"

text \<open>The message \<open>sanitizeMessagesOnLoad\<close> puts in place of a pending one.\<close>

definition settled_message :: "(jstr \<Rightarrow> jstr) \<Rightarrow> jsnum \<Rightarrow> message \<Rightarrow> message" where
  "settled_message t now m =
     (let finalized = finalizeMessage now m None;
          hasReasoning = (case reasoning finalized of
            Some r \<Rightarrow> trim (reasoning_content r) \<noteq> [] | None \<Rightarrow> False)
      in if hasMessageContent finalized \<or> hasReasoning
         then completeAssistantTiming now
           (finalized\<lparr>status := Some Complete_status, isReasoningStreaming := Some False\<rparr>)
         else completeAssistantTiming now
           ((updateCurrentVersionContent finalized (interrupted_text t))
              \<lparr>status := Some Error_status, isReasoningStreaming := Some False\<rparr>))"

lemma sanitize_alt:
  "sanitizeMessagesOnLoad t now ms =
     (case last_index isPendingAssistantMessage ms of
        None \<Rightarrow> ms | Some i \<Rightarrow> ms[i := settled_message t now (ms ! i)])"
  by (simp add: sanitizeMessagesOnLoad_def settled_message_def interrupted_text_def Let_def split: option.split)

lemma settled_fields [simp]:
  "key (settled_message t now m) = key m"
  "\<not> isAssistantMessagePending (settled_message t now m)"
  by (simp_all add: settled_message_def Let_def isAssistantMessagePending_def)

lemma settled_size: "getMessageSize (settled_message t now m) \<le> getMessageSize m + length (interrupted_text t)"
  using finalize_size [of now m] replaced_size [of "finalizeMessage now m None" "interrupted_text t"]
  by (auto simp: settled_message_def Let_def)

lemma sanitize_keys: "map key (sanitizeMessagesOnLoad t now ms) = map key ms"
  using last_index_Some [of isPendingAssistantMessage ms]
  by (auto simp: sanitize_alt map_update split: option.split) (metis list_update_id map_update nth_map)

lemma length_sanitize [simp]: "length (sanitizeMessagesOnLoad t now ms) = length ms"
  by (simp add: sanitize_alt split: option.split)

lemma sanitize_last:
  assumes "ms \<noteq> []"
  shows "\<not> isPendingAssistantMessage (last (sanitizeMessagesOnLoad t now ms))"
proof (cases "last_index isPendingAssistantMessage ms")
  case None
  then have "\<forall>x \<in> set ms. \<not> isPendingAssistantMessage x" by (simp only: last_index_None)
  with assms None show ?thesis by (simp add: sanitize_alt)
next
  case (Some i)
  from last_index_Some [OF this] have i: "i < length ms" "isPendingAssistantMessage (ms ! i)"
    "\<And>j. i < j \<Longrightarrow> j < length ms \<Longrightarrow> \<not> isPendingAssistantMessage (ms ! j)" by auto
  show ?thesis
  proof (cases "i = length ms - 1")
    case True
    have "last (ms[i := x]) = x" for x using True assms by (simp add: last_list_update)
    with Some show ?thesis by (simp add: sanitize_alt isPendingAssistantMessage_def)
  next
    case False
    with i(1) have "i < length ms - 1" by simp
    moreover from this i(3) [of "length ms - 1"] assms have "\<not> isPendingAssistantMessage (last ms)"
      by (simp add: last_conv_nth)
    ultimately show ?thesis using Some assms by (simp add: sanitize_alt last_list_update)
  qed
qed

lemma sanitize_pending:
  assumes "m \<in> set (sanitizeMessagesOnLoad t now ms)" "isPendingAssistantMessage m"
  shows "m \<in> set ms"
proof (cases "last_index isPendingAssistantMessage ms")
  case (Some i)
  have "m \<noteq> settled_message t now (ms ! i)" using assms(2) by (auto simp: isPendingAssistantMessage_def)
  with assms(1) Some show ?thesis
    using set_update_subset_insert [of ms i "settled_message t now (ms ! i)"] by (auto simp: sanitize_alt)
qed (use assms in \<open>simp add: sanitize_alt\<close>)

lemma sanitize_size:
  "sum_list (map getMessageSize (sanitizeMessagesOnLoad t now ms))
     \<le> sum_list (map getMessageSize ms) + length (interrupted_text t)"
proof (cases "last_index isPendingAssistantMessage ms")
  case None
  then show ?thesis by (simp add: sanitize_alt)
next
  case (Some i)
  from last_index_Some [OF this] have i: "i < length ms" by simp
  then have split: "ms = take i ms @ ms ! i # drop (Suc i) ms" by (rule id_take_nth_drop)
  have "sum_list (map getMessageSize (ms[i := settled_message t now (ms ! i)]))
    = sum_list (map getMessageSize (take i ms)) + getMessageSize (settled_message t now (ms ! i))
      + sum_list (map getMessageSize (drop (Suc i) ms))"
    using i by (simp add: upd_conv_take_nth_drop)
  moreover have "sum_list (map getMessageSize ms)
    = sum_list (map getMessageSize (take i ms)) + getMessageSize (ms ! i)
      + sum_list (map getMessageSize (drop (Suc i) ms))"
    by (subst split) simp
  ultimately show ?thesis using Some settled_size [of t now "ms ! i"] by (simp add: sanitize_alt)
qed

text \<open>The stored messages a load starts from.\<close>

definition stored_messages :: "local_storage \<Rightarrow> message list option" where
  "stored_messages storage =
     (case storage MESSAGES_KEY of
        None \<Rightarrow> None
      | Some saved \<Rightarrow>
          if length saved \<le> MAX_STORED_MESSAGES_BYTES
          then Option.bind (JSON_parse saved) (\<lambda>v. messagesSchema (unwrapStoredValue v)) else None)"

definition load_pipeline :: "(jstr \<Rightarrow> jstr) \<Rightarrow> jsnum \<Rightarrow> message list \<Rightarrow> message list" where
  "load_pipeline t now parsed =
     sanitizeMessagesOnLoad t now
       (trimMessagesByContentSize (trimMessages (map (\<lambda>m. fst (normalizeStoredMessageForLoad now m)) parsed)))"

lemma falsy_no_messages: "\<not> truthy v \<Longrightarrow> messagesSchema (unwrapStoredValue v) = None"
  by (cases v) (simp_all add: messagesSchema_def unwrapStoredValue_def)

lemma JSON_parse_Nil [simp]: "JSON_parse [] = None"
  by (simp add: JSON_parse_def json_skip_def)

lemma loadMessages_Some:
  "loadMessages t fits now storage = (Some ms, storage') \<longleftrightarrow>
     (\<exists>parsed. stored_messages storage = Some parsed \<and> ms = load_pipeline t now parsed
        \<and> storage' = saveMessages fits storage ms)"
proof (cases "storage MESSAGES_KEY")
  case None
  then show ?thesis by (simp add: loadMessages_def readStoredMessagesValue_def stored_messages_def)
next
  case (Some saved)
  show ?thesis
  proof (cases "saved = [] \<or> MAX_STORED_MESSAGES_BYTES < length saved \<or> JSON_parse saved = None")
    case True
    then have none: "stored_messages storage = None"
      using Some by (cases "saved = []") (auto simp: stored_messages_def)
    have "fst (loadMessages t fits now storage) = None"
      using True Some by (cases "saved = []") (auto simp: loadMessages_def readStoredMessagesValue_def)
    with none show ?thesis by (metis fst_conv option.distinct(1))
  next
    case False
    then obtain v where v: "JSON_parse saved = Some v" by blast
    with False Some have read: "readStoredMessagesValue storage = (Inr v, storage)"
      by (simp add: readStoredMessagesValue_def)
    from v False Some have stored: "stored_messages storage = messagesSchema (unwrapStoredValue v)"
      by (simp add: stored_messages_def)
    show ?thesis
    proof (cases "messagesSchema (unwrapStoredValue v)")
      case None
      then show ?thesis by (simp add: loadMessages_def read stored)
    next
      case (Some parsed)
      then have "truthy v" using falsy_no_messages by fastforce
      then show ?thesis by (auto simp: loadMessages_def read stored Some load_pipeline_def Let_def comp_def)
    qed
  qed
qed

lemma pipeline_keys: "\<exists>k. map key (load_pipeline t now parsed) = drop k (map key parsed)"
proof -
  define ms where "ms = map (\<lambda>m. fst (normalizeStoredMessageForLoad now m)) parsed"
  obtain k l where "trimMessages ms = drop k ms" "trimMessagesByContentSize (drop k ms) = drop l (drop k ms)"
    using trimmed_is_suffix by metis
  then have "map key (load_pipeline t now parsed) = drop (l + k) (map key parsed)"
    by (simp add: load_pipeline_def sanitize_keys drop_map ms_def [symmetric])
       (simp add: ms_def drop_map [symmetric] comp_def normalize_key)
  then show ?thesis by blast
qed

lemma pipeline_bounds:
  "length (load_pipeline t now parsed) \<le> 100"
  "length (load_pipeline t now parsed) \<le> 1
    \<or> sum_list (map getMessageSize (load_pipeline t now parsed)) \<le> 120000 + length (interrupted_text t)"
proof -
  define ms where "ms = trimMessages (map (\<lambda>m. fst (normalizeStoredMessageForLoad now m)) parsed)"
  have "length (trimMessagesByContentSize ms) \<le> length ms" using trimmed_is_suffix(2) [of ms] by auto
  also have "\<dots> \<le> 100" by (simp add: ms_def length_trimMessages)
  finally show "length (load_pipeline t now parsed) \<le> 100" by (simp add: load_pipeline_def ms_def)
  show "length (load_pipeline t now parsed) \<le> 1
    \<or> sum_list (map getMessageSize (load_pipeline t now parsed)) \<le> 120000 + length (interrupted_text t)"
    using trimmed_size [of ms] sanitize_size [of t now "trimMessagesByContentSize ms"]
    by (auto simp: load_pipeline_def ms_def)
qed

lemma pipeline_settled:
  "load_pipeline t now parsed \<noteq> [] \<Longrightarrow> \<not> isPendingAssistantMessage (last (load_pipeline t now parsed))"
  "m \<in> set (load_pipeline t now parsed) \<Longrightarrow> isPendingAssistantMessage m \<Longrightarrow> \<not> hasMessageContent m"
proof -
  define ms where "ms = map (\<lambda>m. fst (normalizeStoredMessageForLoad now m)) parsed"
  show "load_pipeline t now parsed \<noteq> [] \<Longrightarrow> \<not> isPendingAssistantMessage (last (load_pipeline t now parsed))"
    unfolding load_pipeline_def by (intro sanitize_last) (metis length_0_conv length_sanitize)
  assume m: "m \<in> set (load_pipeline t now parsed)" "isPendingAssistantMessage m"
  then have "m \<in> set (trimMessagesByContentSize (trimMessages ms))"
    unfolding load_pipeline_def ms_def by (rule sanitize_pending)
  then have "m \<in> set ms" using trimmed_is_suffix by (metis in_set_dropD)
  with m(2) show "\<not> hasMessageContent m"
    unfolding ms_def using pending_normalized by (auto simp: isPendingAssistantMessage_def)
qed

text \<open>Texts longer than the bound are removed, with every message in them.\<close>

lemma oversized_removed:
  "storage MESSAGES_KEY = Some saved \<Longrightarrow> MAX_STORED_MESSAGES_BYTES < length saved
    \<Longrightarrow> loadMessages t fits now storage = (None, storage(MESSAGES_KEY := None))"
  by (auto simp: loadMessages_def readStoredMessagesValue_def)

end
