(* ===== verification/ChatSettings.thy ===== *)
theory ChatSettings
  imports ChatStorage
begin

text \<open>
  The settings of the playground: the configuration and the enabled parameters with their stored forms
  (\<open>constants.ts\<close>, \<open>lib/storage\<close>, \<open>lib/state\<close>), the numeric controls (\<open>lib/parameters\<close>), the fallbacks of models
  and groups (\<open>lib/options\<close>), the state of the input (\<open>lib/input\<close>) and the payload of a request
  (\<open>lib/streaming/payload-builder.ts\<close>).
\<close>

section \<open>Configuration\<close>

record config =
  cfg_model :: jstr
  cfg_group :: jstr
  cfg_temperature :: jsnum
  cfg_top_p :: jsnum
  cfg_max_tokens :: jsnum
  cfg_frequency_penalty :: jsnum
  cfg_presence_penalty :: jsnum
  cfg_seed :: "jsnum option"
  cfg_stream :: bool

record parameter_enabled =
  on_temperature :: bool
  on_top_p :: bool
  on_max_tokens :: bool
  on_frequency_penalty :: bool
  on_presence_penalty :: bool
  on_seed :: bool

definition DEFAULT_CONFIG :: config where
  "DEFAULT_CONFIG =
     \<lparr>cfg_model = js ''gpt-4o'', cfg_group = js ''default'', cfg_temperature = fl False (7 / 10),
      cfg_top_p = Fin 1, cfg_max_tokens = Fin 4096, cfg_frequency_penalty = Fin 0,
      cfg_presence_penalty = Fin 0, cfg_seed = None, cfg_stream = True\<rparr>"

definition DEFAULT_PARAMETER_ENABLED :: parameter_enabled where
  "DEFAULT_PARAMETER_ENABLED =
     \<lparr>on_temperature = True, on_top_p = True, on_max_tokens = False, on_frequency_penalty = True,
      on_presence_penalty = True, on_seed = False\<rparr>"

text \<open>The partial objects the schemas accept; a missing field is \<open>None\<close>.\<close>

record partial_config =
  pc_model :: "jstr option"
  pc_group :: "jstr option"
  pc_temperature :: "jsnum option"
  pc_top_p :: "jsnum option"
  pc_max_tokens :: "jsnum option"
  pc_frequency_penalty :: "jsnum option"
  pc_presence_penalty :: "jsnum option"
  pc_seed :: "jsnum option option"
  pc_stream :: "bool option"

record partial_enabled =
  pe_temperature :: "bool option"
  pe_top_p :: "bool option"
  pe_max_tokens :: "bool option"
  pe_frequency_penalty :: "bool option"
  pe_presence_penalty :: "bool option"
  pe_seed :: "bool option"

definition playgroundConfigSchema :: "jsvalue \<Rightarrow> partial_config option" where
  "playgroundConfigSchema v =
     (if \<not> is_JObj v then None
      else read_field v ''model'' (optional as_string) (\<lambda>a.
           read_field v ''group'' (optional as_string) (\<lambda>b.
           read_field v ''temperature'' (optional as_number) (\<lambda>c.
           read_field v ''top_p'' (optional as_number) (\<lambda>d.
           read_field v ''max_tokens'' (optional as_number) (\<lambda>e.
           read_field v ''frequency_penalty'' (optional as_number) (\<lambda>f.
           read_field v ''presence_penalty'' (optional as_number) (\<lambda>g.
           read_field v ''seed'' (optional (nullable as_number)) (\<lambda>h.
           read_field v ''stream'' (optional as_bool) (\<lambda>i.
             Some \<lparr>pc_model = a, pc_group = b, pc_temperature = c, pc_top_p = d, pc_max_tokens = e,
                   pc_frequency_penalty = f, pc_presence_penalty = g, pc_seed = h, pc_stream = i\<rparr>))))))))))"

definition parameterEnabledSchema :: "jsvalue \<Rightarrow> partial_enabled option" where
  "parameterEnabledSchema v =
     (if \<not> is_JObj v then None
      else read_field v ''temperature'' (optional as_bool) (\<lambda>a.
           read_field v ''top_p'' (optional as_bool) (\<lambda>b.
           read_field v ''max_tokens'' (optional as_bool) (\<lambda>c.
           read_field v ''frequency_penalty'' (optional as_bool) (\<lambda>d.
           read_field v ''presence_penalty'' (optional as_bool) (\<lambda>e.
           read_field v ''seed'' (optional as_bool) (\<lambda>f.
             Some \<lparr>pe_temperature = a, pe_top_p = b, pe_max_tokens = c, pe_frequency_penalty = d,
                   pe_presence_penalty = e, pe_seed = f\<rparr>)))))))"

definition no_config :: partial_config where
  "no_config = \<lparr>pc_model = None, pc_group = None, pc_temperature = None, pc_top_p = None,
     pc_max_tokens = None, pc_frequency_penalty = None, pc_presence_penalty = None, pc_seed = None,
     pc_stream = None\<rparr>"

definition no_enabled :: partial_enabled where
  "no_enabled = \<lparr>pe_temperature = None, pe_top_p = None, pe_max_tokens = None,
     pe_frequency_penalty = None, pe_presence_penalty = None, pe_seed = None\<rparr>"

text \<open>Nothing stored, a text that is no JSON or a value the schema refuses all give the empty object.\<close>

definition loadConfig :: "local_storage \<Rightarrow> partial_config" where
  "loadConfig storage =
     (case readStoredValue storage CONFIG_KEY of
        Inl _ \<Rightarrow> no_config
      | Inr saved \<Rightarrow>
          if \<not> truthy saved then no_config
          else coalesce (playgroundConfigSchema (unwrapStoredValue saved)) no_config)"

definition loadParameterEnabled :: "local_storage \<Rightarrow> partial_enabled" where
  "loadParameterEnabled storage =
     (case readStoredValue storage PARAMETER_ENABLED_KEY of
        Inl _ \<Rightarrow> no_enabled
      | Inr saved \<Rightarrow>
          if \<not> truthy saved then no_enabled
          else coalesce (parameterEnabledSchema (unwrapStoredValue saved)) no_enabled)"

definition json_of_config :: "config \<Rightarrow> jsvalue" where
  "json_of_config c = JObj
     [(js ''model'', JStr (cfg_model c)), (js ''group'', JStr (cfg_group c)),
      (js ''temperature'', JNum (cfg_temperature c)), (js ''top_p'', JNum (cfg_top_p c)),
      (js ''max_tokens'', JNum (cfg_max_tokens c)), (js ''frequency_penalty'', JNum (cfg_frequency_penalty c)),
      (js ''presence_penalty'', JNum (cfg_presence_penalty c)), (js ''seed'', of_nullable JNum (cfg_seed c)),
      (js ''stream'', JBool (cfg_stream c))]"

definition json_of_enabled :: "parameter_enabled \<Rightarrow> jsvalue" where
  "json_of_enabled p = JObj
     [(js ''temperature'', JBool (on_temperature p)), (js ''top_p'', JBool (on_top_p p)),
      (js ''max_tokens'', JBool (on_max_tokens p)), (js ''frequency_penalty'', JBool (on_frequency_penalty p)),
      (js ''presence_penalty'', JBool (on_presence_penalty p)), (js ''seed'', JBool (on_seed p))]"

text \<open>
  Saving a whole configuration, as every caller does; the schema leaves it as it is or refuses a number that
  is not finite.
\<close>

definition saveConfig :: "(local_storage \<Rightarrow> bool) \<Rightarrow> local_storage \<Rightarrow> config \<Rightarrow> local_storage" where
  "saveConfig fits storage c =
     (case playgroundConfigSchema (json_of_config c) of
        None \<Rightarrow> storage
      | Some _ \<Rightarrow> setItem fits storage CONFIG_KEY (stored_envelope (json_of_config c)))"

definition saveParameterEnabled ::
  "(local_storage \<Rightarrow> bool) \<Rightarrow> local_storage \<Rightarrow> parameter_enabled \<Rightarrow> local_storage" where
  "saveParameterEnabled fits storage p =
     (case parameterEnabledSchema (json_of_enabled p) of
        None \<Rightarrow> storage
      | Some _ \<Rightarrow> setItem fits storage PARAMETER_ENABLED_KEY (stored_envelope (json_of_enabled p)))"

text \<open>\<open>{ ...DEFAULT_CONFIG, ...loadConfig() }\<close>.\<close>

definition with_defaults :: "partial_config \<Rightarrow> config" where
  "with_defaults p =
     \<lparr>cfg_model = coalesce (pc_model p) (cfg_model DEFAULT_CONFIG),
      cfg_group = coalesce (pc_group p) (cfg_group DEFAULT_CONFIG),
      cfg_temperature = coalesce (pc_temperature p) (cfg_temperature DEFAULT_CONFIG),
      cfg_top_p = coalesce (pc_top_p p) (cfg_top_p DEFAULT_CONFIG),
      cfg_max_tokens = coalesce (pc_max_tokens p) (cfg_max_tokens DEFAULT_CONFIG),
      cfg_frequency_penalty = coalesce (pc_frequency_penalty p) (cfg_frequency_penalty DEFAULT_CONFIG),
      cfg_presence_penalty = coalesce (pc_presence_penalty p) (cfg_presence_penalty DEFAULT_CONFIG),
      cfg_seed = coalesce (pc_seed p) (cfg_seed DEFAULT_CONFIG),
      cfg_stream = coalesce (pc_stream p) (cfg_stream DEFAULT_CONFIG)\<rparr>"

definition enabled_with_defaults :: "partial_enabled \<Rightarrow> parameter_enabled" where
  "enabled_with_defaults p =
     \<lparr>on_temperature = coalesce (pe_temperature p) (on_temperature DEFAULT_PARAMETER_ENABLED),
      on_top_p = coalesce (pe_top_p p) (on_top_p DEFAULT_PARAMETER_ENABLED),
      on_max_tokens = coalesce (pe_max_tokens p) (on_max_tokens DEFAULT_PARAMETER_ENABLED),
      on_frequency_penalty = coalesce (pe_frequency_penalty p) (on_frequency_penalty DEFAULT_PARAMETER_ENABLED),
      on_presence_penalty = coalesce (pe_presence_penalty p) (on_presence_penalty DEFAULT_PARAMETER_ENABLED),
      on_seed = coalesce (pe_seed p) (on_seed DEFAULT_PARAMETER_ENABLED)\<rparr>"

definition getInitialPlaygroundConfig :: "local_storage \<Rightarrow> config" where
  "getInitialPlaygroundConfig storage = with_defaults (loadConfig storage)"

definition getInitialParameterEnabled :: "local_storage \<Rightarrow> parameter_enabled" where
  "getInitialParameterEnabled storage = enabled_with_defaults (loadParameterEnabled storage)"

text \<open>A stored configuration is read back whole: its schema accepts it and no default shows through.\<close>

definition finite_config :: "config \<Rightarrow> bool" where
  "finite_config c \<longleftrightarrow> isFinite (cfg_temperature c) \<and> isFinite (cfg_top_p c) \<and> isFinite (cfg_max_tokens c)
     \<and> isFinite (cfg_frequency_penalty c) \<and> isFinite (cfg_presence_penalty c) \<and> storable_number (cfg_seed c)"

lemma optional_nullable_number:
  "optional (nullable as_number) (of_nullable JNum x) = (if storable_number x then Some (Some x) else None)"
  by (cases x) (simp_all add: optional_def nullable_def storable_number_def)

lemma config_read_back:
  "map_option with_defaults (playgroundConfigSchema (json_of_config c)) = (if finite_config c then Some c else None)"
  unfolding playgroundConfigSchema_def json_of_config_def read_field_def
  by (simp del: get_prop.simps add: get_prop_Cons optional_nullable_number finite_config_def with_defaults_def)
     (simp add: optional_def)

lemma enabled_read_back:
  "map_option enabled_with_defaults (parameterEnabledSchema (json_of_enabled p)) = Some p"
  unfolding parameterEnabledSchema_def json_of_enabled_def read_field_def
  by (simp del: get_prop.simps add: get_prop_Cons enabled_with_defaults_def) (simp add: optional_def)

section \<open>Numeric controls\<close>

datatype parameter_key = Temperature | Top_p | Max_tokens | Frequency_penalty | Presence_penalty | Seed

record control =
  ctrl_min :: jsnum
  ctrl_max :: jsnum
  ctrl_step :: jsnum

text \<open>The rows of \<open>PLAYGROUND_PARAMETER_CONTROLS\<close>, without their labels.\<close>

fun parameter_control :: "parameter_key \<Rightarrow> control" where
  "parameter_control Temperature =
     \<lparr>ctrl_min = fl False (1 / 10), ctrl_max = Fin 1, ctrl_step = fl False (1 / 10)\<rparr>"
| "parameter_control Top_p =
     \<lparr>ctrl_min = fl False (1 / 10), ctrl_max = Fin 1, ctrl_step = fl False (1 / 10)\<rparr>"
| "parameter_control Frequency_penalty =
     \<lparr>ctrl_min = Fin (- 2), ctrl_max = Fin 2, ctrl_step = fl False (1 / 10)\<rparr>"
| "parameter_control Presence_penalty =
     \<lparr>ctrl_min = Fin (- 2), ctrl_max = Fin 2, ctrl_step = fl False (1 / 10)\<rparr>"
| "parameter_control Max_tokens = \<lparr>ctrl_min = Fin 0, ctrl_max = Fin 200000, ctrl_step = Fin 1\<rparr>"
| "parameter_control Seed = \<lparr>ctrl_min = Fin 0, ctrl_max = Fin 2147483647, ctrl_step = Fin 1\<rparr>"

text \<open>\<open>Number.parseFloat\<close>: the longest decimal prefix after white space.\<close>

definition parseFloat :: "jstr \<Rightarrow> jsnum" where
  "parseFloat body =
     (let s = trimStart body;
          signed = (s \<noteq> [] \<and> (hd s = 43 \<or> hd s = 45)); neg = (s \<noteq> [] \<and> hd s = 45);
          digits = (if signed then tl s else s);
          magnitude = (if startsWith digits (js ''Infinity'') then PInf
            else case match_decimal digits of None \<Rightarrow> NaN | Some d \<Rightarrow> decimal_value d)
      in if neg then js_neg magnitude else magnitude)"

fun js_trunc :: "jsnum \<Rightarrow> jsnum" where
  "js_trunc (Fin r) = (if rat_trunc r = 0 \<and> r < 0 then NZero else Fin (of_int (rat_trunc r)))"
| "js_trunc x = x"

text \<open>
  \<open>Number(x.toFixed(1))\<close> for a number of magnitude below \<open>10 ^ 21\<close>: the nearest tenth, the larger magnitude
  at a tie.
\<close>

fun to_tenths :: "jsnum \<Rightarrow> jsnum" where
  "to_tenths (Fin r) =
     (if r < 0 then js_neg (fl False (of_int \<lfloor>- r * 10 + 1 / 2\<rfloor> / 10))
      else fl False (of_int \<lfloor>r * 10 + 1 / 2\<rfloor> / 10))"
| "to_tenths NZero = Fin 0"
| "to_tenths x = x"

datatype parameter_input = Text_input jstr | Number_input jsnum

definition normalizeParameterNumberValue :: "parameter_key \<Rightarrow> parameter_input \<Rightarrow> jsnum option" where
  "normalizeParameterNumberValue k v =
     (let fallback = (if k = Seed then None else Some (Fin 0)) in
      if v = Text_input [] then fallback
      else
        let control = parameter_control k;
            parsed = (case v of Number_input x \<Rightarrow> x | Text_input s \<Rightarrow> parseFloat s) in
        if parsed = NaN then fallback
        else
          let clamped = js_min (ctrl_max control) (js_max (ctrl_min control) parsed) in
          if js_le (Fin 1) (ctrl_step control) then Some (js_trunc clamped)
          else Some (to_tenths clamped))"

text \<open>
  A number that is read leaves the control's range at neither end; an empty or unreadable text gives zero,
  which lies below the range of the sampling parameters.
\<close>

definition in_range :: "parameter_key \<Rightarrow> jsnum \<Rightarrow> bool" where
  "in_range k x \<longleftrightarrow> js_le (ctrl_min (parameter_control k)) x \<and> js_le x (ctrl_max (parameter_control k))"

lemma max_cases:
  assumes "x \<noteq> NaN"
  shows "js_max (Fin a) x = PInf \<or> (\<exists>r. js_max (Fin a) x = Fin r \<and> a \<le> r) \<or> js_max (Fin a) x = NZero \<and> a < 0"
  using assms by (cases x; cases "a < 0"; cases "0 < a") (auto simp: js_max_def)

lemma min_cases:
  assumes "y = PInf \<or> (\<exists>r. y = Fin r \<and> a \<le> r) \<or> y = NZero \<and> a < 0" "a \<le> b" "0 \<le> b"
  shows "(\<exists>r. js_min (Fin b) y = Fin r \<and> a \<le> r \<and> r \<le> b) \<or> js_min (Fin b) y = NZero \<and> a < 0"
  using assms by (cases y; cases "0 < b") (auto simp: js_min_def)

lemma clamp_cases:
  assumes "x \<noteq> NaN" "a \<le> b" "0 \<le> b"
  obtains r where "js_min (Fin b) (js_max (Fin a) x) = Fin r" "a \<le> r" "r \<le> b"
    | "js_min (Fin b) (js_max (Fin a) x) = NZero" "a < 0"
  using min_cases [OF max_cases [OF assms(1)] assms(2, 3)] by blast

lemma tenth_exact: "fl False (1 / 10) = Fin (3602879701896397 / 36028797018963968)"
  by code_simp

lemma tenths_checked:
  "list_all (\<lambda>n. case fl False (of_int n / 10) of
       Fin r \<Rightarrow> 0 \<le> r \<and> r \<le> 2 \<and> (n \<le> 10 \<longrightarrow> r \<le> 1)
         \<and> (1 \<le> n \<longrightarrow> 3602879701896397 / 36028797018963968 \<le> r)
     | _ \<Rightarrow> False) [0..20]"
  by code_simp

lemma tenth_cases:
  assumes "n \<in> {0..20}"
  obtains r where "fl False (of_int n / 10) = Fin r" "0 \<le> r" "r \<le> 2" "n \<le> 10 \<Longrightarrow> r \<le> 1"
    "1 \<le> n \<Longrightarrow> 3602879701896397 / 36028797018963968 \<le> r"
proof -
  from assms have "n \<in> set [0..20]" by simp
  with tenths_checked have "case fl False (of_int n / 10) of
       Fin r \<Rightarrow> 0 \<le> r \<and> r \<le> 2 \<and> (n \<le> 10 \<longrightarrow> r \<le> 1)
         \<and> (1 \<le> n \<longrightarrow> 3602879701896397 / 36028797018963968 \<le> r)
     | _ \<Rightarrow> False"
    by (simp only: list_all_iff)
  then show ?thesis using that by (auto split: jsnum.splits)
qed

lemma tenth_range:
  assumes "0 \<le> r" "r \<le> of_int m"
  shows "\<lfloor>r * 10 + 1 / 2\<rfloor> \<in> {0..m * 10}"
proof -
  have "r * 10 + 1 / 2 < of_int (m * 10 + 1)" using assms(2) by simp
  then have "\<lfloor>r * 10 + 1 / 2\<rfloor> < m * 10 + 1" by (simp only: floor_less_iff)
  moreover have "0 \<le> \<lfloor>r * 10 + 1 / 2\<rfloor>" using assms(1) by simp
  ultimately show ?thesis by simp
qed

lemma sampling_in_range:
  assumes "x \<noteq> NaN"
  shows "js_le (fl False (1 / 10)) (to_tenths (js_min (Fin 1) (js_max (fl False (1 / 10)) x)))
    \<and> js_le (to_tenths (js_min (Fin 1) (js_max (fl False (1 / 10)) x))) (Fin 1)"
  unfolding tenth_exact
proof (rule clamp_cases [OF assms, of "3602879701896397 / 36028797018963968" 1])
  fix r :: rat
  assume r: "js_min (Fin 1) (js_max (Fin (3602879701896397 / 36028797018963968)) x) = Fin r"
    "3602879701896397 / 36028797018963968 \<le> r" "r \<le> 1"
  define n where "n = \<lfloor>r * 10 + 1 / 2\<rfloor>"
  have "0 \<le> r" using r(2) by (rule order_trans [rotated]) simp
  then have "n \<in> {0..10}" using tenth_range [of r 1] r(3) by (simp add: n_def)
  moreover have "1 \<le> r * 10 + 1 / 2" using r(2) by simp
  then have "1 \<le> n" unfolding n_def by (simp add: le_floor_iff)
  ultimately have n: "n \<in> {0..20}" "n \<le> 10" "1 \<le> n" by simp_all
  from tenth_cases [OF n(1)] n(2, 3) obtain u where u: "fl False (of_int n / 10) = Fin u" "u \<le> 1"
    "3602879701896397 / 36028797018963968 \<le> u" by metis
  then have "js_le (Fin (3602879701896397 / 36028797018963968)) (Fin u)" "js_le (Fin u) (Fin 1)"
    by (auto simp: js_le_def)
  with u(1) \<open>0 \<le> r\<close> show "js_le (Fin (3602879701896397 / 36028797018963968))
      (to_tenths (js_min (Fin 1) (js_max (Fin (3602879701896397 / 36028797018963968)) x)))
    \<and> js_le (to_tenths (js_min (Fin 1) (js_max (Fin (3602879701896397 / 36028797018963968)) x))) (Fin 1)"
    by (simp add: r(1) n_def)
qed simp_all

lemma penalty_in_range:
  assumes "x \<noteq> NaN"
  shows "js_le (Fin (- 2)) (to_tenths (js_min (Fin 2) (js_max (Fin (- 2)) x)))
    \<and> js_le (to_tenths (js_min (Fin 2) (js_max (Fin (- 2)) x))) (Fin 2)"
proof (rule clamp_cases [OF assms, of "- 2" 2])
  fix r :: rat
  assume r: "js_min (Fin 2) (js_max (Fin (- 2)) x) = Fin r" "- 2 \<le> r" "r \<le> 2"
  define n where "n = (if r < 0 then \<lfloor>- r * 10 + 1 / 2\<rfloor> else \<lfloor>r * 10 + 1 / 2\<rfloor>)"
  have "n \<in> {0..20}" using tenth_range [of r 2] tenth_range [of "- r" 2] r(2, 3) by (auto simp: n_def)
  from tenth_cases [OF this] obtain u where u: "fl False (of_int n / 10) = Fin u" "0 \<le> u" "u \<le> 2" by metis
  then have "js_le (Fin (- 2)) (Fin u)" "js_le (Fin u) (Fin 2)" "js_le (Fin (- 2)) (js_neg (Fin u))"
    "js_le (js_neg (Fin u)) (Fin 2)" by (auto simp: js_le_def)
  with u(1) show "js_le (Fin (- 2)) (to_tenths (js_min (Fin 2) (js_max (Fin (- 2)) x)))
    \<and> js_le (to_tenths (js_min (Fin 2) (js_max (Fin (- 2)) x))) (Fin 2)"
    by (simp add: r(1) n_def split: if_splits)
next
  assume "js_min (Fin 2) (js_max (Fin (- 2)) x) = NZero"
  then show "js_le (Fin (- 2)) (to_tenths (js_min (Fin 2) (js_max (Fin (- 2)) x)))
    \<and> js_le (to_tenths (js_min (Fin 2) (js_max (Fin (- 2)) x))) (Fin 2)" by (simp add: js_le_def)
qed simp_all

lemma whole_in_range:
  assumes "x \<noteq> NaN" "0 \<le> m"
  shows "js_le (Fin 0) (js_trunc (js_min (Fin (of_int m)) (js_max (Fin 0) x)))
    \<and> js_le (js_trunc (js_min (Fin (of_int m)) (js_max (Fin 0) x))) (Fin (of_int m))"
proof (rule clamp_cases [OF assms(1), of 0 "of_int m"])
  fix r :: rat
  assume r: "js_min (Fin (of_int m)) (js_max (Fin 0) x) = Fin r" "0 \<le> r" "r \<le> of_int m"
  then have "0 \<le> \<lfloor>r\<rfloor>" "\<lfloor>r\<rfloor> \<le> m" by (simp_all add: floor_le_iff)
  then have "0 < \<lfloor>r\<rfloor> \<or> 0 = \<lfloor>r\<rfloor>" "\<lfloor>r\<rfloor> < m \<or> \<lfloor>r\<rfloor> = m" by linarith+
  with r show "js_le (Fin 0) (js_trunc (js_min (Fin (of_int m)) (js_max (Fin 0) x)))
    \<and> js_le (js_trunc (js_min (Fin (of_int m)) (js_max (Fin 0) x))) (Fin (of_int m))"
    by (auto simp: js_le_def rat_trunc_def)
qed (use assms(2) in simp_all)

lemma parameter_in_range:
  assumes "normalizeParameterNumberValue k v = Some x"
    and "v \<noteq> Text_input []" "(case v of Number_input y \<Rightarrow> y | Text_input s \<Rightarrow> parseFloat s) \<noteq> NaN"
  shows "in_range k x"
proof -
  define y where "y = (case v of Number_input y \<Rightarrow> y | Text_input s \<Rightarrow> parseFloat s)"
  have y: "y \<noteq> NaN" using assms(3) by (simp add: y_def)
  have small: "\<not> js_le (Fin 1) (fl False (1 / 10))" by code_simp
  have x: "x = (let c = parameter_control k; clamped = js_min (ctrl_max c) (js_max (ctrl_min c) y)
      in if js_le (Fin 1) (ctrl_step c) then js_trunc clamped else to_tenths clamped)"
    using assms unfolding normalizeParameterNumberValue_def y_def [symmetric] by (simp add: Let_def split: if_splits)
  show ?thesis
    using sampling_in_range [OF y] penalty_in_range [OF y] whole_in_range [OF y, of 200000]
      whole_in_range [OF y, of 2147483647]
    by (cases k) (simp_all add: in_range_def x small, simp_all add: js_le_def)
qed

lemma empty_text_out_of_range:
  "normalizeParameterNumberValue Temperature (Text_input []) = Some (Fin 0)" "\<not> in_range Temperature (Fin 0)"
  by (simp add: normalizeParameterNumberValue_def) (simp add: in_range_def, code_simp)

section \<open>Models and groups\<close>

type_synonym option_value = jstr

definition getModelFallback :: "option_value list \<Rightarrow> jstr \<Rightarrow> jstr option" where
  "getModelFallback models currentModel =
     (if currentModel \<in> set models \<or> models = [] then None else Some (hd models))"

definition shouldClearModelForGroup :: "option_value list \<Rightarrow> jstr \<Rightarrow> bool" where
  "shouldClearModelForGroup models currentModel \<longleftrightarrow> currentModel \<noteq> [] \<and> currentModel \<notin> set models"

definition getGroupFallback :: "option_value list \<Rightarrow> jstr \<Rightarrow> jstr option" where
  "getGroupFallback groups currentGroup =
     (if currentGroup \<in> set groups \<or> groups = [] then None
      else Some (if js ''default'' \<in> set groups then js ''default'' else hd groups))"

text \<open>
  The two effects of \<open>use-playground-options.ts\<close> that adopt what the server lists; an empty fallback is
  falsy and leads on to the clearing of the model.
\<close>

definition adopt_models :: "option_value list \<Rightarrow> config \<Rightarrow> config" where
  "adopt_models models c =
     (case getModelFallback models (cfg_model c) of
        Some fallback \<Rightarrow>
          if fallback \<noteq> [] then c\<lparr>cfg_model := fallback\<rparr>
          else if shouldClearModelForGroup models (cfg_model c) then c\<lparr>cfg_model := []\<rparr> else c
      | None \<Rightarrow> if shouldClearModelForGroup models (cfg_model c) then c\<lparr>cfg_model := []\<rparr> else c)"

definition adopt_groups :: "option_value list \<Rightarrow> config \<Rightarrow> config" where
  "adopt_groups groups c =
     (case getGroupFallback groups (cfg_group c) of
        Some fallback \<Rightarrow> if fallback \<noteq> [] then c\<lparr>cfg_group := fallback\<rparr> else c
      | None \<Rightarrow> c)"

lemma adopt_models_offered: "cfg_model (adopt_models models c) \<in> insert [] (set models)"
  by (cases models) (auto simp: adopt_models_def getModelFallback_def shouldClearModelForGroup_def)

lemma adopt_models_idem: "adopt_models models (adopt_models models c) = adopt_models models c"
  by (cases models) (auto simp: adopt_models_def getModelFallback_def shouldClearModelForGroup_def)

lemma adopt_groups_idem: "adopt_groups groups (adopt_groups groups c) = adopt_groups groups c"
  by (cases groups) (auto simp: adopt_groups_def getGroupFallback_def)

section \<open>Input\<close>

definition getSubmittableInputText :: "jstr option \<Rightarrow> bool \<Rightarrow> jstr option" where
  "getSubmittableInputText body disabled =
     (if disabled then None
      else case body of None \<Rightarrow> None | Some s \<Rightarrow> if trim s = [] then None else Some s)"

text \<open>\<open>canSubmit\<close>, \<open>isSelectorDisabled\<close> and \<open>shouldShowStop\<close>, for flags that are set or absent.\<close>

definition getInputControlState ::
  "bool \<Rightarrow> option_value list \<Rightarrow> bool \<Rightarrow> bool \<Rightarrow> bool \<Rightarrow> option_value list \<Rightarrow> jstr \<Rightarrow> bool \<times> bool \<times> bool" where
  "getInputControlState disabled groups hasStopHandler isGenerating isModelLoading models body =
     (\<not> disabled \<and> models \<noteq> [] \<and> trim body \<noteq> [],
      disabled \<or> isModelLoading \<or> groups = [],
      isGenerating \<and> hasStopHandler)"

section \<open>Payload\<close>

record completion_request =
  req_model :: jstr
  req_group :: jstr
  req_messages :: "(message_role \<times> jstr) list"
  req_stream :: bool
  req_temperature :: "jsnum option"
  req_top_p :: "jsnum option"
  req_max_tokens :: "jsnum option"
  req_frequency_penalty :: "jsnum option"
  req_presence_penalty :: "jsnum option"
  req_seed :: "jsnum option"

definition buildChatCompletionPayload ::
  "message list \<Rightarrow> config \<Rightarrow> parameter_enabled \<Rightarrow> completion_request" where
  "buildChatCompletionPayload messages c p =
     \<lparr>req_model = cfg_model c, req_group = cfg_group c,
      req_messages = map formatMessageForAPI (filter isValidMessage messages),
      req_stream = cfg_stream c,
      req_temperature = (if on_temperature p then Some (cfg_temperature c) else None),
      req_top_p = (if on_top_p p then Some (cfg_top_p c) else None),
      req_max_tokens = (if on_max_tokens p then Some (cfg_max_tokens c) else None),
      req_frequency_penalty = (if on_frequency_penalty p then Some (cfg_frequency_penalty c) else None),
      req_presence_penalty = (if on_presence_penalty p then Some (cfg_presence_penalty c) else None),
      req_seed = (if on_seed p then cfg_seed c else None)\<rparr>"

text \<open>The placeholder of the answer is never sent.\<close>

lemma payload_without_placeholder:
  "req_messages (buildChatCompletionPayload (appendUserMessagePair u a now messages content) c p)
     = map formatMessageForAPI (filter isValidMessage messages) @ [(User_role, content)]"
  by (simp add: buildChatCompletionPayload_def appendUserMessagePair_def isValidMessage_def formatMessageForAPI_def
      createUserMessage_def createLoadingAssistantMessage_def hasMessageContent_def getMessageContent_def
      getCurrentVersion_def)

end
