(* ===== verification/ChatRuntime.thy ===== *)
theory ChatRuntime
  imports ChatSettings
begin

text \<open>
  Requests of the playground: the readers of stream events (\<open>lib/streaming\<close>), the controller of the event
  source (\<open>hooks/use-stream-request.ts\<close>), the chat handler with its buffered chunks
  (\<open>hooks/use-chat-handler.ts\<close>) and the actions of the conversation
  (\<open>hooks/use-playground-conversation.ts\<close>), as operations on one state. The event source, the timers, the
  HTTP client and React are the environment: each of their callbacks is an event.

  A state updater given to React waits in a queue and runs, in order, at the next render; it reads the
  generation of the request when it runs.
\<close>

section \<open>Reading stream events\<close>

datatype thrown_error = Parse_failure

text \<open>\<open>choices?.[0]?.delta\<close>; the texts of a delta are strings where they are present.\<close>

fun element_0 :: "jsvalue \<Rightarrow> jsvalue" where
  "element_0 (JArr (v # _)) = v"
| "element_0 (JObj ps) = get_prop (JObj ps) (js ''0'')"
| "element_0 _ = JUndefined"

fun text_or_empty :: "jsvalue \<Rightarrow> jstr" where
  "text_or_empty (JStr s) = s"
| "text_or_empty _ = []"

text \<open>A text that is no JSON and the value \<open>null\<close>, which has no properties, throw.\<close>

definition parseStreamMessageUpdates :: "jstr \<Rightarrow> thrown_error + (chunk_type \<times> jstr) list" where
  "parseStreamMessageUpdates data =
     (case JSON_parse data of
        None \<Rightarrow> Inl Parse_failure
      | Some chunk \<Rightarrow>
          if is_nullish chunk then Inl Parse_failure
          else
            let delta = get_prop (element_0 (get_prop chunk (js ''choices''))) (js ''delta'');
                r = text_or_empty (get_prop delta (js ''reasoning_content''));
                c = text_or_empty (get_prop delta (js ''content''))
            in Inr ((if r \<noteq> [] then [(Reasoning_chunk, r)] else []) @ (if c \<noteq> [] then [(Content_chunk, c)] else [])))"

text \<open>Codes and messages are strings where they are present; an empty one is passed over.\<close>

definition parseStreamErrorDetails :: "jstr option \<Rightarrow> jstr \<times> jstr option" where
  "parseStreamErrorDetails data =
     (let body = coalesce data [];
          fallbackMessage = first_nonempty [body, API_REQUEST_ERROR]
      in if body = [] then (fallbackMessage, None)
         else case JSON_parse body of
             None \<Rightarrow> (fallbackMessage, None)
           | Some parsed \<Rightarrow>
               let err = get_prop parsed (js ''error'');
                   code = text_or_empty (get_prop err (js ''code'')) in
               if \<not> truthy err then (fallbackMessage, None)
               else (first_nonempty [text_or_empty (get_prop err (js ''message'')), fallbackMessage],
                     if code = [] then None else Some code))"

definition parseRequestErrorDetails :: "jsvalue \<Rightarrow> jstr \<times> jstr option" where
  "parseRequestErrorDetails error =
     (let data = get_prop (get_prop error (js ''response'')) (js ''data'');
          code = text_or_empty (get_prop (get_prop data (js ''error'')) (js ''code''))
      in (first_nonempty [text_or_empty (get_prop data (js ''message'')),
            text_or_empty (get_prop error (js ''message'')), API_REQUEST_ERROR],
          if code = [] then None else Some code))"

definition STREAM_DONE :: jstr where "STREAM_DONE = js ''[DONE]''"
definition PARSE_ERROR :: jstr where "PARSE_ERROR = js ''Error parsing response data''"
definition STREAM_START_ERROR :: jstr where "STREAM_START_ERROR = js ''Error establishing connection''"
definition CONNECTION_CLOSED :: jstr where "CONNECTION_CLOSED = js ''Connection closed''"
definition NETWORK_ERROR :: jstr where "NETWORK_ERROR = js ''Network connection failed or server not responding''"

definition getStreamReadyStateError :: "int option \<Rightarrow> int option \<Rightarrow> jstr option" where
  "getStreamReadyStateError eventReadyState http_status =
     (case (eventReadyState, http_status) of
        (Some ready, Some code) \<Rightarrow>
          if 2 \<le> ready \<and> code \<noteq> 200 then Some (js ''HTTP '' @ int_text code @ js '': '' @ CONNECTION_CLOSED)
          else None
      | _ \<Rightarrow> None)"

definition getDisplayError :: "(jstr \<Rightarrow> jstr) \<Rightarrow> jstr \<Rightarrow> jstr" where
  "getDisplayError t error =
     (if error \<in> {API_REQUEST_ERROR, NETWORK_ERROR, PARSE_ERROR, STREAM_START_ERROR, CONNECTION_CLOSED, INTERRUPTED}
      then t error
      else if ends_with error (js '': '' @ CONNECTION_CLOSED)
        then take (length error - length CONNECTION_CLOSED) error @ t CONNECTION_CLOSED
      else error)"

section \<open>State\<close>

text \<open>The updaters of the conversation, with what their closures hold.\<close>

datatype update =
    Flush_chunks nat jstr jstr
  | Complete_answer nat
  | Fail_answer nat jstr "jstr option" jstr
  | Apply_response nat completion_response
  | Halt_answer nat
  | Set_messages "message list"
  | Remove_message jstr

record stream_source =
  src_generation :: nat
  src_request :: nat
  src_payload :: completion_request
  src_completed :: bool
  src_closed :: bool

record suspended_send =
  send_generation :: nat
  send_request :: nat
  send_payload :: completion_request

record chat =
  conversation :: "message list"
  updates :: "update list"
  requestGeneration :: nat
  pendingGeneration :: nat
  pendingContent :: jstr
  pendingReasoning :: jstr
  timerRef :: bool
  timer :: "nat option"
  abortController :: "nat option"
  aborted :: "nat list"
  requests :: "(nat \<times> completion_request) list"
  isRequesting :: bool
  generation :: nat
  activeSource :: "nat option"
  sources :: "stream_source list"
  sends :: "suspended_send list"
  isStreaming :: bool
  shownErrors :: "jstr list"
  mounted :: bool

definition new_chat :: "message list \<Rightarrow> chat" where
  "new_chat messages =
     \<lparr>conversation = messages, updates = [], requestGeneration = 0, pendingGeneration = 0,
      pendingContent = [], pendingReasoning = [], timerRef = False, timer = None, abortController = None,
      aborted = [], requests = [], isRequesting = False, generation = 0, activeSource = None, sources = [],
      sends = [], isStreaming = False, shownErrors = [], mounted = True\<rparr>"

definition isGenerating :: "chat \<Rightarrow> bool" where
  "isGenerating s \<longleftrightarrow> isStreaming s \<or> isRequesting s"

section \<open>Updaters\<close>

definition apply_chunk_if :: "jsnum \<Rightarrow> chunk_type \<Rightarrow> jstr \<Rightarrow> message \<Rightarrow> message" where
  "apply_chunk_if now type chunk m = (if chunk = [] then m else applyStreamingChunk now m type chunk)"

fun apply_update :: "jsnum \<Rightarrow> nat \<Rightarrow> update \<Rightarrow> message list \<Rightarrow> message list" where
  "apply_update now current (Flush_chunks g r c) prev =
     (if g \<noteq> current then prev
      else updateLastAssistantMessage prev (\<lambda>m.
        apply_chunk_if now Content_chunk c (apply_chunk_if now Reasoning_chunk r m)))"
| "apply_update now current (Complete_answer g) prev =
     (if g \<noteq> current then prev
      else updateLastAssistantMessage prev (\<lambda>m.
        if isAssistantMessageFinal m then m else completeAssistantMessage now m))"
| "apply_update now current (Fail_answer g error code title) prev =
     (if g \<noteq> current then prev else updateAssistantMessageWithError now prev error code title)"
| "apply_update now current (Apply_response g response) prev =
     (if g \<noteq> current then prev
      else updateLastAssistantMessage prev (\<lambda>m. coalesce (applyChatCompletionResponse now m response) m))"
| "apply_update now current (Halt_answer g) prev =
     (if g \<noteq> current then prev
      else updateLastAssistantMessage prev (\<lambda>m.
        if isAssistantMessagePending m then completeAssistantMessage now m else m))"
| "apply_update now current (Set_messages messages) prev = messages"
| "apply_update now current (Remove_message k) prev = removeMessageByKey prev k"

definition apply_updates :: "jsnum \<Rightarrow> nat \<Rightarrow> update list \<Rightarrow> message list \<Rightarrow> message list" where
  "apply_updates now current us messages = fold (apply_update now current) us messages"

text \<open>A render: the queue is run and the conversation is its result.\<close>

definition render :: "jsnum \<Rightarrow> chat \<Rightarrow> chat" where
  "render now s =
     s\<lparr>conversation := apply_updates now (requestGeneration s) (updates s) (conversation s), updates := []\<rparr>"

definition enqueue :: "update \<Rightarrow> chat \<Rightarrow> chat" where
  "enqueue u s = s\<lparr>updates := updates s @ [u]\<rparr>"

section \<open>Buffered chunks\<close>

definition mergePendingStreamChunk :: "jstr \<Rightarrow> jstr \<Rightarrow> jstr" where
  "mergePendingStreamChunk currentChunk nextChunk =
     (if currentChunk = [] \<or> \<not> startsWith nextChunk currentChunk then currentChunk @ nextChunk else nextChunk)"

definition clear_timer :: "chat \<Rightarrow> chat" where
  "clear_timer s = (if timerRef s then s\<lparr>timer := None, timerRef := False\<rparr> else s)"

definition discardPendingStreamUpdates :: "nat \<Rightarrow> chat \<Rightarrow> chat" where
  "discardPendingStreamUpdates g s =
     (clear_timer s)\<lparr>pendingGeneration := g, pendingContent := [], pendingReasoning := []\<rparr>"

definition flushStreamUpdates :: "nat \<Rightarrow> chat \<Rightarrow> chat" where
  "flushStreamUpdates g s =
     (if g \<noteq> requestGeneration s then s
      else let s1 = clear_timer s in
        if pendingGeneration s1 \<noteq> g then s1
        else if pendingReasoning s1 = [] \<and> pendingContent s1 = [] then s1
        else enqueue (Flush_chunks g (pendingReasoning s1) (pendingContent s1))
               (s1\<lparr>pendingGeneration := g, pendingContent := [], pendingReasoning := []\<rparr>))"

definition scheduleStreamFlush :: "nat \<Rightarrow> chat \<Rightarrow> chat" where
  "scheduleStreamFlush g s =
     (if g \<noteq> requestGeneration s then s
      else if timerRef s then s
      else s\<lparr>timerRef := True, timer := Some g\<rparr>)"

definition handleStreamUpdate :: "nat \<Rightarrow> chunk_type \<Rightarrow> jstr \<Rightarrow> chat \<Rightarrow> chat" where
  "handleStreamUpdate g type chunk s =
     (if g \<noteq> requestGeneration s then s
      else if pendingGeneration s \<noteq> g then s
      else scheduleStreamFlush g (case type of
          Content_chunk \<Rightarrow> s\<lparr>pendingContent := mergePendingStreamChunk (pendingContent s) chunk\<rparr>
        | Reasoning_chunk \<Rightarrow> s\<lparr>pendingReasoning := mergePendingStreamChunk (pendingReasoning s) chunk\<rparr>))"

definition handleStreamComplete :: "nat \<Rightarrow> chat \<Rightarrow> chat" where
  "handleStreamComplete g s =
     (if g \<noteq> requestGeneration s then s
      else enqueue (Complete_answer g) ((flushStreamUpdates g s)\<lparr>isRequesting := False\<rparr>))"

definition handleStreamError :: "(jstr \<Rightarrow> jstr) \<Rightarrow> nat \<Rightarrow> jstr \<Rightarrow> jstr option \<Rightarrow> chat \<Rightarrow> chat" where
  "handleStreamError t g error code s =
     (if g \<noteq> requestGeneration s then s
      else let s1 = (flushStreamUpdates g s)\<lparr>isRequesting := False\<rparr>;
               displayError = getDisplayError t error;
               s2 = s1\<lparr>shownErrors := shownErrors s1 @ [displayError]\<rparr>
           in enqueue (Fail_answer g displayError code (t API_REQUEST_ERROR)) s2)"

text \<open>The timer of a flush: it is gone from the browser, the reference is cleared by the flush itself.\<close>

definition timer_fires :: "chat \<Rightarrow> chat" where
  "timer_fires s = (case timer s of None \<Rightarrow> s | Some g \<Rightarrow> flushStreamUpdates g (s\<lparr>timer := None\<rparr>))"

section \<open>The controller of the event source\<close>

definition close_source :: "nat \<Rightarrow> chat \<Rightarrow> chat" where
  "close_source i s = s\<lparr>sources := (sources s)[i := (sources s ! i)\<lparr>src_closed := True\<rparr>]\<rparr>"

definition close_previous :: "chat \<Rightarrow> chat" where
  "close_previous s =
     (case activeSource s of None \<Rightarrow> s | Some i \<Rightarrow> close_source i (s\<lparr>activeSource := None\<rparr>))"

definition closeActiveSource :: "nat \<Rightarrow> chat \<Rightarrow> chat" where
  "closeActiveSource i s =
     (let s1 = close_source i s in
      if activeSource s1 = Some i then s1\<lparr>activeSource := None, isStreaming := False\<rparr> else s1)"

text \<open>\<open>send\<close> up to its suspension at \<open>await getHeaders()\<close>.\<close>

definition send_begin :: "nat \<Rightarrow> completion_request \<Rightarrow> chat \<Rightarrow> chat" where
  "send_begin request payload s =
     (let g = generation s + 1;
          s1 = (close_previous (s\<lparr>generation := g\<rparr>))\<lparr>isStreaming := False\<rparr>
      in s1\<lparr>sends := sends s1 @ [\<lparr>send_generation = g, send_request = request, send_payload = payload\<rparr>]\<rparr>)"

definition isCurrent :: "nat \<Rightarrow> chat \<Rightarrow> bool" where
  "isCurrent i s \<longleftrightarrow> activeSource s = Some i \<and> src_generation (sources s ! i) = generation s"

definition complete_source :: "nat \<Rightarrow> chat \<Rightarrow> chat" where
  "complete_source i s = s\<lparr>sources := (sources s)[i := (sources s ! i)\<lparr>src_completed := True\<rparr>]\<rparr>"

definition handleError :: "(jstr \<Rightarrow> jstr) \<Rightarrow> nat \<Rightarrow> jstr \<Rightarrow> jstr option \<Rightarrow> chat \<Rightarrow> chat" where
  "handleError t i errorMessage code s =
     (if \<not> isCurrent i s \<or> src_completed (sources s ! i) then s
      else closeActiveSource i
             (handleStreamError t (src_request (sources s ! i)) errorMessage code (complete_source i s)))"

text \<open>What \<open>getHeaders\<close> resolves to: headers, or an error with its message where it is an \<open>Error\<close>.\<close>

datatype headers_result = Headers_ok | Headers_failed "jstr option"

text \<open>The rest of \<open>send\<close>; \<open>stream_throws\<close> tells whether \<open>stream()\<close> throws.\<close>

definition send_resume :: "(jstr \<Rightarrow> jstr) \<Rightarrow> nat \<Rightarrow> headers_result \<Rightarrow> bool \<Rightarrow> chat \<Rightarrow> chat" where
  "send_resume t k result stream_throws s0 =
     (let w = sends s0 ! k;
          s = s0\<lparr>sends := take k (sends s0) @ drop (Suc k) (sends s0)\<rparr> in
      if generation s \<noteq> send_generation w then s
      else case result of
        Headers_failed error \<Rightarrow>
          handleStreamError t (send_request w) (coalesce error STREAM_START_ERROR) None s
      | Headers_ok \<Rightarrow>
          let i = length (sources s);
              s1 = s\<lparr>sources := sources s @
                     [\<lparr>src_generation = send_generation w, src_request = send_request w,
                       src_payload = send_payload w, src_completed = False, src_closed = False\<rparr>],
                    activeSource := Some i, isStreaming := True\<rparr>
          in if stream_throws then handleError t i STREAM_START_ERROR None s1 else s1)"

definition on_message :: "(jstr \<Rightarrow> jstr) \<Rightarrow> nat \<Rightarrow> jstr option \<Rightarrow> chat \<Rightarrow> chat" where
  "on_message t i event_data s =
     (if \<not> isCurrent i s \<or> src_completed (sources s ! i) then s
      else
        let data = coalesce event_data []; g = src_request (sources s ! i) in
        if data = STREAM_DONE
        then handleStreamComplete g (closeActiveSource i (complete_source i s))
        else case parseStreamMessageUpdates data of
            Inr ups \<Rightarrow> fold (\<lambda>(type, chunk). handleStreamUpdate g type chunk) ups s
          | Inl _ \<Rightarrow> handleError t i PARSE_ERROR None s)"

definition on_source_error :: "(jstr \<Rightarrow> jstr) \<Rightarrow> nat \<Rightarrow> int option \<Rightarrow> jstr option \<Rightarrow> chat \<Rightarrow> chat" where
  "on_source_error t i readyState event_data s =
     (if \<not> isCurrent i s \<or> src_completed (sources s ! i) then s
      else if readyState = Some 2 then s
      else let (errorMessage, code) = parseStreamErrorDetails event_data
           in handleError t i errorMessage code s)"

definition on_readystatechange ::
  "(jstr \<Rightarrow> jstr) \<Rightarrow> nat \<Rightarrow> int option \<Rightarrow> int option \<Rightarrow> chat \<Rightarrow> chat" where
  "on_readystatechange t i readyState http_status s =
     (if \<not> isCurrent i s \<or> src_completed (sources s ! i) then s
      else case getStreamReadyStateError readyState http_status of
          Some errorMessage \<Rightarrow> handleError t i errorMessage None s
        | None \<Rightarrow> s)"

text \<open>\<open>stop\<close> and \<open>dispose\<close>.\<close>

definition cancel :: "bool \<Rightarrow> chat \<Rightarrow> chat" where
  "cancel notify s =
     (let s1 = close_previous (s\<lparr>generation := generation s + 1\<rparr>)
      in if notify then s1\<lparr>isStreaming := False\<rparr> else s1)"

section \<open>The chat handler\<close>

definition abort_request :: "chat \<Rightarrow> chat" where
  "abort_request s = (case abortController s of None \<Rightarrow> s | Some g \<Rightarrow> s\<lparr>aborted := g # aborted s\<rparr>)"

definition sendStreamingChat :: "completion_request \<Rightarrow> chat \<Rightarrow> chat" where
  "sendStreamingChat payload s =
     (let g = requestGeneration s + 1;
          s1 = (abort_request (s\<lparr>requestGeneration := g\<rparr>))\<lparr>abortController := None\<rparr>;
          s2 = (discardPendingStreamUpdates g s1)\<lparr>isRequesting := True\<rparr>
      in send_begin g payload s2)"

text \<open>A controller is named by the generation of its request.\<close>

definition sendNonStreamingChat :: "completion_request \<Rightarrow> chat \<Rightarrow> chat" where
  "sendNonStreamingChat payload s =
     (let g = requestGeneration s + 1;
          s1 = discardPendingStreamUpdates g (cancel True (s\<lparr>requestGeneration := g\<rparr>));
          s2 = (abort_request s1)\<lparr>abortController := Some g, isRequesting := True\<rparr>
      in s2\<lparr>requests := requests s2 @ [(g, payload)]\<rparr>)"

text \<open>How a request ends: with a response, or with an error, an object of any shape.\<close>

datatype request_result = Response completion_response | Request_failed jsvalue

definition response_arrives :: "(jstr \<Rightarrow> jstr) \<Rightarrow> nat \<Rightarrow> request_result \<Rightarrow> chat \<Rightarrow> chat" where
  "response_arrives t k result s0 =
     (let g = fst (requests s0 ! k);
          s = s0\<lparr>requests := take k (requests s0) @ drop (Suc k) (requests s0)\<rparr>;
          s1 = (if g \<in> set (aborted s) \<or> requestGeneration s \<noteq> g then s
                else case result of
                  Response response \<Rightarrow>
                    if \<not> hasChatCompletionChoice response then handleStreamError t g API_REQUEST_ERROR None s
                    else enqueue (Apply_response g response) s
                | Request_failed error \<Rightarrow>
                    (let (errorMessage, code) = parseRequestErrorDetails error
                     in handleStreamError t g errorMessage code s))
      in if requestGeneration s1 = g then s1\<lparr>abortController := None, isRequesting := False\<rparr> else s1)"

definition sendChat :: "message list \<Rightarrow> config \<Rightarrow> parameter_enabled \<Rightarrow> chat \<Rightarrow> chat" where
  "sendChat messages c p s =
     (let payload = buildChatCompletionPayload messages c p in
      if cfg_stream c then sendStreamingChat payload s else sendNonStreamingChat payload s)"

definition stopGeneration :: "chat \<Rightarrow> chat" where
  "stopGeneration s =
     (let stopped = requestGeneration s; idle = stopped + 1;
          s1 = (flushStreamUpdates stopped s)\<lparr>requestGeneration := idle\<rparr>;
          s2 = cancel True (discardPendingStreamUpdates idle s1);
          s3 = (abort_request s2)\<lparr>abortController := None, isRequesting := False\<rparr>
      in enqueue (Halt_answer idle) s3)"

text \<open>The clean-up of both hooks when the page goes away; the reference of the timer is left.\<close>

definition unmount :: "chat \<Rightarrow> chat" where
  "unmount s =
     (let s1 = s\<lparr>requestGeneration := requestGeneration s + 1, mounted := False,
                timer := (if timerRef s then None else timer s)\<rparr>;
          s2 = (abort_request s1)\<lparr>abortController := None\<rparr>
      in cancel False s2)"

section \<open>Actions of the conversation\<close>

definition handleSendMessage ::
  "fresh \<Rightarrow> fresh \<Rightarrow> jsnum \<Rightarrow> config \<Rightarrow> parameter_enabled \<Rightarrow> jstr \<Rightarrow> chat \<Rightarrow> chat" where
  "handleSendMessage user_ids answer_ids now c p body s =
     (let nextMessages = appendUserMessagePair user_ids answer_ids now (conversation s) body
      in sendChat nextMessages c p (enqueue (Set_messages nextMessages) s))"

definition handleRegenerateMessage :: "fresh \<Rightarrow> jsnum \<Rightarrow> config \<Rightarrow> parameter_enabled \<Rightarrow> jstr \<Rightarrow> chat \<Rightarrow> chat" where
  "handleRegenerateMessage answer_ids now c p k s =
     (case createRegeneratedMessages answer_ids now (conversation s) k of
        None \<Rightarrow> s
      | Some nextMessages \<Rightarrow> sendChat nextMessages c p (enqueue (Set_messages nextMessages) s))"

text \<open>\<open>applyEdit\<close> with the key of the message being edited, as it acts on the chat.\<close>

definition applyEdit ::
  "fresh \<Rightarrow> jsnum \<Rightarrow> config \<Rightarrow> parameter_enabled \<Rightarrow> jstr \<Rightarrow> jstr \<Rightarrow> bool \<Rightarrow> chat \<Rightarrow> chat" where
  "applyEdit answer_ids now c p editingMessageKey newContent shouldSubmit s =
     (if editingMessageKey = [] then s
      else case applyMessageEdit answer_ids now (conversation s) editingMessageKey newContent shouldSubmit of
        None \<Rightarrow> s
      | Some (messages, shouldSend) \<Rightarrow>
          let s1 = enqueue (Set_messages messages) s
          in if shouldSend then sendChat messages c p s1 else s1)"

definition handleDeleteMessage :: "jstr \<Rightarrow> chat \<Rightarrow> chat" where
  "handleDeleteMessage k s = enqueue (Remove_message k) s"

text \<open>The editor: \<open>editingMessageKey\<close>, which a successful edit and closing the editor clear.\<close>

definition handleEditMessage :: "jstr \<Rightarrow> jstr option \<Rightarrow> jstr option" where
  "handleEditMessage k editing = Some k"

definition handleEditOpenChange :: "bool \<Rightarrow> jstr option \<Rightarrow> jstr option" where
  "handleEditOpenChange opened editing = (if opened then editing else None)"

definition apply_open_edit ::
  "fresh \<Rightarrow> jsnum \<Rightarrow> config \<Rightarrow> parameter_enabled \<Rightarrow> jstr \<Rightarrow> bool \<Rightarrow> jstr option \<times> chat \<Rightarrow> jstr option \<times> chat" where
  "apply_open_edit answer_ids now c p newContent shouldSubmit es =
     (case es of
        (None, s) \<Rightarrow> (None, s)
      | (Some k, s) \<Rightarrow>
          (if k = [] \<or> applyMessageEdit answer_ids now (conversation s) k newContent shouldSubmit = None then Some k
           else None,
           applyEdit answer_ids now c p k newContent shouldSubmit s))"

lemma failed_edit_keeps_editor:
  "fst (apply_open_edit ids now c p body submit (Some k, s)) = Some k \<Longrightarrow>
   apply_open_edit ids now c p body submit (Some k, s) = (Some k, s)"
  by (auto simp: apply_open_edit_def applyEdit_def split: if_splits)

end
