(* ===== verification/ChatSystem.thy ===== *)
theory ChatSystem
  imports ChatRuntime
begin

text \<open>
  The chat as a labelled step relation: actions of the user, callbacks of the environment and renders in any
  order. The invariant \<open>chat_ok\<close> says what a state of the handler and the controller promises each other: a
  source, a suspended send or an open request stands behind every running generation, and only one of
  them.
\<close>

section \<open>Steps\<close>

datatype event =
    Render jsnum
  | Timer_event
  | Headers_event nat headers_result bool
  | Message_event nat "jstr option"
  | Error_event nat "int option" "jstr option"
  | Readystate_event nat "int option" "int option"
  | Response_event nat request_result
  | Send_action fresh fresh jsnum config parameter_enabled jstr
  | Regenerate_action fresh jsnum config parameter_enabled jstr
  | Edit_action fresh jsnum config parameter_enabled jstr jstr bool
  | Delete_action jstr
  | Stop_action
  | Unmount_event

inductive chat_step :: "(jstr \<Rightarrow> jstr) \<Rightarrow> chat \<Rightarrow> event \<Rightarrow> chat \<Rightarrow> bool" for t where
  Render: "chat_step t s (Render now) (render now s)"
| Timer: "timer s \<noteq> None \<Longrightarrow> chat_step t s Timer_event (timer_fires s)"
| Headers: "k < length (sends s)
    \<Longrightarrow> chat_step t s (Headers_event k result throws) (send_resume t k result throws s)"
| Message: "i < length (sources s) \<Longrightarrow> chat_step t s (Message_event i data) (on_message t i data s)"
| Error: "i < length (sources s) \<Longrightarrow> chat_step t s (Error_event i ready data) (on_source_error t i ready data s)"
| Readystate: "i < length (sources s)
    \<Longrightarrow> chat_step t s (Readystate_event i ready code) (on_readystatechange t i ready code s)"
| Answer: "k < length (requests s) \<Longrightarrow> chat_step t s (Response_event k result) (response_arrives t k result s)"
| Send: "mounted s \<Longrightarrow> chat_step t s (Send_action u a now c p body) (handleSendMessage u a now c p body s)"
| Regenerate: "mounted s \<Longrightarrow> chat_step t s (Regenerate_action a now c p k) (handleRegenerateMessage a now c p k s)"
| Edit: "mounted s \<Longrightarrow> chat_step t s (Edit_action a now c p k body submit) (applyEdit a now c p k body submit s)"
| Delete: "mounted s \<Longrightarrow> chat_step t s (Delete_action k) (handleDeleteMessage k s)"
| Stop: "mounted s \<Longrightarrow> chat_step t s Stop_action (stopGeneration s)"
| Unmount: "mounted s \<Longrightarrow> chat_step t s Unmount_event (unmount s)"

fun is_environment :: "event \<Rightarrow> bool" where
  "is_environment (Render _) = True"
| "is_environment Timer_event = True"
| "is_environment (Headers_event _ _ _) = True"
| "is_environment (Message_event _ _) = True"
| "is_environment (Error_event _ _ _) = True"
| "is_environment (Readystate_event _ _ _) = True"
| "is_environment (Response_event _ _) = True"
| "is_environment _ = False"

inductive chat_run :: "(jstr \<Rightarrow> jstr) \<Rightarrow> chat \<Rightarrow> event list \<Rightarrow> chat \<Rightarrow> bool" for t where
  run_Nil: "chat_run t s [] s"
| run_Cons: "chat_step t s e s1 \<Longrightarrow> chat_run t s1 es s2 \<Longrightarrow> chat_run t s (e # es) s2"

lemma chat_run_append: "chat_run t s es s1 \<Longrightarrow> chat_run t s1 fs s2 \<Longrightarrow> chat_run t s (es @ fs) s2"
  by (induction rule: chat_run.induct) (auto intro: run_Cons)

section \<open>Invariant\<close>

definition buffered :: "chat \<Rightarrow> bool" where
  "buffered s \<longleftrightarrow> pendingContent s \<noteq> [] \<or> pendingReasoning s \<noteq> []"

definition current_send :: "chat \<Rightarrow> bool" where
  "current_send s \<longleftrightarrow> generation s \<in> send_generation ` set (sends s)"

definition current_request :: "chat \<Rightarrow> bool" where
  "current_request s \<longleftrightarrow> requestGeneration s \<in> fst ` set (requests s)"

text \<open>The numbers of generations: every recorded one is in the past or current, none is used twice.\<close>

definition generations_ok :: "chat \<Rightarrow> bool" where
  "generations_ok s \<longleftrightarrow>
     distinct (map send_generation (sends s)) \<and> distinct (map fst (requests s))
     \<and> (\<forall>w \<in> set (sends s). send_generation w \<le> generation s
          \<and> (send_generation w = generation s \<longrightarrow> send_request w = requestGeneration s))
     \<and> (\<forall>g \<in> fst ` set (requests s). g \<le> requestGeneration s)
     \<and> (\<forall>g \<in> set (aborted s). g < requestGeneration s)
     \<and> (\<forall>g. abortController s = Some g \<longrightarrow> g \<le> requestGeneration s)"

text \<open>At most one cause of a running generation, and none without \<open>isRequesting\<close>.\<close>

definition causes_ok :: "chat \<Rightarrow> bool" where
  "causes_ok s \<longleftrightarrow>
     (\<forall>i. activeSource s = Some i \<longrightarrow> i < length (sources s) \<and> src_generation (sources s ! i) = generation s
        \<and> src_request (sources s ! i) = requestGeneration s \<and> \<not> src_completed (sources s ! i)
        \<and> isRequesting s \<and> \<not> current_send s \<and> \<not> current_request s)
     \<and> (current_send s \<longrightarrow> isRequesting s \<and> \<not> current_request s)
     \<and> (current_request s \<longrightarrow> isRequesting s)"

definition buffer_ok :: "chat \<Rightarrow> bool" where
  "buffer_ok s \<longleftrightarrow>
     (mounted s \<longrightarrow>
        pendingGeneration s = requestGeneration s
        \<and> timer s = (if timerRef s then Some (requestGeneration s) else None)
        \<and> (buffered s \<longrightarrow> timerRef s) \<and> (timerRef s \<longrightarrow> activeSource s \<noteq> None)
        \<and> isStreaming s = (activeSource s \<noteq> None)
        \<and> (isRequesting s \<longrightarrow> current_send s \<or> activeSource s \<noteq> None \<or> current_request s))
     \<and> (\<not> mounted s \<longrightarrow>
        timer s = None \<and> activeSource s = None \<and> \<not> current_send s \<and> \<not> current_request s)"

definition chat_ok :: "chat \<Rightarrow> bool" where
  "chat_ok s \<longleftrightarrow> generations_ok s \<and> causes_ok s \<and> buffer_ok s"

lemmas ok_defs = chat_ok_def generations_ok_def causes_ok_def buffer_ok_def
  buffered_def current_send_def current_request_def

lemma ok_new [simp]: "chat_ok (new_chat messages)"
  by (simp add: ok_defs new_chat_def)

lemma ok_render: "chat_ok s \<Longrightarrow> chat_ok (render now s)"
  by (simp add: ok_defs render_def)

lemma ok_enqueue [simp]: "chat_ok (enqueue u s) = chat_ok s"
  by (simp add: ok_defs enqueue_def)

text \<open>Flushing empties the buffer and touches nothing but the buffer, the timer and the queue.\<close>

definition drained :: "chat \<Rightarrow> chat" where
  "drained s =
     (if buffered s
      then enqueue (Flush_chunks (requestGeneration s) (pendingReasoning s) (pendingContent s)) s else s)
       \<lparr>timer := None, timerRef := False, pendingContent := [], pendingReasoning := []\<rparr>"

lemma drained_fields [simp]:
  "requestGeneration (drained s) = requestGeneration s" "pendingGeneration (drained s) = pendingGeneration s"
  "abortController (drained s) = abortController s" "aborted (drained s) = aborted s"
  "requests (drained s) = requests s" "isRequesting (drained s) = isRequesting s"
  "generation (drained s) = generation s" "activeSource (drained s) = activeSource s"
  "sources (drained s) = sources s" "sends (drained s) = sends s" "isStreaming (drained s) = isStreaming s"
  "mounted (drained s) = mounted s" "conversation (drained s) = conversation s"
  "timer (drained s) = None" "timerRef (drained s) = False" "\<not> buffered (drained s)"
  "shownErrors (drained s) = shownErrors s"
  by (simp_all add: drained_def enqueue_def buffered_def)

lemma clear_timer_clears:
  "timerRef s \<or> timer s = None \<Longrightarrow> clear_timer s = s\<lparr>timer := None, timerRef := False\<rparr>"
  by (cases s) (auto simp: clear_timer_def)

lemma flush_drains:
  assumes "pendingGeneration s = requestGeneration s" "timerRef s \<or> timer s = None"
  shows "flushStreamUpdates (requestGeneration s) s = drained s"
  using assms
  by (cases s) (auto simp: flushStreamUpdates_def clear_timer_clears drained_def buffered_def enqueue_def Let_def)

lemma drained_timer [simp]: "drained (s\<lparr>timer := x\<rparr>) = drained s"
  by (cases s) (simp add: drained_def buffered_def enqueue_def)

lemma buffer_mounted:
  assumes "chat_ok s" "mounted s"
  shows "pendingGeneration s = requestGeneration s"
    "timer s = (if timerRef s then Some (requestGeneration s) else None)"
    "buffered s \<Longrightarrow> timerRef s" "timerRef s \<Longrightarrow> activeSource s \<noteq> None"
    "isStreaming s = (activeSource s \<noteq> None)"
    "isRequesting s \<Longrightarrow> current_send s \<or> activeSource s \<noteq> None \<or> current_request s"
  using assms by (auto simp: chat_ok_def buffer_ok_def)

lemma ok_drained: "chat_ok s \<Longrightarrow> chat_ok (drained s)"
  unfolding chat_ok_def generations_ok_def causes_ok_def buffer_ok_def current_send_def current_request_def
  by simp

lemma ok_timer:
  assumes "chat_ok s" "timer s \<noteq> None"
  shows "timer_fires s = drained s" "chat_ok (timer_fires s)"
proof -
  have m: "mounted s" using assms by (auto simp: chat_ok_def buffer_ok_def)
  with assms have "timerRef s" "timer s = Some (requestGeneration s)"
    using buffer_mounted(2) by (auto split: if_splits)
  with buffer_mounted(1) [OF assms(1) m] show fires: "timer_fires s = drained s"
    using flush_drains [of "s\<lparr>timer := None\<rparr>"] by (simp add: timer_fires_def)
  show "chat_ok (timer_fires s)" unfolding fires using assms(1) by (rule ok_drained)
qed

text \<open>Behind an active source there is a mounted page.\<close>

lemma active_mounted: "chat_ok s \<Longrightarrow> activeSource s = Some i \<Longrightarrow> mounted s"
  by (auto simp: chat_ok_def buffer_ok_def)

lemma ok_update:
  assumes "chat_ok s" "activeSource s \<noteq> None"
  shows "chat_ok (handleStreamUpdate g type chunk s)"
proof -
  from assms active_mounted have m: "mounted s" by blast
  note buffer = buffer_mounted [OF assms(1) m]
  show ?thesis
    using assms m buffer
    unfolding handleStreamUpdate_def scheduleStreamFlush_def chat_ok_def generations_ok_def causes_ok_def
      buffer_ok_def current_send_def current_request_def
    by (cases type; cases "timerRef s") (simp_all add: buffered_def)
qed

section \<open>The end of a generation\<close>

text \<open>A mounted page with nothing under way.\<close>

definition idle :: "chat \<Rightarrow> bool" where
  "idle s \<longleftrightarrow> \<not> isRequesting s \<and> \<not> isStreaming s \<and> activeSource s = None
     \<and> \<not> current_send s \<and> \<not> current_request s
     \<and> timer s = None \<and> \<not> timerRef s \<and> \<not> buffered s \<and> pendingGeneration s = requestGeneration s"

lemma ok_idle: "generations_ok s \<Longrightarrow> idle s \<Longrightarrow> mounted s \<Longrightarrow> chat_ok s"
  by (simp add: chat_ok_def causes_ok_def buffer_ok_def idle_def)

lemma idle_iff: "chat_ok s \<Longrightarrow> mounted s \<Longrightarrow> idle s \<longleftrightarrow> \<not> isGenerating s"
  by (auto simp: idle_def isGenerating_def chat_ok_def causes_ok_def buffer_ok_def)

lemma enqueue_fields [simp]:
  "requestGeneration (enqueue u s) = requestGeneration s" "pendingGeneration (enqueue u s) = pendingGeneration s"
  "pendingContent (enqueue u s) = pendingContent s" "pendingReasoning (enqueue u s) = pendingReasoning s"
  "abortController (enqueue u s) = abortController s" "aborted (enqueue u s) = aborted s"
  "requests (enqueue u s) = requests s" "isRequesting (enqueue u s) = isRequesting s"
  "generation (enqueue u s) = generation s" "activeSource (enqueue u s) = activeSource s"
  "sources (enqueue u s) = sources s" "sends (enqueue u s) = sends s" "isStreaming (enqueue u s) = isStreaming s"
  "mounted (enqueue u s) = mounted s" "conversation (enqueue u s) = conversation s"
  "timer (enqueue u s) = timer s" "timerRef (enqueue u s) = timerRef s"
  "updates (enqueue u s) = updates s @ [u]" "shownErrors (enqueue u s) = shownErrors s"
  by (simp_all add: enqueue_def)

lemma source_fields [simp]:
  "close_source i s = s\<lparr>sources := (sources s)[i := (sources s ! i)\<lparr>src_closed := True\<rparr>]\<rparr>"
  "complete_source i s = s\<lparr>sources := (sources s)[i := (sources s ! i)\<lparr>src_completed := True\<rparr>]\<rparr>"
  by (simp_all add: close_source_def complete_source_def)

lemma complete_current:
  assumes "pendingGeneration s = requestGeneration s" "timerRef s \<or> timer s = None"
  shows "handleStreamComplete (requestGeneration s) s =
    enqueue (Complete_answer (requestGeneration s)) ((drained s)\<lparr>isRequesting := False\<rparr>)"
  using flush_drains [OF assms] by (simp add: handleStreamComplete_def)

lemma error_current:
  assumes "pendingGeneration s = requestGeneration s" "timerRef s \<or> timer s = None"
  shows "handleStreamError t (requestGeneration s) error code s =
    enqueue (Fail_answer (requestGeneration s) (getDisplayError t error) code (t API_REQUEST_ERROR))
      ((drained s)\<lparr>isRequesting := False, shownErrors := shownErrors s @ [getDisplayError t error]\<rparr>)"
  using flush_drains [OF assms] by (simp add: handleStreamError_def Let_def)

text \<open>What holds of the active source of a state in order.\<close>

lemma active_source:
  assumes "chat_ok s" "activeSource s = Some i"
  shows "mounted s" "isCurrent i s" "i < length (sources s)" "src_request (sources s ! i) = requestGeneration s"
    "\<not> src_completed (sources s ! i)" "isRequesting s" "isStreaming s" "\<not> current_send s" "\<not> current_request s"
    "pendingGeneration s = requestGeneration s" "timerRef s \<or> timer s = None" "generations_ok s"
  using assms by (auto simp: chat_ok_def causes_ok_def buffer_ok_def isCurrent_def)

text \<open>A source that ends leaves an idle page, whether it is closed before the callback or after it.\<close>

definition ended :: "nat \<Rightarrow> chat \<Rightarrow> chat" where
  "ended i s = s\<lparr>activeSource := None, isStreaming := False,
     sources := (sources s)[i := (sources s ! i)\<lparr>src_completed := True, src_closed := True\<rparr>]\<rparr>"

lemma handleError_current:
  assumes "chat_ok s" "activeSource s = Some i"
  shows "handleError t i error code s =
    enqueue (Fail_answer (requestGeneration s) (getDisplayError t error) code (t API_REQUEST_ERROR))
      (ended i ((drained s)\<lparr>isRequesting := False, shownErrors := shownErrors s @ [getDisplayError t error]\<rparr>))"
proof -
  note active = active_source [OF assms]
  have "handleStreamError t (requestGeneration s) error code (complete_source i s)
    = enqueue (Fail_answer (requestGeneration s) (getDisplayError t error) code (t API_REQUEST_ERROR))
      ((drained (complete_source i s))\<lparr>isRequesting := False, shownErrors := shownErrors s @ [getDisplayError t error]\<rparr>)"
    using error_current [of "complete_source i s"] active by simp
  then show ?thesis
    using assms(2) active
    by (simp add: handleError_def closeActiveSource_def Let_def ended_def drained_def buffered_def enqueue_def)
qed

lemma on_message_done:
  assumes "chat_ok s" "activeSource s = Some i"
  shows "on_message t i (Some STREAM_DONE) s =
    enqueue (Complete_answer (requestGeneration s)) (ended i ((drained s)\<lparr>isRequesting := False\<rparr>))"
proof -
  note active = active_source [OF assms]
  have "handleStreamComplete (requestGeneration s) (closeActiveSource i (complete_source i s))
    = enqueue (Complete_answer (requestGeneration s))
      ((drained (closeActiveSource i (complete_source i s)))\<lparr>isRequesting := False\<rparr>)"
    using complete_current [of "closeActiveSource i (complete_source i s)"] active assms(2)
    by (simp add: closeActiveSource_def Let_def)
  then show ?thesis
    using assms(2) active
    by (simp add: on_message_def closeActiveSource_def Let_def ended_def drained_def buffered_def enqueue_def)
qed

lemma idle_ended:
  assumes "chat_ok s" "activeSource s = Some i"
  shows "idle (enqueue u (ended i ((drained s)\<lparr>isRequesting := False\<rparr>)))"
    "chat_ok (enqueue u (ended i ((drained s)\<lparr>isRequesting := False\<rparr>)))"
    "chat_ok (enqueue u (ended i ((drained s)\<lparr>isRequesting := False, shownErrors := es\<rparr>)))"
proof -
  note active = active_source [OF assms]
  show "idle (enqueue u (ended i ((drained s)\<lparr>isRequesting := False\<rparr>)))"
    using active by (simp add: idle_def ended_def current_send_def current_request_def buffered_def drained_def enqueue_def)
  with active show "chat_ok (enqueue u (ended i ((drained s)\<lparr>isRequesting := False\<rparr>)))"
    by (intro ok_idle) (simp_all add: generations_ok_def ended_def)
  from active have "idle (enqueue u (ended i ((drained s)\<lparr>isRequesting := False, shownErrors := es\<rparr>)))"
    by (simp add: idle_def ended_def current_send_def current_request_def buffered_def drained_def enqueue_def)
  with active show "chat_ok (enqueue u (ended i ((drained s)\<lparr>isRequesting := False, shownErrors := es\<rparr>)))"
    by (intro ok_idle) (simp_all add: generations_ok_def ended_def)
qed

lemma ok_handleError: "chat_ok s \<Longrightarrow> chat_ok (handleError t i error code s)"
proof (cases "activeSource s = Some i")
  case True
  assume "chat_ok s"
  with True show ?thesis by (simp only: handleError_current idle_ended(3))
qed (simp add: handleError_def isCurrent_def)

lemma update_fields [simp]:
  "activeSource (handleStreamUpdate g type chunk s) = activeSource s"
  by (simp add: handleStreamUpdate_def scheduleStreamFlush_def split: chunk_type.split)

lemma ok_updates:
  "chat_ok s \<Longrightarrow> activeSource s \<noteq> None \<Longrightarrow> chat_ok (fold (\<lambda>(type, chunk). handleStreamUpdate g type chunk) ups s)"
proof (induction ups arbitrary: s)
  case (Cons u ups)
  obtain type chunk where u: "u = (type, chunk)" by fastforce
  from Cons.prems have "chat_ok (handleStreamUpdate g type chunk s)" by (rule ok_update)
  with Cons.IH Cons.prems(2) show ?case by (simp add: u)
qed simp

lemma ok_message:
  assumes ok: "chat_ok s"
  shows "chat_ok (on_message t i event_data s)"
proof (cases "isCurrent i s \<and> \<not> src_completed (sources s ! i)")
  case False
  with ok show ?thesis by (auto simp: on_message_def)
next
  case True
  then have active: "activeSource s = Some i" by (simp add: isCurrent_def)
  show ?thesis
  proof (cases "coalesce event_data [] = STREAM_DONE")
    case finished: True
    have "on_message t i event_data s = on_message t i (Some STREAM_DONE) s"
      using finished by (simp add: on_message_def)
    with on_message_done [OF ok active] idle_ended(2) [OF ok active] show ?thesis by simp
  next
    case False
    with True ok active show ?thesis
      by (simp add: on_message_def ok_handleError ok_updates split: sum.split)
  qed
qed

lemma ok_error: "chat_ok s \<Longrightarrow> chat_ok (on_source_error t i ready event_data s)"
  by (simp add: on_source_error_def ok_handleError split: prod.split)

lemma ok_readystate: "chat_ok s \<Longrightarrow> chat_ok (on_readystatechange t i ready code s)"
  by (simp add: on_readystatechange_def ok_handleError split: option.split)

section \<open>Suspended sends and open requests\<close>

lemma distinct_remove_nth:
  assumes "distinct (map f xs)" "k < length xs"
  shows "distinct (map f (take k xs @ drop (Suc k) xs))"
    "y \<in> set (take k xs @ drop (Suc k) xs) \<Longrightarrow> f y \<noteq> f (xs ! k) \<and> y \<in> set xs"
    "f ` set (take k xs @ drop (Suc k) xs) = f ` set xs - {f (xs ! k)}"
proof -
  have xs: "xs = take k xs @ xs ! k # drop (Suc k) xs" using assms(2) by (rule id_take_nth_drop)
  with assms(1) have d: "distinct (map f (take k xs) @ f (xs ! k) # map f (drop (Suc k) xs))"
    by (metis list.simps(9) map_append)
  then show "distinct (map f (take k xs @ drop (Suc k) xs))" by auto
  have out: "f (xs ! k) \<notin> f ` set (take k xs @ drop (Suc k) xs)" using d by auto
  show "f y \<noteq> f (xs ! k) \<and> y \<in> set xs" if "y \<in> set (take k xs @ drop (Suc k) xs)"
  proof
    show "f y \<noteq> f (xs ! k)" using imageI [OF that, of f] out by metis
    show "y \<in> set xs" using that by (auto dest: in_set_takeD in_set_dropD)
  qed
  have "set xs = insert (xs ! k) (set (take k xs @ drop (Suc k) xs))"
    by (subst xs) simp
  with out show "f ` set (take k xs @ drop (Suc k) xs) = f ` set xs - {f (xs ! k)}" by auto
qed

text \<open>Taking one suspended send or open request out of its list.\<close>

definition without_send :: "nat \<Rightarrow> chat \<Rightarrow> chat" where
  "without_send k s = s\<lparr>sends := take k (sends s) @ drop (Suc k) (sends s)\<rparr>"

definition without_request :: "nat \<Rightarrow> chat \<Rightarrow> chat" where
  "without_request k s = s\<lparr>requests := take k (requests s) @ drop (Suc k) (requests s)\<rparr>"

lemma without_send_facts:
  assumes "chat_ok s" "k < length (sends s)"
  shows "generations_ok (without_send k s)"
    "current_send (without_send k s) \<longleftrightarrow> current_send s \<and> send_generation (sends s ! k) \<noteq> generation s"
    "send_generation (sends s ! k) = generation s \<Longrightarrow>
       send_request (sends s ! k) = requestGeneration s \<and> current_send s"
proof -
  from assms have d: "distinct (map send_generation (sends s))" by (simp add: chat_ok_def generations_ok_def)
  note remove = distinct_remove_nth [OF d assms(2)]
  from assms(1) remove(1) show "generations_ok (without_send k s)"
    by (auto simp: chat_ok_def generations_ok_def without_send_def dest: in_set_takeD in_set_dropD)
  show "current_send (without_send k s) \<longleftrightarrow> current_send s \<and> send_generation (sends s ! k) \<noteq> generation s"
    using remove(3) by (simp add: current_send_def without_send_def) metis
  assume g: "send_generation (sends s ! k) = generation s"
  have "sends s ! k \<in> set (sends s)" using assms(2) by simp
  with g assms(1) show "send_request (sends s ! k) = requestGeneration s \<and> current_send s"
    by (metis chat_ok_def current_send_def generations_ok_def image_eqI)
qed

lemma ok_without_stale_send:
  assumes "chat_ok s" "k < length (sends s)" "send_generation (sends s ! k) \<noteq> generation s"
  shows "chat_ok (without_send k s)"
proof -
  note facts = without_send_facts [OF assms(1, 2)]
  have "current_send (without_send k s) = current_send s" using facts(2) assms(3) by simp
  moreover have "current_request (without_send k s) = current_request s" "buffered (without_send k s) = buffered s"
    by (simp_all add: current_request_def buffered_def without_send_def)
  ultimately show ?thesis using facts(1) assms(1)
    by (simp add: chat_ok_def causes_ok_def buffer_ok_def without_send_def)
qed

lemma ok_headers:
  assumes ok: "chat_ok s" and k: "k < length (sends s)"
  shows "chat_ok (send_resume t k result throws s)"
proof (cases "send_generation (sends s ! k) = generation s")
  case False
  then have "send_resume t k result throws s = without_send k s"
    by (simp add: send_resume_def without_send_def Let_def)
  with ok_without_stale_send [OF ok k False] show ?thesis by simp
next
  case True
  note facts = without_send_facts [OF ok k]
  from facts(3) [OF True] have cur: "send_request (sends s ! k) = requestGeneration s" "current_send s" by auto
  from ok cur have m: "mounted s" and none: "activeSource s = None" "\<not> current_request s" "isRequesting s"
    by (auto simp: chat_ok_def causes_ok_def buffer_ok_def)
  note buffer = buffer_mounted [OF ok m]
  have gone: "\<not> current_send (without_send k s)" using facts(2) True by simp
  have fields: "timer s = None" "\<not> timerRef s" "\<not> buffered s" "\<not> isStreaming s" using buffer none by auto
  show ?thesis
  proof (cases result)
    case (Headers_failed error)
    have "send_resume t k result throws s
      = enqueue (Fail_answer (requestGeneration s) (getDisplayError t (coalesce error STREAM_START_ERROR)) None
          (t API_REQUEST_ERROR))
        ((drained (without_send k s))\<lparr>isRequesting := False,
          shownErrors := shownErrors s @ [getDisplayError t (coalesce error STREAM_START_ERROR)]\<rparr>)"
      using error_current [of "without_send k s"] True cur buffer(1) fields Headers_failed
      by (simp add: send_resume_def without_send_def Let_def)
    also have "chat_ok \<dots>"
      using facts(1) gone none m fields buffer(1)
      by (intro ok_idle)
        (simp_all add: idle_def generations_ok_def without_send_def current_send_def current_request_def
          buffered_def drained_def enqueue_def)
    finally show ?thesis .
  next
    case Headers_ok
    define s1 where "s1 = (without_send k s)\<lparr>sources := sources s @
        [\<lparr>src_generation = generation s, src_request = requestGeneration s,
          src_payload = send_payload (sends s ! k), src_completed = False, src_closed = False\<rparr>],
        activeSource := Some (length (sources s)), isStreaming := True\<rparr>"
    have "chat_ok s1"
      using facts(1) gone none m fields buffer
      by (simp add: s1_def chat_ok_def causes_ok_def buffer_ok_def generations_ok_def without_send_def
          current_send_def current_request_def buffered_def)
    moreover have "send_resume t k result throws s = (if throws
        then handleError t (length (sources s)) STREAM_START_ERROR None s1 else s1)"
      using True cur Headers_ok by (simp add: send_resume_def s1_def without_send_def Let_def)
    ultimately show ?thesis by (simp add: ok_handleError)
  qed
qed

lemma without_request_facts:
  assumes "chat_ok s" "k < length (requests s)"
  shows "generations_ok (without_request k s)"
    "current_request (without_request k s) \<longleftrightarrow> current_request s \<and> fst (requests s ! k) \<noteq> requestGeneration s"
    "fst (requests s ! k) = requestGeneration s \<Longrightarrow> current_request s"
proof -
  from assms have d: "distinct (map fst (requests s))" by (simp add: chat_ok_def generations_ok_def)
  note remove = distinct_remove_nth [OF d assms(2)]
  from assms(1) remove(1) show "generations_ok (without_request k s)"
    by (auto simp: chat_ok_def generations_ok_def without_request_def dest: in_set_takeD in_set_dropD)
  show "current_request (without_request k s) \<longleftrightarrow> current_request s \<and> fst (requests s ! k) \<noteq> requestGeneration s"
    using remove(3) by (simp add: current_request_def without_request_def) metis
  assume "fst (requests s ! k) = requestGeneration s"
  moreover have "requests s ! k \<in> set (requests s)" using assms(2) by simp
  ultimately show "current_request s" unfolding current_request_def by (metis image_eqI)
qed

lemma ok_without_stale_request:
  assumes "chat_ok s" "k < length (requests s)" "fst (requests s ! k) \<noteq> requestGeneration s"
  shows "chat_ok (without_request k s)"
proof -
  note facts = without_request_facts [OF assms(1, 2)]
  have "current_request (without_request k s) = current_request s" using facts(2) assms(3) by simp
  moreover have "current_send (without_request k s) = current_send s" "buffered (without_request k s) = buffered s"
    by (simp_all add: current_send_def buffered_def without_request_def)
  ultimately show ?thesis using facts(1) assms(1)
    by (simp add: chat_ok_def causes_ok_def buffer_ok_def without_request_def)
qed

text \<open>The message a failed request shows, and the update an answer or a failure queues.\<close>

definition request_error :: "request_result \<Rightarrow> jstr \<times> jstr option" where
  "request_error result =
     (case result of Response _ \<Rightarrow> (API_REQUEST_ERROR, None) | Request_failed error \<Rightarrow> parseRequestErrorDetails error)"

fun answered :: "request_result \<Rightarrow> bool" where
  "answered (Response response) = hasChatCompletionChoice response"
| "answered (Request_failed _) = False"

fun answer_update :: "(jstr \<Rightarrow> jstr) \<Rightarrow> nat \<Rightarrow> request_result \<Rightarrow> update" where
  "answer_update t g (Response response) =
     (if hasChatCompletionChoice response then Apply_response g response
      else Fail_answer g (getDisplayError t API_REQUEST_ERROR) None (t API_REQUEST_ERROR))"
| "answer_update t g (Request_failed error) =
     Fail_answer g (getDisplayError t (fst (parseRequestErrorDetails error))) (snd (parseRequestErrorDetails error))
       (t API_REQUEST_ERROR)"

lemma response_current:
  assumes ok: "chat_ok s" and k: "k < length (requests s)" and g: "fst (requests s ! k) = requestGeneration s"
  shows "\<exists>es. response_arrives t k result s
    = enqueue (answer_update t (requestGeneration s) result)
        ((without_request k s)\<lparr>abortController := None, isRequesting := False, timer := None, timerRef := False,
           pendingContent := [], pendingReasoning := [], shownErrors := es\<rparr>)"
    and "idle ((without_request k s)\<lparr>abortController := None, isRequesting := False, timer := None, timerRef := False,
           pendingContent := [], pendingReasoning := [], shownErrors := es\<rparr>)"
    and "mounted s"
proof -
  note facts = without_request_facts [OF ok k]
  from facts(3) [OF g] have cur: "current_request s" .
  from ok cur show m: "mounted s" by (auto simp: chat_ok_def buffer_ok_def)
  from ok cur have none: "activeSource s = None" "\<not> current_send s"
    by (auto simp: chat_ok_def causes_ok_def)
  note buffer = buffer_mounted [OF ok m]
  have fields: "timer s = None" "\<not> timerRef s" "\<not> buffered s" "\<not> isStreaming s" using buffer none by auto
  have live: "requestGeneration s \<notin> set (aborted s)" using ok by (auto simp: chat_ok_def generations_ok_def)
  have gone: "\<not> current_request (without_request k s)" using facts(2) g by simp
  have same: "drained (without_request k s) = (without_request k s)
      \<lparr>timer := None, timerRef := False, pendingContent := [], pendingReasoning := []\<rparr>"
    using fields by (simp add: drained_def without_request_def buffered_def)
  have error: "handleStreamError t (requestGeneration s) error code (without_request k s) =
    enqueue (Fail_answer (requestGeneration s) (getDisplayError t error) code (t API_REQUEST_ERROR))
      ((drained (without_request k s))\<lparr>isRequesting := False, shownErrors := shownErrors s @ [getDisplayError t error]\<rparr>)"
    for error code
    using error_current [of "without_request k s"] buffer(1) fields by (simp add: without_request_def)
  have blank: "s\<lparr>timer := None, timerRef := False, pendingContent := [], pendingReasoning := []\<rparr> = s"
    using fields by (cases s) (simp add: buffered_def)
  have arrives: "response_arrives t k result s
      = (let s1 = (case result of
              Response response \<Rightarrow>
                if \<not> hasChatCompletionChoice response
                then handleStreamError t (requestGeneration s) API_REQUEST_ERROR None (without_request k s)
                else enqueue (Apply_response (requestGeneration s) response) (without_request k s)
            | Request_failed error \<Rightarrow>
                (let (errorMessage, code) = parseRequestErrorDetails error
                 in handleStreamError t (requestGeneration s) errorMessage code (without_request k s)))
         in if requestGeneration s1 = requestGeneration s then s1\<lparr>abortController := None, isRequesting := False\<rparr> else s1)"
    unfolding response_arrives_def Let_def g without_request_def using live by simp
  show "\<exists>es. response_arrives t k result s
    = enqueue (answer_update t (requestGeneration s) result)
        ((without_request k s)\<lparr>abortController := None, isRequesting := False, timer := None, timerRef := False,
           pendingContent := [], pendingReasoning := [], shownErrors := es\<rparr>)"
  proof (cases "answered result")
    case True
    then obtain response where "result = Response response" "hasChatCompletionChoice response" by (cases result) auto
    then show ?thesis using fields unfolding arrives
      by (intro exI [of _ "shownErrors s"])
        (cases s, simp add: Let_def enqueue_def without_request_def buffered_def)
  next
    case False
    show ?thesis
    proof (cases result)
      case (Response response)
      with False show ?thesis unfolding arrives error same
        by (intro exI [of _ "shownErrors s @ [getDisplayError t API_REQUEST_ERROR]"])
          (simp add: Let_def enqueue_def without_request_def)
    next
      case (Request_failed err)
      obtain e c where ec: "parseRequestErrorDetails err = (e, c)" by fastforce
      show ?thesis unfolding arrives error same
        by (intro exI [of _ "shownErrors s @ [getDisplayError t e]"])
          (simp add: Request_failed ec Let_def enqueue_def without_request_def)
    qed
  qed
  show "idle ((without_request k s)\<lparr>abortController := None, isRequesting := False, timer := None, timerRef := False,
           pendingContent := [], pendingReasoning := [], shownErrors := es\<rparr>)"
    using gone none fields buffer(1)
    by (simp add: idle_def without_request_def current_send_def current_request_def buffered_def)
qed

lemma response_stale:
  "fst (requests s ! k) \<noteq> requestGeneration s \<Longrightarrow> response_arrives t k result s = without_request k s"
  by (simp add: response_arrives_def without_request_def Let_def)

lemma ok_response:
  assumes ok: "chat_ok s" and k: "k < length (requests s)"
  shows "chat_ok (response_arrives t k result s)"
proof (cases "fst (requests s ! k) = requestGeneration s")
  case False
  with ok_without_stale_request [OF ok k False] show ?thesis by (simp add: response_stale)
next
  case True
  from response_current(1) [OF ok k True] obtain es where es: "response_arrives t k result s
    = enqueue (answer_update t (requestGeneration s) result)
        ((without_request k s)\<lparr>abortController := None, isRequesting := False, timer := None, timerRef := False,
           pendingContent := [], pendingReasoning := [], shownErrors := es\<rparr>)" by blast
  have "generations_ok ((without_request k s)\<lparr>abortController := None, isRequesting := False, timer := None, timerRef := False,
           pendingContent := [], pendingReasoning := [], shownErrors := es\<rparr>)"
    using without_request_facts(1) [OF ok k] by (simp add: generations_ok_def without_request_def)
  with response_current(2) [OF ok k True, of es] response_current(3) [OF ok k True] show ?thesis
    unfolding es ok_enqueue by (intro ok_idle) (simp_all add: without_request_def)
qed

section \<open>New generations\<close>

text \<open>
  Starting, stopping and leaving all begin with new numbers: whatever ran before is no longer current.
\<close>

definition supersedes :: "chat \<Rightarrow> chat \<Rightarrow> bool" where
  "supersedes s s1 \<longleftrightarrow>
     requestGeneration s1 = requestGeneration s + 1 \<and> generation s1 = generation s + 1
     \<and> activeSource s1 = None \<and> length (sources s1) = length (sources s)
     \<and> set (aborted s1) \<subseteq> set (aborted s) \<union> {g. abortController s = Some g}
     \<and> conversation s1 = conversation s"

lemma supersedes_ok:
  assumes "chat_ok s" "supersedes s s1" "sends s1 = sends s" "requests s1 = requests s"
    "\<And>g. abortController s1 = Some g \<Longrightarrow> g \<le> requestGeneration s1"
  shows "generations_ok s1" "\<not> current_send s1" "\<not> current_request s1"
    "Suc (generation s) \<notin> send_generation ` set (sends s)" "Suc (requestGeneration s) \<notin> fst ` set (requests s)"
proof -
  have g: "\<And>w. w \<in> set (sends s) \<Longrightarrow> send_generation w \<le> generation s"
    "\<And>g. g \<in> fst ` set (requests s) \<Longrightarrow> g \<le> requestGeneration s"
    "\<And>g. g \<in> set (aborted s) \<Longrightarrow> g < requestGeneration s"
    "\<And>g. abortController s = Some g \<Longrightarrow> g \<le> requestGeneration s"
    "distinct (map send_generation (sends s))" "distinct (map fst (requests s))"
    using assms(1) by (auto simp: chat_ok_def generations_ok_def)
  show a: "Suc (generation s) \<notin> send_generation ` set (sends s)"
    using g(1) by fastforce
  show b: "Suc (requestGeneration s) \<notin> fst ` set (requests s)"
    using g(2) by fastforce
  from a b assms(2-4) show "\<not> current_send s1" "\<not> current_request s1"
    by (simp_all add: current_send_def current_request_def supersedes_def)
  have "g < requestGeneration s1" if "g \<in> set (aborted s1)" for g
    using that assms(2) g(3, 4) by (fastforce simp: supersedes_def)
  moreover have "send_generation w < generation s1" if "w \<in> set (sends s)" for w
    using g(1) [OF that] assms(2) by (simp add: supersedes_def)
  moreover have "g \<le> requestGeneration s1" if "g \<in> fst ` set (requests s)" for g
    using g(2) [OF that] assms(2) by (simp add: supersedes_def)
  ultimately show "generations_ok s1"
    using assms(3-5) g(5, 6) by (fastforce simp: generations_ok_def)
qed

lemma close_previous_fields [simp]:
  "requestGeneration (close_previous s) = requestGeneration s" "pendingGeneration (close_previous s) = pendingGeneration s"
  "pendingContent (close_previous s) = pendingContent s" "pendingReasoning (close_previous s) = pendingReasoning s"
  "abortController (close_previous s) = abortController s" "aborted (close_previous s) = aborted s"
  "requests (close_previous s) = requests s" "isRequesting (close_previous s) = isRequesting s"
  "generation (close_previous s) = generation s" "activeSource (close_previous s) = None"
  "sends (close_previous s) = sends s" "isStreaming (close_previous s) = isStreaming s"
  "mounted (close_previous s) = mounted s" "conversation (close_previous s) = conversation s"
  "timer (close_previous s) = timer s" "timerRef (close_previous s) = timerRef s"
  "updates (close_previous s) = updates s" "length (sources (close_previous s)) = length (sources s)"
  by (simp_all add: close_previous_def split: option.split)

lemma cancel_fields [simp]:
  "requestGeneration (cancel b s) = requestGeneration s" "pendingGeneration (cancel b s) = pendingGeneration s"
  "pendingContent (cancel b s) = pendingContent s" "pendingReasoning (cancel b s) = pendingReasoning s"
  "abortController (cancel b s) = abortController s" "aborted (cancel b s) = aborted s"
  "requests (cancel b s) = requests s" "isRequesting (cancel b s) = isRequesting s"
  "generation (cancel b s) = Suc (generation s)" "activeSource (cancel b s) = None"
  "sends (cancel b s) = sends s" "isStreaming (cancel True s) = False"
  "mounted (cancel b s) = mounted s" "conversation (cancel b s) = conversation s"
  "timer (cancel b s) = timer s" "timerRef (cancel b s) = timerRef s"
  "updates (cancel b s) = updates s" "length (sources (cancel b s)) = length (sources s)"
  by (simp_all add: cancel_def Let_def)

lemma abort_fields [simp]:
  "requestGeneration (abort_request s) = requestGeneration s" "pendingGeneration (abort_request s) = pendingGeneration s"
  "pendingContent (abort_request s) = pendingContent s" "pendingReasoning (abort_request s) = pendingReasoning s"
  "abortController (abort_request s) = abortController s"
  "set (aborted (abort_request s)) = set (aborted s) \<union> {g. abortController s = Some g}"
  "requests (abort_request s) = requests s" "isRequesting (abort_request s) = isRequesting s"
  "generation (abort_request s) = generation s" "activeSource (abort_request s) = activeSource s"
  "sources (abort_request s) = sources s"
  "sends (abort_request s) = sends s" "isStreaming (abort_request s) = isStreaming s"
  "mounted (abort_request s) = mounted s" "conversation (abort_request s) = conversation s"
  "timer (abort_request s) = timer s" "timerRef (abort_request s) = timerRef s"
  "updates (abort_request s) = updates s"
  by (auto simp: abort_request_def split: option.split)

lemma discard_clears:
  "timerRef s \<or> timer s = None \<Longrightarrow> discardPendingStreamUpdates g s =
     s\<lparr>timer := None, timerRef := False, pendingGeneration := g, pendingContent := [], pendingReasoning := []\<rparr>"
  by (simp add: discardPendingStreamUpdates_def clear_timer_clears)

lemma ok_sendStreaming:
  assumes ok: "chat_ok s" and m: "mounted s"
  shows "chat_ok (sendStreamingChat payload s)"
proof -
  note buffer = buffer_mounted [OF ok m]
  have timer: "timerRef s \<or> timer s = None" using buffer(2) by auto
  define s1 where "s1 = (close_previous ((discardPendingStreamUpdates (requestGeneration s + 1)
      ((abort_request (s\<lparr>requestGeneration := requestGeneration s + 1\<rparr>))\<lparr>abortController := None\<rparr>))
        \<lparr>isRequesting := True, generation := generation s + 1\<rparr>))\<lparr>isStreaming := False\<rparr>"
  have result: "sendStreamingChat payload s
      = s1\<lparr>sends := sends s @ [\<lparr>send_generation = generation s + 1, send_request = requestGeneration s + 1,
          send_payload = payload\<rparr>]\<rparr>"
    using timer by (simp add: sendStreamingChat_def send_begin_def Let_def s1_def discard_clears)
  have fields: "supersedes s s1" "sends s1 = sends s" "requests s1 = requests s" "abortController s1 = None"
    "timer s1 = None" "\<not> timerRef s1" "\<not> buffered s1" "pendingGeneration s1 = requestGeneration s1"
    "isRequesting s1" "\<not> isStreaming s1" "mounted s1" "activeSource s1 = None"
    "generation s1 = Suc (generation s)" "requestGeneration s1 = Suc (requestGeneration s)"
    using timer m by (simp_all add: s1_def discard_clears supersedes_def buffered_def)
  note new = supersedes_ok [OF ok fields(1-3)]
  show ?thesis
    using new fields
    by (simp add: result chat_ok_def generations_ok_def causes_ok_def buffer_ok_def current_send_def
        current_request_def buffered_def)
qed

lemma ok_sendNonStreaming:
  assumes ok: "chat_ok s" and m: "mounted s"
  shows "chat_ok (sendNonStreamingChat payload s)"
proof -
  note buffer = buffer_mounted [OF ok m]
  have timer: "timerRef s \<or> timer s = None" using buffer(2) by auto
  define s1 where "s1 = (abort_request (discardPendingStreamUpdates (requestGeneration s + 1)
      (cancel True (s\<lparr>requestGeneration := requestGeneration s + 1\<rparr>))))
        \<lparr>abortController := Some (requestGeneration s + 1), isRequesting := True\<rparr>"
  have result: "sendNonStreamingChat payload s = s1\<lparr>requests := requests s @ [(requestGeneration s + 1, payload)]\<rparr>"
    using timer by (simp add: sendNonStreamingChat_def Let_def s1_def discard_clears)
  have fields: "supersedes s s1" "sends s1 = sends s" "requests s1 = requests s"
    "abortController s1 = Some (Suc (requestGeneration s))"
    "timer s1 = None" "\<not> timerRef s1" "\<not> buffered s1" "pendingGeneration s1 = requestGeneration s1"
    "isRequesting s1" "\<not> isStreaming s1" "mounted s1" "activeSource s1 = None"
    "generation s1 = Suc (generation s)" "requestGeneration s1 = Suc (requestGeneration s)"
    using timer m by (simp_all add: s1_def discard_clears supersedes_def buffered_def)
  have "g \<le> requestGeneration s1" if "abortController s1 = Some g" for g using that fields by simp
  note new = supersedes_ok [OF ok fields(1-3) this]
  show ?thesis
    using new fields
    by (simp add: result chat_ok_def generations_ok_def causes_ok_def buffer_ok_def current_send_def
        current_request_def buffered_def)
qed

lemma ok_sendChat: "chat_ok s \<Longrightarrow> mounted s \<Longrightarrow> chat_ok (sendChat messages c p s)"
  by (simp add: sendChat_def Let_def ok_sendStreaming ok_sendNonStreaming)

text \<open>Stopping leaves an idle page whose last queued update completes the answer.\<close>

lemma stop_state:
  assumes ok: "chat_ok s" and m: "mounted s"
  defines "s1 \<equiv> (abort_request (cancel True ((drained s)
      \<lparr>requestGeneration := Suc (requestGeneration s), pendingGeneration := Suc (requestGeneration s)\<rparr>)))
        \<lparr>abortController := None, isRequesting := False\<rparr>"
  shows "stopGeneration s = enqueue (Halt_answer (Suc (requestGeneration s))) s1"
    "supersedes s s1" "idle s1" "mounted s1" "generations_ok s1" "updates s1 = updates (drained s)"
proof -
  note buffer = buffer_mounted [OF ok m]
  have timer: "timerRef s \<or> timer s = None" using buffer(2) by auto
  have blank: "(drained s)\<lparr>requestGeneration := n, timer := None, timerRef := False, pendingGeneration := n,
      pendingContent := [], pendingReasoning := []\<rparr> = (drained s)\<lparr>requestGeneration := n, pendingGeneration := n\<rparr>" for n
    by (simp add: drained_def enqueue_def)
  show "stopGeneration s = enqueue (Halt_answer (Suc (requestGeneration s))) s1"
    unfolding s1_def stopGeneration_def Let_def
    using flush_drains [OF buffer(1) timer] blank by (simp add: discard_clears)
  have sup: "supersedes s s1" by (simp add: supersedes_def s1_def)
  have keep: "sends s1 = sends s" "requests s1 = requests s" "abortController s1 = None" by (simp_all add: s1_def)
  note new = supersedes_ok [OF ok sup keep(1, 2)]
  have empty: "pendingContent (drained s) = []" "pendingReasoning (drained s) = []" by (simp_all add: drained_def)
  from new(1) keep(3) show "generations_ok s1" by simp
  show "supersedes s s1" by (rule sup)
  from new(2, 3) keep(3) empty show "idle s1" by (simp add: idle_def s1_def buffered_def)
  show "mounted s1" using m by (simp add: s1_def)
  show "updates s1 = updates (drained s)" by (simp add: s1_def)
qed

lemma ok_stop: "chat_ok s \<Longrightarrow> mounted s \<Longrightarrow> chat_ok (stopGeneration s)"
  using stop_state ok_idle by simp

lemma ok_unmount:
  assumes ok: "chat_ok s" and m: "mounted s"
  shows "chat_ok (unmount s)"
proof -
  note buffer = buffer_mounted [OF ok m]
  define s1 where "s1 = unmount s"
  have fields: "supersedes s s1" "sends s1 = sends s" "requests s1 = requests s" "abortController s1 = None"
    "timer s1 = None" "\<not> mounted s1" "activeSource s1 = None"
    using buffer(2) by (simp_all add: s1_def unmount_def Let_def supersedes_def)
  note new = supersedes_ok [OF ok fields(1-3)]
  show ?thesis
    using new fields unfolding s1_def [symmetric] by (simp add: chat_ok_def causes_ok_def buffer_ok_def)
qed

lemma enqueue_mounted: "mounted s \<Longrightarrow> mounted (enqueue u s)"
  by simp

theorem step_ok: "chat_step t s e s' \<Longrightarrow> chat_ok s \<Longrightarrow> chat_ok s'"
proof (induction rule: chat_step.induct)
  case (Edit s a now c p k body submit)
  then show ?case by (simp add: applyEdit_def Let_def ok_sendChat split: option.split prod.split)
qed (simp_all add: ok_render ok_timer ok_drained ok_headers ok_message ok_error ok_readystate ok_response ok_stop ok_unmount
    ok_sendChat handleSendMessage_def handleRegenerateMessage_def handleDeleteMessage_def Let_def split: option.split)

inductive reachable :: "(jstr \<Rightarrow> jstr) \<Rightarrow> chat \<Rightarrow> bool" for t where
  reach_new: "reachable t (new_chat messages)"
| reach_step: "reachable t s \<Longrightarrow> chat_step t s e s' \<Longrightarrow> reachable t s'"

theorem reachable_ok: "reachable t s \<Longrightarrow> chat_ok s"
  by (induction rule: reachable.induct) (auto intro: step_ok)

inductive_cases chat_stepE: "chat_step t s e s'"

lemma run_ok: "chat_run t s es s' \<Longrightarrow> chat_ok s \<Longrightarrow> chat_ok s'"
  by (induction rule: chat_run.induct) (auto intro: step_ok)

section \<open>Events nobody waits for\<close>

text \<open>An event of a source, send or request that is not the current one.\<close>

fun stale :: "chat \<Rightarrow> event \<Rightarrow> bool" where
  "stale s (Message_event i _) = (activeSource s \<noteq> Some i)"
| "stale s (Error_event i _ _) = (activeSource s \<noteq> Some i)"
| "stale s (Readystate_event i _ _) = (activeSource s \<noteq> Some i)"
| "stale s (Headers_event k _ _) = (send_generation (sends s ! k) \<noteq> generation s)"
| "stale s (Response_event k _) = (fst (requests s ! k) \<noteq> requestGeneration s)"
| "stale s _ = False"

text \<open>All of the state but the lists of what is still awaited.\<close>

definition observed :: "chat \<Rightarrow> chat" where
  "observed s = s\<lparr>sends := [], requests := []\<rparr>"

lemma stale_ignored:
  assumes "chat_step t s e s'" "stale s e"
  shows "observed s' = observed s"
  using assms
  by (cases rule: chat_stepE)
    (auto simp: on_message_def on_source_error_def on_readystatechange_def isCurrent_def send_resume_def
      response_stale without_request_def observed_def Let_def)

lemma current_nth:
  "k < length (sends s) \<Longrightarrow> send_generation (sends s ! k) = generation s \<Longrightarrow> current_send s"
  "k < length (requests s) \<Longrightarrow> fst (requests s ! k) = requestGeneration s \<Longrightarrow> current_request s"
  unfolding current_send_def current_request_def by (metis image_eqI nth_mem)+

text \<open>On an idle page every event of the environment is one of these, or a render.\<close>

lemma idle_environment:
  assumes "idle s" "chat_step t s e s'" "is_environment e"
  shows "stale s e \<or> (\<exists>now. e = Render now \<and> s' = render now s)"
  using assms(2,1,3)
  by (cases rule: chat_step.cases) (auto simp: idle_def dest: current_nth)

lemma observed_same:
  assumes "observed s' = observed s"
  shows "conversation s' = conversation s" "updates s' = updates s" "isRequesting s' = isRequesting s"
    "isStreaming s' = isStreaming s" "mounted s' = mounted s" "isGenerating s' = isGenerating s"
proof -
  note same = arg_cong [OF assms]
  show "conversation s' = conversation s" "updates s' = updates s" "isRequesting s' = isRequesting s"
    "isStreaming s' = isStreaming s" "mounted s' = mounted s"
    using same [of conversation] same [of updates] same [of isRequesting] same [of isStreaming] same [of mounted]
    by (simp_all add: observed_def)
  then show "isGenerating s' = isGenerating s" by (simp add: isGenerating_def)
qed

lemma render_fields [simp]:
  "isGenerating (render now s) = isGenerating s" "mounted (render now s) = mounted s"
  by (simp_all add: render_def isGenerating_def)

lemma idle_run:
  assumes "chat_run t s es s'" "chat_ok s" "mounted s" "\<not> isGenerating s" "updates s = []"
    "\<forall>e \<in> set es. is_environment e"
  shows "conversation s' = conversation s \<and> updates s' = [] \<and> \<not> isGenerating s' \<and> mounted s'"
  using assms
proof (induction rule: chat_run.induct)
  case (run_Cons s e s1 es s2)
  have idle: "idle s" using idle_iff run_Cons.prems by blast
  have ok: "chat_ok s1" using step_ok run_Cons.hyps(1) run_Cons.prems(1) by blast
  have "conversation s1 = conversation s \<and> updates s1 = [] \<and> \<not> isGenerating s1 \<and> mounted s1"
  proof (cases "stale s e")
    case True
    from stale_ignored [OF run_Cons.hyps(1) True] run_Cons.prems observed_same show ?thesis by metis
  next
    case False
    with idle_environment [OF idle run_Cons.hyps(1)] run_Cons.prems(5) obtain now where "s1 = render now s" by auto
    with run_Cons.prems show ?thesis by (simp add: render_def apply_updates_def isGenerating_def)
  qed
  with run_Cons ok show ?case by simp
qed simp

section \<open>Stopping\<close>

lemma last_update_settles:
  "apply_update now g (Halt_answer g) ms = [] \<or> \<not> isPendingAssistantMessage (last (apply_update now g (Halt_answer g) ms))"
proof (cases "ms = [] \<or> sender (last ms) \<noteq> Assistant_role")
  case True
  then show ?thesis by (auto simp: updateLastAssistantMessage_def isPendingAssistantMessage_def)
next
  case False
  then have "last (ms[length ms - 1 := x]) = x" for x by (simp add: last_list_update)
  with False show ?thesis
    by (simp add: updateLastAssistantMessage_def isPendingAssistantMessage_def isAssistantMessagePending_def
        completeAssistantMessage_def)
qed

lemma stop_render:
  assumes "chat_ok s" "mounted s"
  shows "conversation (render now (stopGeneration s)) = [] \<or>
      \<not> isPendingAssistantMessage (last (conversation (render now (stopGeneration s))))"
    "updates (render now (stopGeneration s)) = []" "\<not> isGenerating (render now (stopGeneration s))"
    "mounted (render now (stopGeneration s))"
proof -
  note stop = stop_state [OF assms]
  have fields: "requestGeneration (stopGeneration s) = Suc (requestGeneration s)"
    "updates (stopGeneration s) = updates (drained s) @ [Halt_answer (Suc (requestGeneration s))]"
    "mounted (stopGeneration s)" "\<not> isGenerating (stopGeneration s)"
    using stop(2, 3, 4, 6) by (simp_all add: stop(1) supersedes_def isGenerating_def idle_def)
  show "conversation (render now (stopGeneration s)) = [] \<or>
      \<not> isPendingAssistantMessage (last (conversation (render now (stopGeneration s))))"
    using last_update_settles by (simp add: render_def apply_updates_def fields del: apply_update.simps)
  show "updates (render now (stopGeneration s)) = []" by (simp add: render_def)
  show "\<not> isGenerating (render now (stopGeneration s))" "mounted (render now (stopGeneration s))"
    using fields by simp_all
qed

section \<open>Ending\<close>

lemma generation_ends:
  assumes ok: "chat_ok s" and m: "mounted s" and busy: "isGenerating s"
  shows "\<exists>e s'. is_environment e \<and> chat_step t s e s' \<and> \<not> isGenerating s'"
proof -
  from ok m busy have "isRequesting s"
    by (auto simp: isGenerating_def chat_ok_def causes_ok_def buffer_ok_def)
  with buffer_mounted(6) [OF ok m] consider "current_send s" | i where "activeSource s = Some i" | "current_request s"
    by auto
  then show ?thesis
  proof cases
    case 1
    then obtain k where k: "k < length (sends s)" "send_generation (sends s ! k) = generation s"
      by (auto simp: current_send_def in_set_conv_nth)
    define s' where "s' = send_resume t k (Headers_failed None) False s"
    have step: "chat_step t s (Headers_event k (Headers_failed None) False) s'"
      unfolding s'_def using k(1) by (rule Headers)
    note facts = without_send_facts [OF ok k(1)]
    from facts(3) [OF k(2)] 1 have cur: "send_request (sends s ! k) = requestGeneration s" by simp
    from ok 1 have none: "activeSource s = None" by (auto simp: chat_ok_def causes_ok_def)
    note buffer = buffer_mounted [OF ok m]
    have "s' = handleStreamError t (requestGeneration (without_send k s)) STREAM_START_ERROR None (without_send k s)"
      using k(2) cur by (simp add: s'_def send_resume_def Let_def without_send_def)
    also have "\<dots> = enqueue (Fail_answer (requestGeneration s) (getDisplayError t STREAM_START_ERROR) None (t API_REQUEST_ERROR))
        ((drained (without_send k s))\<lparr>isRequesting := False,
          shownErrors := shownErrors s @ [getDisplayError t STREAM_START_ERROR]\<rparr>)"
      using buffer none by (subst error_current) (auto simp: without_send_def)
    finally have "\<not> isGenerating s'" using buffer(5) none by (simp add: isGenerating_def without_send_def)
    with step show ?thesis by (metis is_environment.simps(3))
  next
    case 2
    define s' where "s' = on_message t i (Some STREAM_DONE) s"
    from active_source(3) [OF ok 2] have "chat_step t s (Message_event i (Some STREAM_DONE)) s'"
      unfolding s'_def by (rule Message)
    moreover have "\<not> isGenerating s'"
      by (simp add: s'_def on_message_done [OF ok 2] isGenerating_def ended_def)
    ultimately show ?thesis by (metis is_environment.simps(4))
  next
    case 3
    then obtain k where k: "k < length (requests s)" "fst (requests s ! k) = requestGeneration s"
      by (auto simp: current_request_def in_set_conv_nth)
    define s' where "s' = response_arrives t k (Request_failed JUndefined) s"
    have step: "chat_step t s (Response_event k (Request_failed JUndefined)) s'"
      unfolding s'_def using k(1) by (rule Answer)
    from response_current(1) [OF ok k] response_current(2) [OF ok k]
    have "\<not> isGenerating s'" unfolding s'_def isGenerating_def idle_def by (metis enqueue_fields(8) enqueue_fields(13))
    with step show ?thesis by (metis is_environment.simps(7))
  qed
qed

lemma one_cause:
  assumes "chat_ok s" "mounted s"
  shows "isGenerating s \<longleftrightarrow> current_send s \<or> activeSource s \<noteq> None \<or> current_request s"
    "\<not> (current_send s \<and> activeSource s \<noteq> None)" "\<not> (current_send s \<and> current_request s)"
    "\<not> (activeSource s \<noteq> None \<and> current_request s)"
    "buffered s \<Longrightarrow> timer s = Some (requestGeneration s)"
  using assms by (auto simp: isGenerating_def chat_ok_def causes_ok_def buffer_ok_def)

end
