(* ===== verification/ChatText.thy ===== *)
theory ChatText
  imports ChatRuntime "HOL-Library.Sublist"
begin

text \<open>
  The text of a streamed answer: chunks are merged while they wait for the flush timer and the merged text
  is applied to the message, so the same chunks may reach it in different batches. The timer and the message
  use one and the same rule, by which a chunk that begins with the text so far replaces it.
\<close>

lemma startsWith_prefix: "startsWith s p \<longleftrightarrow> prefix p s"
  by (auto simp: startsWith_iff prefix_def)

lemma merge_alt: "mergePendingStreamChunk p c = p @ getAppendableChunk p c"
  by (auto simp: mergePendingStreamChunk_def getAppendableChunk_def startsWith_iff)

text \<open>The chunks of a batch as they are buffered, and the batches as their flushes reach the message.\<close>

definition batch_text :: "jstr list \<Rightarrow> jstr" where
  "batch_text batch = foldl mergePendingStreamChunk [] batch"

definition streamed :: "jsnum \<Rightarrow> jstr list list \<Rightarrow> message \<Rightarrow> message" where
  "streamed now batches m = fold (\<lambda>batch. apply_chunk_if now Content_chunk (batch_text batch)) batches m"

lemma chunk_content:
  assumes "status m \<noteq> Some Error_status"
  shows "getMessageContent (applyStreamingChunk now m Content_chunk c) = mergePendingStreamChunk (getMessageContent m) c"
    "status (applyStreamingChunk now m Content_chunk c) = Some Streaming_status"
proof -
  have process: "getMessageContent (processStreamingContent now m x) = getMessageContent m @ x" for x
    by (simp add: processStreamingContent_def Let_def getMessageContent_def getCurrentVersion_def
        updateCurrentVersionContent_def)
  have set_status: "getMessageContent (m'\<lparr>status := st\<rparr>) = getMessageContent m'" for m' st
    by (simp add: getMessageContent_def getCurrentVersion_def)
  show "getMessageContent (applyStreamingChunk now m Content_chunk c) = mergePendingStreamChunk (getMessageContent m) c"
    using assms by (simp add: applyStreamingChunk_def Let_def merge_alt set_status process)
  show "status (applyStreamingChunk now m Content_chunk c) = Some Streaming_status"
    using assms by (simp add: applyStreamingChunk_def Let_def)
qed

lemma merge_Nil [simp]: "mergePendingStreamChunk p [] = p" "mergePendingStreamChunk [] c = c"
  by (cases p; simp add: mergePendingStreamChunk_def)+

lemma streamed_content:
  "status m \<noteq> Some Error_status \<Longrightarrow>
   getMessageContent (streamed now batches m) = foldl mergePendingStreamChunk (getMessageContent m) (map batch_text batches)"
proof (induction batches arbitrary: m)
  case (Cons b bs)
  have "status (apply_chunk_if now Content_chunk (batch_text b) m) \<noteq> Some Error_status"
    "getMessageContent (apply_chunk_if now Content_chunk (batch_text b) m)
      = mergePendingStreamChunk (getMessageContent m) (batch_text b)"
    using chunk_content [OF Cons.prems] Cons.prems by (simp_all add: apply_chunk_if_def)
  with Cons.IH [of "apply_chunk_if now Content_chunk (batch_text b) m"] show ?case
    by (simp add: streamed_def)
qed (simp add: streamed_def)

section \<open>Snapshots\<close>

text \<open>A stream whose every chunk repeats the text so far.\<close>

lemma merge_snapshot: "prefix p c \<Longrightarrow> mergePendingStreamChunk p c = c"
  by (simp add: mergePendingStreamChunk_def startsWith_prefix)

lemma merge_snapshots: "sorted_wrt prefix (p # cs) \<Longrightarrow> foldl mergePendingStreamChunk p cs = last (p # cs)"
  by (induction cs arbitrary: p) (simp_all add: merge_snapshot)

lemma snapshot_batches:
  "sorted_wrt prefix (p # concat batches)
    \<Longrightarrow> foldl mergePendingStreamChunk p (map batch_text batches) = last (p # concat batches)"
proof (induction batches arbitrary: p)
  case (Cons b bs)
  show ?case
  proof (cases "b = []")
    case True
    with Cons show ?thesis by (simp add: batch_text_def)
  next
    case False
    have "sorted_wrt prefix ([] # b)" using Cons.prems by (simp add: sorted_wrt_append)
    then have b: "batch_text b = last b" unfolding batch_text_def using False by (simp add: merge_snapshots)
    have last_b: "last b \<in> set b" using False by simp
    with Cons.prems have "prefix p (last b)" by (simp add: sorted_wrt_append)
    moreover have "sorted_wrt prefix (last b # concat bs)" using Cons.prems last_b by (simp add: sorted_wrt_append)
    ultimately show ?thesis using Cons.IH [of "last b"] b False by (cases "concat bs") (simp_all add: merge_snapshot)
  qed
qed simp

section \<open>Deltas\<close>

text \<open>A stream of pieces none of which begins with another.\<close>

definition unrelated :: "jstr \<Rightarrow> jstr \<Rightarrow> bool" where
  "unrelated x y \<longleftrightarrow> \<not> prefix x y \<and> \<not> prefix y x"

lemma merge_unrelated: "unrelated d c \<Longrightarrow> mergePendingStreamChunk (d @ r) (c @ w) = (d @ r) @ (c @ w)"
proof -
  assume u: "unrelated d c"
  have "\<not> prefix (d @ r) (c @ w)"
  proof
    assume "prefix (d @ r) (c @ w)"
    then have "prefix d (c @ w)" by (rule append_prefixD)
    then have "prefix d c \<or> prefix c d" by (metis prefixI prefix_same_cases)
    with u show False by (simp add: unrelated_def)
  qed
  then show ?thesis by (simp add: mergePendingStreamChunk_def startsWith_prefix)
qed

lemma merge_deltas:
  "(\<And>c. c \<in> set cs \<Longrightarrow> unrelated d c) \<Longrightarrow> foldl mergePendingStreamChunk (d @ r) cs = d @ r @ concat cs"
proof (induction cs arbitrary: r)
  case (Cons c cs)
  from merge_unrelated [of d c r "[]"] Cons.prems have "mergePendingStreamChunk (d @ r) c = d @ (r @ c)" by simp
  with Cons.IH [of "r @ c"] Cons.prems show ?case by simp
qed simp

lemma batch_deltas: "sorted_wrt unrelated b \<Longrightarrow> batch_text b = concat b"
  using merge_deltas [of "tl b" "hd b" "[]"] by (cases b) (simp_all add: batch_text_def)

lemma delta_batches_from:
  assumes "\<And>c. c \<in> set (concat batches) \<Longrightarrow> unrelated d c" "sorted_wrt unrelated (concat batches)"
  shows "foldl mergePendingStreamChunk (d @ r) (map batch_text batches) = d @ r @ concat (concat batches)"
  using assms
proof (induction batches arbitrary: r)
  case (Cons b bs)
  have b: "batch_text b = concat b" using Cons.prems(2) by (simp add: batch_deltas sorted_wrt_append)
  have "mergePendingStreamChunk (d @ r) (concat b) = d @ (r @ concat b)"
  proof (cases b)
    case (Cons c cs)
    with merge_unrelated [of d c r "concat cs"] Cons.prems(1) show ?thesis by simp
  qed simp
  with Cons.IH [of "r @ concat b"] Cons.prems b show ?case by (simp add: sorted_wrt_append)
qed simp

lemma delta_batches:
  "sorted_wrt unrelated (concat batches)
    \<Longrightarrow> foldl mergePendingStreamChunk [] (map batch_text batches) = concat (concat batches)"
proof (induction batches)
  case (Cons b bs)
  have b: "batch_text b = concat b" using Cons.prems by (simp add: batch_deltas sorted_wrt_append)
  show ?case
  proof (cases b)
    case Nil
    with Cons b show ?thesis by simp
  next
    case c: (Cons c cs)
    have "foldl mergePendingStreamChunk (c @ concat cs) (map batch_text bs) = c @ concat cs @ concat (concat bs)"
      using Cons.prems c by (intro delta_batches_from) (auto simp: sorted_wrt_append)
    with b c show ?thesis by simp
  qed
qed simp

text \<open>
  Elsewhere the text depends on the flush timer: of two equal pieces in one batch the second is lost, and in
  two batches too.
\<close>

lemma repeated_piece_lost:
  "c \<noteq> [] \<Longrightarrow> status m \<noteq> Some Error_status \<Longrightarrow> getMessageContent m = []
    \<Longrightarrow> getMessageContent (streamed now [[c, c]] m) = c \<and> getMessageContent (streamed now [[c], [c]] m) = c"
  by (simp add: streamed_content batch_text_def merge_snapshot)

lemma text_depends_on_timer:
  "status m \<noteq> Some Error_status \<Longrightarrow> getMessageContent m = []
    \<Longrightarrow> getMessageContent (streamed now [[js ''1'', js ''2'', js ''23'']] m) = js ''1223''
      \<and> getMessageContent (streamed now [[js ''1''], [js ''2'', js ''23'']] m) = js ''123''"
proof -
  have "batch_text [js ''1'', js ''2'', js ''23''] = js ''1223''" "batch_text [js ''1''] = js ''1''"
    "batch_text [js ''2'', js ''23''] = js ''23''"
    "mergePendingStreamChunk (js ''1'') (js ''23'') = js ''123''"
    by code_simp+
  moreover assume "status m \<noteq> Some Error_status" "getMessageContent m = []"
  ultimately show ?thesis by (simp add: streamed_content)
qed

end
