(* ===== verification/ChatProperties.thy ===== *)
theory ChatProperties
  imports ChatLoading ChatSystem ChatText
begin

text \<open>
  The properties of the playground chat: what a load of its messages yields, how tags and chunks become the
  text and reasoning of an answer, and how requests that overlap, stop and fail leave the conversation.
\<close>

section \<open>Stored conversations\<close>

text \<open>
  C6: What a load yields. A loaded conversation is the end of the stored one, of at most a hundred messages
  and, beyond its last message, of at most 120000 code units besides the notice of an interruption. Its
  last message is no answer left pending, and an answer left pending before it has no content.
\<close>

theorem loaded_conversation:
  assumes "loadMessages t fits now storage = (Some ms, storage')"
  shows "(\<exists>parsed k. stored_messages storage = Some parsed \<and> map key ms = drop k (map key parsed))
     \<and> length ms \<le> 100
     \<and> (length ms \<le> 1 \<or> sum_list (map getMessageSize ms) \<le> 120000 + length (interrupted_text t))
     \<and> (ms = [] \<or> \<not> isPendingAssistantMessage (last ms))
     \<and> (\<forall>m \<in> set ms. isPendingAssistantMessage m \<longrightarrow> \<not> hasMessageContent m)"
proof -
  from assms obtain parsed where p: "stored_messages storage = Some parsed" "ms = load_pipeline t now parsed"
    by (auto simp: loadMessages_Some)
  obtain k where "map key ms = drop k (map key parsed)" unfolding p(2) using pipeline_keys by metis
  with p(1) pipeline_bounds pipeline_settled show ?thesis unfolding p(2) by metis
qed

definition stored_text :: jstr where
  "stored_text = js ''{\"version\":1,\"data\":[{\"key\":\"b\",\"from\":\"assistant\",\"versions\":[{\"id\":\"w\",\"content\":\"\"}],\"status\":\"loading\"}]}''"
lemma stored_text_parse:
  "JSON_parse stored_text = Some (JObj
     [(js ''version'', JNum (Fin 1)),
      (js ''data'', JArr
         [JObj [(js ''key'', JStr (js ''b'')), (js ''from'', JStr (js ''assistant'')),
                (js ''versions'', JArr [JObj [(js ''id'', JStr (js ''w'')), (js ''content'', JStr [])]]),
                (js ''status'', JStr (js ''loading''))]])])"
  by code_simp

lemma stored_text_schema: "messagesSchema (JArr
         [JObj [(js ''key'', JStr (js ''b'')), (js ''from'', JStr (js ''assistant'')),
                (js ''versions'', JArr [JObj [(js ''id'', JStr (js ''w'')), (js ''content'', JStr [])]]),
                (js ''status'', JStr (js ''loading''))]]) \<noteq> None"
  by (simp add: messagesSchema_def messageSchema_def messageVersionSchema_def read_field_def optional_def at_least_one_def)
definition interrupted_storage :: local_storage where
  "interrupted_storage = (\<lambda>_. None)(MESSAGES_KEY := Some stored_text)"

theorem loaded_conversation_witness:
  "\<exists>ms storage'. loadMessages id (\<lambda>_. True) (Fin 0) interrupted_storage = (Some ms, storage')
     \<and> length ms \<le> 100 \<and> (ms = [] \<or> \<not> isPendingAssistantMessage (last ms))"
proof -
  have "stored_messages interrupted_storage \<noteq> None"
    using stored_text_schema
    by (simp add: stored_messages_def interrupted_storage_def stored_text_parse unwrapStoredValue_def hasOwn_def
        MAX_STORED_MESSAGES_BYTES_def) (simp add: stored_text_def)
  then obtain parsed where "stored_messages interrupted_storage = Some parsed" by blast
  then obtain ms storage' where "loadMessages id (\<lambda>_. True) (Fin 0) interrupted_storage = (Some ms, storage')"
    using loadMessages_Some by metis
  with loaded_conversation [OF this] show ?thesis by blast
qed

section \<open>Answers\<close>

text \<open>
  C10: Think tags. In a text written of visible and reasoning pieces in turn, the tags themselves occurring
  in no piece, the visible text is the visible pieces put together and trimmed, the reasoning is the
  reasoning pieces joined by blank lines and trimmed, and the tag is reported open exactly where the last
  one is; a text without a tag is visible as it is. \<open>thinking_written\<close> shows that every text is of this form.
\<close>

definition well_written :: "(jstr \<times> jstr) list \<Rightarrow> jstr \<Rightarrow> jstr option \<Rightarrow> bool" where
  "well_written ps v last_open \<longleftrightarrow>
     list_all (\<lambda>(v, r). \<not> str_includes v open_tag \<and> \<not> str_includes r close_tag) ps
     \<and> \<not> str_includes v open_tag
     \<and> (case last_open of None \<Rightarrow> True | Some r \<Rightarrow> \<not> str_includes r close_tag)"

theorem think_tags_parsed:
  assumes "well_written ps v last_open"
  shows "parseThinkTags (write_thinking ps v last_open) =
    (if ps = [] \<and> last_open = None
     then \<lparr>visibleContent = v, think_reasoning = [], hasUnclosedTag = False\<rparr>
     else \<lparr>visibleContent = trim (concat (map fst ps) @ v),
           think_reasoning = trim (join [10, 10] (map snd ps @ (case last_open of None \<Rightarrow> [] | Some r \<Rightarrow> [r]))),
           hasUnclosedTag = (last_open \<noteq> None)\<rparr>)"
proof (cases "ps = [] \<and> last_open = None")
  case True
  with assms show ?thesis by (simp add: parseThinkTags_def well_written_def)
next
  case False
  with assms show ?thesis
    by (subst parse_written_thinking) (auto simp: well_written_def list_all_iff split: option.splits)
qed

theorem think_tags_parsed_witness:
  "parseThinkTags (js ''Hi <think>plan a</think> there<think>plan b'') =
     \<lparr>visibleContent = js ''Hi  there'', think_reasoning = js ''plan a'' @ [10, 10] @ js ''plan b'', hasUnclosedTag = True\<rparr>"
proof -
  have "well_written [(js ''Hi '', js ''plan a'')] (js '' there'') (Some (js ''plan b''))" by code_simp
  from think_tags_parsed [OF this] have "parseThinkTags (write_thinking [(js ''Hi '', js ''plan a'')] (js '' there'') (Some (js ''plan b'')))
      = \<lparr>visibleContent = trim (js ''Hi '' @ js '' there''),
         think_reasoning = trim (join [10, 10] [js ''plan a'', js ''plan b'']), hasUnclosedTag = True\<rparr>" by simp
  moreover have "write_thinking [(js ''Hi '', js ''plan a'')] (js '' there'') (Some (js ''plan b''))
      = js ''Hi <think>plan a</think> there<think>plan b''"
    "trim (js ''Hi '' @ js '' there'') = js ''Hi  there''"
    "trim (join [10, 10] [js ''plan a'', js ''plan b'']) = js ''plan a'' @ [10, 10] @ js ''plan b''" by code_simp+
  ultimately show ?thesis by simp
qed

text \<open>
  C12: The text of a streamed answer. However the flush timer cuts the chunks into batches, a stream of
  growing snapshots leaves the last snapshot, and a stream of pieces of which none begins with another
  leaves all of them in order.
\<close>

theorem streamed_text:
  assumes "status m \<noteq> Some Error_status" "getMessageContent m = []"
  shows "(sorted_wrt prefix (concat batches) \<longrightarrow>
       getMessageContent (streamed now batches m) = (if concat batches = [] then [] else last (concat batches)))
     \<and> (sorted_wrt unrelated (concat batches) \<longrightarrow>
       getMessageContent (streamed now batches m) = concat (concat batches))"
  using snapshot_batches [of "[]" batches] delta_batches [of batches] assms
  by (simp add: streamed_content)

theorem streamed_text_witness:
  "getMessageContent (streamed (Fin 0) [[js ''a''], [js ''ab'', js ''abc'']]
       (createLoadingAssistantMessage (js ''k'') (js ''v'') (Fin 0))) = js ''abc''
   \<and> getMessageContent (streamed (Fin 0) [[js ''a'', js ''bc''], [js ''d'']]
       (createLoadingAssistantMessage (js ''k'') (js ''v'') (Fin 0))) = js ''abcd''"
proof -
  define m where "m = createLoadingAssistantMessage (js ''k'') (js ''v'') (Fin 0)"
  have m: "status m \<noteq> Some Error_status" "getMessageContent m = []"
    by (simp_all add: m_def createLoadingAssistantMessage_def getMessageContent_def getCurrentVersion_def)
  have "sorted_wrt prefix (concat [[js ''a''], [js ''ab'', js ''abc'']])"
    "sorted_wrt unrelated (concat [[js ''a'', js ''bc''], [js ''d'']])" by code_simp+
  with streamed_text [OF m, of "[[js ''a''], [js ''ab'', js ''abc'']]" "Fin 0"]
    streamed_text [OF m, of "[[js ''a'', js ''bc''], [js ''d'']]" "Fin 0"]
  show ?thesis unfolding m_def [symmetric] by (simp add: js_append [symmetric])
qed

section \<open>Requests that overlap\<close>

text \<open>A first message sent in an empty chat, for the witnesses.\<close>

definition first_send :: chat where
  "first_send = handleSendMessage (js ''u'', js ''1'') (js ''a'', js ''2'') (Fin 0) DEFAULT_CONFIG
     DEFAULT_PARAMETER_ENABLED (js ''hi'') (new_chat [])"

lemma first_send_state:
  "reachable t first_send" "mounted first_send" "isGenerating first_send"
  "length (sends first_send) = 1" "send_generation (sends first_send ! 0) = 1" "generation first_send = 1"
proof -
  have "chat_step t (new_chat []) (Send_action (js ''u'', js ''1'') (js ''a'', js ''2'') (Fin 0) DEFAULT_CONFIG
      DEFAULT_PARAMETER_ENABLED (js ''hi'')) first_send"
    unfolding first_send_def by (rule Send) (simp add: new_chat_def)
  then show "reachable t first_send" by (meson reach_new reach_step)
  show "mounted first_send" "isGenerating first_send"
    "length (sends first_send) = 1" "send_generation (sends first_send ! 0) = 1" "generation first_send = 1"
    by (simp_all add: first_send_def handleSendMessage_def sendChat_def Let_def DEFAULT_CONFIG_def new_chat_def
        sendStreamingChat_def send_begin_def abort_request_def close_previous_def discardPendingStreamUpdates_def
        clear_timer_def isGenerating_def enqueue_def)
qed

text \<open>
  C13: Superseded requests. An event of a source, of a suspended send or of an open request that a later
  request or a stop has superseded changes nothing of the conversation, its queued updates, the buffered
  chunks, the flags and the errors shown; it only leaves the list of what is awaited.
\<close>

theorem superseded_events_ignored:
  assumes "chat_step t s e s'" "stale s e"
  shows "observed s' = observed s"
  using assms by (rule stale_ignored)

theorem superseded_events_ignored_witness:
  "\<exists>e s'. chat_step id (stopGeneration first_send) e s' \<and> observed s' = observed (stopGeneration first_send)"
proof -
  note ok = reachable_ok [OF first_send_state(1)]
  note stop = stop_state [OF ok first_send_state(2)]
  have gen: "generation (stopGeneration first_send) = 2" "sends (stopGeneration first_send) = sends first_send"
    using first_send_state(6) unfolding stop(1) by simp_all
  have "chat_step id (stopGeneration first_send) (Headers_event 0 Headers_ok False)
      (send_resume id 0 Headers_ok False (stopGeneration first_send))"
    by (rule Headers) (simp add: gen first_send_state)
  moreover have "stale (stopGeneration first_send) (Headers_event 0 Headers_ok False)"
    by (simp add: gen first_send_state)
  ultimately show ?thesis using superseded_events_ignored by blast
qed

text \<open>
  C14: No spinner without a request. While the page is open, it shows a generation exactly while a send
  waits for its headers, a source streams or a request is open, and never two of these are current at once; chunks
  still buffered have their timer set; and one event of the environment can always end the generation.
\<close>

theorem generation_has_cause:
  assumes "reachable t s" "mounted s"
  shows "(isGenerating s = (current_send s \<or> activeSource s \<noteq> None \<or> current_request s))
     \<and> \<not> (current_send s \<and> activeSource s \<noteq> None) \<and> \<not> (current_send s \<and> current_request s)
     \<and> \<not> (activeSource s \<noteq> None \<and> current_request s)
     \<and> (buffered s \<longrightarrow> timer s = Some (requestGeneration s))
     \<and> (isGenerating s \<longrightarrow> (\<exists>e s'. is_environment e \<and> chat_step t s e s' \<and> \<not> isGenerating s'))"
proof -
  note ok = reachable_ok [OF assms(1)]
  note cause = one_cause [OF ok assms(2)]
  from cause(1-5) generation_ends [OF ok assms(2)] show ?thesis by (intro conjI impI) assumption+
qed

theorem generation_has_cause_witness:
  "\<exists>e s'. is_environment e \<and> chat_step id first_send e s' \<and> \<not> isGenerating s'"
  using generation_has_cause [OF first_send_state(1, 2)] first_send_state(3) by blast

text \<open>
  C34: Stopping. After a stop and the next render no generation runs, the last message is no answer left
  pending, and nothing that the environment still delivers changes the conversation again.
\<close>

theorem stop_settles:
  assumes "reachable t s" "mounted s"
    and "chat_run t (render now (stopGeneration s)) es s'" "\<forall>e \<in> set es. is_environment e"
  shows "conversation s' = conversation (render now (stopGeneration s)) \<and> \<not> isGenerating s'
     \<and> (conversation s' = [] \<or> \<not> isPendingAssistantMessage (last (conversation s')))"
proof -
  note ok = reachable_ok [OF assms(1)]
  note stop = stop_render [OF ok assms(2), of now]
  have "chat_ok (render now (stopGeneration s))" using ok_render ok_stop [OF ok assms(2)] by blast
  from idle_run [OF assms(3) this stop(4, 3, 2) assms(4)] stop(1) show ?thesis by simp
qed

theorem stop_settles_witness:
  "\<exists>s'. chat_run id (render (Fin 0) (stopGeneration first_send)) [Render (Fin 5)] s' \<and> \<not> isGenerating s'
     \<and> conversation s' = conversation (render (Fin 0) (stopGeneration first_send))"
proof -
  have run: "chat_run id (render (Fin 0) (stopGeneration first_send)) [Render (Fin 5)]
      (render (Fin 5) (render (Fin 0) (stopGeneration first_send)))"
    by (meson Render run_Cons run_Nil)
  from stop_settles [OF first_send_state(1, 2) run] run show ?thesis by auto
qed

section \<open>What the stop and the bounds lose\<close>

text \<open>
  The chunks a stop flushes carry the generation it ends; when the queue runs, after the stop, they are
  skipped.
\<close>

lemma stop_drops_buffer:
  assumes "chat_ok s" "mounted s" "updates s = []"
  shows "conversation (render now (stopGeneration s))
     = apply_update now (Suc (requestGeneration s)) (Halt_answer (Suc (requestGeneration s))) (conversation s)"
proof -
  note stop = stop_state [OF assms(1, 2)]
  have fields: "requestGeneration (stopGeneration s) = Suc (requestGeneration s)"
    "conversation (stopGeneration s) = conversation s"
    "updates (stopGeneration s) = updates (drained s) @ [Halt_answer (Suc (requestGeneration s))]"
    using stop(2, 6) by (simp_all add: stop(1) supersedes_def)
  have "updates (drained s) = (if buffered s
      then [Flush_chunks (requestGeneration s) (pendingReasoning s) (pendingContent s)] else [])"
    using assms(3) by (simp add: drained_def)
  with fields show ?thesis by (simp add: render_def apply_updates_def)
qed

end
