(* ===== verification/ChatUpdaters.thy ===== *)
theory ChatUpdaters
  imports ChatRuntime
begin

text \<open>
  The contract of the functions given to \<open>updateLastAssistantMessage\<close>: they change an answer in place, with
  its key and its sender. Whatever keeps it leaves the keys, the senders and the earlier messages of a
  conversation as they are; chunks, completions, failures and responses are shown to keep it.
\<close>

lemma update_last_snoc:
  "updateLastAssistantMessage [] f = []"
  "updateLastAssistantMessage (ms @ [m]) f = (if sender m = Assistant_role then ms @ [f m] else ms @ [m])"
  by (simp_all add: updateLastAssistantMessage_def)

locale answer_updater =
  fixes updater :: "message \<Rightarrow> message"
  assumes updater_key: "key (updater m) = key m"
    and updater_sender: "sender (updater m) = sender m"
begin

lemma keys_kept: "map key (updateLastAssistantMessage ms updater) = map key ms"
  by (cases ms rule: rev_cases) (simp_all add: update_last_snoc updater_key)

lemma senders_kept: "map sender (updateLastAssistantMessage ms updater) = map sender ms"
  by (cases ms rule: rev_cases) (simp_all add: update_last_snoc updater_sender)

lemma earlier_kept: "butlast (updateLastAssistantMessage ms updater) = butlast ms"
  by (cases ms rule: rev_cases) (simp_all add: update_last_snoc)

end

text \<open>Two of them in a row are one.\<close>

locale answer_updater_pair = first: answer_updater f + second: answer_updater g
  for f g :: "message \<Rightarrow> message"

sublocale answer_updater_pair \<subseteq> both: answer_updater "\<lambda>m. g (f m)"
  by unfold_locales (simp_all add: first.updater_key first.updater_sender second.updater_key second.updater_sender)

section \<open>The updaters of the chat\<close>

lemma process_fields [simp]:
  "key (processStreamingContent now m c) = key m" "sender (processStreamingContent now m c) = sender m"
  by (simp_all add: processStreamingContent_def Let_def)

lemma finalized_fields [simp]:
  "key (finalizeMessage now m r) = key m" "sender (finalizeMessage now m r) = sender m"
  by (simp_all add: finalizeMessage_def Let_def)

interpretation chunk: answer_updater "\<lambda>m. apply_chunk_if now type c m" for now type c
  by unfold_locales (auto simp: apply_chunk_if_def applyStreamingChunk_def Let_def split: chunk_type.split)

interpretation chunks: answer_updater_pair "apply_chunk_if now type1 c1" "apply_chunk_if now type2 c2"
  for now type1 c1 type2 c2
  by (simp only: answer_updater_pair_def chunk.answer_updater_axioms conj_absorb simp_thms)

interpretation completion: answer_updater
  "\<lambda>m. if isAssistantMessageFinal m then m else completeAssistantMessage now m" for now
  by unfold_locales (auto simp: completeAssistantMessage_def)

interpretation halt: answer_updater
  "\<lambda>m. if isAssistantMessagePending m then completeAssistantMessage now m else m" for now
  by unfold_locales (auto simp: completeAssistantMessage_def)

interpretation response: answer_updater "\<lambda>m. coalesce (applyChatCompletionResponse now m r) m" for now r
  by unfold_locales
    (cases "first_choice r"; simp add: applyChatCompletionResponse_def applyChatCompletionChoice_def)+

interpretation failure: answer_updater
  "\<lambda>m. completeAssistantTiming now ((updateCurrentVersionContent m body)
     \<lparr>status := Some Error_status, isReasoningStreaming := Some False, errorCode := code\<rparr>)" for now body code
  by unfold_locales simp_all

text \<open>Every update but those of the user keeps the keys of the conversation.\<close>

fun user_update :: "update \<Rightarrow> bool" where
  "user_update (Set_messages _) = True"
| "user_update (Remove_message _) = True"
| "user_update _ = False"

lemma apply_update_keys: "\<not> user_update u \<Longrightarrow> map key (apply_update now current u ms) = map key ms"
  by (cases u)
    (simp_all add: chunks.both.keys_kept completion.keys_kept halt.keys_kept response.keys_kept failure.keys_kept
      updateAssistantMessageWithError_def)

lemma apply_updates_keys:
  "\<forall>u \<in> set us. \<not> user_update u \<Longrightarrow> map key (apply_updates now current us ms) = map key ms"
  by (induction us arbitrary: ms) (simp_all add: apply_updates_def apply_update_keys)

lemma apply_update_earlier: "\<not> user_update u \<Longrightarrow> butlast (apply_update now current u ms) = butlast ms"
  by (cases u)
    (simp_all add: chunks.both.earlier_kept completion.earlier_kept halt.earlier_kept response.earlier_kept
      failure.earlier_kept updateAssistantMessageWithError_def)

end
