(* ===== verification/ChatState.thy ===== *)
theory ChatState
  imports ChatSettings
begin

text \<open>
  The state hook of the playground (\<open>hooks/use-playground-state.ts\<close>): configuration and messages with their
  automatic saves. Messages are loaded by a timer after the first render and saved by a timer that every
  change starts anew; leaving the page saves what the timer still held. An updater of React runs when it is
  queued here; \<open>ChatRuntime\<close> keeps the queue.
\<close>

record playground =
  pg_config :: config
  pg_enabled :: parameter_enabled
  pg_messages :: "message list"
  isLoadingMessages :: bool
  messagesSaveTimer :: bool
  latestMessages :: "message list"
  hasLoadedMessages :: bool
  load_cancelled :: bool
  pg_storage :: local_storage

definition new_playground :: "local_storage \<Rightarrow> playground" where
  "new_playground storage =
     \<lparr>pg_config = getInitialPlaygroundConfig storage, pg_enabled = getInitialParameterEnabled storage,
      pg_messages = [], isLoadingMessages = True, messagesSaveTimer = False, latestMessages = [],
      hasLoadedMessages = False, load_cancelled = False, pg_storage = storage\<rparr>"

definition persistMessages :: "message list \<Rightarrow> playground \<Rightarrow> playground" where
  "persistMessages messagesToSave s =
     (let s1 = s\<lparr>latestMessages := messagesToSave\<rparr>
      in if \<not> hasLoadedMessages s1 then s1 else s1\<lparr>messagesSaveTimer := True\<rparr>)"

text \<open>The timers of the save and of the load.\<close>

definition save_timer_fires :: "(local_storage \<Rightarrow> bool) \<Rightarrow> playground \<Rightarrow> playground" where
  "save_timer_fires fits s =
     (if messagesSaveTimer s
      then s\<lparr>messagesSaveTimer := False, pg_storage := saveMessages fits (pg_storage s) (latestMessages s)\<rparr>
      else s)"

definition load_timer_fires ::
  "(jstr \<Rightarrow> jstr) \<Rightarrow> (local_storage \<Rightarrow> bool) \<Rightarrow> jsnum \<Rightarrow> playground \<Rightarrow> playground" where
  "load_timer_fires t fits now s =
     (let (loaded, storage) = loadMessages t fits now (pg_storage s);
          loadedMessages = coalesce loaded [];
          s1 = s\<lparr>pg_storage := storage\<rparr>
      in if load_cancelled s then s1
         else s1\<lparr>latestMessages := loadedMessages, hasLoadedMessages := True,
                 pg_messages := loadedMessages, isLoadingMessages := False\<rparr>)"

text \<open>The clean-up of both effects.\<close>

definition leave_playground :: "(local_storage \<Rightarrow> bool) \<Rightarrow> playground \<Rightarrow> playground" where
  "leave_playground fits s =
     (let s1 = s\<lparr>load_cancelled := True\<rparr>
      in if messagesSaveTimer s1
         then s1\<lparr>messagesSaveTimer := False, pg_storage := saveMessages fits (pg_storage s1) (latestMessages s1)\<rparr>
         else s1)"

definition updateConfig :: "(local_storage \<Rightarrow> bool) \<Rightarrow> (config \<Rightarrow> config) \<Rightarrow> playground \<Rightarrow> playground" where
  "updateConfig fits change s =
     (let updated = change (pg_config s)
      in s\<lparr>pg_config := updated, pg_storage := saveConfig fits (pg_storage s) updated\<rparr>)"

definition updateParameterEnabled ::
  "(local_storage \<Rightarrow> bool) \<Rightarrow> (parameter_enabled \<Rightarrow> parameter_enabled) \<Rightarrow> playground \<Rightarrow> playground" where
  "updateParameterEnabled fits change s =
     (let updated = change (pg_enabled s)
      in s\<lparr>pg_enabled := updated, pg_storage := saveParameterEnabled fits (pg_storage s) updated\<rparr>)"

definition updateMessages :: "(message list \<Rightarrow> message list) \<Rightarrow> playground \<Rightarrow> playground" where
  "updateMessages updater s =
     (let newMessages = updater (pg_messages s)
      in (persistMessages newMessages s)\<lparr>pg_messages := newMessages\<rparr>)"

definition clearMessages :: "playground \<Rightarrow> playground" where
  "clearMessages s = updateMessages (\<lambda>_. []) s"

definition resetConfig :: "(local_storage \<Rightarrow> bool) \<Rightarrow> playground \<Rightarrow> playground" where
  "resetConfig fits s =
     s\<lparr>pg_config := DEFAULT_CONFIG, pg_enabled := DEFAULT_PARAMETER_ENABLED,
       pg_storage := saveParameterEnabled fits (saveConfig fits (pg_storage s) DEFAULT_CONFIG)
         DEFAULT_PARAMETER_ENABLED\<rparr>"

section \<open>Nothing is saved before the load, nothing is lost after it\<close>

text \<open>
  Once the messages are loaded, the last ones shown are the ones a save would write; before that no save is
  due.
\<close>

definition playground_ok :: "playground \<Rightarrow> bool" where
  "playground_ok s \<longleftrightarrow>
     latestMessages s = pg_messages s \<and> (messagesSaveTimer s \<longrightarrow> hasLoadedMessages s)
     \<and> (hasLoadedMessages s \<longleftrightarrow> \<not> isLoadingMessages s)"

lemma playground_new: "playground_ok (new_playground storage)"
  by (simp add: playground_ok_def new_playground_def)

lemma playground_steps [invs]:
  assumes "playground_ok s"
  shows "playground_ok (updateMessages f s)" "playground_ok (clearMessages s)"
    "playground_ok (save_timer_fires fits s)" "playground_ok (load_timer_fires t fits now s)"
    "playground_ok (leave_playground fits s)" "playground_ok (updateConfig fits change s)"
    "playground_ok (updateParameterEnabled fits change' s)" "playground_ok (resetConfig fits s)"
  using assms
  by (auto simp: playground_ok_def updateMessages_def clearMessages_def persistMessages_def save_timer_fires_def
      load_timer_fires_def leave_playground_def updateConfig_def updateParameterEnabled_def resetConfig_def Let_def
      split: prod.split)

lemma leave_saves_last_change:
  assumes "hasLoadedMessages s"
  shows "pg_storage (leave_playground fits (updateMessages f s)) = saveMessages fits (pg_storage s) (f (pg_messages s))"
    "pg_storage (save_timer_fires fits (updateMessages f s)) = saveMessages fits (pg_storage s) (f (pg_messages s))"
  using assms
  by (simp_all add: updateMessages_def persistMessages_def leave_playground_def save_timer_fires_def Let_def)

lemma no_save_before_load:
  assumes "playground_ok s" "isLoadingMessages s"
  shows "pg_storage (leave_playground fits (updateMessages f s)) = pg_storage s"
  using assms
  by (auto simp: playground_ok_def updateMessages_def persistMessages_def leave_playground_def Let_def)

text \<open>A reset is read back as the defaults.\<close>

lemma reset_config_text:
  "fits ((pg_storage s)(CONFIG_KEY := Some (stored_envelope (json_of_config DEFAULT_CONFIG))))
    \<Longrightarrow> saveConfig fits (pg_storage s) DEFAULT_CONFIG
       = (pg_storage s)(CONFIG_KEY := Some (stored_envelope (json_of_config DEFAULT_CONFIG)))"
proof -
  have "isFinite (fl False (7 / 10))" by code_simp
  then have "finite_config DEFAULT_CONFIG" by (simp add: finite_config_def DEFAULT_CONFIG_def storable_number_def)
  with config_read_back [of DEFAULT_CONFIG] have "playgroundConfigSchema (json_of_config DEFAULT_CONFIG) \<noteq> None"
    by auto
  moreover assume "fits ((pg_storage s)(CONFIG_KEY := Some (stored_envelope (json_of_config DEFAULT_CONFIG))))"
  ultimately show ?thesis by (auto simp: saveConfig_def setItem_def split: option.split)
qed

end
