(* ===== verification/ChatRoundTrip.thy ===== *)
theory ChatRoundTrip
  imports ChatLoading JsonRoundTrip
begin

text \<open>
  What the playground saves is what its next load starts from: the text of the stored envelope is parsed
  to a value the schemas read the saved messages from.
\<close>

section \<open>Readers and what parsing leaves out\<close>

definition absent_or_readable :: "jsvalue \<Rightarrow> bool" where
  "absent_or_readable v \<longleftrightarrow> v = JUndefined \<or> json_readable v"

lemma read_property: "json_readable v \<Longrightarrow> absent_or_readable (get_prop v k)"
  by (cases v) (auto simp: absent_or_readable_def list_all_iff split: option.split dest: map_of_SomeD)

lemma drop_property: "json_readable v \<Longrightarrow> get_prop (drop_undefined v) k = drop_undefined (get_prop v k)"
  by (cases v) (simp_all add: get_prop_drop del: drop_undefined.simps get_prop.simps, simp_all)

lemma drop_atoms [simp]:
  "as_string (drop_undefined v) = as_string v" "as_number (drop_undefined v) = as_number v"
  "as_bool (drop_undefined v) = as_bool v" "role_of (drop_undefined v) = role_of v"
  "status_of (drop_undefined v) = status_of v" "is_JObj (drop_undefined v) = is_JObj v"
  "drop_undefined v = JNull \<longleftrightarrow> v = JNull"
  by (cases v; simp)+

text \<open>A reader that does not tell a value from what is read back of it.\<close>

definition stable_reader :: "(jsvalue \<Rightarrow> 'a option) \<Rightarrow> bool" where
  "stable_reader f \<longleftrightarrow> (\<forall>v. absent_or_readable v \<longrightarrow> f (drop_undefined v) = f v)"

lemma stable_readers [intro, simp]:
  "stable_reader as_string" "stable_reader as_number" "stable_reader as_bool" "stable_reader role_of"
  "stable_reader status_of"
  by (simp_all add: stable_reader_def)

lemma stable_optional [intro, simp]: "stable_reader f \<Longrightarrow> stable_reader (optional f)"
  by (simp add: stable_reader_def optional_def)

lemma stable_nullable [intro, simp]: "stable_reader f \<Longrightarrow> stable_reader (nullable f)"
  by (simp add: stable_reader_def nullable_def)

lemma stable_list [intro, simp]: "stable_reader f \<Longrightarrow> stable_reader (as_list f)"
  unfolding stable_reader_def
proof (intro allI impI)
  fix v assume f: "\<forall>v. absent_or_readable v \<longrightarrow> f (drop_undefined v) = f v" and "absent_or_readable v"
  then show "as_list f (drop_undefined v) = as_list f v"
    by (cases v) (auto simp: absent_or_readable_def list_all_iff cong: map_cong)
qed

lemma stable_nonempty [intro, simp]: "stable_reader f \<Longrightarrow> stable_reader (\<lambda>w. at_least_one (f w))"
  by (simp add: stable_reader_def)

lemma read_field_stable:
  "json_readable v \<Longrightarrow> stable_reader f \<Longrightarrow> read_field (drop_undefined v) name f k = read_field v name f k"
  using read_property [of v "js name"] by (simp add: read_field_def drop_property stable_reader_def)

lemma stable_object:
  "(\<And>v. json_readable v \<Longrightarrow> is_JObj v \<Longrightarrow> f (drop_undefined v) = f v) \<Longrightarrow>
   stable_reader (\<lambda>v. if \<not> is_JObj v then None else f v)"
  by (auto simp: stable_reader_def absent_or_readable_def)

lemma stable_version [intro, simp]: "stable_reader messageVersionSchema"
  unfolding messageVersionSchema_def by (rule stable_object) (simp add: read_field_stable)

lemma stable_source [intro, simp]: "stable_reader sourceSchema"
  unfolding sourceSchema_def by (rule stable_object) (simp add: read_field_stable)

lemma stable_reasoning [intro, simp]: "stable_reader reasoningSchema"
  unfolding reasoningSchema_def by (rule stable_object) (simp add: read_field_stable)

lemma stable_message [intro, simp]: "stable_reader messageSchema"
  unfolding messageSchema_def by (rule stable_object) (simp add: read_field_stable)

section \<open>Messages that are written without loss\<close>

definition readable_option :: "jsnum option \<Rightarrow> bool" where
  "readable_option x \<longleftrightarrow> (case x of None \<Rightarrow> True | Some n \<Rightarrow> readable_number n)"

definition readable_reasoning :: "reasoning_state \<Rightarrow> bool" where
  "readable_reasoning r \<longleftrightarrow> code_units (reasoning_content r) \<and> readable_number (reasoning_duration r)
     \<and> readable_option (reasoning_startedAt r) \<and> readable_option (reasoning_completedAt r)
     \<and> readable_option (reasoning_durationMs r)"

definition readable_message :: "message \<Rightarrow> bool" where
  "readable_message m \<longleftrightarrow> code_units (key m)
     \<and> versions m \<noteq> [] \<and> list_all (\<lambda>v. code_units (version_id v) \<and> code_units (version_content v)) (versions m)
     \<and> readable_option (createdAt m) \<and> readable_option (startedAt m)
     \<and> readable_option (completedAt m) \<and> readable_option (durationMs m)
     \<and> (case msg_sources m of None \<Rightarrow> True | Some ss \<Rightarrow> list_all (\<lambda>s. code_units (fst s) \<and> code_units (snd s)) ss)
     \<and> (case reasoning m of None \<Rightarrow> True | Some r \<Rightarrow> readable_reasoning r)
     \<and> (case errorCode m of Some (Some c) \<Rightarrow> code_units c | _ \<Rightarrow> True)"

lemma readable_option_absent: "readable_option x \<Longrightarrow> x = None \<or> json_readable (of_optional JNum x)"
  by (cases x) (simp_all add: readable_option_def)

lemma readable_storable: "readable_option x \<Longrightarrow> storable_number x"
  by (cases x) (auto simp: readable_option_def storable_number_def intro: readable_finite)

lemma readable_message_storable: "readable_message m \<Longrightarrow> storable m"
  by (auto simp: readable_message_def storable_def readable_reasoning_def
      intro: readable_storable readable_finite split: option.splits)

lemma json_of_version_readable: "code_units (version_id v) \<Longrightarrow> code_units (version_content v) \<Longrightarrow> json_readable (json_of_version v)"
  by (simp add: json_of_version_def)

lemma json_of_source_readable: "code_units (fst s) \<Longrightarrow> code_units (snd s) \<Longrightarrow> json_readable (json_of_source s)"
  by (simp add: json_of_source_def)

lemma json_of_reasoning_readable: "readable_reasoning r \<Longrightarrow> json_readable (json_of_reasoning r)"
  by (simp add: json_of_reasoning_def readable_reasoning_def readable_option_absent)

lemma role_text_units [simp]: "code_units (role_text r)"
  by (cases r) simp_all

lemma status_text_units [simp]: "code_units (status_text r)"
  by (cases r) simp_all

lemma json_of_message_readable: "readable_message m \<Longrightarrow> json_readable (json_of_message m)"
proof -
  assume m: "readable_message m"
  have "json_readable (JArr (map json_of_version (versions m)))"
    using m by (auto simp: readable_message_def list_all_iff intro: json_of_version_readable)
  moreover have "msg_sources m = None
      \<or> json_readable (of_optional (\<lambda>ss. JArr (map json_of_source ss)) (msg_sources m))"
    using m by (cases "msg_sources m") (auto simp: readable_message_def list_all_iff intro: json_of_source_readable)
  moreover have "reasoning m = None
      \<or> json_readable (of_optional json_of_reasoning (reasoning m))"
    using m by (cases "reasoning m") (auto simp: readable_message_def intro: json_of_reasoning_readable)
  moreover have "b = None \<or> json_readable (of_optional JBool b)" for b
    by (cases b) simp_all
  moreover have "status m = None
      \<or> json_readable (of_optional (\<lambda>st. JStr (status_text st)) (status m))"
    by (cases "status m") simp_all
  moreover have "errorCode m = None
      \<or> json_readable (of_optional (of_nullable JStr) (errorCode m))"
    using m by (cases "errorCode m"; cases "the (errorCode m)") (auto simp: readable_message_def)
  moreover have "json_of_reasoning r \<noteq> JUndefined" "of_nullable JStr c \<noteq> JUndefined" for r c
    by (simp add: json_of_reasoning_def) (cases c; simp)
  ultimately show ?thesis
    using m unfolding json_of_message_def readable_message_def
    by (simp add: readable_option_absent)
qed

section \<open>The round trip\<close>

text \<open>The text that is stored of messages.\<close>

definition messages_text :: "message list \<Rightarrow> jstr" where
  "messages_text ms = stored_envelope (JArr (map json_of_message (trimMessages ms)))"

lemma trimmed_messages: "m \<in> set (trimMessages ms) \<Longrightarrow> m \<in> set ms"
  by (auto simp: trimMessages_def dest: in_set_dropD split: if_splits)

lemma schema_of_messages:
  "\<forall>m \<in> set ms. storable m \<Longrightarrow> messagesSchema (JArr (map json_of_message ms)) = Some ms"
  unfolding messagesSchema_def by (rule as_list_read_back) (simp add: message_read_back)

lemma envelope_parsed:
  assumes "\<forall>m \<in> set ms. readable_message m"
  shows "\<exists>v. JSON_parse (messages_text ms) = Some v \<and> messagesSchema (unwrapStoredValue v) = Some (trimMessages ms)"
proof -
  let ?data = "JArr (map json_of_message (trimMessages ms))"
  let ?v = "JObj [(js ''version'', JNum (Fin 1)), (js ''data'', ?data)]"
  have good: "\<forall>m \<in> set (trimMessages ms). readable_message m" using assms trimmed_messages by blast
  then have data: "json_readable ?data" by (auto simp: list_all_iff intro: json_of_message_readable)
  have "readable_number (Fin 1)" using int_readable [of 1] by simp
  with data have "json_readable ?v" by simp
  from JSON_round_trip [OF this] have parsed: "JSON_parse (messages_text ms) = Some (drop_undefined ?v)"
    by (simp only: messages_text_def stored_envelope_def)
  have "unwrapStoredValue (drop_undefined ?v) = drop_undefined ?data"
    by (simp add: unwrapStoredValue_def hasOwn_def)
  moreover have "stable_reader messagesSchema"
    using stable_list [OF stable_message] by (simp add: stable_reader_def messagesSchema_def)
  then have "messagesSchema (drop_undefined ?data) = messagesSchema ?data"
    using data unfolding stable_reader_def absent_or_readable_def by blast
  moreover have "messagesSchema ?data = Some (trimMessages ms)"
    using good by (intro schema_of_messages) (auto intro: readable_message_storable)
  ultimately show ?thesis using parsed by metis
qed

text \<open>
  C17: Any conversation that is saved survives the store: where the browser accepts the write and the text
  keeps to the bound of a load, the next load parses that text and starts from exactly the messages that
  were saved, the last hundred of the conversation, whatever characters, times and reasoning they hold.
\<close>

theorem conversation_survives_storage:
  assumes readable: "\<forall>m \<in> set ms. readable_message m"
    and accepted: "fits (storage(MESSAGES_KEY := Some (messages_text ms)))"
    and bounded: "length (messages_text ms) \<le> MAX_STORED_MESSAGES_BYTES"
  shows "stored_messages (saveMessages fits storage ms) = Some (trimMessages ms)
    \<and> fst (loadMessages t fits now (saveMessages fits storage ms)) = Some (load_pipeline t now (trimMessages ms))"
proof -
  have "\<forall>m \<in> set (trimMessages ms). storable m"
    using readable trimmed_messages readable_message_storable by blast
  then have saved: "saveMessages fits storage ms = storage(MESSAGES_KEY := Some (messages_text ms))"
    using accepted by (simp add: saveMessages_def schema_of_messages setItem_def messages_text_def)
  obtain v where "JSON_parse (messages_text ms) = Some v" "messagesSchema (unwrapStoredValue v) = Some (trimMessages ms)"
    using envelope_parsed [OF readable] by blast
  with bounded have stored: "stored_messages (saveMessages fits storage ms) = Some (trimMessages ms)"
    by (simp add: saved stored_messages_def)
  with loadMessages_Some [of t fits now "saveMessages fits storage ms" "load_pipeline t now (trimMessages ms)"]
  show ?thesis by (metis fst_conv)
qed

definition sample_message :: message where
  "sample_message =
     \<lparr>key = js ''m1'', sender = User_role, versions = [\<lparr>version_id = js ''v1'', version_content = [34, 92, 10, 55357, 56832]\<rparr>],
      createdAt = Some (Fin 1700000000000), startedAt = None, completedAt = None, durationMs = None,
      msg_sources = None, reasoning = None, isReasoningStreaming = None, isReasoningComplete = None,
      isContentComplete = Some True, status = Some Complete_status, errorCode = None\<rparr>"

theorem conversation_survives_storage_witness:
  "stored_messages (saveMessages (\<lambda>s. True) Map.empty [sample_message]) = Some [sample_message]"
proof -
  have "readable_number (Fin 1700000000000)" using int_readable [of 1700000000000] by simp
  then have "\<forall>m \<in> set [sample_message]. readable_message m"
    by (simp add: sample_message_def readable_message_def readable_option_def del: readable_number.simps)
      (simp add: code_units_def)
  moreover have "length (messages_text [sample_message]) \<le> 400" by code_simp
  then have "length (messages_text [sample_message]) \<le> MAX_STORED_MESSAGES_BYTES"
    by (simp add: MAX_STORED_MESSAGES_BYTES_def)
  moreover have "trimMessages [sample_message] = [sample_message]"
    by (simp add: trimMessages_def MAX_STORED_MESSAGES_def)
  ultimately show ?thesis
    using conversation_survives_storage [of "[sample_message]" "\<lambda>s. True" Map.empty] by simp
qed

end
