(* ===== verification/Spec2Isabelle.thy ===== *)
theory Spec2Isabelle
  imports BillingProperties DisplayProperties TaskProperties Structure StatusCodes AuthProperties
    SessionTransport ApiClient UpdateTabs UpdateCheck ModelMapping AdvancedCustomProperties
    ChatProperties ChatUpdaters ChatState ChatRoundTrip
begin

text \<open>
  The web client of an AI gateway: a verification of its libraries under \<open>src/web/src\<close>.

  \<^bold>\<open>What the program does.\<close> The gateway charges requests by billing expressions, small programs over
  token counts, usage facts, the request and the time. The client holds its own parser, checker and
  evaluator of these expressions, reads prices and tiers back from them for display, and edits them
  visually. Around this core it keeps the session of the user across tabs, sends requests and presents
  their failures, runs the chat of the playground, parses settings, looks for releases and derives model
  mappings.

  \<^bold>\<open>Foundations.\<close>
  \<^item> \<open>Prelude\<close>: code units and strings as lists of them, trimming, splitting and joining, slices, results as
    sums with \<open>andThen\<close> and \<open>traverse\<close>.
  \<^item> \<open>JsNumber\<close>: numbers as binary64 values with their rounding, NaN, infinities and signed zeros; parsing
    and printing of numerals. \<open>JsValue\<close>: values of unknown type, \<open>typeof\<close>, truthiness, property lookup.
  \<^item> \<open>JsText\<close>: first occurrences of tags, \<open>JSON.parse\<close> on fuel with \<open>json_value_fuel\<close>, \<open>JSON.stringify\<close>.
    \<open>JsDecimal\<close>: the texts of numbers and that they are read back, proved for integers below \<open>2 ^ 53\<close>.
    \<open>JsonRoundTrip\<close>: parsing what was stringified gives the value without its undefined members.
    \<open>JsSchema\<close>: the readers of the validation library.

  \<^bold>\<open>Billing expressions\<close> (\<open>features/pricing/lib/billing-expression\<close>).
  \<^item> \<open>BillingTypes\<close> (\<open>types.ts\<close>): the syntax tree, diagnostics, \<open>visitExpression\<close> with its explicit stack.
  \<^item> \<open>BillingLexer\<close>, \<open>BillingParser\<close>, \<open>BillingCheck\<close>, \<open>BillingCompile\<close> (\<open>parser.ts\<close>): lexemes, the recursive
    parser with fuel, the static types, fixed pricing trees, compilation and its cache.
  \<^item> \<open>BillingRuntime\<close> (\<open>runtime.ts\<close>): the evaluator with its state (depth, matched tier, unit, rules used).
    \<open>BillingSemantics\<close> gives the big-step rules the evaluator refines, \<open>BillingSoundness\<close> the soundness of
    the checker, \<open>BillingService\<close> the outcome of whole requests. \<open>BillingProperties\<close> holds C1 to C5,
    C7 to C9 and C11.
  \<^item> \<open>BillingDisplay\<close> (\<open>display.ts\<close>) and \<open>BillingVisual\<close> (\<open>visual.ts\<close>): tiers read back from an expression, which
    name the tier the evaluation charges, audio and text-only tiers included, and the visual document with its serialization by source patches. \<open>DisplayProperties\<close> holds C16, C18
    and C19.
  \<^item> \<open>TaskDisplay\<close> (\<open>task-display.ts\<close>): symbolic task prices. \<open>TaskProperties\<close> holds C20 and C22.
  \<^item> \<open>Structure\<close> (\<open>structure.ts\<close>): lossless cutting, C23, and unwrapping.

  \<^bold>\<open>Session and requests.\<close>
  \<^item> \<open>AuthStore\<close> (\<open>stores/auth-store.ts\<close>, \<open>lib/auth-session-sync.ts\<close>, \<open>lib/session-hint.ts\<close>): the store, the
    guards of responses, the events between tabs, the hint cookie.
  \<^item> \<open>AuthSession\<close> (\<open>lib/auth-session.ts\<close>): the module around the store, one refresh as steps between its
    suspensions, resolution and headers. \<open>AuthSystem\<close>: the tab as a labelled step relation in which the
    refresh interleaves with logins, rotations, sign-outs, setters, events of other tabs and page loads;
    the locale \<open>refresh_runtime\<close> states what a runtime owes the refresh and is interpreted on the module.
    \<open>AuthRefresh\<close>: invariants, the rank by which a refresh ends, superseded refreshes. \<open>AuthProperties\<close>
    holds C29 to C32 and C35. \<open>SessionTransport\<close>: the channel and the storage events that carry the events
    between tabs, and that both carry them alike.
  \<^item> \<open>HttpClient\<close> (\<open>lib/http-client.ts\<close>): the interceptors and an exchange as they compose, C37. \<open>ApiClient\<close>:
    equal GET requests that share one in flight, C28, and the effects of a rejected request.
  \<^item> \<open>ServerErrors\<close> (\<open>lib/server-error-message.ts\<close>, \<open>lib/handle-server-error.ts\<close>, \<open>lib/query-client.ts\<close>): errors as
    objects in a heap that refer to each other, the walk over their origins, C27, the message they are
    presented with, C24, and the record of what was reported, C21.

  \<^bold>\<open>Playground\<close> (\<open>features/playground\<close>).
  \<^item> \<open>ChatMessages\<close> (\<open>types.ts\<close>, \<open>lib/message\<close>): messages, their versions and timing, think tags.
    \<open>ChatStreaming\<close>: chunks, completion, what is shown, edits of a conversation. \<open>ChatText\<close>: the text that chunks
    add up to. \<open>ChatUpdaters\<close>: the locale \<open>answer_updater\<close> of functions that change an answer in place,
    interpreted on every updater of the chat. \<open>ChatRoundTrip\<close>: saved conversations are loaded again, C17.
  \<^item> \<open>ChatStorage\<close> (\<open>lib/storage\<close>): schemas, bounds, loading and saving; \<open>ChatLoading\<close> says what a load yields.
    \<open>ChatSettings\<close> (\<open>lib/parameters\<close>, \<open>lib/options\<close>, \<open>lib/input\<close>, \<open>lib/streaming/payload-builder.ts\<close>):
    configuration, controls and their ranges, the payload. \<open>ChatState\<close> (\<open>hooks/use-playground-state.ts\<close>).
  \<^item> \<open>ChatRuntime\<close> (\<open>hooks/use-chat-handler.ts\<close>, \<open>hooks/use-stream-request.ts\<close>): requests, buffered chunks and
    the event source as operations on one state. \<open>ChatSystem\<close>: the labelled step relation of user actions,
    callbacks and renders, its invariant \<open>chat_ok\<close>, superseded events, stopping. \<open>ChatProperties\<close> holds C6, C10,
    C12 to C14 and C34.

  \<^bold>\<open>Updates\<close> (\<open>features/system-update\<close>). \<open>SystemUpdate\<close> (\<open>releases.ts\<close>): versions and the latest release, C38 and
  C39, with the locale \<open>comparison\<close> of three-way comparisons. \<open>UpdateStore\<close> (\<open>store.ts\<close>): the stored snapshot and
  the ignored versions with their schemas. \<open>UpdateTabs\<close>: the tabs that share the ignored versions over a
  storage that may refuse access or hold a corrupt text, C33. \<open>UpdateCheck\<close> (\<open>api.ts\<close>,
  \<open>use-system-update.ts\<close>): checks, their history, C36, and the notification.

  \<^bold>\<open>Settings.\<close> \<open>StatusCodes\<close> (\<open>lib/http-status-code-rules.ts\<close>), C25 and C26;
  \<open>ModelMapping\<close> (\<open>features/channels/lib/model-mapping-rules.ts\<close>), C40; \<open>AdvancedCustom\<close> and
  \<open>AdvancedCustomProperties\<close> (\<open>features/channels/lib/advanced-custom.ts\<close>), the routes of custom channels, C15,
  where \<open>new URL\<close> is a parameter.

  \<^bold>\<open>Errors\<close> are values: \<open>thrown + 'a\<close> where the source throws \<open>BillingExpressionError\<close>, \<open>jstr + 'a\<close> for a message,
  options for \<open>null\<close>.

  \<^bold>\<open>Bounds and fuel.\<close> The bounds of the source are kept: depth 128 in the parser, 256 in traversal and
  evaluation, 128 cached compilations and display rows, 20000 visited nodes in a task display, eight requests of
  a refresh. The parser runs on fuel; C7 shows that fuel linear in the source suffices, and compilation
  uses that much. The walk over errors ends by the objects it has not met. \<open>split_loop\<close> is partial, as its loop is for an empty operator; C23 shows that it ends
  otherwise. Every other loop is a total function or a fold.

  \<^bold>\<open>Readings of the source.\<close> Lower-casing concerns ASCII letters. Lists of entries have the order of
  \<open>Object.entries\<close>, for property names that are ordinary (not integer-like and not \<open>__proto__\<close>). Readers of
  compiled expressions use \<open>compile_source\<close>, the cache being transparent by C11. A date is its time value and
  \<open>Intl\<close> is a parameter, \<open>IntlProvider\<close>. Nodes of a parsed tree are pairwise distinct, so the identity of
  nodes is equality. A response of the server is an event with an arbitrary value; the lock manager,
  timers and message transports are events too. A state updater given to React runs at the next render, in
  the order of the queue. The \<open>persist\<close> middleware of the stores writes the part of the state it is given after
  every change and merges what is stored, or \<open>undefined\<close>, when it rehydrates, as its documentation says; a
  text that does not parse leaves the state alone, which \<open>UpdateTabs\<close> models together with a storage that
  refuses its readings and writings, while the snapshot of C36 is stored by a storage that takes it;
  storage events go to the other tabs of the origin in the order of the writes. Errors that are looked at
  have the properties a read gives, inherited ones included. The clock is read once per synchronous operation. Texts in the deltas and errors of
  the chat service are strings where they are present, as its types say.

  \<^bold>\<open>Not modelled.\<close> The Go server, the React components, the generated route tree, the plugins run by the
  server, locale dependent formatting, the form schemas of the channel editor, and the generators and
  pattern based readers of prices over the core; in the playground its components and the setters of the
  option lists; of \<open>react-query\<close>, \<open>axios\<close> and \<open>zustand\<close> what they do by themselves: when a query runs, how a
  request travels, the texts the middleware stores.
\<close>

end
